(* ===== verification/Rounding.thy ===== *)
theory Rounding
  imports Complex_Main "HOL-Library.Log_Nat" "HOL-Library.Word"
begin

text \<open>
  Rounding of rationals to the 53-bit significand of IEEE 754 binary64, to nearest with ties to
  even, with gradual underflow at \<open>2 powi -1074\<close>.

  \<open>rnd\<close> computes with integers only. The facts the arithmetic of \<open>F64\<close> rests on are that
  rounding is monotone (\<open>rnd_mono\<close>), that it fixes every representable value
  (\<open>rnd_repr\<close>), and that its result is representable (\<open>repr_rnd\<close>). The bound
  \<open>2 ^ 1024\<close> at which a result overflows is applied by \<open>F64\<close>.
\<close>

section \<open>Rounding rationals to 53 bits\<close>

text \<open>Nearest integer, ties to even.\<close>

definition round_even :: "rat \<Rightarrow> int" where
  "round_even x =
     (let f = \<lfloor>x\<rfloor>; d = x - of_int f
      in if d < 1/2 then f else if 1/2 < d then f + 1 else if even f then f else f + 1)"

text \<open>The binary exponent of a positive rational: \<open>2 powi ilog2 q \<le> q < 2 powi (ilog2 q + 1)\<close>.\<close>

definition ilog2 :: "rat \<Rightarrow> int" where
  "ilog2 q =
     (let (n, d) = quotient_of q; k = bitlen n - bitlen d
      in if 2 powi k * of_int d \<le> (of_int n :: rat) then k else k - 1)"

definition ulp_exp :: "rat \<Rightarrow> int" where
  "ulp_exp q = max (ilog2 \<bar>q\<bar> - 52) (- 1074)"

definition rnd :: "rat \<Rightarrow> rat" where
  "rnd q = (if q = 0 then 0 else of_int (round_even (q / 2 powi ulp_exp q)) * 2 powi ulp_exp q)"

text \<open>The finite binary64 values, with the overflow bound left out.\<close>

definition repr :: "rat \<Rightarrow> bool" where
  "repr r \<longleftrightarrow> (\<exists>m e. r = of_int m * 2 powi e \<and> \<bar>m\<bar> \<le> 2 ^ 53 \<and> - 1074 \<le> e)"

subsection \<open>Rounding to an integer\<close>

lemma round_even_of_int [simp]: "round_even (of_int k) = k"
  by (simp add: round_even_def)

lemma round_even_ge_floor: "\<lfloor>x\<rfloor> \<le> round_even x"
  by (simp add: round_even_def Let_def)

lemma round_even_le_floor: "round_even x \<le> \<lfloor>x\<rfloor> + 1"
  by (simp add: round_even_def Let_def)

lemma round_even_mono:
  assumes "x \<le> y"
  shows "round_even x \<le> round_even y"
proof (cases "\<lfloor>x\<rfloor> = \<lfloor>y\<rfloor>")
  case True
  have "x - of_int \<lfloor>x\<rfloor> \<le> y - of_int \<lfloor>y\<rfloor>" using assms True by simp
  with True show ?thesis by (auto simp: round_even_def Let_def)
next
  case False
  with assms have "\<lfloor>x\<rfloor> + 1 \<le> \<lfloor>y\<rfloor>" using floor_mono[OF assms] by linarith
  then show ?thesis using round_even_le_floor[of x] round_even_ge_floor[of y] by linarith
qed

lemma floor_minus_rat:
  "\<lfloor>- x\<rfloor> = (if x = of_int \<lfloor>x\<rfloor> then - \<lfloor>x\<rfloor> else - \<lfloor>x\<rfloor> - 1)" for x :: rat
  by (simp add: floor_eq_iff) linarith

lemma round_even_minus: "round_even (- x) = - round_even x"
proof (cases "x = of_int \<lfloor>x\<rfloor>")
  case True
  then obtain k where "x = of_int k" by blast
  then show ?thesis using round_even_of_int[of "- k"] by simp
next
  case False
  define f where "f = \<lfloor>x\<rfloor>"
  define d where "d = x - of_int f"
  have x: "x = of_int f + d" by (simp add: d_def)
  from False have fm: "\<lfloor>- x\<rfloor> = - f - 1" by (simp add: floor_minus_rat f_def)
  have "- x - of_int (- f - 1) = 1 - d" by (simp add: d_def)
  then show ?thesis
    unfolding round_even_def Let_def fm f_def[symmetric] d_def[symmetric]
    by auto
qed

lemma round_even_error: "\<bar>of_int (round_even x) - x\<bar> \<le> 1/2"
proof -
  define d where "d = x - of_int \<lfloor>x\<rfloor>"
  have x: "x = of_int \<lfloor>x\<rfloor> + d" by (simp add: d_def)
  have d: "0 \<le> d" "d < 1" unfolding d_def by linarith+
  consider "d < 1/2" | "1/2 < d" | "d = 1/2" by linarith
  then show ?thesis
  proof cases
    case 1
    then have "round_even x = \<lfloor>x\<rfloor>" by (simp add: round_even_def d_def)
    then show ?thesis using 1 d x by linarith
  next
    case 2
    then have "round_even x = \<lfloor>x\<rfloor> + 1" by (simp add: round_even_def d_def)
    then have "of_int (round_even x) - x = 1 - d" using x by simp
    then show ?thesis using 2 d by simp
  next
    case 3
    then have "of_int (round_even x) - x = - d \<or> of_int (round_even x) - x = 1 - d"
      unfolding round_even_def Let_def d_def by auto
    then show ?thesis using 3 by auto
  qed
qed

subsection \<open>The binary exponent\<close>

lemma powi2_pos [simp]: "0 < (2::rat) powi k"
  by (simp add: zero_less_power_int)

lemma powi2_add: "(2::rat) powi (i + j) = 2 powi i * 2 powi j"
  by (simp add: power_int_add)

lemma powi2_mono: "i \<le> j \<Longrightarrow> (2::rat) powi i \<le> 2 powi j"
  by (simp add: power_int_increasing)

lemma powi2_strict_mono: "i < j \<Longrightarrow> (2::rat) powi i < 2 powi j"
  by (simp add: power_int_strict_increasing)

lemma powi2_less_D: "(2::rat) powi i < 2 powi j \<Longrightarrow> i < j"
  by (meson linorder_not_less powi2_mono)

lemma powi2_nonneg_int: "0 \<le> k \<Longrightarrow> (2::rat) powi k = of_int (2 ^ nat k)"
  by (simp add: power_int_def)

lemma bitlen_rat_bounds:
  assumes "0 < n"
  shows "2 powi (bitlen n - 1) \<le> (of_int n :: rat)" "(of_int n :: rat) < 2 powi bitlen n"
proof -
  have b: "1 \<le> bitlen n" using assms by (simp add: bitlen_ge_iff_power)
  from bitlen_bounds[OF assms] have "2 ^ nat (bitlen n - 1) \<le> n" "n < 2 ^ nat (bitlen n)"
    by simp_all
  then have "(of_int (2 ^ nat (bitlen n - 1)) :: rat) \<le> of_int n"
    "(of_int n :: rat) < of_int (2 ^ nat (bitlen n))"
    by (simp_all only: of_int_le_iff of_int_less_iff)
  then show "2 powi (bitlen n - 1) \<le> (of_int n :: rat)" "(of_int n :: rat) < 2 powi bitlen n"
    using b by (simp_all add: power_int_def)
qed

lemma ilog2_quotient:
  assumes "0 < n" "0 < d"
  defines "k \<equiv> bitlen n - bitlen d"
  shows "2 powi (k - 1) \<le> (of_int n / of_int d :: rat)" "(of_int n / of_int d :: rat) < 2 powi (k + 1)"
proof -
  note bn = bitlen_rat_bounds[OF assms(1)] and bd = bitlen_rat_bounds[OF assms(2)]
  have d: "(0::rat) < of_int d" using assms by simp
  have "2 powi (k - 1) * (of_int d :: rat) \<le> 2 powi (k - 1) * 2 powi bitlen d"
    using bd by (intro mult_left_mono) auto
  also have "\<dots> = 2 powi (bitlen n - 1)" by (simp add: powi2_add[symmetric] k_def)
  also have "\<dots> \<le> of_int n" by (rule bn)
  finally show "2 powi (k - 1) \<le> (of_int n / of_int d :: rat)"
    using d by (simp add: le_divide_eq)
  have "(of_int n :: rat) < 2 powi bitlen n" by (rule bn)
  also have "(2::rat) powi bitlen n = 2 powi (k + 1) * 2 powi (bitlen d - 1)"
    by (simp add: powi2_add[symmetric] k_def)
  also have "\<dots> \<le> 2 powi (k + 1) * of_int d"
    using bd by (intro mult_left_mono) auto
  finally show "(of_int n / of_int d :: rat) < 2 powi (k + 1)"
    using d by (simp add: divide_less_eq)
qed

lemma ilog2_bounds:
  assumes "0 < q"
  shows "2 powi ilog2 q \<le> q" "q < 2 powi (ilog2 q + 1)"
proof -
  obtain n d where nd: "quotient_of q = (n, d)" by (cases "quotient_of q")
  then have d: "0 < d" by (rule quotient_of_denom_pos)
  from nd have q: "q = of_int n / of_int d" by (rule quotient_of_div)
  have n: "0 < n" using assms d unfolding q by (simp add: zero_less_divide_iff)
  define k where "k = bitlen n - bitlen d"
  have il: "ilog2 q = (if 2 powi k * of_int d \<le> (of_int n :: rat) then k else k - 1)"
    by (simp add: ilog2_def nd k_def)
  have cond: "(2 powi k * of_int d \<le> (of_int n :: rat)) = (2 powi k \<le> q)"
    using d by (simp add: q le_divide_eq)
  note bs = ilog2_quotient[OF n d, folded k_def, folded q]
  show "2 powi ilog2 q \<le> q" using bs il cond by auto
  show "q < 2 powi (ilog2 q + 1)" using bs il cond by auto
qed

lemma ilog2_unique:
  assumes "2 powi k \<le> q" "q < 2 powi (k + 1)"
  shows "ilog2 q = k"
proof -
  have "0 < q" using assms(1) powi2_pos[of k] by linarith
  note b = ilog2_bounds[OF this]
  have "(2::rat) powi k < 2 powi (ilog2 q + 1)" using assms(1) b(2) by linarith
  moreover have "(2::rat) powi ilog2 q < 2 powi (k + 1)" using assms(2) b(1) by linarith
  ultimately have "k < ilog2 q + 1" "ilog2 q < k + 1" by (blast dest: powi2_less_D)+
  then show ?thesis by linarith
qed

lemma ilog2_mono:
  assumes "0 < p" "p \<le> q"
  shows "ilog2 p \<le> ilog2 q"
proof -
  have "(2::rat) powi ilog2 p < 2 powi (ilog2 q + 1)"
    using ilog2_bounds(1)[of p] ilog2_bounds(2)[of q] assms by linarith
  then show ?thesis by (auto dest: powi2_less_D)
qed

subsection \<open>The rounding function\<close>

lemma rnd_0 [simp]: "rnd 0 = 0"
  by (simp add: rnd_def)

lemma rnd_minus: "rnd (- q) = - rnd q"
  by (simp add: rnd_def ulp_exp_def round_even_minus)

lemma rnd_nonneg: "0 \<le> q \<Longrightarrow> 0 \<le> rnd q"
  using round_even_mono[of 0 "q / 2 powi ulp_exp q"] round_even_of_int[of 0]
  by (simp add: rnd_def)

lemma ulp_exp_mono: "0 < p \<Longrightarrow> p \<le> q \<Longrightarrow> ulp_exp p \<le> ulp_exp q"
  using ilog2_mono[of p q] by (simp add: ulp_exp_def)

lemma ulp_exp_ge: "- 1074 \<le> ulp_exp q"
  by (simp add: ulp_exp_def)

lemma less_powi_ulp_exp:
  assumes "0 < q"
  shows "q < 2 powi (ulp_exp q + 53)"
proof -
  have "q < 2 powi (ilog2 q + 1)" using assms by (rule ilog2_bounds)
  also have "\<dots> \<le> 2 powi (ulp_exp q + 53)"
    using assms by (intro powi2_mono) (simp add: ulp_exp_def)
  finally show ?thesis .
qed

lemma div_powi_le: "q \<le> of_int k * 2 powi e \<Longrightarrow> q / 2 powi e \<le> of_int k" for q :: rat
  by (simp add: divide_le_eq)

lemma rnd_same_exp_mono:
  assumes "0 < p" "p \<le> q" "ulp_exp p = ulp_exp q"
  shows "rnd p \<le> rnd q"
proof -
  have "p / 2 powi ulp_exp q \<le> q / 2 powi ulp_exp q"
    using assms by (intro divide_right_mono) auto
  then have "round_even (p / 2 powi ulp_exp q) \<le> round_even (q / 2 powi ulp_exp q)"
    by (rule round_even_mono)
  then show ?thesis using assms by (simp add: rnd_def mult_right_mono)
qed

lemma rnd_pos_mono:
  assumes "0 < p" "p \<le> q"
  shows "rnd p \<le> rnd q"
proof (cases "ulp_exp p = ulp_exp q")
  case True
  with assms show ?thesis by (intro rnd_same_exp_mono)
next
  case False
  have q: "0 < q" using assms by simp
  let ?B = "(2::rat) powi (ulp_exp q + 52)"
  from False have lt: "ulp_exp p < ulp_exp q" using ulp_exp_mono[OF assms] by simp
  then have eq: "ulp_exp q = ilog2 q - 52"
    using ulp_exp_ge[of p] q by (auto simp: ulp_exp_def[of q] max_def split: if_splits)
  have Bq: "?B \<le> q" using ilog2_bounds(1)[OF q] by (simp add: eq)
  have "p < 2 powi (ulp_exp p + 53)" using assms(1) by (rule less_powi_ulp_exp)
  also have "\<dots> \<le> ?B" using lt by (intro powi2_mono) simp
  finally have pB: "p \<le> ?B" by simp
  define k where "k = (2::int) ^ nat (ulp_exp q + 52 - ulp_exp p)"
  have B1: "?B = of_int k * 2 powi ulp_exp p"
    unfolding k_def using lt by (simp add: powi2_nonneg_int[symmetric] powi2_add[symmetric] del: of_int_power)
  have "p / 2 powi ulp_exp p \<le> of_int k" using pB unfolding B1 by (rule div_powi_le)
  then have "round_even (p / 2 powi ulp_exp p) \<le> k"
    using round_even_mono round_even_of_int by metis
  then have 1: "rnd p \<le> ?B"
    unfolding B1 using assms(1) by (simp add: rnd_def mult_right_mono)
  have B2: "?B = of_int (2 ^ 52) * 2 powi ulp_exp q"
    by (simp add: powi2_add)
  have "of_int (2 ^ 52) \<le> q / 2 powi ulp_exp q"
    using Bq unfolding B2 by (simp add: le_divide_eq)
  then have "2 ^ 52 \<le> round_even (q / 2 powi ulp_exp q)"
    using round_even_mono round_even_of_int by metis
  then have "(of_int (2 ^ 52) :: rat) \<le> of_int (round_even (q / 2 powi ulp_exp q))"
    by (simp only: of_int_le_iff)
  then have 2: "?B \<le> rnd q"
    unfolding B2 using q by (simp add: rnd_def mult_right_mono)
  from 1 2 show ?thesis by linarith
qed

theorem rnd_mono: "p \<le> q \<Longrightarrow> rnd p \<le> rnd q"
proof -
  assume pq: "p \<le> q"
  consider "0 < p" | "p \<le> 0" "0 \<le> q" | "q < 0" by linarith
  then show "rnd p \<le> rnd q"
  proof cases
    case 1
    then show ?thesis using pq by (intro rnd_pos_mono)
  next
    case 2
    then have "0 \<le> rnd q" "0 \<le> rnd (- p)" by (simp_all add: rnd_nonneg)
    then show ?thesis by (simp add: rnd_minus)
  next
    case 3
    then have "rnd (- q) \<le> rnd (- p)" using pq by (intro rnd_pos_mono) auto
    then show ?thesis by (simp add: rnd_minus)
  qed
qed

subsection \<open>Representable values are fixed points\<close>

lemma repr_minus: "repr (- r) = repr r"
proof -
  have "repr (- r)" if "repr r" for r
  proof -
    from that obtain m e where "r = of_int m * 2 powi e" "\<bar>m\<bar> \<le> 2 ^ 53" "- 1074 \<le> e"
      by (auto simp: repr_def)
    then have "- r = of_int (- m) * 2 powi e" "\<bar>- m\<bar> \<le> 2 ^ 53" "- 1074 \<le> e" by simp_all
    then show ?thesis unfolding repr_def by blast
  qed
  from this[of r] this[of "- r"] show ?thesis by auto
qed

lemma rnd_pos_integer:
  assumes "0 < r" "r = of_int k * 2 powi ulp_exp r"
  shows "rnd r = r"
proof -
  have "r / 2 powi ulp_exp r = of_int k"
    by (subst assms(2)) (simp add: powi2_pos less_imp_neq[OF powi2_pos, symmetric])
  then show ?thesis using assms by (simp add: rnd_def)
qed

lemma rnd_repr_pos:
  assumes "0 < r" "repr r"
  shows "rnd r = r"
proof -
  from assms(2) obtain m e where r: "r = of_int m * 2 powi e" and m: "\<bar>m\<bar> \<le> 2 ^ 53"
    and e: "- 1074 \<le> e" by (auto simp: repr_def)
  let ?E = "ulp_exp r"
  show ?thesis
  proof (cases "?E \<le> e")
    case True
    have "r = of_int (m * 2 ^ nat (e - ?E)) * 2 powi ?E"
    proof -
      have "(2::rat) powi e = 2 powi (e - ?E) * 2 powi ?E" by (simp add: powi2_add[symmetric])
      also have "(2::rat) powi (e - ?E) = of_int (2 ^ nat (e - ?E))"
        using True by (intro powi2_nonneg_int) simp
      finally show ?thesis by (subst (1) r) (simp only: of_int_mult mult.assoc)
    qed
    then show ?thesis using assms(1) by (intro rnd_pos_integer)
  next
    case False
    then have E: "?E = ilog2 r - 52" using e assms(1) by (simp add: ulp_exp_def)
    have m0: "0 < m"
      using assms(1) powi2_pos[of e] unfolding r by (auto simp: zero_less_mult_iff simp del: powi2_pos)
    have "2 powi (?E + 52) \<le> r" using ilog2_bounds(1)[OF assms(1)] E by simp
    also have "r \<le> of_int (2 ^ 53) * 2 powi e"
      unfolding r using m m0 by (intro mult_right_mono) (simp_all only: of_int_le_iff, auto)
    also have "\<dots> = 2 powi (e + 53)" by (simp add: powi2_add)
    finally have "?E + 52 \<le> e + 53" by (meson linorder_not_less powi2_strict_mono)
    with False have e1: "?E = e + 1" by simp
    have "(2::rat) powi (?E + 52) = of_int (2 ^ 53) * 2 powi e"
      by (simp add: e1 powi2_add)
    then have "(of_int (2 ^ 53) :: rat) * 2 powi e \<le> of_int m * 2 powi e"
      using \<open>2 powi (?E + 52) \<le> r\<close> r by simp
    then have "(of_int (2 ^ 53) :: rat) \<le> of_int m" by (simp add: mult_le_cancel_right not_le)
    then have "2 ^ 53 \<le> m" by (simp only: of_int_le_iff)
    with m have "m = 2 ^ 53" by simp
    then have "r = of_int (2 ^ 52) * 2 powi ?E"
      unfolding e1 by (subst r) (simp add: powi2_add)
    then show ?thesis using assms(1) by (intro rnd_pos_integer)
  qed
qed

theorem rnd_repr: "repr r \<Longrightarrow> rnd r = r"
proof -
  assume r: "repr r"
  consider "r = 0" | "0 < r" | "0 < - r" by linarith
  then show "rnd r = r"
  proof cases
    case 1
    then show ?thesis by simp
  next
    case 2
    then show ?thesis using r by (rule rnd_repr_pos)
  next
    case 3
    then have "rnd (- r) = - r" using r by (intro rnd_repr_pos) (simp_all add: repr_minus)
    then show ?thesis by (simp add: rnd_minus)
  qed
qed

theorem repr_rnd: "repr (rnd q)"
proof -
  have pos: "repr (rnd q)" if q: "0 < q" for q
  proof -
    let ?m = "round_even (q / 2 powi ulp_exp q)"
    have "q \<le> of_int (2 ^ 53) * 2 powi ulp_exp q"
      using less_powi_ulp_exp[OF q] by (simp add: powi2_add)
    then have "q / 2 powi ulp_exp q \<le> of_int (2 ^ 53)" by (rule div_powi_le)
    then have "?m \<le> 2 ^ 53" using round_even_mono round_even_of_int by metis
    moreover have "0 \<le> ?m"
      using round_even_mono[of 0 "q / 2 powi ulp_exp q"] round_even_of_int[of 0] q by simp
    moreover have "- 1074 \<le> ulp_exp q" by (simp add: ulp_exp_def)
    ultimately show ?thesis using q unfolding repr_def rnd_def by fastforce
  qed
  consider "q = 0" | "0 < q" | "0 < - q" by linarith
  then show ?thesis
  proof cases
    case 1
    have "(0::rat) = of_int 0 * 2 powi 0 \<and> \<bar>0::int\<bar> \<le> 2 ^ 53 \<and> - 1074 \<le> (0::int)" by simp
    then have "repr 0" unfolding repr_def by blast
    with 1 show ?thesis by simp
  next
    case 2
    then show ?thesis by (rule pos)
  next
    case 3
    then have "repr (rnd (- q))" by (rule pos)
    then show ?thesis by (simp add: rnd_minus repr_minus)
  qed
qed

lemma rnd_rnd [simp]: "rnd (rnd q) = rnd q"
  by (rule rnd_repr[OF repr_rnd])

lemma rnd_le: "repr b \<Longrightarrow> q \<le> b \<Longrightarrow> rnd q \<le> b"
  using rnd_mono[of q b] rnd_repr[of b] by simp

lemma rnd_ge: "repr a \<Longrightarrow> a \<le> q \<Longrightarrow> a \<le> rnd q"
  using rnd_mono[of a q] rnd_repr[of a] by simp

lemma repr_of_int:
  assumes "\<bar>k\<bar> \<le> 2 ^ 53"
  shows "repr (of_int k)"
proof -
  have "(of_int k :: rat) = of_int k * 2 powi 0 \<and> \<bar>k\<bar> \<le> 2 ^ 53 \<and> - 1074 \<le> (0::int)"
    using assms by simp
  then show ?thesis unfolding repr_def by blast
qed

lemma repr_0 [simp]: "repr 0" and repr_1 [simp]: "repr 1"
  using repr_of_int[of 0] repr_of_int[of 1] by simp_all

lemma repr_numeral [simp]: "(numeral n :: int) \<le> 2 ^ 53 \<Longrightarrow> repr (numeral n)"
  using repr_of_int[of "numeral n"] by simp

lemma repr_neg_numeral [simp]: "(numeral n :: int) \<le> 2 ^ 53 \<Longrightarrow> repr (- numeral n)"
  by (simp add: repr_minus)

lemma repr_neg_1 [simp]: "repr (- 1)"
  by (simp add: repr_minus)

lemma repr_dyadic:
  assumes "\<bar>m\<bar> \<le> 2 ^ 53" "k \<le> 1074"
  shows "repr (of_int m / 2 ^ k)"
proof -
  have "(of_int m / 2 ^ k :: rat) = of_int m * 2 powi (- int k)"
    by (simp add: power_int_minus divide_inverse)
  moreover have "- 1074 \<le> - int k" using assms(2) by simp
  ultimately show ?thesis unfolding repr_def using assms(1) by blast
qed

lemma repr_pow2: "n \<le> 1024 \<Longrightarrow> repr (2 ^ n)"
proof -
  have "(2 ^ n :: rat) = of_int 1 * 2 powi int n \<and> \<bar>1::int\<bar> \<le> 2 ^ 53 \<and> - 1074 \<le> int n" by simp
  then show ?thesis unfolding repr_def by blast
qed

subsection \<open>The rounding error\<close>

lemma rnd_error_ulp: "\<bar>rnd q - q\<bar> \<le> 2 powi ulp_exp q / 2"
proof (cases "q = 0")
  case False
  define u :: rat where "u = 2 powi ulp_exp q"
  have u: "0 < u" by (simp add: u_def)
  have "rnd q - q = (of_int (round_even (q / u)) - q / u) * u"
    using False u by (simp add: rnd_def u_def left_diff_distrib)
  then have "\<bar>rnd q - q\<bar> = \<bar>of_int (round_even (q / u)) - q / u\<bar> * u"
    using u by (simp add: abs_mult)
  also have "\<dots> \<le> 1 / 2 * u" using u round_even_error by (intro mult_right_mono) auto
  finally show ?thesis by (simp add: u_def)
qed simp

text \<open>Above the subnormal range the relative error is at most \<open>2 ^ -53\<close>.\<close>

lemma rnd_error:
  assumes "\<bar>q\<bar> \<le> M" "2 powi (- 1022) \<le> M"
  shows "\<bar>rnd q - q\<bar> \<le> M / 2 ^ 53"
proof (cases "q = 0")
  case True
  with assms show ?thesis by (simp add: zero_le_divide_iff)
next
  case False
  have "(2::rat) powi ulp_exp q \<le> M / 2 ^ 52"
  proof (cases "ilog2 \<bar>q\<bar> - 52 \<le> - 1074")
    case True
    have "(2::rat) powi (- 1074) * 2 powi 52 = 2 powi (- 1022)"
      by (simp add: powi2_add [symmetric])
    then have "(2::rat) powi (- 1074) * 2 ^ 52 \<le> M" using assms(2) by simp
    then show ?thesis using True by (simp add: ulp_exp_def max_def le_divide_eq)
  next
    case False': False
    have "(2::rat) powi (ilog2 \<bar>q\<bar> - 52) * 2 powi 52 = 2 powi ilog2 \<bar>q\<bar>"
      using powi2_add[of "ilog2 \<bar>q\<bar> - 52" 52] by simp
    also have "\<dots> \<le> \<bar>q\<bar>" using False ilog2_bounds(1)[of "\<bar>q\<bar>"] by simp
    finally have "(2::rat) powi (ilog2 \<bar>q\<bar> - 52) * 2 ^ 52 \<le> M" using assms(1) by simp
    then show ?thesis using False' by (simp add: ulp_exp_def max_def le_divide_eq)
  qed
  moreover have "(2::rat) ^ 53 = 2 * 2 ^ 52" by simp
  ultimately show ?thesis using rnd_error_ulp[of q] by simp
qed

end
