(* ===== verification/F64.thy ===== *)
theory F64
  imports Rounding
begin

text \<open>
  IEEE 754 binary64, the \<open>f64\<close> of Rust.

  Every computation of the trading core is done in \<open>f64\<close>, and many of its guards behave
  differently on NaN, on the infinities and on rounded sums. This theory models that
  arithmetic itself, not an idealisation of it: a value is a finite rational, the
  negative zero, an infinity or NaN, and each operation rounds its exact rational result once
  (\<open>mk\<close>).

  The type also holds rationals that are no binary64 numbers (\<open>Fin 0.1\<close>): a theorem about all
  values of the type covers all doubles. A literal of the source is written \<open>lit 0.35\<close>, the
  double nearest to 0.35. Where Rust leaves the sign of a zero open (\<open>max\<close> and \<open>min\<close> of
  \<open>0.0\<close> and \<open>-0.0\<close>) the model returns the receiver, which is one of the allowed results.

  The predicate \<open>rng a b x\<close> (\<open>x\<close> is finite and lies in [a, b]) is closed under the
  operations by the rules in the collection \<open>rng\<close>; bounds on scores and probabilities of
  the components are derived with them.
\<close>

named_theorems f64_eval \<open>evaluation of closed f64 terms by the simplifier\<close>
named_theorems rng_intros \<open>ranges of f64 expressions\<close>

section \<open>Values and operations\<close>

datatype f64 = Fin rat | NegZero | PInf | NInf | NaN

fun val :: "f64 \<Rightarrow> rat" where
  "val (Fin q) = q"
| "val NegZero = 0"
| "val PInf = 0"
| "val NInf = 0"
| "val NaN = 0"

text \<open>\<open>is_finite\<close> and \<open>is_sign_negative\<close>.\<close>

fun fin :: "f64 \<Rightarrow> bool" where
  "fin (Fin q) = True"
| "fin NegZero = True"
| "fin PInf = False"
| "fin NInf = False"
| "fin NaN = False"

fun signbit :: "f64 \<Rightarrow> bool" where
  "signbit (Fin q) = (q < 0)"
| "signbit NegZero = True"
| "signbit PInf = False"
| "signbit NInf = True"
| "signbit NaN = False"

definition f_inf :: "bool \<Rightarrow> f64" where
  "f_inf s = (if s then NInf else PInf)"

definition f_zero :: "bool \<Rightarrow> f64" where
  "f_zero s = (if s then NegZero else Fin 0)"

text \<open>The magnitude at which a rounded result overflows.\<close>

definition huge :: rat where
  "huge = 2 ^ 1024"

text \<open>Rounding an exact result; \<open>s\<close> is the sign of a result that rounds to zero.\<close>

definition mk :: "bool \<Rightarrow> rat \<Rightarrow> f64" where
  "mk s q = (let r = rnd q in
     if r = 0 then f_zero s
     else if huge \<le> r then PInf
     else if r \<le> - huge then NInf
     else Fin r)"

definition lit :: "rat \<Rightarrow> f64" where
  "lit q = mk False q"

instantiation f64 :: "{plus, minus, uminus, times, inverse, zero, one, ord}"
begin

definition zero_f64 :: f64 where "zero_f64 = Fin 0"

definition one_f64 :: f64 where "one_f64 = Fin 1"

fun uminus_f64 :: "f64 \<Rightarrow> f64" where
  "uminus_f64 (Fin q) = (if q = 0 then NegZero else Fin (- q))"
| "uminus_f64 NegZero = Fin 0"
| "uminus_f64 PInf = NInf"
| "uminus_f64 NInf = PInf"
| "uminus_f64 NaN = NaN"

definition plus_f64 :: "f64 \<Rightarrow> f64 \<Rightarrow> f64" where
  "plus_f64 x y =
     (if x = NaN \<or> y = NaN then NaN
      else if \<not> fin x then (if \<not> fin y \<and> x \<noteq> y then NaN else x)
      else if \<not> fin y then y
      else if x = NegZero \<and> y = NegZero then NegZero
      else mk (val x + val y < 0) (val x + val y))"

definition minus_f64 :: "f64 \<Rightarrow> f64 \<Rightarrow> f64" where
  "minus_f64 x y = x + (- y)"

definition times_f64 :: "f64 \<Rightarrow> f64 \<Rightarrow> f64" where
  "times_f64 x y =
     (let s = (signbit x \<noteq> signbit y) in
      if x = NaN \<or> y = NaN then NaN
      else if fin x \<and> fin y then mk s (val x * val y)
      else if fin x \<and> val x = 0 \<or> fin y \<and> val y = 0 then NaN
      else f_inf s)"

definition divide_f64 :: "f64 \<Rightarrow> f64 \<Rightarrow> f64" where
  "divide_f64 x y =
     (let s = (signbit x \<noteq> signbit y) in
      if x = NaN \<or> y = NaN then NaN
      else if \<not> fin x then (if fin y then f_inf s else NaN)
      else if \<not> fin y then f_zero s
      else if val y = 0 then (if val x = 0 then NaN else f_inf s)
      else mk s (val x / val y))"

definition inverse_f64 :: "f64 \<Rightarrow> f64" where
  "inverse_f64 x = 1 div x"

fun less_eq_f64 :: "f64 \<Rightarrow> f64 \<Rightarrow> bool" where
  "less_eq_f64 NaN _ = False"
| "less_eq_f64 _ NaN = False"
| "less_eq_f64 NInf _ = True"
| "less_eq_f64 _ PInf = True"
| "less_eq_f64 PInf _ = False"
| "less_eq_f64 _ NInf = False"
| "less_eq_f64 x y = (val x \<le> val y)"

definition less_f64 :: "f64 \<Rightarrow> f64 \<Rightarrow> bool" where
  "less_f64 x y \<longleftrightarrow> x \<le> y \<and> \<not> y \<le> x"

instance ..

end

text \<open>The operator \<open>==\<close>: NaN is not equal to itself, and the zeros are equal.\<close>

definition feq :: "f64 \<Rightarrow> f64 \<Rightarrow> bool" where
  "feq x y \<longleftrightarrow> x \<le> y \<and> y \<le> x"

text \<open>The methods of \<open>f64\<close> that the code calls.\<close>

definition f_max :: "f64 \<Rightarrow> f64 \<Rightarrow> f64" where
  "f_max x y = (if x = NaN then y else if y = NaN then x else if x < y then y else x)"

definition f_min :: "f64 \<Rightarrow> f64 \<Rightarrow> f64" where
  "f_min x y = (if x = NaN then y else if y = NaN then x else if y < x then y else x)"

text \<open>\<open>clamp\<close> panics unless \<open>lo \<le> hi\<close>; the callers' bounds are constants or proved ordered.\<close>

definition f_clamp :: "f64 \<Rightarrow> f64 \<Rightarrow> f64 \<Rightarrow> f64" where
  "f_clamp x lo hi = (let y = (if x < lo then lo else x) in if hi < y then hi else y)"

fun f_abs :: "f64 \<Rightarrow> f64" where
  "f_abs (Fin q) = Fin \<bar>q\<bar>"
| "f_abs NegZero = Fin 0"
| "f_abs PInf = PInf"
| "f_abs NInf = PInf"
| "f_abs NaN = NaN"

definition f_signum :: "f64 \<Rightarrow> f64" where
  "f_signum x = (if x = NaN then NaN else if signbit x then Fin (- 1) else Fin 1)"

text \<open>\<open>f64::EPSILON\<close> is \<open>2 ^ -52\<close>.\<close>

definition f_epsilon :: f64 where
  "f_epsilon = Fin (1 / 2 ^ 52)"

text \<open>\<open>round\<close>: half away from zero. The casts \<open>as u64\<close>, \<open>as i64\<close> truncate and saturate.\<close>

definition rat_round_away :: "rat \<Rightarrow> int" where
  "rat_round_away q = (if 0 \<le> q then \<lfloor>q + 1/2\<rfloor> else - \<lfloor>1/2 - q\<rfloor>)"

fun f_round :: "f64 \<Rightarrow> f64" where
  "f_round (Fin q) =
     (if rat_round_away q = 0 then f_zero (q < 0) else mk (q < 0) (of_int (rat_round_away q)))"
| "f_round NegZero = NegZero"
| "f_round PInf = PInf"
| "f_round NInf = NInf"
| "f_round NaN = NaN"

definition rat_trunc :: "rat \<Rightarrow> int" where
  "rat_trunc q = (if 0 \<le> q then \<lfloor>q\<rfloor> else - \<lfloor>- q\<rfloor>)"

definition sat_int :: "int \<Rightarrow> int \<Rightarrow> f64 \<Rightarrow> int" where
  "sat_int lo hi x =
     (case x of Fin q \<Rightarrow> max lo (min hi (rat_trunc q))
      | NegZero \<Rightarrow> 0 | PInf \<Rightarrow> hi | NInf \<Rightarrow> lo | NaN \<Rightarrow> 0)"

definition f_as_u64 :: "f64 \<Rightarrow> 64 word" where
  "f_as_u64 x = word_of_int (sat_int 0 (2 ^ 64 - 1) x)"

definition f_as_i64 :: "f64 \<Rightarrow> int" where
  "f_as_i64 x = sat_int (- (2 ^ 63)) (2 ^ 63 - 1) x"

definition f_of_nat :: "nat \<Rightarrow> f64" where
  "f_of_nat n = mk False (of_nat n)"

definition f_of_int :: "int \<Rightarrow> f64" where
  "f_of_int k = mk False (of_int k)"

definition f_of_word :: "'a::len word \<Rightarrow> f64" where
  "f_of_word w = f_of_nat (unat w)"

text \<open>The fused \<open>x.mul_add(y, z)\<close> rounds once. On NaN, on infinities and on exact zeros it
  agrees with \<open>x * y + z\<close>.\<close>

definition f_mul_add :: "f64 \<Rightarrow> f64 \<Rightarrow> f64 \<Rightarrow> f64" where
  "f_mul_add x y z =
     (if fin x \<and> fin y \<and> fin z \<and> val x * val y + val z \<noteq> 0
      then mk (val x * val y + val z < 0) (val x * val y + val z)
      else x * y + z)"

text \<open>\<open>iter().sum::<f64>()\<close> folds from 0.0.\<close>

definition f_sum :: "f64 list \<Rightarrow> f64" where
  "f_sum xs = foldl (+) 0 xs"

section \<open>Order\<close>

lemma nan_le [simp]: "\<not> NaN \<le> x" "\<not> x \<le> NaN"
  by (cases x; simp)+

lemma nan_less [simp]: "\<not> NaN < x" "\<not> x < NaN"
  by (simp_all add: less_f64_def)

lemma f64_le_refl [simp]: "x \<noteq> NaN \<Longrightarrow> x \<le> x" for x :: f64
  by (cases x) auto

lemma f64_le_trans [trans]: "x \<le> y \<Longrightarrow> y \<le> z \<Longrightarrow> x \<le> z" for x y z :: f64
  by (cases x; cases y; cases z; simp)

lemma f64_le_total: "x \<noteq> NaN \<Longrightarrow> y \<noteq> NaN \<Longrightarrow> x \<le> y \<or> y \<le> x" for x y :: f64
  by (cases x; cases y; auto)

lemma f64_not_less: "x \<noteq> NaN \<Longrightarrow> y \<noteq> NaN \<Longrightarrow> (\<not> x < y) = (y \<le> x)" for x y :: f64
  using f64_le_total[of x y] by (auto simp: less_f64_def)

lemma f64_less_iff_not_le: "x \<noteq> NaN \<Longrightarrow> y \<noteq> NaN \<Longrightarrow> (x < y) = (\<not> y \<le> x)" for x y :: f64
  using f64_not_less[of x y] f64_le_total[of x y] by (auto simp: less_f64_def)

lemma f64_less_irrefl [simp]: "\<not> x < x" for x :: f64
  by (simp add: less_f64_def)

lemma f64_less_imp_le: "x < y \<Longrightarrow> x \<le> y" for x y :: f64
  by (simp add: less_f64_def)

lemma f64_less_le_trans [trans]: "x < y \<Longrightarrow> y \<le> z \<Longrightarrow> x < z" for x y z :: f64
  by (meson f64_le_trans less_f64_def)

lemma f64_le_less_trans [trans]: "x \<le> y \<Longrightarrow> y < z \<Longrightarrow> x < z" for x y z :: f64
  by (meson f64_le_trans less_f64_def)

lemma f64_less_trans [trans]: "x < y \<Longrightarrow> y < z \<Longrightarrow> x < z" for x y z :: f64
  by (meson f64_le_trans less_f64_def)

lemma f64_less_not_sym: "x < y \<Longrightarrow> \<not> y < x" for x y :: f64
  by (simp add: less_f64_def)

lemma f64_le_not_nan: "x \<le> y \<Longrightarrow> x \<noteq> NaN \<and> y \<noteq> NaN" for x y :: f64
  by (cases x; cases y; simp)

lemma f64_less_not_nan: "x < y \<Longrightarrow> x \<noteq> NaN \<and> y \<noteq> NaN" for x y :: f64
  by (rule f64_le_not_nan) (rule f64_less_imp_le)

lemma fin_not_nan [simp]: "fin x \<Longrightarrow> x \<noteq> NaN"
  by auto

lemma fin_le_iff: "fin x \<Longrightarrow> fin y \<Longrightarrow> (x \<le> y) = (val x \<le> val y)"
  by (cases x; cases y; simp)

lemma fin_less_iff: "fin x \<Longrightarrow> fin y \<Longrightarrow> (x < y) = (val x < val y)"
  by (auto simp: less_f64_def fin_le_iff)

lemma fin_between: "fin a \<Longrightarrow> fin b \<Longrightarrow> a \<le> x \<Longrightarrow> x \<le> b \<Longrightarrow> fin x"
  by (cases a; cases b; cases x; simp)

lemma pinf_le [simp]: "(PInf \<le> x) = (x = PInf)" "(x \<le> PInf) = (x \<noteq> NaN)"
  by (cases x; simp)+

lemma ninf_le [simp]: "(NInf \<le> x) = (x \<noteq> NaN)" "(x \<le> NInf) = (x = NInf)"
  by (cases x; simp)+

lemma f64_class: "fin x \<or> x = PInf \<or> x = NInf \<or> x = NaN"
  by (cases x) auto

lemma val_Fin_0 [simp]: "val 0 = 0" "val 1 = 1" "fin 0" "fin 1"
  by (simp_all add: zero_f64_def one_f64_def)

lemma not_nan_0_1 [simp]: "(0::f64) \<noteq> NaN" "(1::f64) \<noteq> NaN"
  by (simp_all add: zero_f64_def one_f64_def)

section \<open>Rounded results\<close>

lemma huge_pos [simp]: "0 < huge" "huge \<noteq> 0" "\<not> huge \<le> 0"
  by (simp_all add: huge_def)

lemma mk_not_nan [simp]: "mk s q \<noteq> NaN"
  by (simp add: mk_def Let_def f_zero_def)

lemma f_zero_simps [simp]: "fin (f_zero s)" "val (f_zero s) = 0" "f_zero s \<noteq> NaN"
  by (simp_all add: f_zero_def)

lemma f_inf_not_nan [simp]: "f_inf s \<noteq> NaN" "\<not> fin (f_inf s)"
  by (simp_all add: f_inf_def)

lemma fin_mk: "fin (mk s q) = (\<bar>rnd q\<bar> < huge)"
  using huge_pos(1) by (auto simp: mk_def Let_def abs_less_iff not_le)

lemma val_mk: "fin (mk s q) \<Longrightarrow> val (mk s q) = rnd q"
  by (auto simp: mk_def Let_def split: if_splits)

lemma repr_val_mk: "repr (val (mk s q))"
  by (simp add: mk_def Let_def repr_rnd)

lemma mk_mono: "p \<le> q \<Longrightarrow> mk s p \<le> mk t q"
  using rnd_mono[of p q] huge_pos(1)
  by (auto simp: mk_def Let_def f_zero_def simp del: huge_pos)

text \<open>Representable bounds of magnitude below the overflow threshold.\<close>

definition bound :: "rat \<Rightarrow> bool" where
  "bound r \<longleftrightarrow> repr r \<and> \<bar>r\<bar> < huge"

lemma pow_less_huge: "n < 1024 \<Longrightarrow> 2 ^ n < huge"
  unfolding huge_def by (rule power_strict_increasing) simp_all

lemma big_bound: "\<bar>r\<bar> \<le> 2 ^ 53 \<Longrightarrow> \<bar>r\<bar> < huge"
  using pow_less_huge[of 53] by linarith

lemma boundI: "repr r \<Longrightarrow> \<bar>r\<bar> \<le> 2 ^ 53 \<Longrightarrow> bound r"
  by (simp only: bound_def big_bound simp_thms)

lemma bound_of_int: "\<bar>k\<bar> \<le> 2 ^ 53 \<Longrightarrow> bound (of_int k)"
proof (rule boundI)
  assume k: "\<bar>k\<bar> \<le> 2 ^ 53"
  then show "repr (of_int k)" by (rule repr_of_int)
  have "(of_int \<bar>k\<bar> :: rat) \<le> of_int (2 ^ 53)" using k by (simp only: of_int_le_iff)
  then show "\<bar>of_int k :: rat\<bar> \<le> 2 ^ 53" by simp
qed

lemma bound_dyadic:
  assumes "\<bar>m\<bar> \<le> 2 ^ 53" "k \<le> 1074"
  shows "bound (of_int m / 2 ^ k)"
proof (rule boundI)
  show "repr (of_int m / 2 ^ k)" using assms by (rule repr_dyadic)
  have "\<bar>of_int m / 2 ^ k :: rat\<bar> \<le> of_int \<bar>m\<bar> / 1"
    unfolding abs_divide by (intro divide_mono) auto
  also have "(of_int \<bar>m\<bar> :: rat) \<le> of_int (2 ^ 53)" using assms(1) by (simp only: of_int_le_iff)
  finally show "\<bar>of_int m / 2 ^ k :: rat\<bar> \<le> 2 ^ 53" by simp
qed

lemma bound_minus: "bound (- r) = bound r"
  by (simp add: bound_def repr_minus)

lemma bound_0 [simp]: "bound 0" and bound_1 [simp]: "bound 1"
  using bound_of_int[of 0] bound_of_int[of 1] by simp_all

lemma bound_numeral [simp]: "(numeral n :: int) \<le> 2 ^ 53 \<Longrightarrow> bound (numeral n)"
  using bound_of_int[of "numeral n"] by simp

lemma bound_neg_numeral [simp]: "(numeral n :: int) \<le> 2 ^ 53 \<Longrightarrow> bound (- numeral n)"
  by (simp add: bound_minus)

lemma bound_neg_1 [simp]: "bound (- 1)"
  by (simp add: bound_minus)

lemma bound_half [simp]: "bound (1 / 2)" and bound_quarter [simp]: "bound (1 / 4)"
  using bound_dyadic[of 1 1] bound_dyadic[of 1 2] by simp_all

lemma bound_rnd: "\<bar>rnd q\<bar> < huge \<Longrightarrow> bound (rnd q)"
  by (simp add: bound_def repr_rnd)

lemma rnd_between:
  assumes "bound a" "bound b" "a \<le> q" "q \<le> b"
  shows "a \<le> rnd q" "rnd q \<le> b" "\<bar>rnd q\<bar> < huge"
proof -
  show 1: "a \<le> rnd q" and 2: "rnd q \<le> b"
    using assms by (auto simp: bound_def intro: rnd_ge rnd_le)
  show "\<bar>rnd q\<bar> < huge"
    using 1 2 assms(1,2) unfolding bound_def abs_less_iff by linarith
qed

section \<open>Finite results and their ranges\<close>

definition rng :: "rat \<Rightarrow> rat \<Rightarrow> f64 \<Rightarrow> bool" where
  "rng a b x \<longleftrightarrow> fin x \<and> a \<le> val x \<and> val x \<le> b"

lemma rngD: "rng a b x \<Longrightarrow> fin x" "rng a b x \<Longrightarrow> a \<le> val x" "rng a b x \<Longrightarrow> val x \<le> b"
  "rng a b x \<Longrightarrow> x \<noteq> NaN"
  by (auto simp: rng_def)

lemma rng_weaken: "rng a b x \<Longrightarrow> a' \<le> a \<Longrightarrow> b \<le> b' \<Longrightarrow> rng a' b' x"
  by (auto simp: rng_def)

lemma rng_iff_le: "rng a b x = (Fin a \<le> x \<and> x \<le> Fin b)"
  by (cases x) (auto simp: rng_def)

lemma rng_0_1: "rng 0 b 0 = (0 \<le> b)" "rng 0 b 1 = (1 \<le> b)"
  by (simp_all add: rng_def)

lemma rng_mk:
  assumes "bound a" "bound b" "a \<le> q" "q \<le> b"
  shows "rng a b (mk s q)"
  using rnd_between[OF assms] by (auto simp: rng_def fin_mk val_mk)

lemma plus_fin:
  assumes "fin x" "fin y"
  shows "x + y = (if x = NegZero \<and> y = NegZero then NegZero else mk (val x + val y < 0) (val x + val y))"
  using assms by (auto simp: plus_f64_def)

lemma times_fin: "fin x \<Longrightarrow> fin y \<Longrightarrow> x * y = mk (signbit x \<noteq> signbit y) (val x * val y)"
  by (auto simp: times_f64_def Let_def)

lemma divide_fin: "fin x \<Longrightarrow> fin y \<Longrightarrow> val y \<noteq> 0 \<Longrightarrow> x / y = mk (signbit x \<noteq> signbit y) (val x / val y)"
  by (auto simp: divide_f64_def Let_def)

lemma fin_uminus [simp]: "fin (- x) = fin x"
  by (cases x) auto

lemma val_uminus [simp]: "val (- x) = - val x"
  by (cases x) auto

lemma uminus_nan [simp]: "(- x = NaN) = (x = NaN)"
  by (cases x) auto

lemma plus_not_nan: "fin x \<Longrightarrow> y \<noteq> NaN \<Longrightarrow> x + y \<noteq> NaN" "x \<noteq> NaN \<Longrightarrow> fin y \<Longrightarrow> x + y \<noteq> NaN"
  by (auto simp: plus_f64_def)

lemma minus_not_nan: "fin x \<Longrightarrow> y \<noteq> NaN \<Longrightarrow> x - y \<noteq> NaN" "x \<noteq> NaN \<Longrightarrow> fin y \<Longrightarrow> x - y \<noteq> NaN"
  unfolding minus_f64_def by (rule plus_not_nan; simp)+

lemma times_not_nan: "fin x \<Longrightarrow> fin y \<Longrightarrow> x * y \<noteq> NaN"
  by (simp add: times_fin)

lemma divide_not_nan: "fin x \<Longrightarrow> fin y \<Longrightarrow> val y \<noteq> 0 \<Longrightarrow> x / y \<noteq> NaN"
  by (simp add: divide_fin)

lemma divide_not_nan': "x \<noteq> NaN \<Longrightarrow> fin y \<Longrightarrow> val y \<noteq> 0 \<Longrightarrow> x / y \<noteq> NaN"
  by (auto simp: divide_f64_def Let_def)

lemma rng_plus:
  assumes "rng a b x" "rng c d y" "bound l" "bound h" "l \<le> a + c" "b + d \<le> h"
  shows "rng l h (x + y)"
proof (cases "x = NegZero \<and> y = NegZero")
  case True
  with assms show ?thesis by (auto simp: rng_def plus_f64_def)
next
  case False
  with assms have "x + y = mk (val x + val y < 0) (val x + val y)"
    by (auto simp: plus_fin rng_def)
  moreover have "l \<le> val x + val y" "val x + val y \<le> h" using assms by (auto simp: rng_def)
  ultimately show ?thesis using rng_mk assms(3,4) by simp
qed

lemma rng_uminus: "rng a b x \<Longrightarrow> rng (- b) (- a) (- x)"
  by (simp add: rng_def)

lemma rng_minus:
  assumes "rng a b x" "rng c d y" "bound l" "bound h" "l \<le> a - d" "b - c \<le> h"
  shows "rng l h (x - y)"
  unfolding minus_f64_def
  using assms by (intro rng_plus[where c = "- d" and d = "- c"] rng_uminus) auto

lemma rng_times_nonneg:
  assumes "rng a b x" "rng c d y" "0 \<le> a" "0 \<le> c" "bound l" "bound h" "l \<le> a * c" "b * d \<le> h"
  shows "rng l h (x * y)"
proof -
  from assms have "a * c \<le> val x * val y" "val x * val y \<le> b * d"
    by (auto simp: rng_def intro!: mult_mono)
  then show ?thesis using assms by (auto simp: times_fin rngD intro!: rng_mk)
qed

lemma rng_times_sym:
  assumes "rng (- a) a x" "rng (- c) c y" "bound h" "a * c \<le> h"
  shows "rng (- h) h (x * y)"
proof -
  from assms have "\<bar>val x\<bar> \<le> a" "\<bar>val y\<bar> \<le> c" by (auto simp: rng_def)
  then have "\<bar>val x * val y\<bar> \<le> a * c" unfolding abs_mult by (intro mult_mono) auto
  then show ?thesis using assms
    by (auto simp: times_fin rngD abs_le_iff bound_minus intro!: rng_mk)
qed

lemma rng_divide_nonneg:
  assumes "rng a b x" "rng c d y" "0 \<le> a" "0 < c" "bound l" "bound h" "l \<le> a / d" "b / c \<le> h"
  shows "rng l h (x / y)"
proof -
  from assms have y: "fin y" "0 < val y" "c \<le> val y" "val y \<le> d" by (auto simp: rng_def)
  have "a / d \<le> val x / val y" using assms y by (intro frac_le) (auto simp: rng_def)
  moreover have "val x / val y \<le> b / c" using assms y by (intro frac_le) (auto simp: rng_def)
  ultimately have "l \<le> val x / val y" "val x / val y \<le> h" using assms by linarith+
  then have "rng l h (mk (signbit x \<noteq> signbit y) (val x / val y))"
    using assms(5,6) by (intro rng_mk)
  moreover have "fin x" using assms(1) by (rule rngD)
  ultimately show ?thesis using y by (simp add: divide_fin)
qed

lemma rng_lit:
  assumes "bound a" "bound b" "a \<le> q" "q \<le> b"
  shows "rng a b (lit q)"
  unfolding lit_def using assms by (rule rng_mk)

lemma fin_lit_small: "\<bar>q\<bar> \<le> 2 ^ 53 \<Longrightarrow> fin (lit q)"
proof -
  assume q: "\<bar>q\<bar> \<le> 2 ^ 53"
  have b: "bound (2 ^ 53)" using bound_of_int[of "2 ^ 53"] by simp
  from b have "bound (- (2 ^ 53))" by (simp only: bound_minus)
  from this b have "rng (- (2 ^ 53)) (2 ^ 53) (lit q)"
    using q by (intro rng_lit) (auto simp: abs_le_iff)
  then show "fin (lit q)" by (rule rngD)
qed

lemma lit_mono: "p \<le> q \<Longrightarrow> lit p \<le> lit q"
  by (simp add: lit_def mk_mono)

lemma lit_not_nan [simp]: "lit q \<noteq> NaN"
  by (simp add: lit_def)

lemma mk_exact: "bound q \<Longrightarrow> mk s q = (if q = 0 then f_zero s else Fin q)"
  by (auto simp: mk_def bound_def rnd_repr Let_def abs_less_iff)

lemma lit_exact: "bound q \<Longrightarrow> lit q = Fin q"
  by (simp add: lit_def mk_exact f_zero_def)

lemma lit_nonneg: "0 \<le> q \<Longrightarrow> \<bar>q\<bar> \<le> 2 ^ 53 \<Longrightarrow> 0 \<le> val (lit q)"
  using lit_mono[of 0 q] fin_lit_small[of q] lit_exact[of 0] by (simp add: fin_le_iff zero_f64_def)

lemma lit_0 [simp]: "lit 0 = 0" and lit_1 [simp]: "lit 1 = 1"
  by (simp_all add: lit_exact zero_f64_def one_f64_def)

subsection \<open>max, min, clamp, abs and signum\<close>

lemma f_max_not_nan: "x \<noteq> NaN \<or> y \<noteq> NaN \<Longrightarrow> f_max x y \<noteq> NaN"
  by (auto simp: f_max_def)

lemma f_min_not_nan: "x \<noteq> NaN \<or> y \<noteq> NaN \<Longrightarrow> f_min x y \<noteq> NaN"
  by (auto simp: f_min_def)

lemma f_max_ge: "x \<noteq> NaN \<Longrightarrow> x \<le> f_max x y" "y \<noteq> NaN \<Longrightarrow> y \<le> f_max x y"
  using f64_not_less[of x y] by (auto simp: f_max_def f64_less_imp_le)

lemma f_min_le: "x \<noteq> NaN \<Longrightarrow> f_min x y \<le> x" "y \<noteq> NaN \<Longrightarrow> f_min x y \<le> y"
  using f64_not_less[of y x] by (auto simp: f_min_def f64_less_imp_le)

lemma f_max_cases: "f_max x y = x \<or> f_max x y = y" and f_min_cases: "f_min x y = x \<or> f_min x y = y"
  by (simp_all add: f_max_def f_min_def)

lemma fin_f_max: "fin x \<Longrightarrow> fin y \<Longrightarrow> fin (f_max x y)" "fin x \<Longrightarrow> fin y \<Longrightarrow> fin (f_min x y)"
  by (simp_all add: f_max_def f_min_def)

lemma val_f_max: "fin x \<Longrightarrow> fin y \<Longrightarrow> val (f_max x y) = max (val x) (val y)"
  and val_f_min: "fin x \<Longrightarrow> fin y \<Longrightarrow> val (f_min x y) = min (val x) (val y)"
  by (auto simp: f_max_def f_min_def fin_less_iff)

lemma rng_f_max: "rng a b x \<Longrightarrow> rng c d y \<Longrightarrow> rng (max a c) (max b d) (f_max x y)"
  by (auto simp: rng_def fin_f_max val_f_max)

lemma rng_f_min: "rng a b x \<Longrightarrow> rng c d y \<Longrightarrow> rng (min a c) (min b d) (f_min x y)"
  by (auto simp: rng_def fin_f_max val_f_min)

text \<open>\<open>x.max(c)\<close> with a finite constant is finite or plus infinity, whatever \<open>x\<close> is.\<close>

lemma f_max_const: "c \<noteq> NaN \<Longrightarrow> c \<le> f_max x c"
  by (rule f_max_ge)

lemma f_clamp_rng:
  assumes "x \<noteq> NaN" "fin lo" "fin hi" "val lo \<le> val hi"
  shows "rng (val lo) (val hi) (f_clamp x lo hi)"
  using assms by (cases x) (auto simp: f_clamp_def rng_def fin_less_iff less_f64_def fin_le_iff)

lemma f_clamp_nan [simp]: "f_clamp NaN lo hi = NaN"
  by (simp add: f_clamp_def)

lemma f_clamp_not_nan: "x \<noteq> NaN \<Longrightarrow> lo \<noteq> NaN \<Longrightarrow> hi \<noteq> NaN \<Longrightarrow> f_clamp x lo hi \<noteq> NaN"
  by (simp add: f_clamp_def)

lemma f_clamp_id: "rng a b x \<Longrightarrow> fin lo \<Longrightarrow> fin hi \<Longrightarrow> val lo \<le> a \<Longrightarrow> b \<le> val hi \<Longrightarrow> f_clamp x lo hi = x"
  by (auto simp: f_clamp_def rng_def fin_less_iff)

lemma f_clamp_unit: "x \<noteq> NaN \<Longrightarrow> rng 0 1 (f_clamp x 0 1)"
  using f_clamp_rng[of x 0 1] by simp

lemma f_clamp_lit:
  assumes "x \<noteq> NaN" "p \<le> q" "\<bar>p\<bar> \<le> 2 ^ 53" "\<bar>q\<bar> \<le> 2 ^ 53" "bound a" "bound b" "a \<le> p" "q \<le> b"
  shows "rng a b (f_clamp x (lit p) (lit q))"
proof -
  have f: "fin (lit p)" "fin (lit q)" using assms by (auto intro: fin_lit_small)
  have "val (lit p) \<le> val (lit q)" using lit_mono[OF assms(2)] f by (simp add: fin_le_iff)
  then have "rng (val (lit p)) (val (lit q)) (f_clamp x (lit p) (lit q))"
    using assms(1) f by (intro f_clamp_rng)
  moreover have "a \<le> val (lit p)" "val (lit q) \<le> b"
    using f assms(5-8) rnd_ge[of a p] rnd_le[of b q] by (auto simp: lit_def val_mk bound_def)
  ultimately show ?thesis by (rule rng_weaken)
qed

lemma fin_f_abs [simp]: "fin (f_abs x) = fin x" and val_f_abs [simp]: "val (f_abs x) = \<bar>val x\<bar>"
  and f_abs_nan [simp]: "(f_abs x = NaN) = (x = NaN)"
  by (cases x; simp)+

lemma f_abs_nonneg: "x \<noteq> NaN \<Longrightarrow> 0 \<le> f_abs x"
  by (cases x) (auto simp: zero_f64_def)

lemma f_signum_cases: "x \<noteq> NaN \<Longrightarrow> f_signum x = Fin 1 \<or> f_signum x = Fin (- 1)"
  by (simp add: f_signum_def)

lemma feq_refl: "feq x x = (x \<noteq> NaN)"
  by (cases x) (auto simp: feq_def)

lemma feq_sym: "feq x y = feq y x"
  by (auto simp: feq_def)

lemma feq_fin: "fin x \<Longrightarrow> fin y \<Longrightarrow> feq x y = (val x = val y)"
  by (auto simp: feq_def fin_le_iff)

lemma feq_nan [simp]: "\<not> feq NaN x" "\<not> feq x NaN"
  by (simp_all add: feq_def)

lemma fin_epsilon [simp]: "fin f_epsilon" "val f_epsilon = 1 / 2 ^ 52" "f_epsilon \<noteq> NaN"
  by (simp_all add: f_epsilon_def)

lemma fin_f_of_nat: "n \<le> 2 ^ 64 \<Longrightarrow> rng 0 (2 ^ 64) (f_of_nat n)"
proof -
  assume "n \<le> 2 ^ 64"
  then have "(of_nat n :: rat) \<le> of_nat (2 ^ 64)" by (simp only: of_nat_le_iff)
  moreover have "bound (2 ^ 64)"
    using pow_less_huge[of 64] repr_pow2[of 64] unfolding bound_def by (simp del: power_numeral)
  ultimately show ?thesis unfolding f_of_nat_def by (intro rng_mk) auto
qed

lemma f_of_word_rng: "rng 0 (2 ^ 64) (f_of_word (w :: 64 word))"
proof -
  have "unat w < 2 ^ LENGTH(64)" by (rule unsigned_less)
  then show ?thesis unfolding f_of_word_def by (intro fin_f_of_nat) simp
qed

lemma f_of_word_fin [simp]: "fin (f_of_word (w :: 64 word))" "f_of_word (w :: 64 word) \<noteq> NaN"
  using f_of_word_rng[of w] by (auto dest: rngD)

subsection \<open>Monotone operations\<close>

lemma f64_minus_mono:
  assumes "x \<le> x'" "y' \<le> y" "fin x" "fin x'" "fin y" "fin y'"
  shows "x - y \<le> x' - y'"
proof -
  have plus: "u + v \<le> u' + v'"
    if le: "val u \<le> val u'" "val v \<le> val v'" and f: "fin u" "fin u'" "fin v" "fin v'" for u u' v v'
  proof -
    have m: "mk s (val u + val v) \<le> mk t (val u' + val v')" for s t
      using le by (intro mk_mono) simp
    have z: "NegZero \<le> mk t (val u' + val v')" if "u = NegZero" "v = NegZero" for t
      using m[of False t] that by (cases "mk t (val u' + val v')") (auto simp: mk_exact f_zero_def)
    have z': "mk s (val u + val v) \<le> NegZero" if "u' = NegZero" "v' = NegZero" for s
      using m[of s False] that by (cases "mk s (val u + val v)") (auto simp: mk_exact f_zero_def)
    show ?thesis using f m z z' by (auto simp: plus_fin)
  qed
  show ?thesis unfolding minus_f64_def using assms by (intro plus) (auto simp: fin_le_iff)
qed

lemma f64_plus_mono:
  assumes "x \<le> x'" "y \<le> y'" "fin x" "fin x'" "fin y" "fin y'"
  shows "x + y \<le> x' + y'"
proof -
  have u: "- (- y) = y" "- (- y') = y'" using assms by (cases y; cases y'; auto)+
  have "x - (- y) \<le> x' - (- y')" using assms by (intro f64_minus_mono) (auto simp: fin_le_iff)
  then show ?thesis by (simp add: minus_f64_def u)
qed

lemma f64_times_mono:
  assumes "0 \<le> val x" "val x \<le> val x'" "0 \<le> val y" "val y \<le> val y'" "fin x" "fin x'" "fin y" "fin y'"
  shows "x * y \<le> x' * y'"
  using assms by (simp add: times_fin) (intro mk_mono mult_mono; simp)

lemma f64_times_le_self:
  assumes "fin x" "0 \<le> val x" "rng 0 1 y" "repr (val x)" "\<bar>val x\<bar> < huge"
  shows "x * y \<le> x"
proof -
  have b: "bound (val x)" using assms by (simp add: bound_def)
  have "val x * val y \<le> val x * 1" using assms by (intro mult_left_mono) (auto simp: rng_def)
  then have "val x * val y \<le> val x" by simp
  moreover have "0 \<le> val x * val y" using assms by (auto simp: rng_def)
  ultimately have "rng 0 (val x) (mk (signbit x \<noteq> signbit y) (val x * val y))"
    using b by (intro rng_mk) simp_all
  then have "rng 0 (val x) (x * y)" using assms(1,3) by (simp add: times_fin rngD)
  then show ?thesis using assms(1) by (auto simp: rng_def fin_le_iff)
qed

text \<open>
  A weighted mean stays in the range of what it mixes, provided the rounded weights do not
  push the ends of the range out of it (a closed condition, checked by evaluation).
\<close>

lemma times_nonneg_mono:
  assumes "fin x" "fin y" "val x \<le> val y" "fin a" "0 \<le> val a"
  shows "x * a \<le> y * a"
  using assms by (simp add: times_fin) (intro mk_mono mult_right_mono; simp)

lemma rng_mix:
  assumes "rng l h x" "rng l h y" "fin a" "fin b" "0 \<le> val a" "0 \<le> val b"
    and f: "fin (Fin l * a)" "fin (Fin h * a)" "fin (Fin l * b)" "fin (Fin h * b)"
    and hi: "Fin h * a + Fin h * b \<le> Fin h" and lo: "Fin l \<le> Fin l * a + Fin l * b"
  shows "rng l h (x * a + y * b)"
proof -
  have m: "Fin l * c \<le> z * c" "z * c \<le> Fin h * c" if "rng l h z" "fin c" "0 \<le> val c" for z c
    using that by (auto intro!: times_nonneg_mono simp: rng_def)
  have fz: "fin (x * a)" "fin (y * b)"
    using fin_between m[OF assms(1,3,5)] m[OF assms(2,4,6)] f by blast+
  have "Fin l * a + Fin l * b \<le> x * a + y * b" "x * a + y * b \<le> Fin h * a + Fin h * b"
    using m[OF assms(1,3,5)] m[OF assms(2,4,6)] f fz by (auto intro!: f64_plus_mono)
  then show ?thesis
    using hi lo unfolding rng_iff_le by (meson f64_le_trans)
qed

subsection \<open>Monotonicity with infinite values\<close>

lemma f_max_mono: "x \<le> y \<Longrightarrow> c \<noteq> NaN \<Longrightarrow> f_max x c \<le> f_max y c"
  by (cases x; cases y; cases c) (auto simp: f_max_def less_f64_def)

lemma f_clamp_mono: "x \<le> y \<Longrightarrow> fin lo \<Longrightarrow> fin hi \<Longrightarrow> val lo \<le> val hi \<Longrightarrow> f_clamp x lo hi \<le> f_clamp y lo hi"
  by (cases x; cases y; cases lo; cases hi) (auto simp: f_clamp_def less_f64_def)

lemma mk_le_PInf [simp]: "mk s q \<le> PInf" "NInf \<le> mk s q"
  by simp_all

lemma divide_pos_mono:
  assumes "x \<le> y" "fin c" "0 < val c"
  shows "x / c \<le> y / c"
proof -
  have c: "c \<noteq> NaN" "val c \<noteq> 0" "\<not> signbit c" using assms by (cases c; simp)+
  consider "fin x" "fin y" | "x = NInf" "y \<noteq> NaN" | "y = PInf" "x \<noteq> NaN"
    using assms(1) by (cases x; cases y) auto
  then show ?thesis
  proof cases
    case 1
    then show ?thesis
      using assms c by (simp add: divide_fin fin_le_iff) (intro mk_mono divide_right_mono; simp)
  next
    case 2
    then have "x / c = NInf" using assms c by (simp add: divide_f64_def f_inf_def)
    then show ?thesis using divide_not_nan'[of y c] 2 assms by simp
  next
    case 3
    then have "y / c = PInf" using assms c by (simp add: divide_f64_def f_inf_def)
    then show ?thesis using divide_not_nan'[of x c] 3 assms by simp
  qed
qed

lemma times_pos_mono:
  assumes "x \<le> y" "fin c" "0 < val c"
  shows "x * c \<le> y * c"
proof -
  have c: "c \<noteq> NaN" "val c \<noteq> 0" "\<not> signbit c" using assms by (cases c; simp)+
  have n: "z * c \<noteq> NaN" if "z \<noteq> NaN" for z using that assms c by (auto simp: times_f64_def Let_def)
  consider "fin x" "fin y" | "x = NInf" "y \<noteq> NaN" | "y = PInf" "x \<noteq> NaN"
    using assms(1) by (cases x; cases y) auto
  then show ?thesis
  proof cases
    case 1
    then show ?thesis
      using assms c by (simp add: times_fin fin_le_iff) (intro mk_mono mult_right_mono; simp)
  next
    case 2
    then have "x * c = NInf" using assms c by (simp add: times_f64_def f_inf_def)
    then show ?thesis using n[of y] 2 by simp
  next
    case 3
    then have "y * c = PInf" using assms c by (simp add: times_f64_def f_inf_def)
    then show ?thesis using n[of x] 3 by simp
  qed
qed

lemma plus_mono_fin:
  assumes "x \<le> x'" "y \<le> y'" "fin y" "fin y'"
  shows "x + y \<le> x' + y'"
proof -
  consider "fin x" "fin x'" | "x = NInf" "x' \<noteq> NaN" | "x' = PInf" "x \<noteq> NaN"
    using assms(1) by (cases x; cases x') auto
  then show ?thesis
  proof cases
    case 1 with assms show ?thesis by (intro f64_plus_mono)
  next
    case 2
    then have "x + y = NInf" using assms by (simp add: plus_f64_def)
    then show ?thesis using plus_not_nan(2)[of x' y'] 2 assms by simp
  next
    case 3
    then have "x' + y' = PInf" using assms by (simp add: plus_f64_def)
    then show ?thesis using plus_not_nan(2)[of x y] 3 assms by simp
  qed
qed

lemma uminus_mono: "x \<le> y \<Longrightarrow> - y \<le> - x" for x y :: f64
  by (cases x; cases y) auto

lemma minus_mono_fin:
  "x \<le> x' \<Longrightarrow> y' \<le> y \<Longrightarrow> fin y \<Longrightarrow> fin y' \<Longrightarrow> x - y \<le> x' - y'"
  unfolding minus_f64_def by (intro plus_mono_fin uminus_mono) auto

text \<open>The values that are binary64 numbers; every operation yields one.\<close>

definition double :: "f64 \<Rightarrow> bool" where
  "double x \<longleftrightarrow> (fin x \<longrightarrow> bound (val x))"

lemma double_mk [simp]: "double (mk s q)"
  using bound_rnd by (auto simp: double_def fin_mk val_mk)

lemma double_consts [simp]: "double 0" "double 1" "double (lit q)" "double (f_zero s)" "double (f_inf s)" "double NaN"
  by (simp_all add: double_def lit_def double_mk[unfolded double_def] del: double_mk)

lemma double_plus [simp]: "double (x + y)" and double_minus [simp]: "double (x - y)"
proof -
  show p: "double (x + y)" for x y
    by (auto simp: plus_f64_def double_def[of x] double_def[of y] double_def[of NegZero] double_def[of NaN])
  show "double (x - y)" unfolding minus_f64_def by (rule p)
qed

lemma double_uminus [simp]: "double x \<Longrightarrow> double (- x)"
  by (simp add: double_def bound_minus)

lemma double_times [simp]: "double (x * y)" and double_divide [simp]: "double (x / y)"
  by (auto simp: times_f64_def divide_f64_def Let_def)

lemma double_select [simp]:
  "double x \<Longrightarrow> double y \<Longrightarrow> double (f_max x y)" "double x \<Longrightarrow> double y \<Longrightarrow> double (f_min x y)"
  "double x \<Longrightarrow> double lo \<Longrightarrow> double hi \<Longrightarrow> double (f_clamp x lo hi)"
  by (auto simp: f_max_def f_min_def f_clamp_def Let_def)

lemma double_f_abs [simp]: "double x \<Longrightarrow> double (f_abs x)"
  by (auto simp: double_def abs_if bound_minus)

lemma plus_nonneg_ge: "fin x \<Longrightarrow> double x \<Longrightarrow> fin y \<Longrightarrow> 0 \<le> val y \<Longrightarrow> x \<le> x + y"
proof -
  assume a: "fin x" "double x" "fin y" "0 \<le> val y"
  have "rnd (val x) = val x" "bound (val x)" using a by (auto simp: double_def bound_def intro: rnd_repr)
  moreover have "rnd (val x) \<le> rnd (val x + val y)" using a by (intro rnd_mono) simp
  ultimately show ?thesis
    using a by (cases x; cases y) (auto simp: plus_fin mk_def Let_def bound_def f_zero_def)
qed
lemma minus_nonneg_le: "fin x \<Longrightarrow> double x \<Longrightarrow> fin y \<Longrightarrow> 0 \<le> val y \<Longrightarrow> x - y \<le> x"
proof -
  assume a: "fin x" "double x" "fin y" "0 \<le> val y"
  have r: "rnd (val x) = val x" "bound (val x)" using a by (auto simp: double_def bound_def intro: rnd_repr)
  moreover have m: "rnd (val x - val y) \<le> rnd (val x)" using a by (intro rnd_mono) simp
  moreover have "\<not> huge \<le> rnd (val x - val y)" using r m by (auto simp: bound_def abs_less_iff)
  ultimately show ?thesis
    using a unfolding minus_f64_def
    by (cases x; cases y) (auto simp: plus_fin mk_def Let_def bound_def f_zero_def)
qed

section \<open>Evaluation of closed terms\<close>

text \<open>
  The simplifier evaluates closed \<open>f64\<close> terms with \<open>simp add: f64_eval\<close>: the operations are
  rewritten on the constructors and \<open>rnd\<close> is computed from the lengths of the numerals.
\<close>

primrec num_len :: "num \<Rightarrow> int" where
  "num_len num.One = 1"
| "num_len (num.Bit0 n) = num_len n + 1"
| "num_len (num.Bit1 n) = num_len n + 1"

lemma num_len_bounds: "1 \<le> num_len n \<and> 2 ^ nat (num_len n - 1) \<le> (numeral n :: int) \<and> (numeral n :: int) < 2 ^ nat (num_len n)"
proof (induction n)
  case One
  show ?case by simp
next
  case (Bit0 n)
  then have e: "nat (num_len n) = Suc (nat (num_len n - 1))"
      "nat (num_len n + 1) = Suc (Suc (nat (num_len n - 1)))"
      "nat (num_len n + 1 - 1) = Suc (nat (num_len n - 1))"
    by linarith+
  define a where "a = (numeral n :: int)"
  have eq: "(numeral (num.Bit0 n) :: int) = a + a" by (simp only: a_def numeral_Bit0)
  show ?case using Bit0 unfolding num_len.simps eq e a_def[symmetric] by simp
next
  case (Bit1 n)
  then have e: "nat (num_len n) = Suc (nat (num_len n - 1))"
      "nat (num_len n + 1) = Suc (Suc (nat (num_len n - 1)))"
      "nat (num_len n + 1 - 1) = Suc (nat (num_len n - 1))"
    by linarith+
  define a where "a = (numeral n :: int)"
  have eq: "(numeral (num.Bit1 n) :: int) = a + a + 1" by (simp only: a_def numeral_Bit1)
  show ?case using Bit1 unfolding num_len.simps eq e a_def[symmetric] by simp
qed

lemma num_len_rat: "2 powi (num_len n - 1) \<le> (numeral n :: rat)" "(numeral n :: rat) < 2 powi num_len n"
proof -
  have l: "1 \<le> num_len n" using num_len_bounds[of n] by simp
  have "(of_int (2 ^ nat (num_len n - 1)) :: rat) \<le> of_int (numeral n)"
    "(of_int (numeral n) :: rat) < of_int (2 ^ nat (num_len n))"
    using num_len_bounds[of n] by (simp_all only: of_int_le_iff of_int_less_iff)
  then show "2 powi (num_len n - 1) \<le> (numeral n :: rat)" "(numeral n :: rat) < 2 powi num_len n"
    using l by (simp_all add: power_int_def)
qed

text \<open>\<open>test\<close> decides between the two candidates with one comparison of products.\<close>

lemma ilog2_div [f64_eval]:
  "ilog2 (numeral m / numeral n) =
     (if 2 powi (num_len m - num_len n) * numeral n \<le> (numeral m :: rat)
      then num_len m - num_len n else num_len m - num_len n - 1)"
proof -
  define k where "k = num_len m - num_len n"
  have n0: "(0::rat) < numeral n" by simp
  have "2 powi (k - 1) * (numeral n :: rat) \<le> 2 powi (k - 1) * 2 powi num_len n"
    using num_len_rat(2)[of n] by (intro mult_left_mono) auto
  also have "\<dots> = 2 powi (num_len m - 1)" by (simp add: powi2_add[symmetric] k_def)
  also have "\<dots> \<le> numeral m" by (rule num_len_rat)
  finally have lo: "2 powi (k - 1) \<le> (numeral m / numeral n :: rat)"
    using n0 by (simp add: le_divide_eq)
  have "(numeral m :: rat) < 2 powi num_len m" by (rule num_len_rat)
  also have "(2::rat) powi num_len m = 2 powi (k + 1) * 2 powi (num_len n - 1)"
    by (simp add: powi2_add[symmetric] k_def)
  also have "\<dots> \<le> 2 powi (k + 1) * numeral n"
    using num_len_rat(1)[of n] by (intro mult_left_mono) auto
  finally have hi: "(numeral m / numeral n :: rat) < 2 powi (k + 1)"
    using n0 by (simp add: divide_less_eq)
  have c: "(2 powi k * numeral n \<le> (numeral m :: rat)) = (2 powi k \<le> (numeral m / numeral n :: rat))"
    using n0 by (simp add: le_divide_eq)
  show ?thesis unfolding k_def[symmetric] c
    using lo hi by (auto intro: ilog2_unique)
qed

lemma ilog2_numeral [f64_eval]: "ilog2 (numeral m) = num_len m - 1"
  using num_len_rat[of m] by (intro ilog2_unique) simp_all

lemma ilog2_1 [f64_eval]: "ilog2 1 = 0"
  by (rule ilog2_unique) simp_all

lemma ilog2_1_div [f64_eval]: "ilog2 (1 / numeral n) = (if numeral n \<le> (2::rat) powi (num_len n - 1) then 1 - num_len n else - num_len n)"
  using ilog2_div[of num.One n]
  by (simp add: power_int_diff power_int_minus field_simps powi2_add[of "num_len n" "- 1", simplified])

text \<open>
  The remaining rules name every intermediate value by an argument of a selector, so that the
  simplifier computes it once.
\<close>

definition round_sel :: "int \<Rightarrow> rat \<Rightarrow> int" where
  "round_sel f d = (if d < 1/2 then f else if 1/2 < d then f + 1 else if even f then f else f + 1)"

definition rnd_at :: "rat \<Rightarrow> rat \<Rightarrow> rat" where
  "rnd_at q u = of_int (round_even (q / u)) * u"

definition mk_sel :: "bool \<Rightarrow> rat \<Rightarrow> f64" where
  "mk_sel s r = (if r = 0 then f_zero s else if huge \<le> r then PInf else if r \<le> - huge then NInf else Fin r)"

lemma floor_div_eval [f64_eval]:
  "\<lfloor>numeral a / numeral b :: rat\<rfloor> = numeral a div numeral b"
  "\<lfloor>1 / numeral b :: rat\<rfloor> = 1 div numeral b"
  "\<lfloor>- (numeral a / numeral b) :: rat\<rfloor> = - numeral a div numeral b"
  "\<lfloor>- (1 / numeral b) :: rat\<rfloor> = - 1 div numeral b"
  using floor_divide_of_int_eq[of "numeral a" "numeral b", where 'a = rat]
    floor_divide_of_int_eq[of 1 "numeral b", where 'a = rat]
    floor_divide_of_int_eq[of "- numeral a" "numeral b", where 'a = rat]
    floor_divide_of_int_eq[of "- 1" "numeral b", where 'a = rat]
  by simp_all

lemma round_even_sel [f64_eval]: "round_even x = round_sel \<lfloor>x\<rfloor> (x - of_int \<lfloor>x\<rfloor>)"
  by (simp add: round_even_def round_sel_def Let_def)

lemma rnd_at_eval [f64_eval]:
  "rnd (numeral m / numeral n) = rnd_at (numeral m / numeral n) (2 powi max (ilog2 (numeral m / numeral n) - 52) (- 1074))"
  "rnd (1 / numeral n) = rnd_at (1 / numeral n) (2 powi max (ilog2 (1 / numeral n) - 52) (- 1074))"
  "rnd (numeral m) = rnd_at (numeral m) (2 powi max (ilog2 (numeral m) - 52) (- 1074))"
  "rnd 1 = 1"
  using rnd_repr[OF repr_1] by (simp_all add: rnd_def rnd_at_def ulp_exp_def del: rnd_0)

lemma rnd_neg_eval [f64_eval]:
  "rnd (- (numeral m / numeral n)) = - rnd (numeral m / numeral n)"
  "rnd (- numeral m / numeral n) = - rnd (numeral m / numeral n)"
  "rnd (- (1 / numeral n)) = - rnd (1 / numeral n)"
  "rnd (- 1 / numeral n) = - rnd (1 / numeral n)"
  "rnd (- numeral m) = - rnd (numeral m)"
  "rnd (- 1) = - 1"
  by (simp_all add: rnd_minus[symmetric] rnd_repr)

lemma mk_eval [f64_eval]: "mk s q = mk_sel s (rnd q)"
  by (simp add: mk_def mk_sel_def Let_def)

lemma mk_sel_pos: "0 < r \<Longrightarrow> r < huge \<Longrightarrow> mk_sel s r = Fin r"
  "0 < r \<Longrightarrow> r < huge \<Longrightarrow> mk_sel s (- r) = Fin (- r)"
  using huge_pos(1) by (auto simp: mk_sel_def simp del: huge_pos)

lemma mk_sel_eval [f64_eval]:
  assumes "num_len m \<le> 1023"
  shows "mk_sel s (numeral m / numeral n) = Fin (numeral m / numeral n)"
    "mk_sel s (- (numeral m / numeral n)) = Fin (- (numeral m / numeral n))"
    "mk_sel s (- numeral m / numeral n) = Fin (- numeral m / numeral n)"
    "mk_sel s (numeral m) = Fin (numeral m)" "mk_sel s (- numeral m) = Fin (- numeral m)"
proof -
  have "(numeral m :: rat) < 2 powi num_len m" by (rule num_len_rat)
  also have "\<dots> \<le> 2 powi 1023" using assms by (rule powi2_mono)
  also have "(2::rat) powi 1023 = 2 ^ 1023" by (simp only: power_int_numeral)
  also have "\<dots> < huge" by (rule pow_less_huge) simp
  finally have m: "(numeral m :: rat) < huge" .
  have le: "b / c \<le> b" if "0 \<le> b" "1 \<le> c" for b c :: rat
    using that mult_left_mono[of 1 c b] by (simp add: divide_le_eq)
  have "(numeral m / numeral n :: rat) \<le> numeral m" by (rule le) simp_all
  with m have d: "(numeral m / numeral n :: rat) < huge" by (rule order.strict_trans1[rotated])
  have p: "(0::rat) < numeral m / numeral n" by simp
  have q: "(0::rat) < numeral m" by simp
  show "mk_sel s (numeral m / numeral n) = Fin (numeral m / numeral n)"
    "mk_sel s (- (numeral m / numeral n)) = Fin (- (numeral m / numeral n))"
    "mk_sel s (- numeral m / numeral n) = Fin (- numeral m / numeral n)"
    "mk_sel s (numeral m) = Fin (numeral m)" "mk_sel s (- numeral m) = Fin (- numeral m)"
    unfolding minus_divide_left[symmetric]
    by (rule mk_sel_pos[OF p d] mk_sel_pos[OF q m])+
qed

lemma mk_sel_simple [f64_eval]: "mk_sel s 0 = f_zero s" "mk_sel s 1 = Fin 1" "mk_sel s (- 1) = Fin (- 1)"
  using pow_less_huge[of 0] by (auto simp: mk_sel_def)

lemma mk_sel_inverse [f64_eval]:
  "mk_sel s (1 / numeral n) = Fin (1 / numeral n)" "mk_sel s (- (1 / numeral n)) = Fin (- (1 / numeral n))"
  "mk_sel s (- 1 / numeral n) = Fin (- 1 / numeral n)"
proof -
  have "(1 / numeral n :: rat) \<le> 1" by simp
  also have "\<dots> < huge" using pow_less_huge[of 0] by simp
  finally have h: "(1 / numeral n :: rat) < huge" .
  show "mk_sel s (1 / numeral n) = Fin (1 / numeral n)" "mk_sel s (- (1 / numeral n)) = Fin (- (1 / numeral n))"
    "mk_sel s (- 1 / numeral n) = Fin (- 1 / numeral n)"
    unfolding minus_divide_left[symmetric] by (rule mk_sel_pos[OF _ h], simp)+
qed

lemma plus_eval [f64_eval]:
  "Fin a + Fin b = mk (a + b < 0) (a + b)" "Fin a + NegZero = mk (a < 0) a" "NegZero + Fin b = mk (b < 0) b"
  "NegZero + NegZero = NegZero"
  "x + NaN = NaN" "NaN + x = NaN" "PInf + Fin a = PInf" "NInf + Fin a = NInf"
  "Fin a + PInf = PInf" "Fin a + NInf = NInf" "PInf + PInf = PInf" "NInf + NInf = NInf"
  "PInf + NInf = NaN" "NInf + PInf = NaN"
  by (simp_all add: plus_f64_def)

lemma minus_eval [f64_eval]: "Fin a - y = Fin a + (- y)" "NegZero - y = NegZero + (- y)"
  "PInf - y = PInf + (- y)" "NInf - y = NInf + (- y)" "NaN - y = NaN"
  by (simp_all add: minus_f64_def plus_f64_def)

lemma times_eval [f64_eval]:
  "Fin a * Fin b = mk ((a < 0) \<noteq> (b < 0)) (a * b)" "Fin a * NegZero = f_zero (\<not> a < 0)"
  "NegZero * Fin b = f_zero (\<not> b < 0)" "NegZero * NegZero = Fin 0"
  "x * NaN = NaN" "NaN * x = NaN"
  by (simp_all add: times_f64_def mk_def f_zero_def)

lemma divide_eval [f64_eval]:
  "Fin a / Fin b = (if b = 0 then if a = 0 then NaN else f_inf (a < 0) else mk ((a < 0) \<noteq> (b < 0)) (a / b))"
  "x / NaN = NaN" "NaN / x = NaN" "Fin a / PInf = f_zero (a < 0)"
  "NegZero / Fin b = (if b = 0 then NaN else f_zero (\<not> b < 0))"
  by (auto simp: divide_f64_def Let_def f_inf_def f_zero_def mk_def)

lemma less_eval [f64_eval]:
  "(Fin a < Fin b) = (a < b)" "(Fin a < NegZero) = (a < 0)" "(NegZero < Fin b) = (0 < b)"
  "(Fin a < PInf) = True" "(PInf < x) = False" "(x < NInf) = False" "(NInf < Fin a) = True"
  "(PInf \<le> Fin a) = False" "(Fin a \<le> NInf) = False"
  by (auto simp: less_f64_def)

lemmas [f64_eval] = round_sel_def rnd_at_def lit_def f_zero_def f_inf_def
  zero_f64_def one_f64_def f_epsilon_def f_of_nat_def f_of_word_def f_of_int_def f_signum_def

text \<open>The selection functions on values.\<close>

lemma max_min_eval [f64_eval]:
  "f_max (Fin a) (Fin b) = (if a < b then Fin b else Fin a)"
  "f_min (Fin a) (Fin b) = (if b < a then Fin b else Fin a)"
  "f_max NaN y = y" "f_max (Fin a) NaN = Fin a" "f_min NaN y = y" "f_min (Fin a) NaN = Fin a"
  "f_max NegZero (Fin b) = (if 0 < b then Fin b else NegZero)"
  "f_max PInf (Fin b) = PInf" "f_max (Fin a) PInf = PInf" "f_min PInf (Fin b) = Fin b" "f_min (Fin a) PInf = Fin a"
  by (auto simp: f_max_def f_min_def less_f64_def)

lemma clamp_eval [f64_eval]:
  "f_clamp (Fin q) (Fin a) (Fin b) = (if q < a then (if b < a then Fin b else Fin a) else if b < q then Fin b else Fin q)"
  "f_clamp NegZero (Fin a) (Fin b) = (if 0 < a then (if b < a then Fin b else Fin a) else if b < 0 then Fin b else NegZero)"
  "f_clamp PInf (Fin a) (Fin b) = Fin b"
  by (auto simp: f_clamp_def less_f64_def)

lemma feq_eval [f64_eval]: "feq (Fin a) (Fin b) = (a = b)" "feq NegZero (Fin b) = (b = 0)" "feq (Fin a) NegZero = (a = 0)"
  by (auto simp: feq_def)

end
