(* ===== verification/Prelude.thy ===== *)
theory Prelude
  imports F64
begin

text \<open>
  What the components share: the machine integers of the code with their saturating
  operations, the bounded queues, and the collections of facts that carry the proofs.

  \<^item> \<open>inv_intros\<close> collects the preservation lemmas of the component invariants,
  \<^item> \<open>model_defs\<close> the definitions that are unfolded together in evaluations.
\<close>

named_theorems inv_intros \<open>operations keep the invariants of their component\<close>
named_theorems model_defs \<open>definitions unfolded when a closed instance is evaluated\<close>

section \<open>Machine integers\<close>

type_synonym u64 = "64 word"
type_synonym u32 = "32 word"
type_synonym usize = "64 word"

text \<open>\<open>saturating_sub\<close>, \<open>saturating_add\<close>: no wrap-around.\<close>

definition sat_sub :: "'a::len word \<Rightarrow> 'a word \<Rightarrow> 'a word" where
  "sat_sub a b = (if a < b then 0 else a - b)"

definition sat_add :: "'a::len word \<Rightarrow> 'a word \<Rightarrow> 'a word" where
  "sat_add a b = (if a + b < a then - 1 else a + b)"

lemma unat_sat_sub: "unat (sat_sub a b) = unat a - unat b"
  by (auto simp: sat_sub_def unat_sub_if' word_less_nat_alt)

lemma sat_sub_self [simp]: "sat_sub a a = 0"
  by (simp add: sat_sub_def)

lemma sat_sub_le: "sat_sub a b \<le> a"
  by (simp add: word_le_nat_alt unat_sat_sub)

lemma word_le_minus_one [simp]: "a \<le> (- 1 :: 'a::len word)"
  by (rule word_order.extremum)

lemma sat_add_ge: "a \<le> sat_add a b"
  by (auto simp: sat_add_def not_less)

text \<open>A saturating increment never passes a bound it was below.\<close>

lemma unat_sat_add_1: "a < b \<Longrightarrow> unat (sat_add a 1) = unat a + 1" for a b :: "'a::len word"
proof -
  assume "a < b"
  then have "unat a + 1 \<le> unat b" by (simp add: word_less_nat_alt)
  also have "unat b < 2 ^ LENGTH('a)" by (rule unsigned_less)
  finally have "unat (a + 1) = unat a + 1" by (simp add: unat_word_ariths)
  then show "unat (sat_add a 1) = unat a + 1" by (simp add: sat_add_def word_less_nat_alt)
qed

lemma sat_add_1_le: "a < b \<Longrightarrow> sat_add a 1 \<le> b"
  using unat_sat_add_1[of a b] by (simp add: word_le_nat_alt word_less_nat_alt)

section \<open>Bounded queues\<close>

text \<open>\<open>push_capped\<close> of the latency and validation windows: a full queue loses its oldest element.\<close>

definition push_capped :: "'a list \<Rightarrow> 'a \<Rightarrow> nat \<Rightarrow> 'a list" where
  "push_capped queue v capacity = (if length queue = capacity then tl queue else queue) @ [v]"

lemma push_capped_length: "0 < capacity \<Longrightarrow> length q \<le> capacity \<Longrightarrow> length (push_capped q v capacity) \<le> capacity"
  by (auto simp: push_capped_def)

lemma push_capped_nonempty [simp]: "push_capped q v n \<noteq> []"
  by (simp add: push_capped_def)

lemma set_push_capped: "set (push_capped q v n) \<subseteq> insert v (set q)"
  by (cases q) (auto simp: push_capped_def)

lemma last_push_capped [simp]: "last (push_capped q v n) = v"
  by (simp add: push_capped_def)

text \<open>Two queues pushed in step keep the same length.\<close>

lemma push_capped_same_length: "length p = length q \<Longrightarrow> length (push_capped p u n) = length (push_capped q v n)"
  by (simp add: push_capped_def)

section \<open>Positions in a list\<close>

text \<open>\<open>Iterator::position\<close>, \<open>rposition\<close> and \<open>VecDeque::remove\<close>.\<close>

fun list_position :: "('a \<Rightarrow> bool) \<Rightarrow> 'a list \<Rightarrow> nat option" where
  "list_position P [] = None"
| "list_position P (x # xs) = (if P x then Some 0 else map_option Suc (list_position P xs))"

definition list_rposition :: "('a \<Rightarrow> bool) \<Rightarrow> 'a list \<Rightarrow> nat option" where
  "list_rposition P xs = map_option (\<lambda>i. length xs - 1 - i) (list_position P (rev xs))"

definition list_remove :: "nat \<Rightarrow> 'a list \<Rightarrow> 'a list" where
  "list_remove i xs = take i xs @ drop (Suc i) xs"

lemma list_position_Some:
  "list_position P xs = Some i \<Longrightarrow> i < length xs \<and> P (xs ! i) \<and> (\<forall>j < i. \<not> P (xs ! j))"
proof (induction xs arbitrary: i)
  case (Cons x xs)
  show ?case
  proof (cases "P x")
    case False
    with Cons.prems obtain k where k: "list_position P xs = Some k" "i = Suc k" by auto
    then show ?thesis using Cons.IH[OF k(1)] False by (auto simp: nth_Cons split: nat.splits)
  qed (use Cons.prems in auto)
qed simp

lemma list_position_None: "(list_position P xs = None) = (\<forall>x \<in> set xs. \<not> P x)"
  by (induction xs) auto

lemma list_rposition_Some:
  assumes "list_rposition P xs = Some i"
  shows "i < length xs" "P (xs ! i)"
proof -
  from assms obtain k where k: "list_position P (rev xs) = Some k" "i = length xs - 1 - k"
    by (auto simp: list_rposition_def)
  from list_position_Some[OF k(1)] have "k < length xs" "P (rev xs ! k)" by auto
  then show "i < length xs" "P (xs ! i)" using k(2) by (auto simp: rev_nth)
qed

lemma list_rposition_None: "(list_rposition P xs = None) = (\<forall>x \<in> set xs. \<not> P x)"
  by (simp add: list_rposition_def list_position_None)

lemma length_list_remove: "i < length xs \<Longrightarrow> length (list_remove i xs) = length xs - 1"
  by (simp add: list_remove_def)

lemma set_list_remove: "set (list_remove i xs) \<subseteq> set xs"
  by (auto simp: list_remove_def dest: in_set_takeD in_set_dropD)

lemma list_remove_0 [simp]: "list_remove 0 (x # xs) = xs"
  by (simp add: list_remove_def)

lemma list_remove_Suc [simp]: "list_remove (Suc i) (x # xs) = x # list_remove i xs"
  by (simp add: list_remove_def)

lemma sum_list_remove:
  "i < length xs \<Longrightarrow> sum_list (map f (list_remove i xs)) = sum_list (map f xs) - f (xs ! i)"
  for f :: "'a \<Rightarrow> rat"
proof (induction xs arbitrary: i)
  case (Cons x xs)
  then show ?case by (cases i) auto
qed simp

lemma sum_list_update:
  "i < length xs \<Longrightarrow> sum_list (map f (xs[i := y])) = sum_list (map f xs) - f (xs ! i) + f y"
  for f :: "'a \<Rightarrow> rat"
  by (induction xs arbitrary: i) (auto split: nat.splits)

section \<open>Decimal output\<close>

text \<open>The \<open>{}\<close> of \<open>format!\<close> for an unsigned integer.\<close>

fun string_of_nat :: "nat \<Rightarrow> string" where
  "string_of_nat n =
     (if n < 10 then [char_of (48 + n)] else string_of_nat (n div 10) @ [char_of (48 + n mod 10)])"

declare string_of_nat.simps [simp del]

definition digit_value :: "char \<Rightarrow> nat" where
  "digit_value c = of_char c - 48"

lemma digit_value_char [simp]: "k < 10 \<Longrightarrow> digit_value (char_of (48 + k)) = k"
  by (simp add: digit_value_def of_char_of)

lemma char_of_digit_neq_dash: "(k::nat) < 10 \<Longrightarrow> char_of (48 + k) \<noteq> CHR ''-''"
proof
  assume "k < 10" "char_of (48 + k) = CHR ''-''"
  then have "of_char (char_of (48 + k) :: char) = (45 :: nat)" by simp
  then show False using \<open>k < 10\<close> by (simp add: of_char_of)
qed

lemma string_of_nat_parse: "foldl (\<lambda>a c. 10 * a + digit_value c) 0 (string_of_nat n) = n"
proof (induction n rule: string_of_nat.induct)
  case (1 n)
  show ?case
  proof (cases "n < 10")
    case True
    then show ?thesis by (simp add: string_of_nat.simps[of n])
  next
    case False
    then have "string_of_nat n = string_of_nat (n div 10) @ [char_of (48 + n mod 10)]"
      by (simp only: string_of_nat.simps[of n] if_False)
    moreover have "digit_value (char_of (48 + n mod 10)) = n mod 10" by (rule digit_value_char) simp
    ultimately show ?thesis using 1[OF False] by simp
  qed
qed

lemma string_of_nat_inj: "string_of_nat m = string_of_nat n \<Longrightarrow> m = n"
  using string_of_nat_parse[of m] string_of_nat_parse[of n] by metis

lemma string_of_nat_no_dash: "CHR ''-'' \<notin> set (string_of_nat n)"
proof (induction n rule: string_of_nat.induct)
  case (1 n)
  show ?case
  proof (cases "n < 10")
    case True
    then show ?thesis using char_of_digit_neq_dash[of n] by (simp only: string_of_nat.simps[of n] if_True) auto
  next
    case False
    then have "string_of_nat n = string_of_nat (n div 10) @ [char_of (48 + n mod 10)]"
      by (simp only: string_of_nat.simps[of n] if_False)
    moreover have "char_of (48 + n mod 10) \<noteq> CHR ''-''" by (rule char_of_digit_neq_dash) simp
    ultimately show ?thesis using 1[OF False] by (metis Un_iff empty_iff insert_iff list.set set_append)
  qed
qed

text \<open>A list is determined by what follows the last separator and what precedes it.\<close>

lemma split_last_sep:
  assumes "xs @ c # ys = xs' @ c # ys'" "c \<notin> set ys" "c \<notin> set ys'"
  shows "xs = xs' \<and> ys = ys'"
proof -
  have "takeWhile (\<lambda>x. x \<noteq> c) (rev (as @ c # bs)) = rev bs" if "c \<notin> set bs" for as bs
    using that takeWhile_append2[of "rev bs" "\<lambda>x. x \<noteq> c" "c # rev as"] by auto
  from this[OF assms(2), of xs] this[OF assms(3), of xs'] have "ys = ys'" using assms(1) by simp
  then show ?thesis using assms(1) by simp
qed

section \<open>Iteration over hash maps\<close>

text \<open>
  A \<open>HashMap\<close> is a map; the order in which its iterator yields the keys is unspecified, so
  the functions that iterate take it as an argument \<open>iter\<close>. What the standard library
  promises of it is that it lists the keys, each once.
\<close>

definition lists_keys :: "(('k \<rightharpoonup> 'v) \<Rightarrow> 'k list) \<Rightarrow> ('k \<rightharpoonup> 'v) \<Rightarrow> bool" where
  "lists_keys iter m \<longleftrightarrow> distinct (iter m) \<and> set (iter m) = dom m"

section \<open>Tasks\<close>

text \<open>A task receives messages one by one; each step yields the next state and its output.\<close>

fun run_task :: "('s \<Rightarrow> 'e \<Rightarrow> 's \<times> 'o) \<Rightarrow> 's \<Rightarrow> 'e list \<Rightarrow> 's \<times> 'o list" where
  "run_task step s [] = (s, [])"
| "run_task step s (e # es) =
     (let (s1, out) = step s e; (s2, outs) = run_task step s1 es in (s2, out # outs))"

lemma run_task_Cons:
  "fst (run_task step s (e # es)) = fst (run_task step (fst (step s e)) es)"
  "snd (run_task step s (e # es)) = snd (step s e) # snd (run_task step (fst (step s e)) es)"
  by (simp_all add: case_prod_unfold Let_def)

lemma run_task_fst: "fst (run_task step s es) = foldl (\<lambda>s e. fst (step s e)) s es"
  by (induction es arbitrary: s) (simp_all add: run_task_Cons del: run_task.simps(2))

lemma run_task_append:
  "fst (run_task step s (es @ es')) = fst (run_task step (fst (run_task step s es)) es')"
  "snd (run_task step s (es @ es')) = snd (run_task step s es) @ snd (run_task step (fst (run_task step s es)) es')"
  by (induction es arbitrary: s) (simp_all add: run_task_Cons del: run_task.simps(2))

lemma run_task_length [simp]: "length (snd (run_task step s es)) = length es"
  by (induction es arbitrary: s) (simp_all add: run_task_Cons del: run_task.simps(2))

text \<open>A task whose step may never return; then the run does not return either.\<close>

fun run_partial :: "('s \<Rightarrow> 'e \<Rightarrow> ('s \<times> 'o) option) \<Rightarrow> 's \<Rightarrow> 'e list \<Rightarrow> ('s \<times> 'o list) option" where
  "run_partial step s [] = Some (s, [])"
| "run_partial step s (e # es) = (case step s e of
     None \<Rightarrow> None
   | Some (s1, out) \<Rightarrow> map_option (\<lambda>(s2, outs). (s2, out # outs)) (run_partial step s1 es))"

lemma run_partial_append:
  "run_partial step s (es @ es') = (case run_partial step s es of
     None \<Rightarrow> None
   | Some (s1, outs) \<Rightarrow> map_option (\<lambda>(s2, outs'). (s2, outs @ outs')) (run_partial step s1 es'))"
  by (induction es arbitrary: s) (auto simp: option.map_comp comp_def case_prod_unfold option.map_ident split: option.split)

lemma run_partial_length: "run_partial step s es = Some (s', outs) \<Longrightarrow> length outs = length es"
  by (induction es arbitrary: s outs) (auto split: option.splits)

section \<open>Interfaces\<close>

text \<open>
  A component that is driven by its input is a step function and an invariant that every step
  keeps; then every run keeps it. The components interpret this contract on their own steps.
\<close>

locale guarded_handler =
  fixes step :: "'s \<Rightarrow> 'e \<Rightarrow> 's" and ok :: "'s \<Rightarrow> bool" and valid :: "'e \<Rightarrow> bool"
  assumes step_valid: "ok s \<Longrightarrow> valid e \<Longrightarrow> ok (step s e)"
begin

lemma run_valid: "ok s \<Longrightarrow> list_all valid es \<Longrightarrow> ok (foldl step s es)"
  by (induction es arbitrary: s) (auto intro: step_valid)

lemma run_then: "ok s \<Longrightarrow> list_all valid es \<Longrightarrow> valid e \<Longrightarrow> ok (step (foldl step s es) e)"
  by (intro step_valid run_valid)

end

locale handler =
  fixes step :: "'s \<Rightarrow> 'e \<Rightarrow> 's" and ok :: "'s \<Rightarrow> bool"
  assumes step_ok: "ok s \<Longrightarrow> ok (step s e)"

text \<open>A handler is a guarded handler of which every input is valid.\<close>

sublocale handler \<subseteq> guarded_handler step ok "\<lambda>_. True"
  by unfold_locales (rule step_ok)

context handler
begin

lemma run_ok: "ok s \<Longrightarrow> ok (foldl step s es)"
  by (rule run_valid) (simp_all add: list_all_iff)

end

text \<open>A step that returns on every valid input, with a good output: then every run returns.\<close>

locale returning_handler =
  fixes step :: "'s \<Rightarrow> 'e \<Rightarrow> ('s \<times> 'o) option" and ok :: "'s \<Rightarrow> bool" and valid :: "'e \<Rightarrow> bool"
    and good :: "'o \<Rightarrow> bool"
  assumes step_returns: "ok s \<Longrightarrow> valid e \<Longrightarrow> \<exists>s' out. step s e = Some (s', out) \<and> ok s' \<and> good out"
begin

lemma run_returns:
  "ok s \<Longrightarrow> list_all valid es \<Longrightarrow> \<exists>s' outs. run_partial step s es = Some (s', outs) \<and> ok s' \<and> list_all good outs"
proof (induction es arbitrary: s)
  case (Cons e es)
  then obtain s1 out where "step s e = Some (s1, out)" "ok s1" "good out" using step_returns[of s e] by auto
  then show ?case using Cons.IH[of s1] Cons.prems by auto
qed simp

lemma run_keeps:
  "ok s \<Longrightarrow> list_all valid es \<Longrightarrow> run_partial step s es = Some (s', outs) \<Longrightarrow> ok s' \<and> list_all good outs"
  using run_returns[of s es] by auto

end

text \<open>A measure that no step decreases (a counter, a running total) and a switch that stays on.\<close>

locale counting_handler = handler step ok
  for step :: "'s \<Rightarrow> 'e \<Rightarrow> 's" and ok +
  fixes count :: "'s \<Rightarrow> 'n::order"
  assumes step_count: "ok s \<Longrightarrow> count s \<le> count (step s e)"
begin

lemma run_count: "ok s \<Longrightarrow> count s \<le> count (foldl step s es)"
proof (induction es arbitrary: s)
  case (Cons e es)
  have "count s \<le> count (step s e)" using Cons.prems by (rule step_count)
  also have "\<dots> \<le> count (foldl step (step s e) es)" using Cons by (simp add: step_ok)
  finally show ?case by simp
qed simp

lemma run_count_append: "ok s \<Longrightarrow> count (foldl step s es) \<le> count (foldl step s (es @ es'))"
  by (simp add: run_count run_ok)

end

text \<open>A bounded window: a push appends, and drops from the front what exceeds the capacity.\<close>

locale window =
  fixes push :: "'q \<Rightarrow> 'a \<Rightarrow> 'q" and items :: "'q \<Rightarrow> 'a list" and capacity :: nat
  assumes capacity_pos: "0 < capacity"
    and items_push: "length (items q) \<le> capacity \<Longrightarrow>
      items (push q x) = drop (length (items q) + 1 - capacity) (items q @ [x])"
begin

lemma push_bounded: "length (items q) \<le> capacity \<Longrightarrow> length (items (push q x)) \<le> capacity"
  by (simp add: items_push)

lemma push_all_bounded: "length (items q) \<le> capacity \<Longrightarrow> length (items (foldl push q xs)) \<le> capacity"
  by (induction xs arbitrary: q) (auto simp: push_bounded)

lemma push_last: "length (items q) \<le> capacity \<Longrightarrow> last (items (push q x)) = x"
  using capacity_pos by (simp add: items_push)

text \<open>After any number of pushes the window holds the most recent ones, in order.\<close>

lemma push_all: "length (items q) \<le> capacity \<Longrightarrow>
    items (foldl push q xs) = drop (length (items q) + length xs - capacity) (items q @ xs)"
proof (induction xs arbitrary: q)
  case (Cons x xs)
  have IH: "items (foldl push q (x # xs)) =
      drop (length (items (push q x)) + length xs - capacity) (items (push q x) @ xs)"
    using Cons by (simp add: push_bounded)
  show ?case
  proof (cases "length (items q) < capacity")
    case True
    then have "items (push q x) = items q @ [x]" using Cons.prems by (simp add: items_push)
    then show ?thesis using IH by simp
  next
    case False
    then have l: "length (items q) = capacity" using Cons.prems by simp
    then obtain y ys where q: "items q = y # ys" using capacity_pos by (cases "items q") auto
    have "items (push q x) = ys @ [x]" using Cons.prems l by (simp add: items_push q)
    then show ?thesis using IH l by (auto simp: q drop_Cons' split: if_splits)
  qed
qed simp

end

text \<open>
  A timed window: trimming drops the expired items from the front. If the items arrive in the
  order of their time stamps, no expired item stays behind a younger one.
\<close>

lemma dropWhile_sorted:
  "sorted (map f xs) \<Longrightarrow> dropWhile (\<lambda>x. f x < c) xs = filter (\<lambda>x. c \<le> f x) xs" for c :: "'b::linorder"
  by (induction xs) (auto simp: not_less intro!: filter_True[symmetric])

locale timed_window =
  fixes stamp :: "'a \<Rightarrow> u64" and items :: "'q \<Rightarrow> 'a list" and trim :: "'q \<Rightarrow> u64 \<Rightarrow> 'q" and span :: "'q \<Rightarrow> u64"
  assumes items_trim: "items (trim q now) = dropWhile (\<lambda>x. stamp x < sat_sub now (span q)) (items q)"
begin

lemma trim_subset: "set (items (trim q now)) \<subseteq> set (items q)"
  by (auto simp: items_trim dest: set_dropWhileD)

lemma trim_filter:
  assumes "sorted (map stamp (items q))"
  shows "items (trim q now) = filter (\<lambda>x. sat_sub now (span q) \<le> stamp x) (items q)"
  unfolding items_trim using assms by (rule dropWhile_sorted)

end

end
