(* ===== verification/Types.thy ===== *)
theory Types
  imports Prelude
begin

text \<open>
  The shared domain types of \<open>rtts/src/types.rs\<close> and \<open>config.rs\<close>, with the small
  types of the accounting modules they mention.

  A struct is a record whose field names carry a prefix for the struct (\<open>te_price\<close> is
  \<open>TradeEvent.price\<close>, \<open>oi_urgency\<close> is \<open>OrderIntent.urgency\<close>); an enum is a datatype with
  the source's variants, renamed only where two enums share a variant (\<open>RegimeNormal\<close>,
  \<open>CompetitionNormal\<close>, \<open>TimingWait\<close>, \<open>ExitD\<close> for \<open>Decision::Exit\<close>, \<open>FlagNone\<close>).
  \<open>u64\<close>, \<open>u32\<close> and \<open>usize\<close> are words of their width, \<open>f64\<close> is the type of \<open>F64\<close>,
  strings are character lists. The \<open>*_default\<close> constants are the \<open>Default\<close> implementations.
\<close>

section \<open>Structs and enums\<close>

datatype side = Buy | Sell

datatype direction = Long | Short | Flat

record trade_event =
  te_timestamp :: u64
  te_price :: f64
  te_volume :: f64
  te_side :: side

record book_level =
  bl_price :: f64
  bl_quantity :: f64

record book_delta =
  bd_timestamp :: u64
  bd_bids :: "book_level list"
  bd_asks :: "book_level list"

datatype market_update = TradeUpdate trade_event | BookUpdate book_delta

record market_event =
  me_timestamp :: u64
  me_price :: f64
  me_volume :: f64
  me_side :: side
  me_bid_ask_imbalance :: f64
  me_spread :: f64

datatype event = DumpDetected | PumpDetected | EventNeutral

record features =
  ft_velocity :: f64
  ft_vol_z :: f64
  ft_imbalance :: f64
  ft_volatility :: f64
  ft_spread :: f64
  ft_weighted_imbalance :: f64
  ft_spread_dynamics :: f64
  ft_micro_price_velocity :: f64
  ft_trade_clustering :: f64
  ft_liquidity_shift :: f64
  ft_order_flow_delta :: f64
  ft_absorption :: f64
  ft_spoofing_risk :: f64
  ft_liquidity_pull :: f64

datatype decision = Ignore | EnterSmall | ScaleIn | ExitD

datatype flow_signal = StrongContinuation | WeakContinuation | Exhaustion | ReversalRisk

record flow_state =
  fs_signal :: flow_signal
  fs_aggressive_ratio :: f64
  fs_absorption :: f64
  fs_exhaustion :: f64
  fs_continuation_strength :: f64

datatype timing_signal = Optimal | TimingNeutral | TimingWait | Missed

record micro_timing_state =
  mt_signal :: timing_signal
  mt_spread_compression :: f64
  mt_liquidity_pull :: f64
  mt_trade_burst :: f64
  mt_micro_pullback :: f64
  mt_timing_score :: f64

datatype scenario_type = ScContinuation | ScReversal | ScChop

record scenario =
  sc_name :: scenario_type
  sc_probability :: f64
  sc_expected_pnl :: f64
  sc_risk :: f64

datatype final_decision = Execute | Wait | Skip

record meta_decision =
  md_decision :: final_decision
  md_scenarios :: "scenario list"
  md_ev :: f64
  md_adjusted_ev :: f64
  md_worst_case_loss :: f64
  md_entry_quality :: f64
  md_competition_score :: f64
  md_opportunity_rank :: f64
  md_reason :: string

record position =
  pos_size :: f64
  pos_avg_price :: f64
  pos_entries :: u32
  pos_confidence :: f64
  pos_unrealized_pnl :: f64

record order_book_state =
  ob_best_bid :: f64
  ob_best_ask :: f64
  ob_bid_volume :: f64
  ob_ask_volume :: f64
  ob_imbalance :: f64
  ob_liquidity_clusters :: "f64 list"
  ob_top_pressure :: f64
  ob_weighted_imbalance :: f64
  ob_spread :: f64
  ob_spoofing_score :: f64
  ob_liquidity_pull :: f64
  ob_absorption :: f64

record tape_state =
  ts_buy_volume :: f64
  ts_sell_volume :: f64
  ts_delta :: f64
  ts_trade_frequency :: f64
  ts_volume_burst :: f64
  ts_exhaustion :: f64
  ts_continuation :: f64
  ts_last_price :: f64

record market_regime =
  mr_volatility :: f64
  mr_spread :: f64
  mr_trend_strength :: f64

datatype regime_kind = RegimeNormal | HighVolatility | NewsShock | LowLiquidity | TrendExpansion

record market_context =
  mc_regime :: regime_kind
  mc_volatility :: f64
  mc_liquidity_score :: f64
  mc_stability_score :: f64

record trigger_snapshot =
  tr_local_high :: f64
  tr_drop_pct :: f64
  tr_in_observation :: bool
  tr_confirmed :: bool
  tr_expected_edge :: f64
  tr_should_exit :: bool

datatype reversal_state = Idle | ObserveLongToShort | ObserveShortToLong

record reversal_snapshot =
  rs_state :: reversal_state
  rs_active :: bool
  rs_confirmed :: bool
  rs_direction :: direction
  rs_confidence :: f64
  rs_expected_edge :: f64

record reversal_classifier_snapshot =
  rc_reversal_probability :: f64
  rc_continuation_probability :: f64
  rc_chop_probability :: f64
  rc_intent_score :: f64
  rc_movement_score :: f64
  rc_ready_long :: bool
  rc_ready_short :: bool

record entry_scoring_snapshot =
  es_enter_long :: bool
  es_enter_short :: bool
  es_wait :: bool
  es_score :: f64
  es_confidence :: f64
  es_expected_edge :: f64

record microstructure_frame =
  mf_timestamp :: u64
  mf_trade :: "trade_event option"
  mf_book :: order_book_state
  mf_tape :: tape_state
  mf_features :: features
  mf_regime :: market_regime
  mf_context :: market_context
  mf_flow :: flow_state
  mf_timing :: micro_timing_state
  mf_trigger :: trigger_snapshot
  mf_reversal :: reversal_snapshot
  mf_reversal_classifier :: reversal_classifier_snapshot
  mf_entry_scoring :: entry_scoring_snapshot
  mf_stale :: bool

datatype order_type = MarketOrder | LimitOrder

datatype execution_mode = Aggressive | Passive | Defensive

datatype fill_probability_class = HighFill | LowFill

datatype competition_flag = FlagNone | SlowFill | RepeatedOutbid | CancelLatency | PartialFillToxicity

datatype competition_state = CompetitionNormal | Competitive | Saturated

datatype edge_state = Valid | Uncertain | Invalid

datatype edge_regime = Stable | Decaying | Unstable

datatype liquidity_flag = Maker | Taker

record latency_breakdown =
  lb_decision_latency_us :: u64
  lb_send_latency_us :: u64
  lb_ack_latency_us :: u64
  lb_first_fill_latency_us :: u64
  lb_full_fill_latency_us :: u64

record scored_decision =
  sd_market :: market_event
  sd_event :: event
  sd_features :: features
  sd_regime :: market_regime
  sd_context :: market_context
  sd_flow :: flow_state
  sd_timing :: micro_timing_state
  sd_direction :: direction
  sd_confidence :: f64
  sd_continuation_prob :: f64
  sd_reversal_prob :: f64
  sd_score :: f64
  sd_decision :: decision
  sd_expected_duration_ms :: u64
  sd_urgency :: f64
  sd_expected_slippage_bps :: f64
  sd_data_latency_ms :: u64
  sd_adversarial_risk :: f64
  sd_edge_state :: edge_state
  sd_edge_regime :: edge_regime
  sd_edge_reliability_score :: f64
  sd_edge_half_life_samples :: f64
  sd_edge_capture_mean :: f64
  sd_negative_capture_streak :: usize
  sd_execution_alpha_mean :: f64
  sd_markout_degradation_score :: f64
  sd_dynamic_size_multiplier :: f64
  sd_competition_state :: competition_state
  sd_competition_score :: f64
  sd_trading_enabled :: bool
  sd_fill_probability :: fill_probability_class

record queue_estimate =
  qe_queue_position :: f64
  qe_volume_ahead :: f64
  qe_fill_probability :: f64
  qe_placement_depth_bps :: f64

datatype micro_exit_reason = ExitNone | TakeProfit | MomentumFade | AdverseFlow | LiquidityCollapse

record micro_exit_signal =
  mx_reason :: micro_exit_reason
  mx_reduce_ratio :: f64
  mx_urgency :: f64

record markout_snapshot =
  mk_pnl_100ms :: f64
  mk_pnl_500ms :: f64
  mk_pnl_1s :: f64
  mk_pnl_5s :: f64

record execution_truth =
  et_request_timestamp :: u64
  et_send_timestamp :: u64
  et_ack_timestamp :: u64
  et_exchange_accept_timestamp :: u64
  et_first_fill_timestamp :: u64
  et_last_fill_timestamp :: u64
  et_partial_fill_ratio :: f64
  et_cancel_reason :: "string option"
  et_reject_reason :: "string option"
  et_spread_at_execution :: f64
  et_queue_delay_us :: u64
  et_simulated :: bool

record execution_event =
  xe_symbol :: string
  xe_side :: side
  xe_fill_quality :: f64
  xe_slippage_real :: f64
  xe_adverse_selection_score :: f64
  xe_markout_curve :: markout_snapshot
  xe_execution_latency_us :: u64
  xe_latency_breakdown :: latency_breakdown
  xe_expected_markout :: f64
  xe_fees_paid :: f64
  xe_rebates_received :: f64
  xe_funding_cost :: f64
  xe_regime :: market_regime
  xe_competition_flag :: competition_flag
  xe_truth :: execution_truth

record symbol_profile =
  sp_symbol :: string
  sp_avg_spread_bps :: f64
  sp_avg_fill_probability :: f64
  sp_volatility_ema :: f64
  sp_avg_trade_size :: f64

record order_request =
  rq_symbol :: string
  rq_side :: side
  rq_size :: f64
  rq_price :: "f64 option"
  rq_order_type :: order_type
  rq_post_only :: bool
  rq_reduce_only :: bool
  rq_max_slippage_bps :: f64

record order_intent =
  oi_request :: order_request
  oi_reason :: decision
  oi_score :: f64
  oi_last_price :: f64
  oi_position_before :: position
  oi_timestamp :: u64
  oi_urgency :: f64
  oi_expected_slippage_bps :: f64
  oi_expected_duration_ms :: u64
  oi_data_latency_ms :: u64
  oi_regime :: market_regime
  oi_context :: market_context
  oi_flow :: flow_state
  oi_timing :: micro_timing_state
  oi_edge_state :: edge_state
  oi_edge_regime :: edge_regime
  oi_edge_reliability_score :: f64
  oi_edge_half_life_samples :: f64
  oi_edge_capture_mean :: f64
  oi_negative_capture_streak :: usize
  oi_execution_alpha_mean :: f64
  oi_markout_degradation_score :: f64
  oi_dynamic_size_multiplier :: f64
  oi_competition_state :: competition_state
  oi_competition_score :: f64
  oi_trading_enabled :: bool
  oi_execution_mode :: execution_mode
  oi_queue_estimate :: queue_estimate
  oi_fill_probability :: fill_probability_class
  oi_meta :: "meta_decision option"

record fill_event =
  fe_order_id :: string
  fe_fill_id :: string
  fe_symbol :: string
  fe_side :: side
  fe_size :: f64
  fe_price :: f64
  fe_requested_price :: f64
  fe_filled_size :: f64
  fe_remaining_size :: f64
  fe_liquidity_flag :: liquidity_flag
  fe_fee :: f64
  fe_fee_asset :: string
  fe_rebate_amount :: f64
  fe_funding_amount :: f64
  fe_timestamp :: u64
  fe_latency_us :: u64
  fe_latency_breakdown :: latency_breakdown
  fe_expected_markout :: f64
  fe_expected_slippage_bps :: f64
  fe_actual_slippage_bps :: f64
  fe_competition_flag :: competition_flag
  fe_queue_estimate :: queue_estimate
  fe_execution_mode :: execution_mode
  fe_micro_exit :: micro_exit_signal
  fe_markout :: markout_snapshot
  fe_regime :: market_regime
  fe_complete :: bool
  fe_truth :: execution_truth

record learning_sample =
  ls_timestamp :: u64
  ls_direction :: direction
  ls_confidence :: f64
  ls_predicted_score :: f64
  ls_expected_slippage_bps :: f64
  ls_actual_slippage_bps :: f64
  ls_pnl :: f64
  ls_expected_markout :: f64
  ls_realized_markout :: f64
  ls_execution_alpha :: f64
  ls_fill_ratio :: f64
  ls_fees_paid :: f64
  ls_rebates_received :: f64
  ls_funding_cost :: f64
  ls_edge_component :: f64
  ls_execution_loss :: f64
  ls_fees_rebates_component :: f64
  ls_adverse_selection_loss :: f64
  ls_edge_capture_ratio :: f64
  ls_competition_state :: competition_state
  ls_duration_ms :: u64
  ls_entry_quality :: f64
  ls_markout_100ms :: f64
  ls_markout_500ms :: f64
  ls_markout_1s :: f64
  ls_markout_5s :: f64
  ls_regime :: market_regime

datatype exchange = Binance | Mock

record config =
  cf_exchange :: exchange
  cf_symbol :: string
  cf_capital :: f64
  cf_max_risk_pct :: f64
  cf_max_daily_drawdown_pct :: f64
  cf_base_order_usd :: f64
  cf_max_entries :: u32
  cf_stop_loss_bps :: f64
  cf_max_data_age_ms :: u64
  cf_max_decision_latency_us :: u64
  cf_max_execution_latency_us :: u64
  cf_max_consecutive_losses :: u32
  cf_channel_capacity :: usize
  cf_window_ms :: u64
  cf_metrics_addr :: string
  cf_control_plane_http :: string
  cf_control_plane_ws :: string
  cf_max_cancel_per_order :: u32
  cf_max_replace_per_order :: u32
  cf_execution_action_cooldown_ms :: u64
  cf_queue_replace_volume_factor :: f64
  cf_min_fill_probability :: f64
  cf_trigger_drop_pct :: f64
  cf_trigger_reset_pct :: f64
  cf_model_weights_path :: string

section \<open>Methods and conversions\<close>

fun opposite :: "side \<Rightarrow> side" where
  "opposite Buy = Sell"
| "opposite Sell = Buy"

fun direction_side :: "direction \<Rightarrow> side option" where
  "direction_side Long = Some Buy"
| "direction_side Short = Some Sell"
| "direction_side Flat = None"

definition market_event_of_trade :: "trade_event \<Rightarrow> market_event" where
  "market_event_of_trade v =
     \<lparr>me_timestamp = te_timestamp v, me_price = te_price v, me_volume = te_volume v,
      me_side = te_side v, me_bid_ask_imbalance = 0, me_spread = 0\<rparr>"

definition is_open :: "position \<Rightarrow> bool" where
  "is_open p \<longleftrightarrow> f_epsilon < f_abs (pos_size p)"

definition position_side :: "position \<Rightarrow> side option" where
  "position_side p = (if 0 < pos_size p then Some Buy else if pos_size p < 0 then Some Sell else None)"

definition update_unrealized :: "position \<Rightarrow> f64 \<Rightarrow> position" where
  "update_unrealized p mark_price =
     (if is_open p then p\<lparr>pos_unrealized_pnl := (mark_price - pos_avg_price p) * pos_size p\<rparr>
      else p\<lparr>pos_unrealized_pnl := 0\<rparr>)"

section \<open>Defaults\<close>

definition position_default :: position where
  "position_default =
     \<lparr>pos_size = 0, pos_avg_price = 0, pos_entries = 0, pos_confidence = 0, pos_unrealized_pnl = 0\<rparr>"

definition market_context_default :: market_context where
  "market_context_default =
     \<lparr>mc_regime = RegimeNormal, mc_volatility = 0, mc_liquidity_score = 1, mc_stability_score = 1\<rparr>"

definition reversal_snapshot_default :: reversal_snapshot where
  "reversal_snapshot_default =
     \<lparr>rs_state = Idle, rs_active = False, rs_confirmed = False, rs_direction = Flat,
      rs_confidence = 0, rs_expected_edge = 0\<rparr>"

definition symbol_profile_default :: symbol_profile where
  "symbol_profile_default =
     \<lparr>sp_symbol = [], sp_avg_spread_bps = lit 4, sp_avg_fill_probability = lit 0.5,
      sp_volatility_ema = 1, sp_avg_trade_size = 1\<rparr>"

definition features_default :: features where
  "features_default =
     \<lparr>ft_velocity = 0, ft_vol_z = 0, ft_imbalance = 0, ft_volatility = 0, ft_spread = 0,
      ft_weighted_imbalance = 0, ft_spread_dynamics = 0, ft_micro_price_velocity = 0,
      ft_trade_clustering = 0, ft_liquidity_shift = 0, ft_order_flow_delta = 0,
      ft_absorption = 0, ft_spoofing_risk = 0, ft_liquidity_pull = 0\<rparr>"

definition queue_estimate_default :: queue_estimate where
  "queue_estimate_default =
     \<lparr>qe_queue_position = 0, qe_volume_ahead = 0, qe_fill_probability = 0, qe_placement_depth_bps = 0\<rparr>"

definition trigger_snapshot_default :: trigger_snapshot where
  "trigger_snapshot_default =
     \<lparr>tr_local_high = 0, tr_drop_pct = 0, tr_in_observation = False, tr_confirmed = False,
      tr_expected_edge = 0, tr_should_exit = False\<rparr>"

definition markout_snapshot_default :: markout_snapshot where
  "markout_snapshot_default = \<lparr>mk_pnl_100ms = 0, mk_pnl_500ms = 0, mk_pnl_1s = 0, mk_pnl_5s = 0\<rparr>"

definition micro_exit_signal_default :: micro_exit_signal where
  "micro_exit_signal_default = \<lparr>mx_reason = ExitNone, mx_reduce_ratio = 0, mx_urgency = 0\<rparr>"

definition market_regime_default :: market_regime where
  "market_regime_default = \<lparr>mr_volatility = 0, mr_spread = 0, mr_trend_strength = 0\<rparr>"

text \<open>The default values of the command line arguments.\<close>

definition config_default :: config where
  "config_default =
     \<lparr>cf_exchange = Mock, cf_symbol = ''BTCUSDT'', cf_capital = lit 10000, cf_max_risk_pct = lit 0.005,
      cf_max_daily_drawdown_pct = lit 0.02, cf_base_order_usd = lit 25, cf_max_entries = 4,
      cf_stop_loss_bps = lit 25, cf_max_data_age_ms = 250, cf_max_decision_latency_us = 1500,
      cf_max_execution_latency_us = 8000, cf_max_consecutive_losses = 3, cf_channel_capacity = 4096,
      cf_window_ms = 500, cf_metrics_addr = ''127.0.0.1:9898'',
      cf_control_plane_http = ''http://127.0.0.1:8088'', cf_control_plane_ws = ''ws://127.0.0.1:8088/ws'',
      cf_max_cancel_per_order = 2, cf_max_replace_per_order = 3, cf_execution_action_cooldown_ms = 40,
      cf_queue_replace_volume_factor = lit 1.35, cf_min_fill_probability = lit 0.28,
      cf_trigger_drop_pct = lit 0.015, cf_trigger_reset_pct = lit 0.025, cf_model_weights_path = []\<rparr>"

section \<open>Facts\<close>

lemma opposite_opposite [simp]: "opposite (opposite s) = s"
  by (cases s) simp_all

lemma opposite_neq [simp]: "opposite s \<noteq> s" "s \<noteq> opposite s"
  by (cases s; simp)+

lemma side_neq_iff: "(s \<noteq> t) = (t = opposite s)"
  by (cases s; cases t; simp)

lemma position_default_closed [simp]: "\<not> is_open position_default"
  by (simp add: is_open_def position_default_def zero_f64_def f_epsilon_def less_f64_def)

text \<open>A position that passes \<open>is_open\<close> has a side: \<open>position.side()?\<close> never leaves the function there.\<close>

lemma is_open_side: "is_open p \<Longrightarrow> \<exists>s. position_side p = Some s"
  by (cases "pos_size p")
     (auto simp: is_open_def position_side_def less_f64_def zero_f64_def f_epsilon_def split: if_splits)

end
