(* ===== verification/Ledger.thy ===== *)
theory Ledger
  imports Types
begin

text \<open>
  The position ledger of \<open>rtts/src/accounting/ledger.rs\<close>: fills open lots and are matched
  against the lots of the other side, oldest first (\<open>Fifo\<close>) or newest first (\<open>Lifo\<close>).

  The matching loop \<open>match_loop\<close> is a function that is shown to terminate on every floating
  point input. The facts are: the open lots of a symbol are all on one side and never dust
  (\<open>lots_ok\<close>), the loop is the plain consumption of the lots from one end (\<open>consume\<close>), the
  totals are the sums of the recorded entries, and the net quantity is conserved up to a
  rounding bound. The order in which the hash map of marks is iterated is the parameter
  \<open>iter\<close>.
\<close>

section \<open>State\<close>

datatype lot_matching_method = Fifo | Lifo

record fill_ledger_entry =
  fl_order_id :: string
  fl_fill_id :: string
  fl_symbol :: string
  fl_side :: side
  fl_price :: f64
  fl_quantity :: f64
  fl_liquidity_flag :: liquidity_flag
  fl_fee_amount :: f64
  fl_fee_asset :: string
  fl_rebate_amount :: f64
  fl_funding_amount :: f64
  fl_event_time :: u64

record position_lot =
  pl_side :: side
  pl_entry_price :: f64
  pl_quantity :: f64
  pl_remaining_qty :: f64
  pl_realized_pnl :: f64
  pl_remaining_fee_amount :: f64
  pl_remaining_rebate_amount :: f64
  pl_remaining_funding_amount :: f64

record realized_pnl_entry =
  re_trade_id :: string
  re_pnl :: f64
  re_fees :: f64
  re_funding :: f64
  re_timestamp :: u64

record account_state =
  as_open_positions :: "string \<rightharpoonup> position_lot list"
  as_realized_pnl_total :: f64
  as_unrealized_pnl :: f64
  as_fee_total :: f64
  as_funding_total :: f64
  as_rebate_total :: f64

record position_exposure =
  px_net_quantity :: f64
  px_avg_entry_price :: f64
  px_open_lots :: nat
  px_realized_pnl :: f64
  px_unrealized_pnl :: f64

record accounting_engine =
  ae_matching_method :: lot_matching_method
  ae_state :: account_state
  ae_ledger_entries :: "fill_ledger_entry list"
  ae_realized_entries :: "realized_pnl_entry list"
  ae_mark_prices :: "string \<rightharpoonup> f64"

record ledger_batch_update =
  lu_ledger_entries :: "fill_ledger_entry list"
  lu_pnl_state :: account_state

definition account_state_default :: account_state where
  "account_state_default =
     \<lparr>as_open_positions = Map.empty, as_realized_pnl_total = 0, as_unrealized_pnl = 0,
      as_fee_total = 0, as_funding_total = 0, as_rebate_total = 0\<rparr>"

definition position_exposure_default :: position_exposure where
  "position_exposure_default =
     \<lparr>px_net_quantity = 0, px_avg_entry_price = 0, px_open_lots = 0, px_realized_pnl = 0,
      px_unrealized_pnl = 0\<rparr>"

definition accounting_engine_new :: "lot_matching_method \<Rightarrow> accounting_engine" where
  "accounting_engine_new method =
     \<lparr>ae_matching_method = method, ae_state = account_state_default, ae_ledger_entries = [],
      ae_realized_entries = [], ae_mark_prices = Map.empty\<rparr>"

definition dust :: f64 where
  "dust = lit (1 / 10 ^ 12)"

section \<open>Operations\<close>

definition push_lot :: "position_lot list \<Rightarrow> position_lot \<Rightarrow> lot_matching_method \<Rightarrow> position_lot list" where
  "push_lot lots lot method = (case method of Fifo \<Rightarrow> lots @ [lot] | Lifo \<Rightarrow> lots @ [lot])"

definition opposite_lot_index :: "position_lot list \<Rightarrow> side \<Rightarrow> lot_matching_method \<Rightarrow> nat option" where
  "opposite_lot_index lots s method =
     (case method of
        Fifo \<Rightarrow> list_position (\<lambda>lot. pl_side lot \<noteq> s) lots
      | Lifo \<Rightarrow> list_rposition (\<lambda>lot. pl_side lot \<noteq> s) lots)"

fun realized_gross :: "side \<Rightarrow> f64 \<Rightarrow> f64 \<Rightarrow> f64 \<Rightarrow> f64" where
  "realized_gross Buy entry_price exit_price quantity = (exit_price - entry_price) * quantity"
| "realized_gross Sell entry_price exit_price quantity = (entry_price - exit_price) * quantity"

definition unrealized_for_lot :: "position_lot \<Rightarrow> f64 \<Rightarrow> f64" where
  "unrealized_for_lot lot mark_price =
     (case pl_side lot of
        Buy \<Rightarrow> (mark_price - pl_entry_price lot) * pl_remaining_qty lot
      | Sell \<Rightarrow> (pl_entry_price lot - mark_price) * pl_remaining_qty lot)"

fun signed_quantity :: "side \<Rightarrow> f64 \<Rightarrow> f64" where
  "signed_quantity Buy quantity = quantity"
| "signed_quantity Sell quantity = - quantity"

definition per_unit :: "f64 \<Rightarrow> f64 \<Rightarrow> f64" where
  "per_unit amount quantity = (if quantity \<le> dust then 0 else amount / quantity)"

text \<open>One match: the lot after it, and the entry that records its profit.\<close>

definition match_lot ::
  "fill_ledger_entry \<Rightarrow> f64 \<Rightarrow> usize \<Rightarrow> position_lot \<Rightarrow> position_lot \<times> realized_pnl_entry" where
  "match_lot entry qty_left match_index lot =
     (let fee_per_unit = per_unit (fl_fee_amount entry) (fl_quantity entry);
          rebate_per_unit = per_unit (fl_rebate_amount entry) (fl_quantity entry);
          funding_per_unit = per_unit (fl_funding_amount entry) (fl_quantity entry);
          lot_qty_before = pl_remaining_qty lot;
          matched_qty = f_min qty_left (pl_remaining_qty lot);
          ratio = (if 0 < lot_qty_before then matched_qty / lot_qty_before else 0);
          entry_fee = pl_remaining_fee_amount lot * ratio;
          entry_rebate = pl_remaining_rebate_amount lot * ratio;
          entry_funding = pl_remaining_funding_amount lot * ratio;
          exit_fee = fee_per_unit * matched_qty;
          exit_rebate = rebate_per_unit * matched_qty;
          exit_funding = funding_per_unit * matched_qty;
          gross = realized_gross (pl_side lot) (pl_entry_price lot) (fl_price entry) matched_qty;
          net = gross - entry_fee - exit_fee + entry_rebate + exit_rebate - entry_funding - exit_funding
      in (lot\<lparr>pl_realized_pnl := pl_realized_pnl lot + net,
              pl_remaining_qty := f_max (pl_remaining_qty lot - matched_qty) 0,
              pl_remaining_fee_amount := f_max (pl_remaining_fee_amount lot - entry_fee) 0,
              pl_remaining_rebate_amount := f_max (pl_remaining_rebate_amount lot - entry_rebate) 0,
              pl_remaining_funding_amount := f_max (pl_remaining_funding_amount lot - entry_funding) 0\<rparr>,
          \<lparr>re_trade_id = fl_order_id entry @ '':'' @ fl_fill_id entry @ '':'' @ string_of_nat (unat match_index),
           re_pnl = net,
           re_fees = entry_fee + exit_fee - entry_rebate - exit_rebate,
           re_funding = entry_funding + exit_funding,
           re_timestamp = fl_event_time entry\<rparr>))"

definition matched_qty :: "f64 \<Rightarrow> position_lot \<Rightarrow> f64" where
  "matched_qty qty_left lot = f_min qty_left (pl_remaining_qty lot)"

text \<open>The first two facts about a match are what makes the loop end: afterwards the lot is used
  up or the fill is.\<close>

lemma f64_minus_self: "x - x = 0 \<or> x - x = NaN" for x :: f64
  by (cases x) (auto simp: minus_f64_def plus_f64_def zero_f64_def mk_def f_zero_def)

lemma dust_eq: "dust = Fin (4951760157141521 / 4951760157141521099596496896)"
  by (simp add: dust_def f64_eval)

lemma dust_val: "fin dust" "0 < val dust" "val dust \<le> 1 / 10 ^ 11"
  by (simp_all add: dust_eq)

lemma dust_pos: "0 < dust"
  using dust_val by (simp add: fin_less_iff)

lemma match_progress:
  "f_max (r - f_min q r) 0 \<le> dust \<or> \<not> dust < q - f_min q r"
proof -
  have a: "\<not> dust < x - x" for x
    using f64_minus_self[of x] dust_pos by (auto dest: f64_less_not_sym)
  have b: "f_max (x - x) 0 \<le> dust" for x
    using f64_minus_self[of x] dust_pos by (auto simp: f_max_def intro: f64_less_imp_le)
  show ?thesis using f_min_cases[of q r] a[of q] b[of r] by auto
qed

lemma match_lot_remaining:
  "match_lot e q i lot = (lot', r) \<Longrightarrow>
     pl_remaining_qty lot' = f_max (pl_remaining_qty lot - matched_qty q lot) 0"
  by (auto simp: match_lot_def matched_qty_def Let_def)

lemma match_lot_side: "match_lot e q i lot = (lot', r) \<Longrightarrow> pl_side lot' = pl_side lot"
  by (auto simp: match_lot_def Let_def)

lemma opposite_lot_index_Some:
  "opposite_lot_index lots s m = Some i \<Longrightarrow> i < length lots \<and> pl_side (lots ! i) \<noteq> s"
  by (cases m) (auto simp: opposite_lot_index_def dest: list_position_Some list_rposition_Some)

lemma opposite_lot_index_None:
  "(opposite_lot_index lots s m = None) = (\<forall>lot \<in> set lots. pl_side lot = s)"
  by (cases m) (auto simp: opposite_lot_index_def list_position_None list_rposition_None)

definition settle_lot :: "nat \<Rightarrow> position_lot \<Rightarrow> position_lot list \<Rightarrow> position_lot list" where
  "settle_lot index lot lots =
     (if pl_remaining_qty lot \<le> dust then list_remove index lots else lots[index := lot])"

text \<open>
  The loop of \<open>apply_fill_internal\<close>: the lots, the quantity left, the running total of realised
  profit, the entries so far and the match counter.
\<close>

function match_loop ::
  "lot_matching_method \<Rightarrow> fill_ledger_entry \<Rightarrow> position_lot list \<Rightarrow> f64 \<Rightarrow> f64 \<Rightarrow>
   realized_pnl_entry list \<Rightarrow> usize \<Rightarrow> position_lot list \<times> f64 \<times> f64 \<times> realized_pnl_entry list" where
  "match_loop method entry lots qty_left pnl_total realized match_index =
     (if dust < qty_left then
        (case opposite_lot_index lots (fl_side entry) method of
           None \<Rightarrow> (lots, qty_left, pnl_total, realized)
         | Some index \<Rightarrow>
             (let lot = lots ! index;
                  (lot', r) = match_lot entry qty_left match_index lot;
                  qty' = qty_left - matched_qty qty_left lot
              in match_loop method entry (settle_lot index lot' lots) qty' (pnl_total + re_pnl r)
                   (realized @ [r]) (sat_add match_index 1)))
      else (lots, qty_left, pnl_total, realized))"
  by pat_completeness auto
termination
proof (relation "measure (\<lambda>(m, e, lots, q, t, rs, i). 2 * length lots + (if dust < q then 1 else 0))",
    goal_cases)
  case (2 mth entry lots q pnl_total realized i index lot lr lot' r q')
  then have idx: "index < length lots" by (auto dest: opposite_lot_index_Some)
  have "pl_remaining_qty lot' \<le> dust \<or> \<not> dust < q'"
    using 2 match_progress[of "pl_remaining_qty lot" q]
    by (auto simp: matched_qty_def dest: match_lot_remaining [OF sym])
  then show ?case using 2 idx by (auto simp: settle_lot_def length_list_remove)
qed simp

declare match_loop.simps [simp del]

lemma match_loop_done:
  "\<not> dust < q \<or> opposite_lot_index lots (fl_side e) m = None \<Longrightarrow>
     match_loop m e lots q t rs i = (lots, q, t, rs)"
  by (auto simp: match_loop.simps)

lemma match_loop_step:
  "dust < q \<Longrightarrow> opposite_lot_index lots (fl_side e) m = Some k \<Longrightarrow>
   match_lot e q i (lots ! k) = (lot', r) \<Longrightarrow>
     match_loop m e lots q t rs i =
     match_loop m e (settle_lot k lot' lots) (q - matched_qty q (lots ! k)) (t + re_pnl r) (rs @ [r]) (sat_add i 1)"
  by (subst match_loop.simps) simp

text \<open>The induction the proofs use: either nothing is left to match, or one lot is matched.\<close>

lemma match_loop_rule [case_names finish match]:
  assumes "\<And>lots q t rs i. \<not> dust < q \<or> opposite_lot_index lots (fl_side e) m = None \<Longrightarrow> P lots q t rs i"
    and "\<And>lots q t rs i k lot' r. dust < q \<Longrightarrow> opposite_lot_index lots (fl_side e) m = Some k \<Longrightarrow>
      match_lot e q i (lots ! k) = (lot', r) \<Longrightarrow>
      P (settle_lot k lot' lots) (q - matched_qty q (lots ! k)) (t + re_pnl r) (rs @ [r]) (sat_add i 1) \<Longrightarrow>
      P lots q t rs i"
  shows "P lots q t rs i"
proof -
  have "e' = e \<Longrightarrow> m' = m \<Longrightarrow> P lots q t rs i" for e' m'
  proof (induction m' e' lots q t rs i rule: match_loop.induct)
    case (1 m' e' lots q t rs i)
    show ?case
    proof (cases "dust < q \<and> opposite_lot_index lots (fl_side e) m \<noteq> None")
      case True
      then obtain k where k: "dust < q" "opposite_lot_index lots (fl_side e) m = Some k" by auto
      obtain lot' r where l: "match_lot e q i (lots ! k) = (lot', r)" by force
      show ?thesis using 1 k l by (intro assms(2)[OF k l]) auto
    qed (use assms(1) in auto)
  qed
  then show ?thesis by simp
qed

text \<open>What the loop leaves of the fill opens a lot of its own.\<close>

definition new_lot :: "fill_ledger_entry \<Rightarrow> f64 \<Rightarrow> position_lot" where
  "new_lot entry qty_left =
     (let fee_per_unit = per_unit (fl_fee_amount entry) (fl_quantity entry);
          rebate_per_unit = per_unit (fl_rebate_amount entry) (fl_quantity entry);
          funding_per_unit = per_unit (fl_funding_amount entry) (fl_quantity entry)
      in \<lparr>pl_side = fl_side entry, pl_entry_price = fl_price entry, pl_quantity = qty_left,
          pl_remaining_qty = qty_left, pl_realized_pnl = 0,
          pl_remaining_fee_amount = fee_per_unit * qty_left,
          pl_remaining_rebate_amount = rebate_per_unit * qty_left,
          pl_remaining_funding_amount = funding_per_unit * qty_left\<rparr>)"

definition lots_of :: "accounting_engine \<Rightarrow> string \<Rightarrow> position_lot list" where
  "lots_of engine symbol =
     (case as_open_positions (ae_state engine) symbol of None \<Rightarrow> [] | Some lots \<Rightarrow> lots)"

definition apply_fill_internal ::
  "accounting_engine \<Rightarrow> fill_ledger_entry \<Rightarrow> accounting_engine \<times> realized_pnl_entry list" where
  "apply_fill_internal engine entry =
     (let state = ae_state engine;
          lots = lots_of engine (fl_symbol entry);
          (lots', qty_left, pnl_total, realized) =
            match_loop (ae_matching_method engine) entry lots (f_max (fl_quantity entry) 0)
              (as_realized_pnl_total state) [] 0;
          lots'' =
            (if dust < qty_left then push_lot lots' (new_lot entry qty_left) (ae_matching_method engine)
             else lots')
      in (engine\<lparr>ae_state := state\<lparr>as_open_positions := (as_open_positions state)(fl_symbol entry \<mapsto> lots''),
                                    as_realized_pnl_total := pnl_total\<rparr>\<rparr>,
          realized))"

definition derive_unrealized_with_mark :: "accounting_engine \<Rightarrow> string \<Rightarrow> f64 \<Rightarrow> f64" where
  "derive_unrealized_with_mark engine symbol mark_price =
     (case as_open_positions (ae_state engine) symbol of
        None \<Rightarrow> 0
      | Some lots \<Rightarrow> f_sum (map (\<lambda>lot. unrealized_for_lot lot mark_price) lots))"

definition derive_unrealized_total ::
  "((string \<rightharpoonup> f64) \<Rightarrow> string list) \<Rightarrow> accounting_engine \<Rightarrow> f64" where
  "derive_unrealized_total iter engine =
     f_sum (map (\<lambda>symbol. derive_unrealized_with_mark engine symbol (the (ae_mark_prices engine symbol)))
              (iter (ae_mark_prices engine)))"

definition apply_fill ::
  "((string \<rightharpoonup> f64) \<Rightarrow> string list) \<Rightarrow> accounting_engine \<Rightarrow> fill_ledger_entry \<Rightarrow>
   accounting_engine \<times> ledger_batch_update" where
  "apply_fill iter engine entry =
     (let state = ae_state engine;
          engine1 = engine\<lparr>ae_state :=
              state\<lparr>as_fee_total := as_fee_total state + fl_fee_amount entry,
                    as_funding_total := as_funding_total state + fl_funding_amount entry,
                    as_rebate_total := as_rebate_total state + fl_rebate_amount entry\<rparr>,
              ae_ledger_entries := ae_ledger_entries engine @ [entry]\<rparr>;
          (engine2, matched_entries) = apply_fill_internal engine1 entry;
          engine3 = engine2\<lparr>ae_realized_entries := ae_realized_entries engine2 @ matched_entries\<rparr>;
          unrealized =
            (case ae_mark_prices engine3 (fl_symbol entry) of
               Some mark_price \<Rightarrow> derive_unrealized_with_mark engine3 (fl_symbol entry) mark_price
             | None \<Rightarrow> derive_unrealized_total iter engine3);
          engine4 = engine3\<lparr>ae_state := (ae_state engine3)\<lparr>as_unrealized_pnl := unrealized\<rparr>\<rparr>
      in (engine4, \<lparr>lu_ledger_entries = [entry], lu_pnl_state = ae_state engine4\<rparr>))"

definition mark_to_market ::
  "((string \<rightharpoonup> f64) \<Rightarrow> string list) \<Rightarrow> accounting_engine \<Rightarrow> string \<Rightarrow> f64 \<Rightarrow> accounting_engine \<times> f64" where
  "mark_to_market iter engine symbol mark_price =
     (let engine1 = engine\<lparr>ae_mark_prices := (ae_mark_prices engine)(symbol \<mapsto> mark_price)\<rparr>;
          pnl_total = derive_unrealized_total iter engine1
      in (engine1\<lparr>ae_state := (ae_state engine1)\<lparr>as_unrealized_pnl := pnl_total\<rparr>\<rparr>, pnl_total))"

fun exposure_loop :: "f64 option \<Rightarrow> position_lot list \<Rightarrow> f64 \<times> f64 \<times> f64 \<times> f64 \<Rightarrow> f64 \<times> f64 \<times> f64 \<times> f64" where
  "exposure_loop mark [] acc = acc"
| "exposure_loop mark (lot # lots) (signed_qty, gross_qty, gross_notional, unrealized) =
     exposure_loop mark lots
       (signed_qty + signed_quantity (pl_side lot) (pl_remaining_qty lot),
        gross_qty + pl_remaining_qty lot,
        gross_notional + pl_entry_price lot * pl_remaining_qty lot,
        (case mark of None \<Rightarrow> unrealized | Some mark_price \<Rightarrow> unrealized + unrealized_for_lot lot mark_price))"

definition position_exposure_of :: "accounting_engine \<Rightarrow> string \<Rightarrow> position_exposure" where
  "position_exposure_of engine symbol =
     (case as_open_positions (ae_state engine) symbol of
        None \<Rightarrow> position_exposure_default
      | Some lots \<Rightarrow>
          (let (signed_qty, gross_qty, gross_notional, unrealized) =
                 exposure_loop (ae_mark_prices engine symbol) lots (0, 0, 0, 0)
           in \<lparr>px_net_quantity = signed_qty,
               px_avg_entry_price = (if 0 < gross_qty then gross_notional / gross_qty else 0),
               px_open_lots = length lots,
               px_realized_pnl = as_realized_pnl_total (ae_state engine),
               px_unrealized_pnl = unrealized\<rparr>))"

definition ledger_entry_of_fill :: "fill_event \<Rightarrow> fill_ledger_entry" where
  "ledger_entry_of_fill fill =
     \<lparr>fl_order_id = fe_order_id fill, fl_fill_id = fe_fill_id fill, fl_symbol = fe_symbol fill,
      fl_side = fe_side fill, fl_price = fe_price fill, fl_quantity = fe_filled_size fill,
      fl_liquidity_flag = fe_liquidity_flag fill, fl_fee_amount = fe_fee fill,
      fl_fee_asset = fe_fee_asset fill, fl_rebate_amount = fe_rebate_amount fill,
      fl_funding_amount = fe_funding_amount fill,
      fl_event_time = max (et_last_fill_timestamp (fe_truth fill)) (fe_timestamp fill)\<rparr>"

section \<open>The lots of a symbol\<close>

text \<open>Open lots are all on one side, and none of them is dust.\<close>

definition lots_ok :: "position_lot list \<Rightarrow> bool" where
  "lots_ok lots \<longleftrightarrow>
     (\<forall>l \<in> set lots. dust < pl_remaining_qty l) \<and>
     (\<forall>l \<in> set lots. pl_side l = pl_side (hd lots))"

lemma lots_ok_Nil [simp]: "lots_ok []"
  by (simp add: lots_ok_def)

lemma lots_ok_subset: "lots_ok lots \<Longrightarrow> set lots' \<subseteq> set lots \<Longrightarrow> lots_ok lots'"
  unfolding lots_ok_def by (cases lots') (auto simp: subset_iff)

lemma lots_ok_one_side: "lots_ok lots \<Longrightarrow> (\<forall>l \<in> set lots. pl_side l = s) \<or> (\<forall>l \<in> set lots. pl_side l \<noteq> s)"
  by (auto simp: lots_ok_def)

lemma lots_okI:
  "(\<And>l. l \<in> set lots \<Longrightarrow> dust < pl_remaining_qty l) \<Longrightarrow> (\<And>l. l \<in> set lots \<Longrightarrow> pl_side l = s) \<Longrightarrow> lots_ok lots"
  unfolding lots_ok_def by (cases lots) auto

lemma lots_ok_settle:
  assumes "lots_ok lots" "k < length lots" "match_lot e q i (lots ! k) = (lot', r)"
  shows "lots_ok (settle_lot k lot' lots)"
proof (cases "pl_remaining_qty lot' \<le> dust")
  case True
  then show ?thesis using lots_ok_subset[OF assms(1) set_list_remove] by (simp add: settle_lot_def)
next
  case False
  have n: "pl_remaining_qty lot' \<noteq> NaN"
    using match_lot_remaining[OF assms(3)] by (auto simp: f_max_not_nan)
  then have d: "dust < pl_remaining_qty lot'"
    using False dust_val f64_le_total[of dust "pl_remaining_qty lot'"] by (auto simp: less_f64_def)
  show ?thesis
  proof (rule lots_okI)
    fix l assume "l \<in> set (settle_lot k lot' lots)"
    then have l: "l = lot' \<or> l \<in> set lots"
      using False set_update_subset_insert by (fastforce simp: settle_lot_def)
    show "dust < pl_remaining_qty l" using l d assms(1) by (auto simp: lots_ok_def)
    show "pl_side l = pl_side (hd lots)"
      using l assms match_lot_side[OF assms(3)] by (auto simp: lots_ok_def)
  qed
qed

text \<open>The loop keeps the invariant, and when it stops with quantity left no lot of the other
  side remains.\<close>

lemma match_loop_ok:
  assumes "lots_ok lots" "match_loop m e lots q t rs i = (lots', q', t', rs')"
  shows "lots_ok lots' \<and> (dust < q' \<longrightarrow> (\<forall>l \<in> set lots'. pl_side l = fl_side e))"
  using assms
proof (induction lots q t rs i arbitrary: lots' q' t' rs' rule: match_loop_rule[where e = e and m = m])
  case (finish lots q t rs i)
  then show ?case by (auto simp: match_loop_done opposite_lot_index_None)
next
  case (match lots q t rs i k lot' r)
  then show ?case
    using opposite_lot_index_Some[OF match(2)] by (auto simp: match_loop_step intro: lots_ok_settle)
qed

section \<open>The loop consumes the lots from one end\<close>

text \<open>The reference: take the lots in order until the fill is used up.\<close>

fun consume ::
  "fill_ledger_entry \<Rightarrow> position_lot list \<Rightarrow> f64 \<Rightarrow> f64 \<Rightarrow> realized_pnl_entry list \<Rightarrow> usize \<Rightarrow>
   position_lot list \<times> f64 \<times> f64 \<times> realized_pnl_entry list" where
  "consume e [] q t rs i = ([], q, t, rs)"
| "consume e (lot # lots) q t rs i =
     (if dust < q then
        (let (lot', r) = match_lot e q i lot;
             q' = q - matched_qty q lot
         in if pl_remaining_qty lot' \<le> dust
            then consume e lots q' (t + re_pnl r) (rs @ [r]) (sat_add i 1)
            else (lot' # lots, q', t + re_pnl r, rs @ [r]))
      else (lot # lots, q, t, rs))"

lemma match_lot_progress:
  "match_lot e q i lot = (lot', r) \<Longrightarrow> \<not> pl_remaining_qty lot' \<le> dust \<Longrightarrow> \<not> dust < q - matched_qty q lot"
  using match_progress[of "pl_remaining_qty lot" q] by (auto simp: matched_qty_def match_lot_remaining)

lemma match_loop_fifo:
  "\<forall>l \<in> set lots. pl_side l \<noteq> fl_side e \<Longrightarrow> match_loop Fifo e lots q t rs i = consume e lots q t rs i"
proof (induction e lots q t rs i rule: consume.induct)
  case (1 e q t rs i)
  then show ?case by (simp add: match_loop_done opposite_lot_index_def)
next
  case (2 e lot lots q t rs i)
  have k: "opposite_lot_index (lot # lots) (fl_side e) Fifo = Some 0"
    using 2(2) by (simp add: opposite_lot_index_def)
  obtain lot' r where l: "match_lot e q i lot = (lot', r)" by force
  show ?case
  proof (cases "dust < q")
    case True
    have s: "match_loop Fifo e (lot # lots) q t rs i =
        match_loop Fifo e (settle_lot 0 lot' (lot # lots)) (q - matched_qty q lot) (t + re_pnl r) (rs @ [r]) (sat_add i 1)"
      using match_loop_step[OF True k, of i lot' r] l by simp
    show ?thesis
      using 2 True l match_lot_progress[OF l] unfolding s
      by (auto simp: settle_lot_def match_loop_done)
  qed (simp add: match_loop_done)
qed

lemma match_loop_lifo:
  "\<forall>l \<in> set lots. pl_side l \<noteq> fl_side e \<Longrightarrow>
     match_loop Lifo e (rev lots) q t rs i = (case consume e lots q t rs i of (ls, res) \<Rightarrow> (rev ls, res))"
proof (induction e lots q t rs i rule: consume.induct)
  case (1 e q t rs i)
  then show ?case by (simp add: match_loop_done opposite_lot_index_def list_rposition_def)
next
  case (2 e lot lots q t rs i)
  have k: "opposite_lot_index (rev (lot # lots)) (fl_side e) Lifo = Some (length lots)"
    using 2(2) by (simp add: opposite_lot_index_def list_rposition_def)
  obtain lot' r where l: "match_lot e q i lot = (lot', r)" by force
  have n: "rev (lot # lots) ! length lots = lot" by (simp add: nth_append)
  have u: "settle_lot (length lots) lot' (rev (lot # lots)) =
      (if pl_remaining_qty lot' \<le> dust then rev lots else rev (lot' # lots))"
    by (simp add: settle_lot_def list_remove_def list_update_append)
  show ?case
  proof (cases "dust < q")
    case True
    have s: "match_loop Lifo e (rev (lot # lots)) q t rs i =
        match_loop Lifo e (settle_lot (length lots) lot' (rev (lot # lots))) (q - matched_qty q lot)
          (t + re_pnl r) (rs @ [r]) (sat_add i 1)"
      using match_loop_step[OF True k, of i lot' r] l n by simp
    show ?thesis
      using 2 True l match_lot_progress[OF l] unfolding s u
      by (auto simp: match_loop_done)
  qed (simp add: match_loop_done)
qed

lemma match_loop_same_side:
  "\<forall>l \<in> set lots. pl_side l = fl_side e \<Longrightarrow> match_loop m e lots q t rs i = (lots, q, t, rs)"
  by (simp add: match_loop_done opposite_lot_index_None)

text \<open>What is recorded: the entries are appended, one per lot touched, and the running total adds
  them up in that order.\<close>

lemma match_loop_realized:
  assumes "match_loop m e lots q t rs i = (lots', q', t', rs')"
  shows "\<exists>new. rs' = rs @ new \<and> t' = foldl (+) t (map re_pnl new) \<and>
    length lots \<le> length lots' + length new \<and> length lots' + length new \<le> length lots + 1 \<and>
    length new \<le> length lots \<and> (\<forall>r \<in> set new. re_timestamp r = fl_event_time e)"
  using assms
proof (induction lots q t rs i arbitrary: lots' q' t' rs' rule: match_loop_rule[where e = e and m = m])
  case (finish lots q t rs i)
  then show ?case by (auto simp: match_loop_done)
next
  case (match lots q t rs i k lot' r)
  have k: "k < length lots" using opposite_lot_index_Some[OF match(2)] by simp
  have ts: "re_timestamp r = fl_event_time e" using match(3) by (auto simp: match_lot_def Let_def)
  show ?case
  proof (cases "pl_remaining_qty lot' \<le> dust")
    case True
    from match.prems have
      "match_loop m e (settle_lot k lot' lots) (q - matched_qty q (lots ! k)) (t + re_pnl r) (rs @ [r]) (sat_add i 1)
       = (lots', q', t', rs')" by (simp only: match_loop_step[OF match(1-3)])
    from match.IH[OF this] obtain new where new: "rs' = (rs @ [r]) @ new"
      "t' = foldl (+) (t + re_pnl r) (map re_pnl new)"
      "length lots - 1 \<le> length lots' + length new" "length lots' + length new \<le> length lots - 1 + 1"
      "length new \<le> length lots - 1" "\<forall>r \<in> set new. re_timestamp r = fl_event_time e"
      using True k by (auto simp: settle_lot_def length_list_remove)
    show ?thesis using new k ts by (intro exI[of _ "r # new"]) auto
  next
    case False
    then have "\<not> dust < q - matched_qty q (lots ! k)" by (rule match_lot_progress[OF match(3)])
    then have "lots' = lots[k := lot']" "t' = t + re_pnl r" "rs' = rs @ [r]"
      using match.prems False match_loop_step[OF match(1-3)] by (auto simp: match_loop_done settle_lot_def)
    then show ?thesis using k ts by (intro exI[of _ "[r]"]) auto
  qed
qed

section \<open>Fills\<close>

lemma push_lot_append [simp]: "push_lot lots lot m = lots @ [lot]"
  by (cases m) (simp_all add: push_lot_def)

lemma new_lot_simps [simp]:
  "pl_side (new_lot e q) = fl_side e" "pl_remaining_qty (new_lot e q) = q"
  "pl_entry_price (new_lot e q) = fl_price e" "pl_realized_pnl (new_lot e q) = 0"
  by (simp_all add: new_lot_def Let_def)

text \<open>The lots that a fill leaves for its symbol, and the entries it records.\<close>

definition fill_result ::
  "accounting_engine \<Rightarrow> fill_ledger_entry \<Rightarrow> position_lot list \<times> f64 \<times> f64 \<times> realized_pnl_entry list" where
  "fill_result engine e =
     match_loop (ae_matching_method engine) e (lots_of engine (fl_symbol e)) (f_max (fl_quantity e) 0)
       (as_realized_pnl_total (ae_state engine)) [] 0"

lemma apply_fill_effect:
  assumes "fill_result engine e = (lots', q', t', rs')"
  shows "lots_of (fst (apply_fill iter engine e)) s =
      (if s = fl_symbol e then (if dust < q' then lots' @ [new_lot e q'] else lots') else lots_of engine s)"
    "as_realized_pnl_total (ae_state (fst (apply_fill iter engine e))) = t'"
    "ae_realized_entries (fst (apply_fill iter engine e)) = ae_realized_entries engine @ rs'"
    "ae_ledger_entries (fst (apply_fill iter engine e)) = ae_ledger_entries engine @ [e]"
    "as_fee_total (ae_state (fst (apply_fill iter engine e))) = as_fee_total (ae_state engine) + fl_fee_amount e"
    "as_funding_total (ae_state (fst (apply_fill iter engine e))) = as_funding_total (ae_state engine) + fl_funding_amount e"
    "as_rebate_total (ae_state (fst (apply_fill iter engine e))) = as_rebate_total (ae_state engine) + fl_rebate_amount e"
    "ae_matching_method (fst (apply_fill iter engine e)) = ae_matching_method engine"
    "ae_mark_prices (fst (apply_fill iter engine e)) = ae_mark_prices engine"
  using assms
  by (simp_all add: apply_fill_def apply_fill_internal_def fill_result_def lots_of_def Let_def)

section \<open>Runs of the engine\<close>

datatype ledger_op = FillOp fill_ledger_entry | MarkOp string f64

fun ledger_step ::
  "((string \<rightharpoonup> f64) \<Rightarrow> string list) \<Rightarrow> accounting_engine \<Rightarrow> ledger_op \<Rightarrow> accounting_engine" where
  "ledger_step iter engine (FillOp e) = fst (apply_fill iter engine e)"
| "ledger_step iter engine (MarkOp symbol mark) = fst (mark_to_market iter engine symbol mark)"

definition totals_ok :: "accounting_engine \<Rightarrow> bool" where
  "totals_ok engine \<longleftrightarrow>
     as_realized_pnl_total (ae_state engine) = f_sum (map re_pnl (ae_realized_entries engine)) \<and>
     as_fee_total (ae_state engine) = f_sum (map fl_fee_amount (ae_ledger_entries engine)) \<and>
     as_funding_total (ae_state engine) = f_sum (map fl_funding_amount (ae_ledger_entries engine)) \<and>
     as_rebate_total (ae_state engine) = f_sum (map fl_rebate_amount (ae_ledger_entries engine))"

definition ledger_ok :: "accounting_engine \<Rightarrow> bool" where
  "ledger_ok engine \<longleftrightarrow> (\<forall>s. lots_ok (lots_of engine s)) \<and> totals_ok engine"

lemma ledger_new_ok: "ledger_ok (accounting_engine_new m)"
  by (simp add: ledger_ok_def totals_ok_def accounting_engine_new_def account_state_default_def lots_of_def f_sum_def)

lemma apply_fill_lots_ok:
  assumes "\<forall>s. lots_ok (lots_of engine s)"
  shows "lots_ok (lots_of (fst (apply_fill iter engine e)) s)"
proof -
  obtain lots' q' t' rs' where r: "fill_result engine e = (lots', q', t', rs')" by (cases "fill_result engine e")
  have "lots_ok lots' \<and> (dust < q' \<longrightarrow> (\<forall>l \<in> set lots'. pl_side l = fl_side e))"
    using assms r unfolding fill_result_def by (intro match_loop_ok) auto
  moreover have "lots_ok (lots' @ [new_lot e q'])"
    if "lots_ok lots'" "\<forall>l \<in> set lots'. pl_side l = fl_side e" "dust < q'"
    using that by (intro lots_okI[where s = "fl_side e"]) (auto simp: lots_ok_def)
  ultimately show ?thesis using assms by (simp add: apply_fill_effect(1)[OF r])
qed

lemma apply_fill_totals_ok:
  assumes "totals_ok engine"
  shows "totals_ok (fst (apply_fill iter engine e))"
proof -
  obtain lots' q' t' rs' where r: "fill_result engine e = (lots', q', t', rs')" by (cases "fill_result engine e")
  from match_loop_realized[OF r[unfolded fill_result_def]]
  have "t' = foldl (+) (as_realized_pnl_total (ae_state engine)) (map re_pnl rs')" by auto
  then show ?thesis
    using assms by (simp add: totals_ok_def apply_fill_effect[OF r] f_sum_def)
qed

lemma mark_effect [simp]:
  "lots_of (fst (mark_to_market iter engine s p)) = lots_of engine"
  "totals_ok (fst (mark_to_market iter engine s p)) = totals_ok engine"
  "ae_realized_entries (fst (mark_to_market iter engine s p)) = ae_realized_entries engine"
  by (simp_all add: mark_to_market_def Let_def lots_of_def totals_ok_def fun_eq_iff)

lemma ledger_step_ok [inv_intros]: "ledger_ok engine \<Longrightarrow> ledger_ok (ledger_step iter engine op)"
  by (cases op) (auto simp: ledger_ok_def apply_fill_lots_ok apply_fill_totals_ok)

lemma ledger_step_entries: "length (ae_realized_entries engine) \<le> length (ae_realized_entries (ledger_step iter engine op))"
proof (cases op)
  case (FillOp e)
  obtain lots' q' t' rs' where "fill_result engine e = (lots', q', t', rs')" by (cases "fill_result engine e")
  then show ?thesis using FillOp by (simp add: apply_fill_effect)
qed simp

interpretation ledger: counting_handler "ledger_step iter" ledger_ok "\<lambda>engine. length (ae_realized_entries engine)"
  by unfold_locales (auto intro: ledger_step_ok ledger_step_entries)

section \<open>Conservation of the quantity\<close>

definition signed_val :: "side \<Rightarrow> rat \<Rightarrow> rat" where
  "signed_val s q = (case s of Buy \<Rightarrow> q | Sell \<Rightarrow> - q)"

definition net_qty :: "position_lot list \<Rightarrow> rat" where
  "net_qty lots = sum_list (map (\<lambda>l. signed_val (pl_side l) (val (pl_remaining_qty l))) lots)"

definition gross_qty :: "position_lot list \<Rightarrow> rat" where
  "gross_qty lots = sum_list (map (\<lambda>l. val (pl_remaining_qty l)) lots)"

lemma net_qty_simps [simp]:
  "net_qty [] = 0" "net_qty (l # ls) = signed_val (pl_side l) (val (pl_remaining_qty l)) + net_qty ls"
  "net_qty (ls @ ls') = net_qty ls + net_qty ls'" "net_qty (rev ls) = net_qty ls"
  by (simp_all add: net_qty_def rev_map [symmetric])

lemma net_qty_one_side: "\<forall>l \<in> set lots. pl_side l = s \<Longrightarrow> net_qty lots = signed_val s (gross_qty lots)"
  by (induction lots) (auto simp: gross_qty_def signed_val_def split: side.splits)

lemma gross_qty_simps [simp]:
  "gross_qty [] = 0" "gross_qty (l # ls) = val (pl_remaining_qty l) + gross_qty ls"
  by (simp_all add: gross_qty_def)

text \<open>Quantities that are finite and at most \<open>M\<close>, a double above the subnormal range.\<close>

definition qty_bound :: "rat \<Rightarrow> bool" where
  "qty_bound M \<longleftrightarrow> bound M \<and> 2 powi (- 1022) \<le> M"

lemma minus_small:
  assumes "rng 0 M x" "rng 0 M y" "y \<le> x" "qty_bound M"
  shows "rng 0 M (x - y)" "\<bar>val (x - y) - (val x - val y)\<bar> \<le> M / 2 ^ 53"
proof -
  have v: "val y \<le> val x" using assms by (auto simp: fin_le_iff rngD)
  have r: "rng 0 M (mk s (val x - val y))" for s
    using assms v by (intro rng_mk) (auto simp: rng_def qty_bound_def)
  have e: "\<bar>rnd (val x - val y) - (val x - val y)\<bar> \<le> M / 2 ^ 53"
    using assms v by (intro rnd_error) (auto simp: rng_def qty_bound_def)
  have "x - y = mk (val x - val y < 0) (val x - val y) \<or> x - y = NegZero \<and> val x = 0 \<and> val y = 0"
    using assms plus_fin[of x "- y"] by (auto simp: minus_f64_def rngD split: if_splits) (cases y; auto)
  moreover have "0 \<le> M / 2 ^ 53" using assms by (auto simp: rng_def)
  ultimately show "rng 0 M (x - y)" "\<bar>val (x - y) - (val x - val y)\<bar> \<le> M / 2 ^ 53"
    using r e val_mk rngD(1)[OF r] assms by (auto simp: rng_def)
qed

lemma minus_self_fin: "fin x \<Longrightarrow> fin (x - x) \<and> val (x - x) = 0"
  using f64_minus_self[of x] minus_not_nan(1)[of x x] by (auto simp: zero_f64_def)

lemma val_dust_nonneg: "rng 0 M x \<Longrightarrow> x \<le> dust \<Longrightarrow> val x \<le> val dust"
  using dust_val by (auto simp: fin_le_iff rngD)

text \<open>
  Consuming the lots takes from them what it takes from the fill: each match rounds one
  subtraction, and one lot of at most \<open>dust\<close> may be dropped.
\<close>

lemma consume_entries: "consume e lots q t rs i = (lots', q', t', rs') \<Longrightarrow> length rs \<le> length rs'"
  by (induction e lots q t rs i arbitrary: lots' q' t' rs' rule: consume.induct)
     (fastforce split: if_splits prod.splits simp: Let_def)+

lemma consume_conserves:
  assumes "consume e lots q t rs i = (lots', q', t', rs')" "qty_bound M" "rng 0 M q"
    "\<forall>l \<in> set lots. rng 0 M (pl_remaining_qty l)"
  shows "rng 0 M q' \<and>
    \<bar>(val q' - gross_qty lots') - (val q - gross_qty lots)\<bar> \<le> of_nat (length rs' - length rs) * (M / 2 ^ 53) + val dust"
  using assms
proof (induction e lots q t rs i arbitrary: lots' q' t' rs' rule: consume.induct)
  case (1 e q t rs i)
  then show ?case using dust_val by auto
next
  case (2 e lot lots q t rs i)
  define r where "r = pl_remaining_qty lot"
  have b: "rng 0 M q" "rng 0 M r" "fin q" "fin r" using 2 by (auto simp: r_def rngD)
  obtain lot' p where l: "match_lot e q i lot = (lot', p)" by force
  have rem: "pl_remaining_qty lot' = f_max (r - f_min q r) 0"
    using match_lot_remaining[OF l] by (simp add: matched_qty_def r_def)
  show ?case
  proof (cases "dust < q")
    case False
    then show ?thesis using 2 dust_val by auto
  next
    case d: True
    show ?thesis
    proof (cases "r < q")
      case True
      then have m: "f_min q r = r" by (auto simp: f_min_def)
      note sub = minus_small[OF b(1,2) f64_less_imp_le[OF True] 2(3)]
      have "pl_remaining_qty lot' \<le> dust"
        using minus_self_fin[OF b(4)] dust_val by (auto simp: rem m f_max_def fin_le_iff)
      then have c: "consume e lots (q - r) (t + re_pnl p) (rs @ [p]) (sat_add i 1) = (lots', q', t', rs')"
        using 2(2) d l m by (simp add: matched_qty_def r_def)
      have n: "of_nat (length rs' - length rs) = (of_nat (length rs' - length (rs @ [p])) + 1 :: rat)"
        using consume_entries[OF c] by (simp add: of_nat_diff)
      have "rng 0 M q' \<and> \<bar>(val q' - gross_qty lots') - (val (q - r) - gross_qty lots)\<bar>
          \<le> of_nat (length rs' - length (rs @ [p])) * (M / 2 ^ 53) + val dust"
        using "2.IH"[OF d l[symmetric] refl refl] c sub(1) "2.prems" \<open>pl_remaining_qty lot' \<le> dust\<close> m
        by (simp add: matched_qty_def r_def)
      then show ?thesis
        using sub(2)
        unfolding n distrib_right mult_1 gross_qty_simps r_def[symmetric] abs_le_iff
        by (intro conjI; elim conjE) (assumption | linarith)+
    next
      case False
      then have m: "f_min q r = q" and le: "q \<le> r"
        using b f64_not_less[of r q] by (auto simp: f_min_def)
      note sub = minus_small[OF b(2,1) le 2(3)]
      have q0: "fin (q - q)" "val (q - q) = 0" "\<not> dust < q - q"
        using minus_self_fin[OF b(3)] dust_val by (auto simp: fin_less_iff)
      have rem': "val (pl_remaining_qty lot') = val (r - q)" "rng 0 M (pl_remaining_qty lot')"
        using sub(1) rngD[OF sub(1)] by (auto simp: rem m val_f_max rng_def fin_f_max)
      show ?thesis
      proof (cases "pl_remaining_qty lot' \<le> dust")
        case True
        then have "(lots', q', t', rs') = (lots, q - q, t + re_pnl p, rs @ [p])"
          using 2(2) d l m q0 by (cases lots) (simp_all add: matched_qty_def r_def)
        moreover have "\<bar>val r - val q\<bar> \<le> M / 2 ^ 53 + val dust"
          using sub(2) rem'(1) val_dust_nonneg[OF rem'(2) True] rngD(2)[OF rem'(2)]
          unfolding abs_le_iff by linarith
        ultimately show ?thesis using q0 b by (auto simp: rng_def r_def)
      next
        case False
        then have "(lots', q', t', rs') = (lot' # lots, q - q, t + re_pnl p, rs @ [p])"
          using 2(2) d l m by (simp add: matched_qty_def r_def)
        moreover have "\<bar>val r - val q - val (r - q)\<bar> \<le> M / 2 ^ 53 + val dust"
          using sub(2) dust_val unfolding abs_le_iff by linarith
        ultimately show ?thesis using q0 b rem' by (auto simp: rng_def r_def)
      qed
    qed
  qed
qed


lemma set_settle_lot: "set (settle_lot k lot lots) \<subseteq> insert lot (set lots)"
  using set_list_remove[of k lots] set_update_subset_insert[of lots k lot] by (auto simp: settle_lot_def)

lemma match_loop_sides:
  assumes "match_loop m e lots q t rs i = (lots', q', t', rs')" "\<forall>l \<in> set lots. pl_side l \<noteq> fl_side e"
  shows "\<forall>l \<in> set lots'. pl_side l = opposite (fl_side e)"
  using assms
proof (induction lots q t rs i arbitrary: lots' q' t' rs' rule: match_loop_rule[where e = e and m = m])
  case (finish lots q t rs i)
  then show ?case by (auto simp: match_loop_done side_neq_iff)
next
  case (match lots q t rs i k lot' r)
  have "k < length lots" using opposite_lot_index_Some[OF match(2)] by simp
  then have "pl_side lot' \<noteq> fl_side e" using match.prems(2) match_lot_side[OF match(3)] by simp
  then have "\<forall>l \<in> set (settle_lot k lot' lots). pl_side l \<noteq> fl_side e"
    using match.prems(2) set_settle_lot[of k lot' lots] by auto
  then show ?case using match.IH match.prems match_loop_step[OF match(1-3)] by auto
qed

lemma match_loop_conserves:
  assumes "match_loop m e lots q t rs i = (lots', q', t', rs')" "lots_ok lots" "qty_bound M" "rng 0 M q"
    "\<forall>l \<in> set lots. rng 0 M (pl_remaining_qty l)"
  shows "rng 0 M q' \<and>
    \<bar>(net_qty lots' + signed_val (fl_side e) (val q')) - (net_qty lots + signed_val (fl_side e) (val q))\<bar>
      \<le> of_nat (length rs' - length rs) * (M / 2 ^ 53) + val dust"
proof (cases "\<forall>l \<in> set lots. pl_side l = fl_side e")
  case True
  then show ?thesis using assms dust_val by (auto simp: match_loop_same_side)
next
  case False
  then have opp: "\<forall>l \<in> set lots. pl_side l \<noteq> fl_side e" using lots_ok_one_side[OF assms(2)] by auto
  define c where "c = consume e (case m of Fifo \<Rightarrow> lots | Lifo \<Rightarrow> rev lots) q t rs i"
  obtain ls where c: "c = (ls, q', t', rs')" "lots' = (case m of Fifo \<Rightarrow> ls | Lifo \<Rightarrow> rev ls)"
    using assms(1) match_loop_fifo[OF opp, of q t rs i] match_loop_lifo[of "rev lots" e q t rs i] opp
    by (cases m) (auto simp: c_def split: prod.splits)
  define ls0 where "ls0 = (case m of Fifo \<Rightarrow> lots | Lifo \<Rightarrow> rev lots)"
  have ls0: "set ls0 = set lots" "net_qty ls0 = net_qty lots" by (auto simp: ls0_def split: lot_matching_method.splits)
  have k: "rng 0 M q'" "\<bar>(val q' - gross_qty ls) - (val q - gross_qty ls0)\<bar>
      \<le> of_nat (length rs' - length rs) * (M / 2 ^ 53) + val dust"
    using consume_conserves[of e ls0 q t rs i, OF _ assms(3,4)] c assms(5) by (auto simp: c_def ls0_def[symmetric] ls0)
  have side: "\<forall>l \<in> set ls. pl_side l = opposite (fl_side e)"
    using match_loop_sides[OF assms(1) opp] c by (cases m) auto
  have n0: "net_qty ls0 = signed_val (opposite (fl_side e)) (gross_qty ls0)"
    using opp ls0 by (intro net_qty_one_side) (auto simp: side_neq_iff)
  have n1: "net_qty lots' = signed_val (opposite (fl_side e)) (gross_qty ls)"
    using net_qty_one_side[OF side] c by (cases m) auto
  show ?thesis
    using k n0 n1 ls0 by (cases "fl_side e") (auto simp: signed_val_def abs_le_iff algebra_simps)
qed

section \<open>Exposure\<close>

lemma bound_dust: "bound (val dust)"
proof -
  have "fin (mk False (1 / 10 ^ 12))" using dust_val by (simp add: dust_def lit_def)
  then show ?thesis using bound_rnd by (simp add: dust_def lit_def val_mk fin_mk)
qed

lemma plus_ge_dust:
  assumes "acc = 0 \<or> dust \<le> acc" "dust < x"
  shows "dust \<le> acc + x"
proof -
  consider "x = PInf" | "acc = PInf" | "fin x" "fin acc"
    using assms dust_val by (cases x; cases acc) (auto simp: less_f64_def zero_f64_def)
  then show ?thesis
  proof cases
    case 3
    have "val dust \<le> val acc + val x"
      using assms 3 dust_val by (auto simp: fin_le_iff fin_less_iff)
    then have "val dust \<le> rnd (val acc + val x)" using bound_dust by (intro rnd_ge) (auto simp: bound_def)
    then show ?thesis
      using 3 assms dust_val
      by (auto simp: plus_fin mk_def Let_def fin_le_iff fin_less_iff)
  qed (use assms dust_val in \<open>cases acc; cases x; auto simp: plus_f64_def less_f64_def zero_f64_def\<close>)+
qed

lemma minus_le_dust:
  assumes "acc = 0 \<or> acc \<le> - dust" "dust < x"
  shows "acc + - x \<le> - dust"
proof -
  have d: "fin (- dust)" using dust_val by simp
  consider "x = PInf" | "acc = NInf" | "fin x" "fin acc"
    using assms dust_val d by (cases x; cases acc; cases "- dust") (auto simp: less_f64_def zero_f64_def)
  then show ?thesis
  proof cases
    case 3
    have "val acc - val x \<le> - val dust"
      using assms 3 dust_val by (auto simp: fin_le_iff fin_less_iff)
    then have r: "rnd (val acc - val x) \<le> - val dust" using bound_dust by (intro rnd_le) (auto simp: bound_def repr_minus)
    then have "\<not> huge \<le> rnd (val acc - val x)" using dust_val huge_pos by linarith
    moreover have "- x \<noteq> NegZero"
      using 3 assms dust_val by (auto simp: fin_less_iff dest!: arg_cong[where f = val])
    ultimately show ?thesis
      using 3 assms dust_val r
      by (auto simp: plus_fin mk_def Let_def fin_le_iff fin_less_iff)
  next
    case 1
    have "- dust \<noteq> PInf" using d by (cases "- dust") auto
    then have "acc \<noteq> PInf" "acc \<noteq> NaN" using assms d by (auto simp: zero_f64_def)
    then have "acc + - x = NInf" using 1 by (cases acc) (auto simp: plus_f64_def)
    then show ?thesis using d by simp
  next
    case 2
    have "- x \<noteq> PInf" "- x \<noteq> NaN" using assms dust_val by (cases x; auto simp: less_f64_def)+
    then have "acc + - x = NInf" using 2 by (cases "- x") (auto simp: plus_f64_def)
    then show ?thesis using d by simp
  qed
qed

lemma exposure_loop_net:
  "fst (exposure_loop mark lots acc) =
     foldl (\<lambda>a l. a + signed_quantity (pl_side l) (pl_remaining_qty l)) (fst acc) lots"
  by (induction lots arbitrary: acc) auto

lemma foldl_buy:
  "\<forall>l \<in> set lots. pl_side l = Buy \<and> dust < pl_remaining_qty l \<Longrightarrow> dust \<le> a \<or> a = 0 \<and> lots \<noteq> [] \<Longrightarrow>
     dust \<le> foldl (\<lambda>a l. a + signed_quantity (pl_side l) (pl_remaining_qty l)) a lots"
  by (induction lots arbitrary: a) (auto simp: plus_ge_dust)

lemma foldl_sell:
  "\<forall>l \<in> set lots. pl_side l = Sell \<and> dust < pl_remaining_qty l \<Longrightarrow> a \<le> - dust \<or> a = 0 \<and> lots \<noteq> [] \<Longrightarrow>
     foldl (\<lambda>a l. a + signed_quantity (pl_side l) (pl_remaining_qty l)) a lots \<le> - dust"
  by (induction lots arbitrary: a) (auto simp: minus_le_dust)

text \<open>The reported net quantity is zero when nothing is open, and otherwise has the sign of the
  open side and is not dust.\<close>

lemma exposure_sign:
  assumes "lots_ok (lots_of engine s)"
  shows "case lots_of engine s of
      [] \<Rightarrow> px_net_quantity (position_exposure_of engine s) = 0
    | l # _ \<Rightarrow> (case pl_side l of
          Buy \<Rightarrow> dust \<le> px_net_quantity (position_exposure_of engine s)
        | Sell \<Rightarrow> px_net_quantity (position_exposure_of engine s) \<le> - dust)"
proof -
  have n: "px_net_quantity (position_exposure_of engine s) =
      foldl (\<lambda>a l. a + signed_quantity (pl_side l) (pl_remaining_qty l)) 0 (lots_of engine s)"
    using exposure_loop_net[of "ae_mark_prices engine s" "lots_of engine s" "(0, 0, 0, 0)"]
    by (auto simp: position_exposure_of_def lots_of_def position_exposure_default_def Let_def
        split: option.splits prod.splits)
  show ?thesis
  proof (cases "lots_of engine s")
    case (Cons l ls)
    have "\<forall>k \<in> set (l # ls). pl_side k = pl_side l \<and> dust < pl_remaining_qty k"
      using assms Cons by (auto simp: lots_ok_def)
    then show ?thesis
      using foldl_buy[of "l # ls" 0] foldl_sell[of "l # ls" 0] n Cons by (cases "pl_side l") auto
  qed (use n in simp)
qed

section \<open>Properties\<close>

text \<open>C8: Whatever fills and marks the engine is given (any prices, quantities and fees, infinities
and NaN included), the open lots of every symbol are all on one side and each holds more than
1e-12, and the totals of the account are the sums, in order, of the recorded entries.\<close>
theorem ledger_invariant:
  "(\<forall>s. lots_ok (lots_of (foldl (ledger_step iter) (accounting_engine_new m) ops) s)) \<and>
   totals_ok (foldl (ledger_step iter) (accounting_engine_new m) ops)"
  using ledger.run_ok[OF ledger_new_ok, of iter m ops] by (simp add: ledger_ok_def)

text \<open>C7: A fill changes the net quantity of its symbol by its own signed quantity, up to one
rounding of a subtraction (a relative 2^-53) for every entry it realises and twice the 1e-12 that the
loop treats as nothing: no quantity is created or lost by the matching.\<close>
theorem fill_conserves_quantity:
  assumes "\<forall>s. lots_ok (lots_of engine s)" "qty_bound M" "rng 0 M (fl_quantity e)"
    "\<forall>l \<in> set (lots_of engine (fl_symbol e)). rng 0 M (pl_remaining_qty l)"
  shows "\<bar>net_qty (lots_of (fst (apply_fill iter engine e)) (fl_symbol e))
          - (net_qty (lots_of engine (fl_symbol e)) + signed_val (fl_side e) (val (fl_quantity e)))\<bar>
     \<le> of_nat (length (ae_realized_entries (fst (apply_fill iter engine e))) - length (ae_realized_entries engine))
         * (M / 2 ^ 53) + 2 * val dust"
proof -
  obtain lots' q' t' rs' where r: "fill_result engine e = (lots', q', t', rs')" by (cases "fill_result engine e")
  define q where "q = f_max (fl_quantity e) 0"
  have q: "rng 0 M q" "val q = val (fl_quantity e)"
    using assms(3) by (auto simp: q_def rng_def val_f_max fin_f_max)
  have c: "rng 0 M q'" "\<bar>(net_qty lots' + signed_val (fl_side e) (val q')) -
      (net_qty (lots_of engine (fl_symbol e)) + signed_val (fl_side e) (val q))\<bar>
      \<le> of_nat (length rs' - length []) * (M / 2 ^ 53) + val dust"
    using match_loop_conserves[OF r[unfolded fill_result_def, folded q_def] _ assms(2) q(1) assms(4)] assms(1) by auto
  have d: "val q' \<le> val dust" if "\<not> dust < q'"
    using that c(1) dust_val by (auto simp: fin_less_iff rngD)
  show ?thesis
    using c d rngD(2)[OF c(1)] dust_val q(2) unfolding apply_fill_effect[OF r]
    by (cases "fl_side e") (auto simp: signed_val_def abs_le_iff)
qed

text \<open>C9: With the lots of a symbol all on the other side, \<open>Fifo\<close> consumes them from the oldest and
\<open>Lifo\<close> from the newest: the loop with its index search and removal computes the plain recursion
over the list, or over its reverse.\<close>
theorem matching_is_consumption:
  assumes "\<forall>l \<in> set lots. pl_side l \<noteq> fl_side e"
  shows "match_loop Fifo e lots q t rs i = consume e lots q t rs i \<and>
    match_loop Lifo e lots q t rs i = (case consume e (rev lots) q t rs i of (ls, res) \<Rightarrow> (rev ls, res))"
  using match_loop_fifo[OF assms] match_loop_lifo[of "rev lots" e q t rs i] assms by simp

text \<open>A fill realises at most one entry per open lot of its symbol, every entry carries the
time of the fill, entries already recorded are kept, and no other symbol is touched.\<close>
theorem fill_frame:
  "(\<exists>new. ae_realized_entries (fst (apply_fill iter engine e)) = ae_realized_entries engine @ new \<and>
      length new \<le> length (lots_of engine (fl_symbol e)) \<and>
      list_all (\<lambda>r. re_timestamp r = fl_event_time e) new) \<and>
   lots_of (fst (apply_fill iter engine e)) = (lots_of engine)
     (fl_symbol e := lots_of (fst (apply_fill iter engine e)) (fl_symbol e))"
proof -
  obtain lots' q' t' rs' where r: "fill_result engine e = (lots', q', t', rs')" by (cases "fill_result engine e")
  show ?thesis
    using match_loop_realized[OF r[unfolded fill_result_def]]
    by (auto simp: apply_fill_effect[OF r] list_all_iff fun_eq_iff)
qed

text \<open>After any run, the reported net quantity of a symbol is zero when it has no open lot,
and otherwise has the sign of the open side and a magnitude of at least 1e-12.\<close>
theorem exposure_matches_side:
  "case lots_of (foldl (ledger_step iter) (accounting_engine_new m) ops) s of
     [] \<Rightarrow> px_net_quantity (position_exposure_of (foldl (ledger_step iter) (accounting_engine_new m) ops) s) = 0
   | l # _ \<Rightarrow> (case pl_side l of
       Buy \<Rightarrow> dust \<le> px_net_quantity (position_exposure_of (foldl (ledger_step iter) (accounting_engine_new m) ops) s)
     | Sell \<Rightarrow> px_net_quantity (position_exposure_of (foldl (ledger_step iter) (accounting_engine_new m) ops) s) \<le> - dust)"
  using ledger.run_ok[OF ledger_new_ok, of iter m ops] by (intro exposure_sign) (simp add: ledger_ok_def)

text \<open>A fill in a marked symbol leaves as the account's unrealised profit that of this symbol
alone, whatever the other marked symbols hold; marking the symbol at the same price gives the total
over all marked symbols.\<close>
theorem fill_forgets_other_symbols:
  assumes "ae_mark_prices engine (fl_symbol e) = Some p"
  shows "as_unrealized_pnl (ae_state (fst (apply_fill iter engine e))) =
      derive_unrealized_with_mark (fst (apply_fill iter engine e)) (fl_symbol e) p \<and>
    as_unrealized_pnl (ae_state (fst (mark_to_market iter (fst (apply_fill iter engine e)) (fl_symbol e) p))) =
      derive_unrealized_total iter (fst (apply_fill iter engine e))"
proof -
  obtain eng2 rs where i: "apply_fill_internal (engine\<lparr>ae_state := (ae_state engine)
        \<lparr>as_fee_total := as_fee_total (ae_state engine) + fl_fee_amount e,
         as_funding_total := as_funding_total (ae_state engine) + fl_funding_amount e,
         as_rebate_total := as_rebate_total (ae_state engine) + fl_rebate_amount e\<rparr>,
      ae_ledger_entries := ae_ledger_entries engine @ [e]\<rparr>) e = (eng2, rs)" by force
  have m: "ae_mark_prices eng2 = ae_mark_prices engine"
    using arg_cong[OF i, of fst] by (auto simp: apply_fill_internal_def Let_def split: prod.splits)
  have "(ae_mark_prices engine)(fl_symbol e \<mapsto> p) = ae_mark_prices engine" using assms by auto
  then show ?thesis
    using assms m i
    by (simp add: apply_fill_def mark_to_market_def Let_def derive_unrealized_with_mark_def derive_unrealized_total_def
        cong: option.case_cong)
qed

section \<open>Instances\<close>

definition ex_fill :: "string \<Rightarrow> side \<Rightarrow> f64 \<Rightarrow> f64 \<Rightarrow> fill_ledger_entry" where
  "ex_fill symbol s price quantity =
     \<lparr>fl_order_id = ''o1'', fl_fill_id = ''f1'', fl_symbol = symbol, fl_side = s, fl_price = price,
      fl_quantity = quantity, fl_liquidity_flag = Maker, fl_fee_amount = 0, fl_fee_asset = ''USDT'',
      fl_rebate_amount = 0, fl_funding_amount = 0, fl_event_time = 1\<rparr>"

definition ex_lot :: "side \<Rightarrow> f64 \<Rightarrow> f64 \<Rightarrow> position_lot" where
  "ex_lot s price quantity =
     \<lparr>pl_side = s, pl_entry_price = price, pl_quantity = quantity, pl_remaining_qty = quantity,
      pl_realized_pnl = 0, pl_remaining_fee_amount = 0, pl_remaining_rebate_amount = 0,
      pl_remaining_funding_amount = 0\<rparr>"

text \<open>One lot bought at 100 in A and one in B, both marked at 105.\<close>

definition ex_engine :: accounting_engine where
  "ex_engine = (accounting_engine_new Fifo)
     \<lparr>ae_state := account_state_default
        \<lparr>as_open_positions := [''A'' \<mapsto> [ex_lot Buy (Fin 100) 1], ''B'' \<mapsto> [ex_lot Buy (Fin 100) 1]]\<rparr>,
      ae_mark_prices := [''A'' \<mapsto> Fin 105, ''B'' \<mapsto> Fin 105]\<rparr>"

definition ex_iter :: "(string \<rightharpoonup> f64) \<Rightarrow> string list" where
  "ex_iter m = [''A'', ''B'']"

lemma ex_lots: "lots_of ex_engine s = (if s = ''A'' \<or> s = ''B'' then [ex_lot Buy (Fin 100) 1] else [])"
  by (simp add: ex_engine_def lots_of_def account_state_default_def)

lemma ex_marks: "ae_mark_prices ex_engine = [''A'' \<mapsto> Fin 105, ''B'' \<mapsto> Fin 105]"
  by (simp add: ex_engine_def)

lemma ex_fill_simps [simp]:
  "fl_symbol (ex_fill s d p q) = s" "fl_side (ex_fill s d p q) = d" "fl_quantity (ex_fill s d p q) = q"
  "fl_price (ex_fill s d p q) = p"
  by (simp_all add: ex_fill_def)

lemma ex_lot_simps [simp]: "pl_side (ex_lot d p q) = d" "pl_remaining_qty (ex_lot d p q) = q"
  by (simp_all add: ex_lot_def)

lemma dust_less_1: "dust < 1"
  by (simp add: dust_eq one_f64_def f64_eval)

lemma ex_iter_lists: "lists_keys ex_iter (ae_mark_prices ex_engine)"
  by (auto simp: lists_keys_def ex_iter_def ex_marks)

lemmas ledger_eval =
  apply_fill_def apply_fill_internal_def mark_to_market_def derive_unrealized_with_mark_def
  derive_unrealized_total_def ex_fill_def ex_lot_def match_loop.simps opposite_lot_index_def
  ex_engine_def ex_iter_def account_state_default_def dust_eq accounting_engine_new_def
  unrealized_for_lot_def f_sum_def zero_f64_def one_f64_def f_max_def lots_of_def Let_def f64_eval

theorem fill_conserves_quantity_witness:
  "\<bar>net_qty (lots_of (fst (apply_fill ex_iter ex_engine (ex_fill ''A'' Sell (Fin 101) 1))) ''A'')
     - (net_qty (lots_of ex_engine ''A'') + signed_val Sell (val 1))\<bar>
   \<le> of_nat (length (ae_realized_entries (fst (apply_fill ex_iter ex_engine (ex_fill ''A'' Sell (Fin 101) 1))))
               - length (ae_realized_entries ex_engine)) * (100 / 2 ^ 53) + 2 * val dust"
  using fill_conserves_quantity[of ex_engine 100 "ex_fill ''A'' Sell (Fin 101) 1" ex_iter]
  by (simp add: ex_lots lots_ok_def dust_less_1 rng_0_1 qty_bound_def)

theorem matching_is_consumption_witness:
  "match_loop Lifo (ex_fill ''A'' Sell (Fin 101) 1) [ex_lot Buy (Fin 100) 1, ex_lot Buy (Fin 99) 1] 1 0 [] 0 =
     (case consume (ex_fill ''A'' Sell (Fin 101) 1) [ex_lot Buy (Fin 99) 1, ex_lot Buy (Fin 100) 1] 1 0 [] 0 of
        (ls, res) \<Rightarrow> (rev ls, res))"
  using matching_is_consumption[of "[ex_lot Buy (Fin 100) 1, ex_lot Buy (Fin 99) 1]" "ex_fill ''A'' Sell (Fin 101) 1" 1 0 "[]" 0]
  by simp

text \<open>A second lot is bought in A: the account reports 10, the two symbols are 15 up.\<close>

theorem fill_forgets_other_symbols_witness:
  "as_unrealized_pnl (ae_state (fst (apply_fill ex_iter ex_engine (ex_fill ''A'' Buy (Fin 100) 1)))) = Fin 10 \<and>
   as_unrealized_pnl (ae_state (fst (mark_to_market ex_iter
     (fst (apply_fill ex_iter ex_engine (ex_fill ''A'' Buy (Fin 100) 1))) ''A'' (Fin 105)))) = Fin 15"
proof -
  have "derive_unrealized_with_mark (fst (apply_fill ex_iter ex_engine (ex_fill ''A'' Buy (Fin 100) 1))) ''A'' (Fin 105) = Fin 10"
    "derive_unrealized_total ex_iter (fst (apply_fill ex_iter ex_engine (ex_fill ''A'' Buy (Fin 100) 1))) = Fin 15"
    by (simp_all add: ledger_eval)
  then show ?thesis
    using fill_forgets_other_symbols[of ex_engine "ex_fill ''A'' Buy (Fin 100) 1" "Fin 105" ex_iter]
    by (simp add: ex_marks)
qed

end
