(* ===== verification/Samples.thy ===== *)
theory Samples
  imports Types
begin

text \<open>
  Concrete values the instances of the properties are stated on: an entry
  intent and its parts. The configuration they use is \<open>config_default\<close>. Nothing here models code.
\<close>

definition ex_regime :: market_regime where
  "ex_regime = \<lparr>mr_volatility = 1, mr_spread = 1, mr_trend_strength = 0\<rparr>"

definition ex_context :: market_context where
  "ex_context = \<lparr>mc_regime = RegimeNormal, mc_volatility = 1, mc_liquidity_score = 1, mc_stability_score = 1\<rparr>"

definition ex_flow :: flow_state where
  "ex_flow = \<lparr>fs_signal = WeakContinuation, fs_aggressive_ratio = Fin (1 / 2), fs_absorption = 0,
     fs_exhaustion = 0, fs_continuation_strength = Fin (1 / 2)\<rparr>"

definition ex_timing :: micro_timing_state where
  "ex_timing = \<lparr>mt_signal = Optimal, mt_spread_compression = 0, mt_liquidity_pull = 0, mt_trade_burst = 0,
     mt_micro_pullback = 0, mt_timing_score = Fin (1 / 2)\<rparr>"

definition ex_request :: order_request where
  "ex_request = \<lparr>rq_symbol = ''BTCUSDT'', rq_side = Buy, rq_size = 1, rq_price = Some (Fin 100),
     rq_order_type = LimitOrder, rq_post_only = False, rq_reduce_only = False, rq_max_slippage_bps = Fin 8\<rparr>"

definition ex_intent :: order_intent where
  "ex_intent =
     \<lparr>oi_request = ex_request, oi_reason = EnterSmall, oi_score = Fin (3 / 4), oi_last_price = Fin 100,
      oi_position_before = position_default, oi_timestamp = 1000, oi_urgency = Fin (1 / 2),
      oi_expected_slippage_bps = 1, oi_expected_duration_ms = 500, oi_data_latency_ms = 10,
      oi_regime = ex_regime, oi_context = ex_context, oi_flow = ex_flow, oi_timing = ex_timing,
      oi_edge_state = Valid, oi_edge_regime = Stable, oi_edge_reliability_score = 1,
      oi_edge_half_life_samples = Fin 64, oi_edge_capture_mean = 1, oi_negative_capture_streak = 0,
      oi_execution_alpha_mean = 0, oi_markout_degradation_score = 0, oi_dynamic_size_multiplier = 1,
      oi_competition_state = CompetitionNormal, oi_competition_score = 0, oi_trading_enabled = True,
      oi_execution_mode = Passive, oi_queue_estimate = queue_estimate_default,
      oi_fill_probability = LowFill, oi_meta = None\<rparr>"

lemmas sample_defs = config_default_def ex_regime_def ex_context_def ex_flow_def ex_timing_def ex_request_def
  ex_intent_def queue_estimate_default_def position_default_def

end
