(* ===== verification/Risk.thy ===== *)
theory Risk
  imports Samples
begin

text \<open>
  The risk gate of \<open>rtts/src/risk.rs\<close>: the task \<open>run\<close> receives order intents and forwards those
  that pass \<open>validate\<close>. Its state is the realised profit it compares with the daily drawdown and a
  kill switch. A step consumes one intent and yields what becomes of it; metrics and logging are
  left out, and the downstream channel is taken to stay open.

  The facts: what a forwarded intent satisfies, the kill switch is never released, the drawdown
  limit cannot trip because nothing ever updates the profit.
\<close>

section \<open>Validation\<close>

definition validate :: "config \<Rightarrow> order_intent \<Rightarrow> f64 \<Rightarrow> bool \<Rightarrow> string + unit" where
  "validate cfg intent realized_pnl kill_switch =
     (let size = rq_size (oi_request intent);
          price = oi_last_price intent;
          notional = size * price;
          max_trade_risk = cf_capital cfg * cf_max_risk_pct cfg;
          stop_distance = cf_stop_loss_bps cfg / lit 10000 * price;
          risk_estimate = size * stop_distance
      in if kill_switch then Inl ''kill_switch''
         else if size \<le> 0 \<or> \<not> fin size then Inl ''bad_size''
         else if \<not> fin price \<or> price \<le> 0 then Inl ''bad_price''
         else if max_trade_risk < risk_estimate then Inl ''trade_risk''
         else if cf_capital cfg * lit 0.25 < notional then Inl ''notional''
         else if cf_capital cfg * cf_max_daily_drawdown_pct cfg < - realized_pnl then Inl ''daily_drawdown''
         else if cf_max_data_age_ms cfg < oi_data_latency_ms intent then Inl ''stale_data''
         else if oi_expected_duration_ms intent = 0 then Inl ''bad_duration''
         else if rq_max_slippage_bps (oi_request intent) < oi_expected_slippage_bps intent then Inl ''slippage_budget''
         else Inr ())"

definition abnormal :: "order_intent \<Rightarrow> bool" where
  "abnormal intent \<longleftrightarrow> \<not> fin (oi_score intent) \<or> 1 < oi_score intent \<or> oi_score intent < 0"

section \<open>The task\<close>

record risk_state =
  rk_realized_pnl :: f64
  rk_kill_switch :: bool

datatype risk_outcome = Forwarded order_intent | Tripped order_intent | Rejected string

definition risk_init :: risk_state where
  "risk_init = \<lparr>rk_realized_pnl = 0, rk_kill_switch = False\<rparr>"

definition risk_step :: "config \<Rightarrow> risk_state \<Rightarrow> order_intent \<Rightarrow> risk_state \<times> risk_outcome" where
  "risk_step cfg s intent =
     (case validate cfg intent (rk_realized_pnl s) (rk_kill_switch s) of
        Inr _ \<Rightarrow>
          (if abnormal intent then (s\<lparr>rk_kill_switch := True\<rparr>, Tripped intent)
           else (s\<lparr>rk_realized_pnl := f_min (rk_realized_pnl s) 0\<rparr>, Forwarded intent))
      | Inl reason \<Rightarrow>
          (s\<lparr>rk_kill_switch := (rk_kill_switch s \<or> reason = ''daily_drawdown''),
             rk_realized_pnl := f_min (rk_realized_pnl s) 0\<rparr>, Rejected reason))"

definition risk_run :: "config \<Rightarrow> risk_state \<Rightarrow> order_intent list \<Rightarrow> risk_state \<times> risk_outcome list" where
  "risk_run cfg = run_task (risk_step cfg)"

section \<open>What the steps keep\<close>

lemma risk_step_latch [inv_intros]: "rk_kill_switch s \<Longrightarrow> rk_kill_switch (fst (risk_step cfg s i))"
  by (simp add: risk_step_def validate_def)

lemma f_min_0_0 [simp]: "f_min 0 0 = 0"
  by (simp add: f_min_def)

lemma risk_step_pnl [inv_intros]: "rk_realized_pnl s = 0 \<Longrightarrow> rk_realized_pnl (fst (risk_step cfg s i)) = 0"
  by (auto simp: risk_step_def split: sum.splits)

interpretation kill_switch: handler "\<lambda>s i. fst (risk_step cfg s i)" rk_kill_switch
  by unfold_locales (rule risk_step_latch)

interpretation flat_pnl: handler "\<lambda>s i. fst (risk_step cfg s i)" "\<lambda>s. rk_realized_pnl s = 0"
  by unfold_locales (rule risk_step_pnl)

lemmas risk_run_Cons = run_task_Cons[of "risk_step cfg" for cfg, folded risk_run_def]
  and risk_run_append = run_task_append[of "risk_step cfg" for cfg, folded risk_run_def]
  and risk_run_fst = run_task_fst[of "risk_step cfg" for cfg, folded risk_run_def]

lemma risk_run_Nil [simp]: "risk_run cfg s [] = (s, [])"
  by (simp add: risk_run_def)

lemma validate_killed: "validate cfg i p True = Inl ''kill_switch''"
  by (simp add: validate_def)

lemma killed_run: "rk_kill_switch s \<Longrightarrow> snd (risk_run cfg s is) = map (\<lambda>_. Rejected ''kill_switch'') is"
proof (induction "is" arbitrary: s)
  case (Cons i "is")
  then have "snd (risk_step cfg s i) = Rejected ''kill_switch''" by (simp add: risk_step_def validate_killed)
  then show ?case
    using Cons.IH[OF risk_step_latch[OF Cons.prems, of cfg i]] by (simp add: risk_run_Cons)
qed simp

text \<open>The limits an intent respects when the gate lets it through.\<close>

definition intent_safe :: "config \<Rightarrow> order_intent \<Rightarrow> bool" where
  "intent_safe cfg i \<longleftrightarrow>
     fin (rq_size (oi_request i)) \<and> 0 < rq_size (oi_request i) \<and>
     fin (oi_last_price i) \<and> 0 < oi_last_price i \<and>
     rq_size (oi_request i) * oi_last_price i \<le> cf_capital cfg * lit 0.25 \<and>
     rq_size (oi_request i) * (cf_stop_loss_bps cfg / lit 10000 * oi_last_price i) \<le> cf_capital cfg * cf_max_risk_pct cfg \<and>
     oi_data_latency_ms i \<le> cf_max_data_age_ms cfg \<and>
     oi_expected_duration_ms i \<noteq> 0 \<and>
     \<not> rq_max_slippage_bps (oi_request i) < oi_expected_slippage_bps i \<and>
     fin (oi_score i) \<and> 0 \<le> oi_score i \<and> oi_score i \<le> 1"

text \<open>The limits of the configuration are numbers, and the stop loss a positive one.\<close>

definition limits_ok :: "config \<Rightarrow> bool" where
  "limits_ok cfg \<longleftrightarrow> fin (cf_capital cfg) \<and> fin (cf_max_risk_pct cfg) \<and> fin (cf_max_daily_drawdown_pct cfg) \<and>
     fin (cf_stop_loss_bps cfg / lit 10000) \<and> 0 < cf_stop_loss_bps cfg / lit 10000"

lemma pos_mult_not_nan:
  assumes "fin x" "0 < x" "fin a" "0 < a" "fin y" "0 < y"
  shows "x * (a * y) \<noteq> NaN"
proof -
  have p: "a * y = mk False (val a * val y)" using assms by (cases a; cases y) (auto simp: times_fin fin_less_iff)
  have "x \<noteq> NegZero" "val x \<noteq> 0" using assms by (auto simp: fin_less_iff)
  then show ?thesis using assms p by (auto simp: times_f64_def Let_def)
qed

lemma forwarded_safe:
  assumes "limits_ok cfg" "snd (risk_step cfg s i) = Forwarded j"
  shows "j = i \<and> intent_safe cfg i"
proof -
  from assms(2) have v: "validate cfg i (rk_realized_pnl s) (rk_kill_switch s) = Inr ()" "\<not> abnormal i" "j = i"
    by (auto simp: risk_step_def split: sum.splits if_splits)
  define size price where "size = rq_size (oi_request i)" and "price = oi_last_price i"
  have sz: "fin size" "\<not> size \<le> 0" "fin price" "\<not> price \<le> 0"
    using v(1) by (auto simp: validate_def Let_def size_def price_def split: if_splits)
  then have pos: "0 < size" "0 < price" by (auto simp: f64_less_iff_not_le)
  have l25: "fin (lit 0.25)" by (simp add: fin_lit_small)
  have n1: "size * price \<noteq> NaN" "cf_capital cfg * lit 0.25 \<noteq> NaN" "cf_capital cfg * cf_max_risk_pct cfg \<noteq> NaN"
    using sz assms(1) l25 by (auto simp: times_not_nan limits_ok_def)
  have n2: "size * (cf_stop_loss_bps cfg / lit 10000 * price) \<noteq> NaN"
    using assms(1) sz pos by (intro pos_mult_not_nan) (auto simp: limits_ok_def)
  have "\<not> cf_capital cfg * lit 0.25 < size * price"
    "\<not> cf_capital cfg * cf_max_risk_pct cfg < size * (cf_stop_loss_bps cfg / lit 10000 * price)"
    "\<not> cf_max_data_age_ms cfg < oi_data_latency_ms i" "oi_expected_duration_ms i \<noteq> 0"
    "\<not> rq_max_slippage_bps (oi_request i) < oi_expected_slippage_bps i"
    using v(1) by (auto simp: validate_def Let_def size_def price_def split: if_splits)
  moreover have "fin (oi_score i)" "0 \<le> oi_score i" "oi_score i \<le> 1"
    using v(2) by (auto simp: abnormal_def f64_less_iff_not_le)
  ultimately show ?thesis
    using v(3) sz pos n1 n2 unfolding intent_safe_def size_def[symmetric] price_def[symmetric]
    by (simp add: f64_less_iff_not_le not_less)
qed

lemma run_forwarded_safe:
  "limits_ok cfg \<Longrightarrow> Forwarded i \<in> set (snd (risk_run cfg s is)) \<Longrightarrow> i \<in> set is \<and> intent_safe cfg i"
proof (induction "is" arbitrary: s)
  case (Cons k "is")
  from Cons.prems(2) consider "snd (risk_step cfg s k) = Forwarded i"
    | "Forwarded i \<in> set (snd (risk_run cfg (fst (risk_step cfg s k)) is))"
    by (auto simp: risk_run_Cons)
  then show ?case
    using Cons.IH[OF Cons.prems(1)] forwarded_safe[OF Cons.prems(1), of s k i] by cases auto
qed simp

lemma no_drawdown:
  assumes "0 \<le> cf_capital cfg * cf_max_daily_drawdown_pct cfg"
  shows "rk_realized_pnl s = 0 \<Longrightarrow> Rejected ''daily_drawdown'' \<notin> set (snd (risk_run cfg s is))"
proof (induction "is" arbitrary: s)
  case (Cons i "is")
  have "\<not> cf_capital cfg * cf_max_daily_drawdown_pct cfg < - 0"
    using assms by (cases "cf_capital cfg * cf_max_daily_drawdown_pct cfg") (auto simp: less_f64_def zero_f64_def)
  then have "snd (risk_step cfg s i) \<noteq> Rejected ''daily_drawdown''"
    using Cons.prems by (auto simp: risk_step_def validate_def Let_def split: sum.splits if_splits)
  then show ?case
    using Cons.IH[OF risk_step_pnl[OF Cons.prems, of cfg i]] by (auto simp: risk_run_Cons)
qed simp

section \<open>Properties\<close>

text \<open>C10: Whatever stream of intents the gate reads, each intent it forwards comes from the stream, has
a finite positive size and price, a notional of at most a quarter of the capital, a stop-loss risk
within the risk budget, fresh data, a duration and a score in [0, 1].\<close>
theorem risk_gate_safe:
  assumes "limits_ok cfg" "Forwarded i \<in> set (snd (risk_run cfg risk_init is))"
  shows "i \<in> set is \<and> intent_safe cfg i"
  using run_forwarded_safe[OF assms] .

text \<open>Once an admissible intent with an abnormal score has been seen, the gate rejects every
later intent, including the ones that would close a position.\<close>
theorem kill_switch_permanent:
  assumes "snd (risk_step cfg (fst (risk_run cfg risk_init is)) i) = Tripped j"
  shows "snd (risk_run cfg risk_init (is @ i # later)) =
    snd (risk_run cfg risk_init is) @ Tripped i # map (\<lambda>_. Rejected ''kill_switch'') later"
proof -
  define s where "s = fst (risk_run cfg risk_init is)"
  have k: "rk_kill_switch (fst (risk_step cfg s i))" "snd (risk_step cfg s i) = Tripped i"
    using assms by (auto simp: s_def[symmetric] risk_step_def split: sum.splits if_splits)
  show ?thesis
    using killed_run[OF k(1), of cfg later] k(2)
    by (simp add: risk_run_append risk_run_Cons s_def)
qed

text \<open>C13: With a drawdown limit of at least zero the check against the daily drawdown never rejects:
the profit it looks at starts at zero and no step changes it.\<close>
theorem drawdown_never_trips:
  assumes "0 \<le> cf_capital cfg * cf_max_daily_drawdown_pct cfg"
  shows "rk_realized_pnl (fst (risk_run cfg risk_init is)) = 0 \<and>
    Rejected ''daily_drawdown'' \<notin> set (snd (risk_run cfg risk_init is))"
  using no_drawdown[OF assms, of risk_init "is"] flat_pnl.run_ok[of risk_init cfg "is"]
  by (simp add: risk_run_fst risk_init_def)

section \<open>Instances\<close>

lemma ex_limits: "limits_ok config_default" "0 \<le> cf_capital config_default * cf_max_daily_drawdown_pct config_default"
  by (simp_all add: limits_ok_def config_default_def zero_f64_def f64_eval)

lemma ex_intent_ok: "validate config_default ex_intent 0 False = Inr ()" "\<not> abnormal ex_intent"
  by (simp_all add: validate_def abnormal_def Let_def sample_defs zero_f64_def one_f64_def f64_eval)

lemma ex_bad_score: "risk_step config_default risk_init (ex_intent\<lparr>oi_score := NaN\<rparr>) =
    (risk_init\<lparr>rk_kill_switch := True\<rparr>, Tripped (ex_intent\<lparr>oi_score := NaN\<rparr>))"
proof -
  have "validate config_default (ex_intent\<lparr>oi_score := NaN\<rparr>) 0 False = validate config_default ex_intent 0 False"
    by (simp add: validate_def)
  then show ?thesis by (simp add: risk_step_def risk_init_def ex_intent_ok abnormal_def)
qed

theorem risk_gate_safe_witness: "intent_safe config_default ex_intent"
  using risk_gate_safe[OF ex_limits(1), of ex_intent "[ex_intent]"]
  by (simp add: risk_run_Cons risk_step_def risk_init_def ex_intent_ok)

theorem kill_switch_permanent_witness:
  "snd (risk_run config_default risk_init [ex_intent\<lparr>oi_score := NaN\<rparr>, ex_intent]) =
     [Tripped (ex_intent\<lparr>oi_score := NaN\<rparr>), Rejected ''kill_switch'']"
  using kill_switch_permanent[of config_default "[]" "ex_intent\<lparr>oi_score := NaN\<rparr>" _ "[ex_intent]"]
  by (simp add: ex_bad_score)

theorem drawdown_never_trips_witness:
  "Rejected ''daily_drawdown'' \<notin> set (snd (risk_run config_default risk_init [ex_intent, ex_intent]))"
  using drawdown_never_trips[OF ex_limits(2), of "[ex_intent, ex_intent]"] by simp

end
