(* ===== verification/QueueEngine.thy ===== *)
theory QueueEngine
  imports Samples
begin

text \<open>
  The queue estimator of a resting order, \<open>rtts/src/execution/queue_engine.rs\<close>: from the visible
  volume and the trades it tracks the volume ahead, a fill probability and an expected fill time.

  \<open>queue_ok\<close> is the invariant: the probabilities and rates are in [0, 1] and the volume ahead never
  falls below the order's own quantity; every observation with finite quantities (at most 2^52)
  keeps it.
\<close>

section \<open>State\<close>

record queue_state =
  qs_volume_ahead :: f64
  qs_queue_position_ratio :: f64
  qs_expected_fill_time_ms :: f64
  qs_fill_probability :: f64
  qs_queue_decay_rate :: f64
  qs_competition_state :: competition_state
  qs_best_bid :: f64
  qs_best_ask :: f64
  qs_last_reference_price :: f64

record queue_engine =
  qn_state :: queue_state
  qn_cancel_rate :: f64
  qn_trade_through_rate :: f64
  qn_last_volume_ahead :: f64
  qn_last_visible_volume :: f64
  qn_last_ts :: u64

definition EMA_ALPHA_FAST :: f64 where "EMA_ALPHA_FAST = lit 0.22"

definition EMA_ALPHA_SLOW :: f64 where "EMA_ALPHA_SLOW = lit 0.10"

section \<open>Operations\<close>

definition expected_fill_time_ms :: "f64 \<Rightarrow> f64 \<Rightarrow> f64 \<Rightarrow> f64 \<Rightarrow> f64" where
  "expected_fill_time_ms volume_ahead order_qty fill_probability queue_decay_rate =
     (let effective_decay = f_max (f_max queue_decay_rate (order_qty * lit 0.001)) (lit (1 / 10 ^ 6));
          backlog_ms = volume_ahead / effective_decay
      in f_clamp (backlog_ms / f_max fill_probability (lit 0.05)) (lit 10) (lit 2000))"

definition ewma :: "f64 \<Rightarrow> f64 \<Rightarrow> f64 \<Rightarrow> f64" where
  "ewma current sample alpha =
     (if feq current 0 then sample else current * (1 - alpha) + sample * alpha)"

definition queue_engine_new :: "queue_estimate \<Rightarrow> f64 \<Rightarrow> u64 \<Rightarrow> queue_engine" where
  "queue_engine_new estimate order_qty expected_duration_ms =
     (let volume_ahead = f_max (qe_volume_ahead estimate) order_qty;
          queue_position_ratio =
            (if 0 < volume_ahead then qe_volume_ahead estimate / f_max volume_ahead (lit (1 / 10 ^ 9)) else 1)
      in \<lparr>qn_state =
            \<lparr>qs_volume_ahead = volume_ahead,
             qs_queue_position_ratio = queue_position_ratio,
             qs_expected_fill_time_ms =
               f_of_word expected_duration_ms / f_max (qe_fill_probability estimate) (lit 0.05),
             qs_fill_probability = f_clamp (qe_fill_probability estimate) 0 1,
             qs_queue_decay_rate = 0,
             qs_competition_state = CompetitionNormal,
             qs_best_bid = 0, qs_best_ask = 0, qs_last_reference_price = 0\<rparr>,
          qn_cancel_rate = 0,
          qn_trade_through_rate = 0,
          qn_last_volume_ahead = volume_ahead,
          qn_last_visible_volume = volume_ahead,
          qn_last_ts = 0\<rparr>)"

text \<open>The milliseconds since the last observation, at least one.\<close>

definition elapsed_ms :: "queue_engine \<Rightarrow> u64 \<Rightarrow> f64" where
  "elapsed_ms s now_ts = f_of_word (max (sat_sub now_ts (qn_last_ts s)) 1)"

text \<open>The fill probability after a book update.\<close>

definition book_fill_probability ::
  "f64 \<Rightarrow> f64 \<Rightarrow> f64 \<Rightarrow> f64 \<Rightarrow> f64 \<Rightarrow> f64 \<Rightarrow> bool \<Rightarrow> f64" where
  "book_fill_probability decay_rate order_qty cancel_rate trade_through_rate ratio spread_bps outbid =
     (let spread_penalty = f_clamp (spread_bps / lit 12) 0 (lit 0.45);
          outbid_penalty = (if outbid then lit 0.14 else 0);
          queue_penalty = f_max (ratio - 1) 0 * lit 0.28;
          decay_boost =
            f_clamp (f_max decay_rate 0 / f_max order_qty (lit (1 / 10 ^ 9)) * lit 50) 0 (lit 0.20);
          cancel_boost = f_clamp cancel_rate 0 (lit 0.18);
          trade_through_boost = f_clamp trade_through_rate 0 (lit 0.20)
      in f_clamp (lit 0.55 + decay_boost + cancel_boost + trade_through_boost
                  - queue_penalty - spread_penalty - outbid_penalty) 0 1)"

text \<open>The volume ahead after a book update, the decay and the position ratio computed from it.\<close>

definition book_volume_ahead :: "queue_engine \<Rightarrow> f64 \<Rightarrow> f64 \<Rightarrow> bool \<Rightarrow> f64" where
  "book_volume_ahead s visible_volume order_qty outbid =
     (if outbid then f_max (visible_volume + order_qty) (qs_volume_ahead (qn_state s)) else visible_volume)"

definition book_decay :: "queue_engine \<Rightarrow> f64 \<Rightarrow> u64 \<Rightarrow> f64" where
  "book_decay s volume_ahead now_ts =
     f_clamp ((qn_last_volume_ahead s - volume_ahead) / elapsed_ms s now_ts) (lit (- 10000)) (lit 10000)"

definition book_ratio :: "f64 \<Rightarrow> f64 \<Rightarrow> f64" where
  "book_ratio ahead visible_volume = f_clamp (ahead / f_max visible_volume (lit (1 / 10 ^ 9))) 0 (lit 8)"

definition observe_book ::
  "queue_engine \<Rightarrow> f64 \<Rightarrow> f64 \<Rightarrow> bool \<Rightarrow> f64 \<Rightarrow> u64 \<Rightarrow> queue_engine \<times> queue_state" where
  "observe_book s visible_volume0 order_qty outbid spread_bps now_ts =
     (let st = qn_state s;
          visible_volume = f_max visible_volume0 order_qty;
          volume_delta = qn_last_visible_volume s - visible_volume;
          cancel_impulse =
            f_clamp (volume_delta / f_max (qn_last_visible_volume s) (lit (1 / 10 ^ 9))) (lit (- 1)) 1;
          cancel_rate = ewma (qn_cancel_rate s) (f_max cancel_impulse 0) EMA_ALPHA_SLOW;
          volume_ahead = book_volume_ahead s visible_volume order_qty outbid;
          decay = book_decay s volume_ahead now_ts;
          decay_rate = ewma (qs_queue_decay_rate st) decay EMA_ALPHA_FAST;
          ahead = f_max volume_ahead order_qty;
          ratio = book_ratio ahead visible_volume;
          fill_probability =
            book_fill_probability decay_rate order_qty cancel_rate (qn_trade_through_rate s) ratio spread_bps outbid;
          st' = st\<lparr>qs_queue_decay_rate := decay_rate, qs_volume_ahead := ahead,
                   qs_queue_position_ratio := ratio, qs_fill_probability := fill_probability,
                   qs_expected_fill_time_ms :=
                     expected_fill_time_ms ahead order_qty fill_probability decay_rate\<rparr>
      in (s\<lparr>qn_state := st', qn_cancel_rate := cancel_rate, qn_last_ts := now_ts,
            qn_last_visible_volume := visible_volume, qn_last_volume_ahead := ahead\<rparr>, st'))"

definition trade_impulse :: "queue_engine \<Rightarrow> f64 \<Rightarrow> f64 \<Rightarrow> f64" where
  "trade_impulse s traded_volume order_qty =
     f_clamp (traded_volume / f_max (f_max (qs_volume_ahead (qn_state s)) order_qty) (lit (1 / 10 ^ 9))) 0 1"

definition observe_trade :: "queue_engine \<Rightarrow> f64 \<Rightarrow> f64 \<Rightarrow> u64 \<Rightarrow> queue_engine \<times> queue_state" where
  "observe_trade s traded_volume order_qty now_ts =
     (let st = qn_state s;
          impulse = trade_impulse s traded_volume order_qty;
          through_rate = ewma (qn_trade_through_rate s) impulse EMA_ALPHA_FAST;
          consumed = f_min traded_volume (qs_volume_ahead st);
          ahead = f_max (qs_volume_ahead st - consumed) order_qty;
          decay = consumed / elapsed_ms s now_ts;
          decay_rate = ewma (qs_queue_decay_rate st) decay EMA_ALPHA_FAST;
          ratio = f_clamp (ahead / f_max (f_max (qn_last_visible_volume s) order_qty) (lit (1 / 10 ^ 9))) 0 (lit 8);
          fill_probability = f_clamp (qs_fill_probability st + impulse * lit 0.18) 0 1;
          st' = st\<lparr>qs_volume_ahead := ahead, qs_queue_decay_rate := decay_rate,
                   qs_queue_position_ratio := ratio, qs_fill_probability := fill_probability,
                   qs_expected_fill_time_ms :=
                     expected_fill_time_ms ahead order_qty fill_probability decay_rate\<rparr>
      in (s\<lparr>qn_state := st', qn_trade_through_rate := through_rate, qn_last_ts := now_ts,
            qn_last_volume_ahead := ahead\<rparr>, st'))"

section \<open>Ranges of the parts\<close>

lemma alpha_range: "fin EMA_ALPHA_FAST" "fin EMA_ALPHA_SLOW" "0 \<le> val EMA_ALPHA_FAST" "0 \<le> val EMA_ALPHA_SLOW"
  "fin (1 - EMA_ALPHA_FAST)" "fin (1 - EMA_ALPHA_SLOW)" "0 \<le> val (1 - EMA_ALPHA_FAST)" "0 \<le> val (1 - EMA_ALPHA_SLOW)"
  by (simp_all add: EMA_ALPHA_FAST_def EMA_ALPHA_SLOW_def f64_eval)

lemma ewma_unit:
  "rng 0 1 x \<Longrightarrow> rng 0 1 y \<Longrightarrow> rng 0 1 (ewma x y EMA_ALPHA_FAST)"
  "rng 0 1 x \<Longrightarrow> rng 0 1 y \<Longrightarrow> rng 0 1 (ewma x y EMA_ALPHA_SLOW)"
  unfolding ewma_def
  by (auto intro!: rng_mix alpha_range) (simp_all add: EMA_ALPHA_FAST_def EMA_ALPHA_SLOW_def f64_eval)

lemma ewma_decay:
  "rng (- (2 ^ 53)) (2 ^ 53) x \<Longrightarrow> rng (- (2 ^ 53)) (2 ^ 53) y \<Longrightarrow> rng (- (2 ^ 53)) (2 ^ 53) (ewma x y EMA_ALPHA_FAST)"
  unfolding ewma_def
  by (auto intro!: rng_mix alpha_range) (simp_all add: EMA_ALPHA_FAST_def f64_eval)

lemma f_max_pos: "fin x \<Longrightarrow> fin c \<Longrightarrow> 0 < val c \<Longrightarrow> fin (f_max x c) \<and> 0 < val (f_max x c)"
  by (simp add: fin_f_max val_f_max)

lemma small_lits: "fin (lit (1 / 10 ^ 9))" "0 < val (lit (1 / 10 ^ 9))" "fin (lit (1 / 10 ^ 6))"
  "0 < val (lit (1 / 10 ^ 6))" "fin (lit 0.05)" "0 < val (lit 0.05)"
  by (simp_all add: f64_eval)

lemma quotient_not_nan: "x \<noteq> NaN \<Longrightarrow> fin y \<Longrightarrow> 0 < val y \<Longrightarrow> x / y \<noteq> NaN"
  by (rule divide_not_nan') auto

lemma elapsed_pos: "fin (elapsed_ms s t)" "1 \<le> val (elapsed_ms s t)"
proof -
  have u: "1 \<le> unat (max (sat_sub t (qn_last_ts s)) 1)"
    by (metis max.cobounded2 unat_1 word_le_nat_alt)
  define n where "n = unat (max (sat_sub t (qn_last_ts s)) 1)"
  have "n < 2 ^ LENGTH(64)" unfolding n_def by (rule unsigned_less)
  then have "n \<le> 2 ^ 64" by simp
  then have "(of_nat n :: rat) \<le> of_nat (2 ^ 64)" by (simp only: of_nat_le_iff)
  moreover have "bound (2 ^ 64)"
    using pow_less_huge[of 64] repr_pow2[of 64] unfolding bound_def by (simp del: power_numeral)
  ultimately have "rng 1 (2 ^ 64) (f_of_nat n)"
    using u unfolding f_of_nat_def n_def[symmetric] by (intro rng_mk) auto
  then show "fin (elapsed_ms s t)" "1 \<le> val (elapsed_ms s t)"
    by (auto simp: elapsed_ms_def f_of_word_def n_def dest: rngD)
qed

text \<open>The reported fill time is always within 10 and 2000 milliseconds.\<close>

lemma bound_53 [simp]: "bound (2 ^ 53)" "bound (- (2 ^ 53))" "bound (2 ^ 52)"
  by simp_all

lemma fill_time_range:
  assumes "fin ahead" "rng 0 (2 ^ 53) qty" "rng 0 1 p" "fin d"
  shows "rng 10 2000 (expected_fill_time_ms ahead qty p d)"
proof -
  define e where "e = f_max (f_max d (qty * lit 0.001)) (lit (1 / 10 ^ 6))"
  have "rng 0 1 (lit 0.001)" by (intro rng_lit) auto
  then have "rng 0 (2 ^ 53) (qty * lit 0.001)"
    using assms(2) by (intro rng_times_nonneg[where a = 0 and c = 0 and b = "2 ^ 53" and d = 1]) auto
  then have "fin (f_max d (qty * lit 0.001))" using assms(4) rngD(1) by (intro fin_f_max(1))
  from f_max_pos[OF this small_lits(3,4)] have "fin e" "0 < val e" by (simp_all add: e_def)
  then have n: "ahead / e / f_max p (lit 0.05) \<noteq> NaN"
    using f_max_pos[of p "lit 0.05"] assms small_lits
    by (intro quotient_not_nan) (auto simp: rngD)
  have l: "lit 10 = Fin 10" "lit 2000 = Fin 2000" by (simp_all add: lit_exact)
  show ?thesis
    unfolding expected_fill_time_ms_def Let_def e_def[symmetric] l
    using f_clamp_rng[OF n, of "Fin 10" "Fin 2000"] by simp
qed

section \<open>The invariant\<close>

abbreviation vol_max :: rat where "vol_max \<equiv> 2 ^ 53"

definition queue_ok :: "f64 \<Rightarrow> queue_engine \<Rightarrow> bool" where
  "queue_ok qty s \<longleftrightarrow>
     rng 0 1 (qs_fill_probability (qn_state s)) \<and> double (qs_fill_probability (qn_state s)) \<and>
     rng 0 1 (qn_cancel_rate s) \<and>
     rng 0 1 (qn_trade_through_rate s) \<and>
     rng (val qty) vol_max (qs_volume_ahead (qn_state s)) \<and> double (qs_volume_ahead (qn_state s)) \<and>
     rng 0 vol_max (qn_last_volume_ahead s) \<and>
     rng 0 vol_max (qn_last_visible_volume s) \<and>
     rng (- vol_max) vol_max (qs_queue_decay_rate (qn_state s)) \<and>
     rng 0 8 (qs_queue_position_ratio (qn_state s))"

datatype queue_obs = BookObs f64 bool f64 u64 | TradeObs f64 u64

fun queue_step :: "f64 \<Rightarrow> queue_engine \<Rightarrow> queue_obs \<Rightarrow> queue_engine" where
  "queue_step qty s (BookObs visible outbid spread ts) = fst (observe_book s visible qty outbid spread ts)"
| "queue_step qty s (TradeObs volume ts) = fst (observe_trade s volume qty ts)"

text \<open>Quantities are finite, not negative and at most 2^52; the spread is a number.\<close>

definition queue_qty_ok :: "f64 \<Rightarrow> bool" where
  "queue_qty_ok q \<longleftrightarrow> rng 0 (2 ^ 52) q \<and> bound (val q)"

fun obs_ok :: "queue_obs \<Rightarrow> bool" where
  "obs_ok (BookObs visible outbid spread ts) = (rng 0 (2 ^ 52) visible \<and> double visible \<and> fin spread)"
| "obs_ok (TradeObs volume ts) = rng 0 (2 ^ 52) volume"

lemma qty_double: "queue_qty_ok q \<Longrightarrow> double q"
  by (simp add: queue_qty_ok_def double_def)

lemma unit_clamp: "x \<noteq> NaN \<Longrightarrow> rng 0 1 (f_clamp x 0 1)"
  by (rule f_clamp_unit)

lemma ratio_clamp: "x \<noteq> NaN \<Longrightarrow> rng 0 8 (f_clamp x 0 (lit 8))"
  using f_clamp_rng[of x 0 "Fin 8"] by (simp add: lit_exact)

lemma penalty_clamp: "x \<noteq> NaN \<Longrightarrow> 0 \<le> q \<Longrightarrow> q \<le> 1 \<Longrightarrow> rng 0 1 (f_clamp x 0 (lit q))"
  using f_clamp_lit[of x 0 q 0 1] by simp

lemma impulse_range: "queue_ok qty s \<Longrightarrow> queue_qty_ok qty \<Longrightarrow> rng 0 (2 ^ 52) v \<Longrightarrow> rng 0 1 (trade_impulse s v qty)"
  unfolding trade_impulse_def
  using f_max_pos[of "f_max (qs_volume_ahead (qn_state s)) qty" "lit (1 / 10 ^ 9)"] small_lits
  by (intro f_clamp_unit quotient_not_nan) (auto simp: queue_ok_def queue_qty_ok_def rngD fin_f_max)

lemma decay_range:
  assumes "rng 0 vol_max c"
  shows "rng (- vol_max) vol_max (c / elapsed_ms s t)"
proof -
  have e: "fin (elapsed_ms s t)" "1 \<le> val (elapsed_ms s t)" by (rule elapsed_pos)+
  have "val c / val (elapsed_ms s t) \<le> val c" using assms e by (simp add: divide_le_eq rng_def mult_left_mono[of 1 "val (elapsed_ms s t)" "val c", simplified])
  then have "rng 0 vol_max (c / elapsed_ms s t)"
    using assms e by (auto simp: divide_fin rngD intro!: rng_mk) (auto simp: rng_def)
  then show ?thesis by (rule rng_weaken) auto
qed

lemma rest_range:
  assumes "rng (val qty) vol_max ahead" "queue_qty_ok qty" "rng 0 (2 ^ 52) v"
  shows "rng (val qty) vol_max (f_max (ahead - f_min v ahead) qty)" "rng 0 vol_max (f_min v ahead)"
proof -
  have a: "rng 0 vol_max ahead" using assms by (auto simp: rng_def queue_qty_ok_def)
  show m: "rng 0 vol_max (f_min v ahead)"
    using rng_f_min[OF assms(3) a] by (simp add: rng_def)
  have "rng 0 vol_max (ahead - f_min v ahead)"
  proof -
    have "f_min v ahead \<le> ahead" using assms a by (intro f_min_le) (auto simp: rngD)
    then have "rng 0 vol_max (mk s' (val ahead - val (f_min v ahead)))" for s'
      using m a by (intro rng_mk) (auto simp: rng_def fin_le_iff)
    moreover have "ahead - f_min v ahead = mk (val ahead - val (f_min v ahead) < 0) (val ahead - val (f_min v ahead)) \<or>
        ahead - f_min v ahead = NegZero"
      using m a plus_fin[of ahead "- f_min v ahead"] by (auto simp: minus_f64_def rngD)
    ultimately show ?thesis by (auto simp: rng_def)
  qed
  then show "rng (val qty) vol_max (f_max (ahead - f_min v ahead) qty)"
    using rng_f_max[of 0 vol_max "ahead - f_min v ahead" "val qty" "2 ^ 52" qty] assms(2)
    by (auto simp: queue_qty_ok_def rng_def)
qed

lemma observe_trade_ok:
  assumes "queue_ok qty s" "queue_qty_ok qty" "rng 0 (2 ^ 52) v"
  shows "queue_ok qty (fst (observe_trade s v qty t))"
proof -
  define impulse where "impulse = trade_impulse s v qty"
  have i: "rng 0 1 impulse" unfolding impulse_def by (rule impulse_range[OF assms])
  have rest: "rng (val qty) vol_max (f_max (qs_volume_ahead (qn_state s) - f_min v (qs_volume_ahead (qn_state s))) qty)"
    "rng 0 vol_max (f_min v (qs_volume_ahead (qn_state s)))"
    using assms by (intro rest_range; simp add: queue_ok_def)+
  have "rng 0 1 (lit 0.18)" by (intro rng_lit) auto
  then have "rng 0 1 (impulse * lit 0.18)"
    using i by (intro rng_times_nonneg[where a = 0 and c = 0 and b = 1 and d = 1]) auto
  then have p: "qs_fill_probability (qn_state s) + impulse * lit 0.18 \<noteq> NaN"
    using assms(1) by (intro plus_not_nan(1)) (auto simp: queue_ok_def dest: rngD)
  have r: "f_max (qs_volume_ahead (qn_state s) - f_min v (qs_volume_ahead (qn_state s))) qty /
      f_max (f_max (qn_last_visible_volume s) qty) (lit (1 / 10 ^ 9)) \<noteq> NaN"
    using f_max_pos[of "f_max (qn_last_visible_volume s) qty" "lit (1 / 10 ^ 9)"] small_lits rest assms
    by (intro quotient_not_nan) (auto simp: queue_ok_def queue_qty_ok_def rngD fin_f_max)
  have w: "rng 0 vol_max x" if "rng (val qty) vol_max x" for x
    using that assms(2) by (auto simp: rng_def queue_qty_ok_def)
  show ?thesis
    using assms(1) ewma_unit(1)[OF _ i] ewma_decay[OF _ decay_range[OF rest(2)]] w[OF rest(1)] rest f_clamp_unit[OF p] ratio_clamp[OF r]
      qty_double[OF assms(2)]
    unfolding observe_trade_def Let_def queue_ok_def impulse_def[symmetric] by simp
qed

lemma times_const_not_nan: "x \<noteq> NaN \<Longrightarrow> fin c \<Longrightarrow> val c \<noteq> 0 \<Longrightarrow> x * c \<noteq> NaN"
  by (auto simp: times_f64_def Let_def)

lemma book_fill_range:
  assumes "rng (- vol_max) vol_max d" "queue_qty_ok qty" "rng 0 1 c" "rng 0 1 t" "rng 0 8 r" "fin spread"
  shows "rng 0 1 (book_fill_probability d qty c t r spread outbid)"
proof -
  have "f_max d 0 / f_max qty (lit (1 / 10 ^ 9)) \<noteq> NaN"
    using f_max_pos[of qty "lit (1 / 10 ^ 9)"] assms small_lits
    by (intro quotient_not_nan) (auto simp: queue_qty_ok_def intro!: f_max_not_nan dest: rngD)
  then have 1: "f_max d 0 / f_max qty (lit (1 / 10 ^ 9)) * lit 50 \<noteq> NaN"
    by (intro times_const_not_nan) (auto simp: lit_exact)
  have 2: "spread / lit 12 \<noteq> NaN" using assms(6) by (intro divide_not_nan) (auto simp: lit_exact)
  have "rng (- 1) 7 (r - 1)" using rng_minus[OF assms(5), of 1 1 1 "- 1" 7] by (simp add: rng_def)
  then have "rng 0 7 (f_max (r - 1) 0)" using rng_f_max[of "- 1" 7 "r - 1" 0 0 0] by (simp add: rng_def)
  then have 3: "fin (f_max (r - 1) 0 * lit 0.28)"
    using rng_times_nonneg[of 0 7 _ 0 1 "lit 0.28" 0 7] rng_lit[of 0 1 "0.28"] by (auto dest: rngD)
  have f: "fin (f_clamp x 0 (lit q))" if "x \<noteq> NaN" "0 \<le> q" "q \<le> 1" for x q
    using penalty_clamp[OF that] by (rule rngD)
  show ?thesis
    unfolding book_fill_probability_def Let_def
    using 1 2 3 assms(3,4)
    by (intro f_clamp_unit minus_not_nan(2) plus_not_nan(2)) (auto intro!: f fin_lit_small dest: rngD)
qed

lemma double_book_fill [simp]: "double (book_fill_probability d qty c t r spread outbid)"
  unfolding book_fill_probability_def Let_def by (intro double_select) simp_all

lemma visible_range:
  assumes "queue_qty_ok qty" "rng 0 (2 ^ 52) visible"
  shows "rng (val qty) (2 ^ 52) (f_max visible qty)" "rng 0 (2 ^ 52) (f_max visible qty)"
proof -
  have "rng (val qty) (2 ^ 52) qty" "0 \<le> val qty" using assms(1) by (auto simp: queue_qty_ok_def rng_def)
  then show "rng (val qty) (2 ^ 52) (f_max visible qty)" "rng 0 (2 ^ 52) (f_max visible qty)"
    using rng_f_max[OF assms(2), of "val qty" "2 ^ 52" qty] by (auto simp: rng_def)
qed

lemma book_volume_range:
  assumes "queue_ok qty s" "queue_qty_ok qty" "rng 0 (2 ^ 52) vis"
  shows "rng 0 vol_max (book_volume_ahead s vis qty outbid)"
    "rng (val qty) vol_max (f_max (book_volume_ahead s vis qty outbid) qty)"
    "rng 0 vol_max (f_max (book_volume_ahead s vis qty outbid) qty)"
proof -
  have q: "rng 0 (2 ^ 52) qty" "rng (val qty) vol_max qty" "0 \<le> val qty" using assms(2) by (auto simp: queue_qty_ok_def rng_def)
  have sum: "rng 0 vol_max (vis + qty)" by (rule rng_plus[OF assms(3) q(1)]) auto
  show v: "rng 0 vol_max (book_volume_ahead s vis qty outbid)"
    using rng_f_max[OF sum, of "val qty" vol_max "qs_volume_ahead (qn_state s)"] assms q(3)
    by (auto simp: book_volume_ahead_def queue_ok_def rng_def)
  show "rng (val qty) vol_max (f_max (book_volume_ahead s vis qty outbid) qty)"
    "rng 0 vol_max (f_max (book_volume_ahead s vis qty outbid) qty)"
    using rng_f_max[OF v q(2)] q(3) by (auto simp: rng_def)
qed

lemma book_decay_range:
  assumes "queue_ok qty s" "rng 0 vol_max v"
  shows "rng (- vol_max) vol_max (book_decay s v t)"
    "(qn_last_volume_ahead s - v) / elapsed_ms s t \<noteq> NaN"
proof -
  show d: "(qn_last_volume_ahead s - v) / elapsed_ms s t \<noteq> NaN"
    using assms elapsed_pos[of s t] by (intro quotient_not_nan minus_not_nan) (auto simp: queue_ok_def dest: rngD)
  have l: "lit (- 10000) = Fin (- 10000)" "lit 10000 = Fin 10000" by (simp_all add: lit_exact)
  show "rng (- vol_max) vol_max (book_decay s v t)"
    using f_clamp_rng[OF d, of "Fin (- 10000)" "Fin 10000"] by (auto simp: book_decay_def l elim!: rng_weaken)
qed

lemma book_ratio_range:
  assumes "fin ahead" "fin vis"
  shows "rng 0 8 (book_ratio ahead vis)"
  unfolding book_ratio_def using f_max_pos[of vis "lit (1 / 10 ^ 9)"] assms small_lits
  by (intro ratio_clamp quotient_not_nan) auto

lemma cancel_range:
  assumes "queue_ok qty s" "rng 0 (2 ^ 52) vis"
  shows "rng 0 1 (f_max (f_clamp ((qn_last_visible_volume s - vis) /
    f_max (qn_last_visible_volume s) (lit (1 / 10 ^ 9))) (lit (- 1)) 1) 0)"
proof -
  have fv: "fin (qn_last_visible_volume s)" using assms(1) by (auto simp: queue_ok_def dest: rngD)
  have c: "(qn_last_visible_volume s - vis) / f_max (qn_last_visible_volume s) (lit (1 / 10 ^ 9)) \<noteq> NaN"
    using f_max_pos[OF fv small_lits(1,2)] fv assms(2)
    by (intro quotient_not_nan minus_not_nan) (auto dest: rngD)
  have "rng (- 1) 1 (f_clamp ((qn_last_visible_volume s - vis) /
      f_max (qn_last_visible_volume s) (lit (1 / 10 ^ 9))) (lit (- 1)) 1)"
    using f_clamp_rng[OF c, of "Fin (- 1)" 1] by (simp add: lit_exact)
  from rng_f_max[OF this, of 0 0 0] show ?thesis by (simp add: rng_def)
qed

lemma observe_book_ok:
  assumes "queue_ok qty s" "queue_qty_ok qty" "rng 0 (2 ^ 52) visible" "double visible" "fin spread"
  shows "queue_ok qty (fst (observe_book s visible qty outbid spread t))"
proof -
  define vis where "vis = f_max visible qty"
  define v where "v = book_volume_ahead s vis qty outbid"
  define cancel where "cancel = f_max (f_clamp ((qn_last_visible_volume s - vis) /
    f_max (qn_last_visible_volume s) (lit (1 / 10 ^ 9))) (lit (- 1)) 1) 0"
  define drate where "drate = ewma (qs_queue_decay_rate (qn_state s)) (book_decay s v t) EMA_ALPHA_FAST"
  define crate where "crate = ewma (qn_cancel_rate s) cancel EMA_ALPHA_SLOW"
  have vis: "rng (val qty) (2 ^ 52) vis" "rng 0 (2 ^ 52) vis"
    unfolding vis_def by (rule visible_range[OF assms(2,3)])+
  note volume = book_volume_range[OF assms(1,2) vis(2), of outbid, folded v_def]
  have drate: "rng (- vol_max) vol_max drate"
    unfolding drate_def using assms(1) by (intro ewma_decay book_decay_range[OF assms(1) volume(1)]) (simp add: queue_ok_def)
  have crate: "rng 0 1 crate"
    unfolding crate_def cancel_def using assms(1) by (intro ewma_unit cancel_range[OF assms(1) vis(2)]) (simp add: queue_ok_def)
  have ratio: "rng 0 8 (book_ratio (f_max v qty) vis)"
    using volume vis by (intro book_ratio_range) (auto dest: rngD)
  have p: "rng 0 1 (book_fill_probability drate qty crate (qn_trade_through_rate s) (book_ratio (f_max v qty) vis) spread outbid)"
    using assms(1) by (intro book_fill_range drate crate ratio assms(2,5)) (simp add: queue_ok_def)
  have "double (f_max v qty)"
    using assms(1,4) qty_double[OF assms(2)] by (auto simp: v_def book_volume_ahead_def vis_def queue_ok_def)
  then show ?thesis
    using p crate drate ratio volume vis assms(1)
    unfolding observe_book_def Let_def vis_def[symmetric] cancel_def[symmetric] crate_def[symmetric]
      v_def[symmetric] drate_def[symmetric] queue_ok_def
    by (auto elim: rng_weaken)
qed

lemma queue_step_ok [inv_intros]:
  "queue_ok qty s \<Longrightarrow> queue_qty_ok qty \<Longrightarrow> obs_ok ob \<Longrightarrow> queue_ok qty (queue_step qty s ob)"
  by (cases ob) (auto intro: observe_book_ok observe_trade_ok)

lemma estimate_ok:
  assumes "queue_qty_ok qty" "rng 0 (2 ^ 52) (qe_volume_ahead est)" "double (qe_volume_ahead est)" "double (qe_fill_probability est)" "qe_fill_probability est \<noteq> NaN"
  shows "queue_ok qty (queue_engine_new est qty ms)"
proof -
  define ahead where "ahead = f_max (qe_volume_ahead est) qty"
  have q: "rng (val qty) (2 ^ 52) qty" "0 \<le> val qty" using assms(1) by (auto simp: queue_qty_ok_def rng_def)
  have a: "rng (val qty) (2 ^ 52) ahead"
    using rng_f_max[OF assms(2) q(1)] q(2) by (simp add: ahead_def)
  have le: "val (qe_volume_ahead est) \<le> val ahead"
    using assms q by (simp add: ahead_def val_f_max rngD)
  define m where "m = f_max ahead (lit (1 / 10 ^ 9))"
  have m: "fin m" "0 < val m" "val ahead \<le> val m"
    using f_max_pos[of ahead "lit (1 / 10 ^ 9)"] small_lits a by (auto simp: m_def val_f_max dest: rngD)
  have r: "rng 0 8 (qe_volume_ahead est / m)"
    using assms(2) m le by (auto simp: divide_fin rngD intro!: rng_mk) (auto simp: rng_def divide_le_eq)
  have "double ahead" using assms(3) qty_double[OF assms(1)] by (simp add: ahead_def)
  then show ?thesis
    using a r q assms(3-5)
    unfolding queue_engine_new_def Let_def ahead_def[symmetric] m_def[symmetric] queue_ok_def
    by (auto intro: f_clamp_unit simp: rng_0_1 elim: rng_weaken) (auto simp: rng_def)
qed

interpretation queue: guarded_handler "queue_step qty" "\<lambda>s. queue_qty_ok qty \<and> queue_ok qty s" obs_ok
  by unfold_locales (auto intro: queue_step_ok)

section \<open>Properties\<close>

text \<open>C14: From the estimate of an order and through any sequence of book updates and trades with
finite quantities, the fill probability, the cancel rate and the trade-through rate stay in [0, 1],
the volume ahead never falls below the order's own quantity and the position ratio stays in
[0, 8].\<close>
theorem queue_engine_invariant:
  assumes "queue_qty_ok qty" "rng 0 (2 ^ 52) (qe_volume_ahead est)" "double (qe_volume_ahead est)" "double (qe_fill_probability est)"
    "qe_fill_probability est \<noteq> NaN" "list_all obs_ok obs"
  shows "queue_ok qty (foldl (queue_step qty) (queue_engine_new est qty ms) obs)"
  using queue.run_valid[of qty "queue_engine_new est qty ms" obs] estimate_ok[OF assms(1-5)] assms(1,6) by simp

lemma queue_fields:
  "queue_ok qty s \<Longrightarrow> fin (qs_volume_ahead (qn_state s)) \<and> fin (qs_queue_decay_rate (qn_state s)) \<and>
     rng 0 1 (qs_fill_probability (qn_state s))"
  by (auto simp: queue_ok_def dest: rngD)

text \<open>After an observation with finite quantities the expected fill time is within 10 and 2000
milliseconds.\<close>
theorem queue_fill_time_bounded:
  assumes "queue_qty_ok qty" "queue_ok qty s" "obs_ok ob"
  shows "rng 10 2000 (qs_expected_fill_time_ms (qn_state (queue_step qty s ob)))"
proof -
  note f = queue_fields[OF queue_step_ok[OF assms(2,1,3)]]
  have q: "rng 0 (2 ^ 53) qty" using assms(1) by (auto simp: queue_qty_ok_def rng_def)
  have "qs_expected_fill_time_ms (qn_state (queue_step qty s ob)) =
      expected_fill_time_ms (qs_volume_ahead (qn_state (queue_step qty s ob))) qty
        (qs_fill_probability (qn_state (queue_step qty s ob))) (qs_queue_decay_rate (qn_state (queue_step qty s ob)))"
    by (cases ob) (simp_all add: observe_book_def observe_trade_def Let_def)
  then show ?thesis using f q by (simp add: fill_time_range)
qed

text \<open>A trade at the level never lowers the fill probability and never increases the volume
ahead.\<close>
theorem trade_improves_fill:
  assumes "queue_qty_ok qty" "queue_ok qty s" "rng 0 (2 ^ 52) v"
  shows "qs_fill_probability (qn_state s) \<le> qs_fill_probability (qn_state (queue_step qty s (TradeObs v t))) \<and>
    qs_volume_ahead (qn_state (queue_step qty s (TradeObs v t))) \<le> qs_volume_ahead (qn_state s)"
proof
  define p where "p = qs_fill_probability (qn_state s)"
  define i where "i = trade_impulse s v qty * lit 0.18"
  have p: "rng 0 1 p" "double p" using assms(2) by (auto simp: queue_ok_def p_def)
  have "rng 0 1 i" unfolding i_def
    using rng_times_nonneg[OF impulse_range[OF assms(2,1,3)] rng_lit[of 0 1 "0.18"], of 0 1] by simp
  then have "p \<le> p + i" using p by (intro plus_nonneg_ge) (auto simp: rng_def)
  then have "f_clamp p 0 1 \<le> f_clamp (p + i) 0 1" by (intro f_clamp_mono) auto
  moreover have "f_clamp p 0 1 = p" using p by (intro f_clamp_id) auto
  ultimately show "qs_fill_probability (qn_state s) \<le> qs_fill_probability (qn_state (queue_step qty s (TradeObs v t)))"
    by (simp add: observe_trade_def Let_def p_def i_def)
  define a where "a = qs_volume_ahead (qn_state s)"
  have a: "rng (val qty) (2 ^ 53) a" using assms(2) by (simp add: queue_ok_def a_def)
  have m: "rng 0 (2 ^ 53) (f_min v a)" using rest_range(2)[OF a assms(1,3)] .
  have "a - f_min v a \<le> a"
    using a m assms(2) by (intro minus_nonneg_le) (auto simp: queue_ok_def a_def rng_def)
  moreover have "qty \<le> a" using a assms(1) by (auto simp: fin_le_iff rng_def queue_qty_ok_def)
  ultimately have "f_max (a - f_min v a) qty \<le> a" by (auto simp: f_max_def)
  then show "qs_volume_ahead (qn_state (queue_step qty s (TradeObs v t))) \<le> qs_volume_ahead (qn_state s)"
    by (simp add: observe_trade_def Let_def a_def)
qed

text \<open>The parts of a book update that being outbid changes.\<close>

lemma ewma_mono:
  assumes "rng (- vol_max) vol_max d" "rng (- vol_max) vol_max d'" "d \<le> d'" "fin x"
  shows "ewma x d EMA_ALPHA_FAST \<le> ewma x d' EMA_ALPHA_FAST"
proof -
  have m: "rng (- vol_max) vol_max (y * EMA_ALPHA_FAST)" if "rng (- vol_max) vol_max y" for y
    using rng_times_sym[OF that rng_weaken[OF rng_lit[of 0 1 "0.22"], of "- 1" 1], of vol_max]
    by (simp add: EMA_ALPHA_FAST_def)
  have pos: "0 < val EMA_ALPHA_FAST" by (simp add: EMA_ALPHA_FAST_def f64_eval)
  have n: "x * (1 - EMA_ALPHA_FAST) \<noteq> NaN" using assms(4) alpha_range by (simp add: times_not_nan)
  have "d * EMA_ALPHA_FAST \<le> d' * EMA_ALPHA_FAST" using assms(3) alpha_range pos by (intro times_pos_mono)
  then show ?thesis
    using m[OF assms(1)] m[OF assms(2)] assms(3) n by (auto simp: ewma_def intro!: plus_mono_fin dest: rngD)
qed

lemma book_fill_mono:
  assumes "rng (- vol_max) vol_max d'" "d' \<le> d" "queue_qty_ok qty" "rng 0 1 c" "rng 0 1 t" "rng 0 8 r" "rng 0 8 r'" "r \<le> r'" "fin spread"
  shows "book_fill_probability d' qty c t r' spread True \<le> book_fill_probability d qty c t r spread False"
proof -
  have g: "fin (f_max qty (lit (1 / 10 ^ 9)))" "0 < val (f_max qty (lit (1 / 10 ^ 9)))"
    using f_max_pos[of qty "lit (1 / 10 ^ 9)"] assms(3) small_lits by (auto simp: queue_qty_ok_def dest: rngD)
  have l50: "fin (lit 50)" "0 < val (lit 50)" by (simp_all add: lit_exact)
  have n: "f_max y 0 / f_max qty (lit (1 / 10 ^ 9)) * lit 50 \<noteq> NaN" for y
    using g l50 by (intro times_const_not_nan quotient_not_nan f_max_not_nan) auto
  have "f_max d' 0 / f_max qty (lit (1 / 10 ^ 9)) * lit 50 \<le> f_max d 0 / f_max qty (lit (1 / 10 ^ 9)) * lit 50"
    by (intro times_pos_mono divide_pos_mono f_max_mono assms(2) g l50) simp
  then have boost: "f_clamp (f_max d' 0 / f_max qty (lit (1 / 10 ^ 9)) * lit 50) 0 (lit 0.20) \<le>
      f_clamp (f_max d 0 / f_max qty (lit (1 / 10 ^ 9)) * lit 50) 0 (lit 0.20)"
    by (intro f_clamp_mono) (simp_all add: fin_lit_small lit_nonneg)
  have pen: "fin (f_max (y - 1) 0 * lit 0.28)" if "rng 0 8 y" for y
  proof -
    have "rng (- 1) 7 (y - 1)" using rng_minus[OF that, of 1 1 1 "- 1" 7] by (simp add: rng_def)
    then have "rng 0 7 (f_max (y - 1) 0)" using rng_f_max[of "- 1" 7 "y - 1" 0 0 0] by (simp add: rng_def)
    then show ?thesis
      using rng_times_nonneg[of 0 7 _ 0 1 "lit 0.28" 0 7] rng_lit[of 0 1 "0.28"] by (auto dest: rngD)
  qed
  have "r - 1 \<le> r' - 1" using assms(8) by (intro minus_mono_fin) auto
  then have queue: "f_max (r - 1) 0 * lit 0.28 \<le> f_max (r' - 1) 0 * lit 0.28"
    by (intro times_pos_mono f_max_mono) (simp_all add: fin_lit_small f64_eval)
  have f: "fin (f_clamp x 0 (lit q))" if "x \<noteq> NaN" "0 \<le> q" "q \<le> 1" for x q
    using penalty_clamp[OF that] by (rule rngD)
  have fb: "fin (f_clamp (f_max y 0 / f_max qty (lit (1 / 10 ^ 9)) * lit 50) 0 (lit 0.20))" for y
    using n[of y] by (rule f) auto
  have fct: "fin (f_clamp c 0 (lit 0.18))" "fin (f_clamp t 0 (lit 0.20))"
    using assms(4,5) by (auto intro!: f dest: rngD)
  have fs: "fin (f_clamp (spread / lit 12) 0 (lit 0.45))"
    using assms(9) by (intro f divide_not_nan) (auto simp: lit_exact)
  have z: "fin (lit 0.14)" "0 \<le> lit 0.14" using lit_mono[of 0 "0.14"] by (simp_all add: fin_lit_small)
  note refl = f64_le_refl[OF fin_not_nan]
  note mono = minus_mono_fin[OF minus_mono_fin[OF minus_mono_fin[OF plus_mono_fin[OF plus_mono_fin[OF plus_mono_fin]]]]]
  have l: "lit 0.55 \<le> lit 0.55" by simp
  show ?thesis
    unfolding book_fill_probability_def Let_def if_True if_False
    by (rule f_clamp_mono[OF mono[OF l boost fb fb refl[OF fct(1)] fct(1) fct(1) refl[OF fct(2)] fct(2) fct(2)
          queue pen[OF assms(7)] pen[OF assms(6)] refl[OF fs] fs fs z(2) z(1)]]) simp_all
qed

text \<open>For the same book and time, an order that has been outbid is never given a higher fill
probability, nor less volume ahead, than one that has not.\<close>
theorem outbid_lowers_fill:
  assumes "queue_qty_ok qty" "queue_ok qty s" "rng 0 (2 ^ 52) visible" "double visible" "fin spread"
  shows "qs_fill_probability (snd (observe_book s visible qty True spread t)) \<le>
      qs_fill_probability (snd (observe_book s visible qty False spread t)) \<and>
    qs_volume_ahead (snd (observe_book s visible qty False spread t)) \<le>
      qs_volume_ahead (snd (observe_book s visible qty True spread t))"
proof -
  define vis where "vis = f_max visible qty"
  define v where "v = book_volume_ahead s vis qty"
  define d where "d b = ewma (qs_queue_decay_rate (qn_state s)) (book_decay s (v b) t) EMA_ALPHA_FAST" for b
  have vis: "rng (val qty) (2 ^ 52) vis" "rng 0 (2 ^ 52) vis"
    unfolding vis_def by (rule visible_range[OF assms(1,3)])+
  note volume = book_volume_range[OF assms(2,1) vis(2), folded v_def]
  have q: "fin qty" "0 \<le> val qty" "fin vis" using assms(1) vis by (auto simp: queue_qty_ok_def rng_def)
  have "double vis" using assms(4) qty_double[OF assms(1)] by (simp add: vis_def)
  then have "vis \<le> vis + qty" using q by (intro plus_nonneg_ge) auto
  moreover have "vis + qty \<noteq> NaN" using q by (intro plus_not_nan) auto
  ultimately have le: "v False \<le> v True"
    unfolding v_def book_volume_ahead_def by (simp add: f_max_ge f64_le_trans)
  then have ahead: "f_max (v False) qty \<le> f_max (v True) qty" using q by (intro f_max_mono) auto
  have fv: "fin (v b)" "fin (qn_last_volume_ahead s)" "fin (qs_queue_decay_rate (qn_state s))" for b
    using volume(1)[of b] assms(2) by (auto simp: queue_ok_def dest: rngD)
  have lits: "fin (lit (- 10000))" "fin (lit 10000)" "val (lit (- 10000)) \<le> val (lit 10000)"
    by (simp_all add: lit_exact)
  have "book_decay s (v True) t \<le> book_decay s (v False) t"
    unfolding book_decay_def using elapsed_pos[of s t] fv le lits
    by (intro f_clamp_mono divide_pos_mono minus_mono_fin f64_le_refl) auto
  then have decay: "d True \<le> d False"
    unfolding d_def using fv by (intro ewma_mono book_decay_range(1)[OF assms(2) volume(1)])
  have dr: "rng (- vol_max) vol_max (d b)" for b
    unfolding d_def using assms(2) by (intro ewma_decay book_decay_range[OF assms(2) volume(1)]) (simp add: queue_ok_def)
  have rr: "rng 0 8 (book_ratio (f_max (v b) qty) vis)" for b
    using volume(2)[of b] vis by (intro book_ratio_range) (auto dest: rngD)
  have ratio: "book_ratio (f_max (v False) qty) vis \<le> book_ratio (f_max (v True) qty) vis"
    unfolding book_ratio_def using f_max_pos[of vis "lit (1 / 10 ^ 9)"] small_lits q ahead
    by (intro f_clamp_mono divide_pos_mono) (auto simp: lit_exact)
  have t: "rng 0 1 (qn_trade_through_rate s)" using assms(2) by (simp add: queue_ok_def)
  have c: "rng 0 1 (ewma (qn_cancel_rate s) (f_max (f_clamp ((qn_last_visible_volume s - vis) /
      f_max (qn_last_visible_volume s) (lit (1 / 10 ^ 9))) (lit (- 1)) 1) 0) EMA_ALPHA_SLOW)"
    using assms(2) by (intro ewma_unit cancel_range[OF assms(2) vis(2)]) (simp add: queue_ok_def)
  show ?thesis
    using book_fill_mono[OF dr decay assms(1) c t rr rr ratio assms(5)] ahead
    by (simp add: observe_book_def Let_def vis_def[symmetric] v_def[symmetric] d_def[symmetric])
qed

section \<open>Instances\<close>

definition ex_estimate :: queue_estimate where
  "ex_estimate = \<lparr>qe_queue_position = 1, qe_volume_ahead = Fin 5, qe_fill_probability = Fin (1 / 2), qe_placement_depth_bps = 0\<rparr>"

definition ex_queue :: queue_engine where
  "ex_queue = queue_engine_new ex_estimate 1 500"

lemma ex_estimate_ok: "queue_qty_ok 1" "rng 0 (2 ^ 52) (qe_volume_ahead ex_estimate)" "double (qe_volume_ahead ex_estimate)"
  "double (qe_fill_probability ex_estimate)" "qe_fill_probability ex_estimate \<noteq> NaN"
  by (simp_all add: queue_qty_ok_def ex_estimate_def rng_def double_def)

lemma ex_queue_ok: "queue_ok 1 ex_queue"
  unfolding ex_queue_def by (rule estimate_ok[OF ex_estimate_ok])

lemma ex_obs_ok: "obs_ok (BookObs (Fin 4) True 1 10)" "obs_ok (TradeObs (Fin 2) 20)"
  by (simp_all add: rng_def double_def)

theorem queue_engine_invariant_witness:
  "queue_ok 1 (foldl (queue_step 1) (queue_engine_new ex_estimate 1 500) [BookObs (Fin 4) True 1 10, TradeObs (Fin 2) 20])"
  by (rule queue_engine_invariant[OF ex_estimate_ok]) (simp add: ex_obs_ok del: obs_ok.simps)

theorem queue_fill_time_bounded_witness:
  "rng 10 2000 (qs_expected_fill_time_ms (qn_state (queue_step 1 ex_queue (TradeObs (Fin 2) 20))))"
  by (rule queue_fill_time_bounded[OF ex_estimate_ok(1) ex_queue_ok ex_obs_ok(2)])

theorem trade_improves_fill_witness:
  "qs_fill_probability (qn_state ex_queue) \<le> qs_fill_probability (qn_state (queue_step 1 ex_queue (TradeObs (Fin 2) 20)))"
  using trade_improves_fill[OF ex_estimate_ok(1) ex_queue_ok, of "Fin 2" 20] by (simp add: rng_def)

theorem outbid_lowers_fill_witness:
  "qs_fill_probability (snd (observe_book ex_queue (Fin 4) 1 True 1 10)) \<le>
     qs_fill_probability (snd (observe_book ex_queue (Fin 4) 1 False 1 10))"
  using outbid_lowers_fill[OF ex_estimate_ok(1) ex_queue_ok, of "Fin 4" 1 10] by (simp add: rng_def double_def)

end
