(* ===== verification/Controller.thy ===== *)
theory Controller
  imports QueueEngine
begin

text \<open>
  The controller of one order, \<open>rtts/src/execution_controller.rs\<close>: it follows the market and the
  execution events of its order and decides to hold, cancel, re-price, change strategy, exit or
  abort. This theory has its state and operations; \<open>ControllerRun\<close> has the task that owns the
  controllers.

  Methods that mutate \<open>self\<close> return the controller updated; \<open>evaluate_action\<close> and the predicates it
  calls only read it.
\<close>

section \<open>State\<close>

datatype execution_strategy = StratPassive | StratAggressive | StratDefensive

fun strategy_of_mode :: "execution_mode \<Rightarrow> execution_strategy" where
  "strategy_of_mode Passive = StratPassive"
| "strategy_of_mode Aggressive = StratAggressive"
| "strategy_of_mode Defensive = StratDefensive"

record fill_progress =
  fp_filled_qty :: f64
  fp_remaining_qty :: f64
  fp_fill_rate :: f64
  fp_last_fill_ts :: "u64 option"

datatype execution_action =
    HoldPassive
  | StepAhead f64
  | CrossSpread
  | Cancel
  | Replace f64
  | SwitchStrategy execution_strategy
  | ExitPosition "f64 option"
  | Abort

record order_execution_state =
  xo_time_in_book_ms :: u64
  xo_times_outbid :: u32
  xo_cancel_replace_count :: u32
  xo_fill_progress :: f64
  xo_queue_position_history :: "f64 list"

datatype execution_failure_reason =
  QueueTooDeep | Outbid | LatencyTooHigh | CompetitionSpike | LiquidityPull | NoFillTimeout

datatype order_lifecycle_state = LcNew | LcSent | LcAck | LcPartial | LcFilled | LcCanceled | LcRejected

fun lifecycle_terminal :: "order_lifecycle_state \<Rightarrow> bool" where
  "lifecycle_terminal LcFilled = True"
| "lifecycle_terminal LcCanceled = True"
| "lifecycle_terminal LcRejected = True"
| "lifecycle_terminal _ = False"

record execution_controller_event =
  ce_order_id :: string
  ce_idempotency_key :: "string option"
  ce_symbol :: string
  ce_status :: order_lifecycle_state
  ce_filled_qty_delta :: f64
  ce_cumulative_filled_qty :: f64
  ce_remaining_qty :: f64
  ce_partial_fill_ratio :: f64
  ce_slippage_bps :: f64
  ce_competition_flag :: competition_flag
  ce_latency_us :: u64
  ce_event_ts :: u64

record execution_control_feedback =
  cb_order_id :: string
  cb_symbol :: string
  cb_reason :: execution_failure_reason
  cb_elapsed_ms :: f64
  cb_fill_ratio :: f64
  cb_expected_fill_time_ms :: f64
  cb_edge_half_life_ms :: f64
  cb_aborted_due_to_decay :: bool

text \<open>The arguments are those of the source's variants, in their order.\<close>

datatype execution_instruction =
    SubmitI order_intent string
  | CancelI string string string
  | ReplaceI string string f64 string
  | SwitchI string string execution_strategy "f64 option" string
  | ExitI string string side f64 "f64 option" string
  | AbortI string string string

record execution_controller =
  ec_order_id :: string
  ec_symbol :: string
  ec_side :: side
  ec_initial_decision :: scored_decision
  ec_current_strategy :: execution_strategy
  ec_queue_state :: queue_state
  ec_fill_state :: fill_progress
  ec_order_state :: order_execution_state
  ec_start_ts :: u64
  ec_last_update_ts :: u64
  ec_expected_fill_time_ms :: f64
  ec_edge_half_life_ms :: f64
  ec_cancel_count :: u32
  ec_replace_count :: u32
  ec_queue_engine :: queue_engine
  ec_idempotency_key :: string
  ec_current_price :: "f64 option"
  ec_status :: order_lifecycle_state
  ec_initial_volume_ahead :: f64
  ec_last_action_ts :: u64
  ec_last_latency_us :: u64
  ec_last_slippage_bps :: f64
  ec_action_cooldown_ms :: u64
  ec_max_cancel_per_order :: u32
  ec_max_replace_per_order :: u32
  ec_queue_replace_volume_factor :: f64
  ec_min_fill_probability :: f64
  ec_negative_capture_streak :: usize
  ec_execution_alpha_mean :: f64
  ec_validation_approved :: bool
  ec_recent_adverse_selection :: f64
  ec_recent_markout_degradation :: f64
  ec_recent_capture_ratio :: f64
  ec_recent_partial_fill_ratio :: f64

section \<open>Creation\<close>

definition idempotency_key :: "order_intent \<Rightarrow> string" where
  "idempotency_key intent =
     rq_symbol (oi_request intent) @ ''-'' @ string_of_nat (unat (oi_timestamp intent)) @ ''-'' @
     (case rq_side (oi_request intent) of Buy \<Rightarrow> ''buy'' | Sell \<Rightarrow> ''sell'')"

definition scored_decision_from_intent :: "order_intent \<Rightarrow> scored_decision" where
  "scored_decision_from_intent intent =
     \<lparr>sd_market =
        \<lparr>me_timestamp = oi_timestamp intent, me_price = oi_last_price intent, me_volume = 0,
         me_side = rq_side (oi_request intent), me_bid_ask_imbalance = 0, me_spread = mr_spread (oi_regime intent)\<rparr>,
      sd_event = EventNeutral, sd_features = features_default, sd_regime = oi_regime intent,
      sd_context = oi_context intent, sd_flow = oi_flow intent, sd_timing = oi_timing intent,
      sd_direction = (if rq_side (oi_request intent) = Buy then Long else Short),
      sd_confidence = oi_score intent, sd_continuation_prob = oi_score intent,
      sd_reversal_prob = f_clamp (1 - oi_score intent) 0 1, sd_score = oi_score intent,
      sd_decision = oi_reason intent, sd_expected_duration_ms = oi_expected_duration_ms intent,
      sd_urgency = oi_urgency intent, sd_expected_slippage_bps = oi_expected_slippage_bps intent,
      sd_data_latency_ms = oi_data_latency_ms intent, sd_adversarial_risk = 0,
      sd_edge_state = oi_edge_state intent, sd_edge_regime = oi_edge_regime intent,
      sd_edge_reliability_score = oi_edge_reliability_score intent,
      sd_edge_half_life_samples = oi_edge_half_life_samples intent,
      sd_edge_capture_mean = oi_edge_capture_mean intent,
      sd_negative_capture_streak = oi_negative_capture_streak intent,
      sd_execution_alpha_mean = oi_execution_alpha_mean intent,
      sd_markout_degradation_score = oi_markout_degradation_score intent,
      sd_dynamic_size_multiplier = oi_dynamic_size_multiplier intent,
      sd_competition_state = oi_competition_state intent, sd_competition_score = oi_competition_score intent,
      sd_trading_enabled = oi_trading_enabled intent, sd_fill_probability = oi_fill_probability intent\<rparr>"

definition queue_fill_probability :: "queue_estimate \<Rightarrow> f64" where
  "queue_fill_probability queue = f_clamp (qe_fill_probability queue) 0 1"

definition order_fill_time_ms :: "order_intent \<Rightarrow> f64" where
  "order_fill_time_ms intent =
     (let base = f_of_word (oi_expected_duration_ms intent);
          fill_probability = f_max (queue_fill_probability (oi_queue_estimate intent)) (lit 0.05);
          urgency_factor = f_clamp (lit 1.15 - oi_urgency intent * lit 0.35) (lit 0.65) (lit 1.20)
      in base / fill_probability * urgency_factor)"

definition edge_half_life_ms :: "order_intent \<Rightarrow> f64" where
  "edge_half_life_ms intent =
     (let half_life_samples = f_max (oi_edge_half_life_samples intent) (lit 0.5);
          duration = f_of_word (oi_expected_duration_ms intent)
      in f_clamp (half_life_samples * duration) (duration * lit 0.75) (duration * lit 12))"

definition controller_new :: "order_intent \<Rightarrow> config \<Rightarrow> execution_controller" where
  "controller_new intent cfg =
     (let key = idempotency_key intent;
          fill_time = order_fill_time_ms intent;
          initial_ahead = f_max (qe_volume_ahead (oi_queue_estimate intent)) (rq_size (oi_request intent));
          engine = queue_engine_new (oi_queue_estimate intent) (rq_size (oi_request intent))
                     (oi_expected_duration_ms intent)
      in \<lparr>ec_order_id = key,
          ec_symbol = rq_symbol (oi_request intent),
          ec_side = rq_side (oi_request intent),
          ec_initial_decision = scored_decision_from_intent intent,
          ec_current_strategy = strategy_of_mode (oi_execution_mode intent),
          ec_queue_state =
            (qn_state engine)\<lparr>qs_volume_ahead := initial_ahead, qs_expected_fill_time_ms := fill_time\<rparr>,
          ec_fill_state =
            \<lparr>fp_filled_qty = 0, fp_remaining_qty = rq_size (oi_request intent), fp_fill_rate = 0,
             fp_last_fill_ts = None\<rparr>,
          ec_order_state =
            \<lparr>xo_time_in_book_ms = 0, xo_times_outbid = 0, xo_cancel_replace_count = 0,
             xo_fill_progress = 0, xo_queue_position_history = []\<rparr>,
          ec_start_ts = oi_timestamp intent,
          ec_last_update_ts = oi_timestamp intent,
          ec_expected_fill_time_ms = fill_time,
          ec_edge_half_life_ms = edge_half_life_ms intent,
          ec_cancel_count = 0,
          ec_replace_count = 0,
          ec_queue_engine = engine,
          ec_idempotency_key = key,
          ec_current_price = rq_price (oi_request intent),
          ec_status = LcNew,
          ec_initial_volume_ahead = initial_ahead,
          ec_last_action_ts = 0,
          ec_last_latency_us = 0,
          ec_last_slippage_bps = 0,
          ec_action_cooldown_ms = cf_execution_action_cooldown_ms cfg,
          ec_max_cancel_per_order = cf_max_cancel_per_order cfg,
          ec_max_replace_per_order = cf_max_replace_per_order cfg,
          ec_queue_replace_volume_factor = f_max (cf_queue_replace_volume_factor cfg) (lit 1.05),
          ec_min_fill_probability = f_clamp (cf_min_fill_probability cfg) (lit 0.05) (lit 0.95),
          ec_negative_capture_streak = oi_negative_capture_streak intent,
          ec_execution_alpha_mean = oi_execution_alpha_mean intent,
          ec_validation_approved = (oi_trading_enabled intent \<and> oi_edge_state intent \<noteq> Invalid),
          ec_recent_adverse_selection = 0,
          ec_recent_markout_degradation = oi_markout_degradation_score intent,
          ec_recent_capture_ratio = oi_edge_capture_mean intent,
          ec_recent_partial_fill_ratio = 0\<rparr>)"

section \<open>Reading the state\<close>

definition ec_is_terminal :: "execution_controller \<Rightarrow> bool" where
  "ec_is_terminal c = lifecycle_terminal (ec_status c)"

definition elapsed_time_ms :: "execution_controller \<Rightarrow> u64 \<Rightarrow> f64" where
  "elapsed_time_ms c now_ts = f_of_word (sat_sub now_ts (ec_start_ts c))"

definition cooldown_elapsed :: "execution_controller \<Rightarrow> u64 \<Rightarrow> bool" where
  "cooldown_elapsed c now_ts \<longleftrightarrow> ec_action_cooldown_ms c \<le> sat_sub now_ts (ec_last_action_ts c)"

definition derived_tick :: "f64 \<Rightarrow> f64 \<Rightarrow> f64 \<Rightarrow> f64" where
  "derived_tick best_bid best_ask reference =
     (let spread = f_abs (best_ask - best_bid)
      in f_min (f_max (f_max spread (f_abs reference * lit 0.00002)) (lit 0.01))
           (f_abs reference * lit 0.00025))"

definition reference_price :: "execution_controller \<Rightarrow> f64" where
  "reference_price c =
     (case ec_current_price c of Some p \<Rightarrow> p | None \<Rightarrow> qs_last_reference_price (ec_queue_state c))"

definition cross_price :: "execution_controller \<Rightarrow> f64 option" where
  "cross_price c =
     (let reference = reference_price c;
          q = ec_queue_state c;
          tick = derived_tick (qs_best_bid q) (qs_best_ask q) reference
      in Some (case ec_side c of
                 Buy \<Rightarrow> f_max (qs_best_ask q) (reference + tick)
               | Sell \<Rightarrow> f_min (qs_best_bid q) (reference - tick)))"

definition compute_improved_price :: "execution_controller \<Rightarrow> f64 option" where
  "compute_improved_price c =
     (let reference = reference_price c;
          q = ec_queue_state c;
          touch =
            (case ec_side c of
               Buy \<Rightarrow> f_max (qs_best_ask q) reference
             | Sell \<Rightarrow>
                 (let best_bid = (if 0 < qs_best_bid q then qs_best_bid q else reference)
                  in f_min best_bid reference));
          tick = derived_tick (qs_best_bid q) (qs_best_ask q) reference;
          weak_edge = (sd_edge_reliability_score (ec_initial_decision c) < lit 0.60 \<or>
                       sd_score (ec_initial_decision c) < lit 0.68);
          improvement = (if weak_edge then tick * lit 0.5 else tick);
          improved =
            (case ec_side c of
               Buy \<Rightarrow> f_min (reference + improvement) touch
             | Sell \<Rightarrow> f_max (reference - improvement) touch)
      in if f_abs (improved - reference) \<le> f_epsilon then None else Some improved)"

definition should_replace :: "execution_controller \<Rightarrow> u64 \<Rightarrow> bool" where
  "should_replace c now_ts =
     (if ec_current_strategy c \<noteq> StratPassive
         \<or> ec_max_replace_per_order c \<le> ec_replace_count c
         \<or> fp_remaining_qty (ec_fill_state c) \<le> f_epsilon then False
      else
        (let q = ec_queue_state c;
             queue_deteriorated =
               (lit 1.25 < qs_queue_position_ratio q
                \<or> ec_initial_volume_ahead c * ec_queue_replace_volume_factor c < qs_volume_ahead q);
             fill_prob_dropped = (qs_fill_probability q < ec_min_fill_probability c);
             competition_spike = (qs_competition_state q \<in> {Competitive, Saturated});
             time_pressure =
               (f_min (qs_expected_fill_time_ms q) (ec_expected_fill_time_ms c) * lit 0.55
                  < elapsed_time_ms c now_ts)
         in (queue_deteriorated \<or> fill_prob_dropped \<or> competition_spike) \<and> time_pressure))"

definition should_switch_strategy :: "execution_controller \<Rightarrow> u64 \<Rightarrow> execution_strategy option" where
  "should_switch_strategy c now_ts =
     (let d = ec_initial_decision c;
          q = ec_queue_state c;
          time_remaining = f_max (ec_edge_half_life_ms c - elapsed_time_ms c now_ts) 0;
          strong_edge =
            (lit 0.78 < sd_score d \<and> lit 0.60 < sd_edge_reliability_score d
             \<and> lit (- 1.5) < ec_execution_alpha_mean c)
      in if ec_current_strategy c = StratPassive
            \<and> qs_fill_probability q < ec_min_fill_probability c * lit 0.80
            \<and> strong_edge
            \<and> time_remaining < f_max (ec_expected_fill_time_ms c) 1
         then Some StratAggressive
         else if ec_current_strategy c = StratAggressive
            \<and> sd_expected_slippage_bps d * lit 1.35 < ec_last_slippage_bps c
            \<and> ec_expected_fill_time_ms c * lit 0.75 < time_remaining
         then Some StratPassive
         else if qs_competition_state q = Saturated \<or> sd_edge_state d = Invalid
         then Some StratDefensive
         else None)"

definition classify_failure :: "execution_controller \<Rightarrow> u64 \<Rightarrow> execution_failure_reason" where
  "classify_failure c now_ts =
     (if ec_edge_half_life_ms c < elapsed_time_ms c now_ts
         \<or> ec_expected_fill_time_ms c * lit 1.5 < elapsed_time_ms c now_ts then NoFillTimeout
      else if qs_competition_state (ec_queue_state c) = Saturated then CompetitionSpike
      else if 8000 < ec_last_latency_us c then LatencyTooHigh
      else if lit 0.70 < ec_recent_markout_degradation c then LiquidityPull
      else if 2 \<le> xo_times_outbid (ec_order_state c) then Outbid
      else QueueTooDeep)"

definition should_cancel :: "execution_controller \<Rightarrow> u64 \<Rightarrow> bool" where
  "should_cancel c now_ts =
     (if ec_max_cancel_per_order c \<le> ec_cancel_count c then False
      else fp_filled_qty (ec_fill_state c) \<le> f_epsilon
        \<and> f_min (qs_expected_fill_time_ms (ec_queue_state c)) (ec_expected_fill_time_ms c) * lit 1.20
            < elapsed_time_ms c now_ts)"

definition estimate_fill_probability :: "execution_controller \<Rightarrow> f64 \<Rightarrow> f64" where
  "estimate_fill_probability c liquidity_pull_score =
     (let q = ec_queue_state c;
          base = (if sd_fill_probability (ec_initial_decision c) = HighFill then lit 0.72 else lit 0.42);
          queue_penalty = f_clamp (qs_queue_position_ratio q / lit 3) 0 (lit 0.65);
          competition_penalty =
            (case qs_competition_state q of CompetitionNormal \<Rightarrow> 0 | Competitive \<Rightarrow> lit 0.18 | Saturated \<Rightarrow> lit 0.40);
          outbid_penalty = f_clamp (f_of_word (xo_times_outbid (ec_order_state c)) * lit 0.08) 0 (lit 0.24);
          alpha_penalty = f_clamp (- ec_execution_alpha_mean c / lit 10) 0 (lit 0.15);
          markout_penalty = f_clamp (ec_recent_markout_degradation c) 0 (lit 0.18)
      in f_clamp (base - queue_penalty - competition_penalty - outbid_penalty - alpha_penalty
                  - markout_penalty - liquidity_pull_score * lit 0.10
                  + f_min (qn_cancel_rate (ec_queue_engine c)) (lit 0.08)
                  + f_min (qn_trade_through_rate (ec_queue_engine c)) (lit 0.10)) 0 1)"

definition should_exit_position :: "execution_controller \<Rightarrow> bool" where
  "should_exit_position c =
     (if fp_filled_qty (ec_fill_state c) \<le> f_epsilon then False
      else 4 \<le> ec_negative_capture_streak c
        \<or> ec_recent_capture_ratio c < lit (- 0.05)
        \<or> lit 0.75 < ec_recent_adverse_selection c
        \<or> lit 0.70 < ec_recent_markout_degradation c
        \<or> ec_execution_alpha_mean c < lit (- 2))"

definition should_cross_spread :: "execution_controller \<Rightarrow> u64 \<Rightarrow> bool" where
  "should_cross_spread c now_ts \<longleftrightarrow>
     ec_current_strategy c \<noteq> StratDefensive
     \<and> qs_fill_probability (ec_queue_state c) < ec_min_fill_probability c * lit 0.65
     \<and> ec_edge_half_life_ms c * lit 0.35 < elapsed_time_ms c now_ts
     \<and> lit 0.62 < sd_edge_reliability_score (ec_initial_decision c)"

section \<open>Decisions\<close>

definition evaluate_action :: "execution_controller \<Rightarrow> u64 \<Rightarrow> execution_action" where
  "evaluate_action c now_ts =
     (if lifecycle_terminal (ec_status c) then HoldPassive
      else if \<not> cooldown_elapsed c now_ts then HoldPassive
      else if \<not> ec_validation_approved c
          \<or> sd_edge_state (ec_initial_decision c) = Invalid
          \<or> qs_competition_state (ec_queue_state c) = Saturated
          \<or> ec_edge_half_life_ms c < elapsed_time_ms c now_ts then
        (if f_epsilon < fp_filled_qty (ec_fill_state c) then ExitPosition (cross_price c) else Abort)
      else if ec_edge_half_life_ms c < ec_expected_fill_time_ms c then
        (if should_switch_strategy c now_ts \<noteq> None then SwitchStrategy StratAggressive else Abort)
      else if should_exit_position c then ExitPosition (cross_price c)
      else
        (case should_switch_strategy c now_ts of
           Some new_strategy \<Rightarrow> SwitchStrategy new_strategy
         | None \<Rightarrow>
             (let after_replace = (if should_cancel c now_ts then Cancel else HoldPassive)
              in if should_replace c now_ts then
                   (case compute_improved_price c of
                      Some new_price \<Rightarrow>
                        (if qs_competition_state (ec_queue_state c) = Competitive
                            \<and> ec_current_strategy c = StratPassive then StepAhead new_price
                         else if should_cross_spread c now_ts then CrossSpread
                         else Replace new_price)
                    | None \<Rightarrow> after_replace)
                 else after_replace)))"

section \<open>Updates\<close>

definition apply_action :: "execution_controller \<Rightarrow> execution_action \<Rightarrow> u64 \<Rightarrow> execution_controller" where
  "apply_action c0 action now_ts =
     (let c = c0\<lparr>ec_last_action_ts := now_ts\<rparr>;
          c' =
            (case action of
               Cancel \<Rightarrow> c\<lparr>ec_cancel_count := sat_add (ec_cancel_count c) 1\<rparr>
             | StepAhead new_price \<Rightarrow>
                 c\<lparr>ec_replace_count := sat_add (ec_replace_count c) 1, ec_current_price := Some new_price\<rparr>
             | CrossSpread \<Rightarrow>
                 c\<lparr>ec_current_strategy := StratAggressive,
                   ec_replace_count := sat_add (ec_replace_count c) 1, ec_current_price := cross_price c\<rparr>
             | Replace new_price \<Rightarrow>
                 c\<lparr>ec_replace_count := sat_add (ec_replace_count c) 1, ec_current_price := Some new_price\<rparr>
             | SwitchStrategy new_strategy \<Rightarrow> c\<lparr>ec_current_strategy := new_strategy\<rparr>
             | ExitPosition _ \<Rightarrow> c\<lparr>ec_cancel_count := sat_add (ec_cancel_count c) 1\<rparr>
             | Abort \<Rightarrow> c\<lparr>ec_cancel_count := sat_add (ec_cancel_count c) 1, ec_status := LcCanceled\<rparr>
             | HoldPassive \<Rightarrow> c)
      in c'\<lparr>ec_order_state := (ec_order_state c')
             \<lparr>xo_cancel_replace_count := ec_cancel_count c' + ec_replace_count c'\<rparr>\<rparr>)"

definition competition_state_from_flag :: "competition_flag \<Rightarrow> competition_state \<Rightarrow> competition_state" where
  "competition_state_from_flag flag fallback =
     (case flag of
        RepeatedOutbid \<Rightarrow> Saturated | PartialFillToxicity \<Rightarrow> Saturated
      | SlowFill \<Rightarrow> Competitive | CancelLatency \<Rightarrow> Competitive
      | FlagNone \<Rightarrow> fallback)"

definition classify_competition_state :: "f64 \<Rightarrow> u32 \<Rightarrow> f64 \<Rightarrow> competition_state" where
  "classify_competition_state fill_probability outbid_count liquidity_pull_score =
     (if fill_probability < lit 0.15 \<or> 3 \<le> outbid_count \<or> lit 0.80 < liquidity_pull_score then Saturated
      else if fill_probability < lit 0.32 \<or> 1 \<le> outbid_count \<or> lit 0.45 < liquidity_pull_score then Competitive
      else CompetitionNormal)"

definition MAX_HISTORY :: nat where "MAX_HISTORY = 16"

definition push_bounded_history :: "f64 list \<Rightarrow> f64 \<Rightarrow> f64 list" where
  "push_bounded_history history v = (if length history = MAX_HISTORY then list_remove 0 history else history) @ [v]"

text \<open>The quantity the queue estimator is given: what remains, or all of the order.\<close>

definition order_qty :: "execution_controller \<Rightarrow> f64" where
  "order_qty c =
     (let f = ec_fill_state c
      in f_max (fp_remaining_qty f) (fp_filled_qty f + fp_remaining_qty f))"

definition on_book :: "execution_controller \<Rightarrow> u64 \<Rightarrow> book_level \<Rightarrow> book_level \<Rightarrow> execution_controller" where
  "on_book c timestamp best_bid best_ask =
     (let last_reference_price = (case ec_side c of Buy \<Rightarrow> bl_price best_bid | Sell \<Rightarrow> bl_price best_ask);
          visible_volume = (case ec_side c of Buy \<Rightarrow> bl_quantity best_bid | Sell \<Rightarrow> bl_quantity best_ask);
          spread_bps = f_max (bl_price best_ask - bl_price best_bid) 0 / f_max last_reference_price (lit (1 / 10 ^ 9))
                         * lit 10000;
          c1 = c\<lparr>ec_last_update_ts := timestamp,
                 ec_queue_state := (ec_queue_state c)
                   \<lparr>qs_best_bid := bl_price best_bid, qs_best_ask := bl_price best_ask,
                    qs_last_reference_price := last_reference_price\<rparr>\<rparr>;
          outbid =
            (case ec_current_price c1 of
               Some current_price \<Rightarrow>
                 (case ec_side c of
                    Buy \<Rightarrow> current_price < bl_price best_bid
                  | Sell \<Rightarrow> bl_price best_ask < current_price)
             | None \<Rightarrow> False);
          times_outbid = (if outbid then sat_add (xo_times_outbid (ec_order_state c1)) 1
                          else xo_times_outbid (ec_order_state c1));
          (engine, observed) = observe_book (ec_queue_engine c1) visible_volume (order_qty c1) outbid spread_bps timestamp;
          c2 = c1\<lparr>ec_queue_engine := engine,
                  ec_queue_state := observed,
                  ec_order_state := (ec_order_state c1)
                    \<lparr>xo_times_outbid := times_outbid,
                     xo_time_in_book_ms := sat_sub timestamp (ec_start_ts c1),
                     xo_queue_position_history :=
                       push_bounded_history (xo_queue_position_history (ec_order_state c1))
                         (qs_queue_position_ratio observed)\<rparr>\<rparr>;
          liquidity_pull_score =
            f_clamp ((ec_initial_volume_ahead c2 - visible_volume) / f_max (ec_initial_volume_ahead c2) (lit (1 / 10 ^ 9))) 0 1
            + f_clamp (spread_bps / lit 12) 0 1 * lit 0.25;
          fill_probability = estimate_fill_probability c2 liquidity_pull_score
      in c2\<lparr>ec_queue_state := (ec_queue_state c2)
             \<lparr>qs_fill_probability := fill_probability,
              qs_expected_fill_time_ms := f_max (qs_expected_fill_time_ms (ec_queue_state c2)) 1,
              qs_competition_state :=
                classify_competition_state fill_probability (xo_times_outbid (ec_order_state c2)) liquidity_pull_score\<rparr>\<rparr>)"

definition on_trade :: "execution_controller \<Rightarrow> trade_event \<Rightarrow> execution_controller" where
  "on_trade c trade =
     (let (engine, observed) = observe_trade (ec_queue_engine c) (te_volume trade) (order_qty c) (te_timestamp trade)
      in c\<lparr>ec_last_update_ts := te_timestamp trade,
           ec_queue_engine := engine,
           ec_queue_state := observed,
           ec_order_state := (ec_order_state c)
             \<lparr>xo_queue_position_history :=
                push_bounded_history (xo_queue_position_history (ec_order_state c))
                  (qs_queue_position_ratio observed)\<rparr>\<rparr>)"

fun on_market_update :: "execution_controller \<Rightarrow> market_update \<Rightarrow> execution_controller" where
  "on_market_update c (BookUpdate book) =
     (case bd_bids book of
        [] \<Rightarrow> c
      | best_bid # _ \<Rightarrow>
          (case bd_asks book of
             [] \<Rightarrow> c
           | best_ask # _ \<Rightarrow> on_book c (bd_timestamp book) best_bid best_ask))"
| "on_market_update c (TradeUpdate trade) = on_trade c trade"

text \<open>The part of an execution event that depends on a fill.\<close>

definition on_fill :: "execution_controller \<Rightarrow> execution_controller_event \<Rightarrow> execution_controller" where
  "on_fill c event =
     (let filled = f_max (ce_cumulative_filled_qty event) (fp_filled_qty (ec_fill_state c));
          remaining = f_max (ce_remaining_qty event) 0;
          elapsed_ms = f_of_word (max (sat_sub (ce_event_ts event) (ec_start_ts c)) 1);
          c1 = c\<lparr>ec_fill_state :=
                   \<lparr>fp_filled_qty = filled, fp_remaining_qty = remaining,
                    fp_fill_rate = filled / elapsed_ms, fp_last_fill_ts = Some (ce_event_ts event)\<rparr>,
                 ec_order_state := (ec_order_state c)
                   \<lparr>xo_fill_progress := f_clamp (filled / f_max (filled + remaining) (lit (1 / 10 ^ 9))) 0 1\<rparr>\<rparr>;
          c2 = c1\<lparr>ec_queue_state := (ec_queue_state c1)
                   \<lparr>qs_fill_probability := estimate_fill_probability c1 0\<rparr>\<rparr>;
          capture_ratio = ewma (ec_recent_capture_ratio c2) (ce_partial_fill_ratio event - lit 0.5) (lit 0.12)
      in c2\<lparr>ec_execution_alpha_mean :=
             ewma (ec_execution_alpha_mean c2)
               (- f_max (ce_slippage_bps event) 0 - ec_recent_adverse_selection c2 * lit 2) (lit 0.15),
           ec_recent_capture_ratio := capture_ratio,
           ec_negative_capture_streak :=
             (if capture_ratio < 0 then sat_add (ec_negative_capture_streak c2) 1
              else sat_sub (ec_negative_capture_streak c2) 1)\<rparr>)"

definition on_execution_event :: "execution_controller \<Rightarrow> execution_controller_event \<Rightarrow> execution_controller" where
  "on_execution_event c event =
     (let c1 = c\<lparr>ec_last_update_ts := ce_event_ts event,
                 ec_order_id := ce_order_id event,
                 ec_status := ce_status event,
                 ec_last_latency_us := ce_latency_us event,
                 ec_last_slippage_bps := ce_slippage_bps event,
                 ec_queue_state := (ec_queue_state c)
                   \<lparr>qs_competition_state :=
                      competition_state_from_flag (ce_competition_flag event) (qs_competition_state (ec_queue_state c))\<rparr>,
                 ec_recent_partial_fill_ratio := ce_partial_fill_ratio event,
                 ec_recent_adverse_selection :=
                   (case ce_competition_flag event of
                      PartialFillToxicity \<Rightarrow> lit 0.9 | RepeatedOutbid \<Rightarrow> lit 0.6
                    | SlowFill \<Rightarrow> lit 0.45 | CancelLatency \<Rightarrow> lit 0.35
                    | FlagNone \<Rightarrow> ec_recent_adverse_selection c * lit 0.92)\<rparr>;
          c2 = (if 0 < ce_filled_qty_delta event then on_fill c1 event else c1)
      in c2\<lparr>ec_recent_markout_degradation :=
             ewma (ec_recent_markout_degradation c2)
               (f_clamp (f_max (ec_last_slippage_bps c2) 0 * lit 0.08 + ec_recent_adverse_selection c2) 0 1)
               (lit 0.16)\<rparr>)"

section \<open>Instructions\<close>

definition evaluate_and_convert ::
  "execution_controller \<Rightarrow> u64 \<Rightarrow> execution_controller \<times> execution_instruction option" where
  "evaluate_and_convert c now_ts =
     (let action = evaluate_action c now_ts;
          oid = ec_order_id c; sym = ec_symbol c;
          emit = (\<lambda>instruction. (apply_action c action now_ts, Some instruction))
      in case action of
           HoldPassive \<Rightarrow> (c, None)
         | StepAhead new_price \<Rightarrow> emit (ReplaceI oid sym new_price ''step_ahead'')
         | CrossSpread \<Rightarrow> emit (SwitchI oid sym StratAggressive (cross_price c) ''cross_spread'')
         | Cancel \<Rightarrow> emit (CancelI oid sym ''queue_timeout'')
         | Replace new_price \<Rightarrow> emit (ReplaceI oid sym new_price ''queue_fight'')
         | SwitchStrategy new_strategy \<Rightarrow>
             emit (SwitchI oid sym new_strategy (compute_improved_price c) ''adaptive_switch'')
         | ExitPosition price \<Rightarrow>
             emit (ExitI oid sym (opposite (ec_side c))
                     (f_min (fp_filled_qty (ec_fill_state c))
                        (fp_filled_qty (ec_fill_state c) + fp_remaining_qty (ec_fill_state c)))
                     price ''execution_dominance_exit'')
         | Abort \<Rightarrow> emit (AbortI oid sym ''edge_decay_abort''))"

end
