(* ===== verification/ControllerFacts.thy ===== *)
theory ControllerFacts
  imports Controller
begin

text \<open>
  What the controller of one order does over its life. \<open>controller_step\<close> is the part of the task
  of \<open>execution_controller.rs\<close> that concerns one controller: a market update or an execution event,
  then at most one instruction. The invariants are proved of the updates and of the actions apart
  (\<open>step_preserves\<close>) and carried to runs by the \<open>handler\<close> interface.
\<close>

section \<open>One controller and its inputs\<close>

definition market_timestamp :: "market_update \<Rightarrow> u64" where
  "market_timestamp update =
     (case update of TradeUpdate trade \<Rightarrow> te_timestamp trade | BookUpdate book \<Rightarrow> bd_timestamp book)"

text \<open>What the task does with one controller: a market update, or an execution event of its order.
A controller that is terminal after its event is dropped without a further decision.\<close>

definition controller_on_market ::
  "execution_controller \<Rightarrow> market_update \<Rightarrow> execution_controller \<times> execution_instruction option" where
  "controller_on_market c update = evaluate_and_convert (on_market_update c update) (market_timestamp update)"

definition controller_on_event ::
  "execution_controller \<Rightarrow> execution_controller_event \<Rightarrow> execution_controller \<times> execution_instruction option" where
  "controller_on_event c event =
     (let c1 = on_execution_event c event
      in if ec_is_terminal c1 then (c1, None) else evaluate_and_convert c1 (ce_event_ts event))"

datatype controller_input = MarketIn market_update | EventIn execution_controller_event

fun controller_step ::
  "execution_controller \<Rightarrow> controller_input \<Rightarrow> execution_controller \<times> execution_instruction option" where
  "controller_step c (MarketIn u) = (if ec_is_terminal c then (c, None) else controller_on_market c u)"
| "controller_step c (EventIn e) = controller_on_event c e"

section \<open>What the updates leave alone\<close>

text \<open>The price fields of a queue state.\<close>

definition no_prices :: "queue_state \<Rightarrow> bool" where
  "no_prices q \<longleftrightarrow> qs_best_bid q = 0 \<and> qs_best_ask q = 0 \<and> qs_last_reference_price q = 0"

lemma observe_prices:
  "no_prices (qn_state e) \<Longrightarrow> observe_book e v qty b sp t = (e', q) \<Longrightarrow> no_prices q \<and> no_prices (qn_state e')"
  "no_prices (qn_state e) \<Longrightarrow> observe_trade e v qty t = (e', q) \<Longrightarrow> no_prices q \<and> no_prices (qn_state e')"
  by (auto simp: observe_book_def observe_trade_def Let_def no_prices_def)

definition blind :: "execution_controller \<Rightarrow> bool" where
  "blind c \<longleftrightarrow> no_prices (ec_queue_state c) \<and> no_prices (qn_state (ec_queue_engine c))"

lemma no_prices_update [simp]:
  "no_prices (q\<lparr>qs_fill_probability := p\<rparr>) = no_prices q"
  "no_prices (q\<lparr>qs_expected_fill_time_ms := t\<rparr>) = no_prices q"
  "no_prices (q\<lparr>qs_competition_state := s\<rparr>) = no_prices q"
  "no_prices (q\<lparr>qs_volume_ahead := v\<rparr>) = no_prices q"
  by (simp_all add: no_prices_def)

lemma blind_new: "blind (controller_new i cfg)"
  by (simp add: blind_def controller_new_def Let_def queue_engine_new_def no_prices_def)

lemma blind_book: "blind c \<Longrightarrow> blind (on_book c t b a)"
  by (auto simp: blind_def on_book_def Let_def split: prod.splits dest: observe_prices)

lemma blind_trade: "blind c \<Longrightarrow> blind (on_trade c t)"
  by (auto simp: blind_def on_trade_def Let_def split: prod.splits dest: observe_prices)

lemma blind_market: "blind c \<Longrightarrow> blind (on_market_update c u)"
  by (cases u) (auto simp: blind_book blind_trade split: list.splits)

lemma blind_event: "blind c \<Longrightarrow> blind (on_execution_event c e)"
  by (simp add: blind_def on_execution_event_def on_fill_def Let_def)

lemma blind_apply: "blind c \<Longrightarrow> blind (apply_action c a t)"
  by (cases a) (simp_all add: blind_def apply_action_def Let_def)

text \<open>The fields fixed when the controller is created.\<close>

definition fixed_fields :: "execution_controller \<Rightarrow> _" where
  "fixed_fields c = (ec_symbol c, ec_side c, ec_initial_decision c, ec_start_ts c, ec_expected_fill_time_ms c,
     ec_edge_half_life_ms c, ec_idempotency_key c, ec_action_cooldown_ms c, ec_max_cancel_per_order c,
     ec_max_replace_per_order c, ec_validation_approved c, ec_min_fill_probability c, ec_initial_volume_ahead c)"

definition action_fields :: "execution_controller \<Rightarrow> _" where
  "action_fields c = (ec_last_action_ts c, ec_cancel_count c, ec_replace_count c, ec_current_price c, ec_current_strategy c)"

lemma on_market_fields [simp]:
  "fixed_fields (on_market_update c u) = fixed_fields c"
  "action_fields (on_market_update c u) = action_fields c"
  "ec_status (on_market_update c u) = ec_status c"
  "ec_fill_state (on_market_update c u) = ec_fill_state c"
  by (cases u; simp add: fixed_fields_def action_fields_def on_book_def on_trade_def Let_def split: list.splits prod.splits)+

lemma on_event_fields [simp]:
  "fixed_fields (on_execution_event c e) = fixed_fields c"
  "action_fields (on_execution_event c e) = action_fields c"
  "ec_status (on_execution_event c e) = ce_status e"
  by (simp_all add: fixed_fields_def action_fields_def on_execution_event_def on_fill_def Let_def)

lemma apply_fixed [simp]: "fixed_fields (apply_action c a t) = fixed_fields c"
  by (cases a) (simp_all add: fixed_fields_def apply_action_def Let_def)

section \<open>The controller never sees a price\<close>

lemma abs_minus_same: "fin x \<Longrightarrow> fin y \<Longrightarrow> val x = val y \<Longrightarrow> f_abs (x - y) \<le> f_epsilon"
  unfolding minus_f64_def
  by (auto simp: plus_fin f_epsilon_def mk_def f_zero_def)

definition price_ok :: "f64 \<Rightarrow> bool" where
  "price_ok p \<longleftrightarrow> fin p \<and> double p \<and> 0 \<le> val p"

lemma tick_range:
  assumes "price_ok r"
  shows "rng 0 (val r) (derived_tick 0 0 r)"
proof -
  have b: "bound (val r)" using assms by (auto simp: price_ok_def double_def)
  have a: "rng 0 (val r) (f_abs r)" using assms by (auto simp: rng_def price_ok_def)
  have m: "rng 0 (val r) (f_abs r * lit q)" if "0 \<le> q" "q \<le> 1" for q
    using rng_times_nonneg[OF a rng_lit[of 0 1 q], of 0 "val r"] that b by simp
  have s: "rng 0 0 (f_abs (0 - 0 :: f64))" by (simp add: rng_def minus_f64_def plus_f64_def zero_f64_def mk_def f_zero_def)
  have "rng 0 1 (lit 0.01)" by (intro rng_lit) auto
  from rng_f_max[OF rng_f_max[OF s m[of "0.00002"]] this]
  have x: "rng 0 (max (max 0 (val r)) 1) (f_max (f_max (f_abs (0 - 0)) (f_abs r * lit 0.00002)) (lit 0.01))" by simp
  show ?thesis
    unfolding derived_tick_def Let_def using rng_f_min[OF x m[of "0.00025"]] assms
    by (auto simp: price_ok_def rng_def)
qed

lemma no_improvement:
  assumes "no_prices (ec_queue_state c)" "price_ok (reference_price c)"
  shows "compute_improved_price c = None"
proof -
  define r where "r = reference_price c"
  define tick where "tick = derived_tick 0 0 r"
  have r: "fin r" "double r" "0 \<le> val r" "bound (val r)" using assms(2) by (auto simp: r_def price_ok_def double_def)
  have t: "rng 0 (val r) tick" unfolding tick_def using assms(2) by (intro tick_range) (simp add: r_def)
  have "rng 0 1 (lit 0.5)" by (intro rng_lit) auto
  from rng_times_nonneg[OF t this, of 0 "val r"] r have th: "rng 0 (val r) (tick * lit 0.5)" by simp
  have buy: "f_abs (f_min (r + i) (f_max 0 r) - r) \<le> f_epsilon" if i: "rng 0 (val r) i" for i
  proof -
    have le: "r \<le> r + i" using r i by (intro plus_nonneg_ge) (auto simp: rng_def)
    have m: "fin (f_max 0 r)" "val (f_max 0 r) = val r" using r by (auto simp: fin_f_max val_f_max)
    have n: "r + i \<noteq> NaN" using le by auto
    consider "f_min (r + i) (f_max 0 r) = f_max 0 r" | "f_min (r + i) (f_max 0 r) = r + i" "\<not> f_max 0 r < r + i"
      using n m by (cases "f_max 0 r < r + i") (auto simp: f_min_def)
    then show ?thesis
    proof cases
      case 1 with m r show ?thesis by (simp add: abs_minus_same)
    next
      case 2
      then have "r + i \<le> f_max 0 r" using n m f64_not_less[of "f_max 0 r" "r + i"] by auto
      moreover from this have "fin (r + i)" using fin_between[OF r(1) m(1) le] by simp
      ultimately have "val (r + i) = val r" using le r m by (simp add: fin_le_iff)
      then show ?thesis using 2 r \<open>fin (r + i)\<close> by (simp add: abs_minus_same)
    qed
  qed
  have sell: "f_abs (f_max (r - i) r - r) \<le> f_epsilon" if i: "rng 0 (val r) i" for i
  proof -
    have le: "r - i \<le> r" using r i by (intro minus_nonneg_le) (auto simp: rng_def)
    have "fin (r - i)" using rng_minus[of 0 "val r" r 0 "val r" i "- val r" "val r"] r i by (auto simp: rng_def bound_minus)
    then have "val (f_max (r - i) r) = val r" "fin (f_max (r - i) r)"
      using le r by (auto simp: val_f_max fin_f_max fin_le_iff)
    then show ?thesis using r by (simp add: abs_minus_same)
  qed
  have "f_min r r = r" by (simp add: f_min_def)
  then show ?thesis
    using assms(1) buy[OF t] buy[OF th] sell[OF t] sell[OF th]
    by (cases "ec_side c") (auto simp: compute_improved_price_def Let_def no_prices_def r_def[symmetric] tick_def[symmetric])
qed

section \<open>What a step does\<close>

lemma eval_hold: "evaluate_action c t = HoldPassive \<Longrightarrow> evaluate_and_convert c t = (c, None)"
  by (simp add: evaluate_and_convert_def)

lemma eval_act: "evaluate_action c t \<noteq> HoldPassive \<Longrightarrow>
    \<exists>ins. evaluate_and_convert c t = (apply_action c (evaluate_action c t) t, Some ins)"
  by (cases "evaluate_action c t") (simp_all add: evaluate_and_convert_def Let_def)

lemma eval_cases:
  obtains "evaluate_and_convert c t = (c, None)" "evaluate_action c t = HoldPassive"
  | ins where "evaluate_and_convert c t = (apply_action c (evaluate_action c t) t, Some ins)"
      "evaluate_action c t \<noteq> HoldPassive"
  using eval_hold[of c t] eval_act[of c t] by blast

text \<open>An action is taken only by a live controller whose cooldown is over.\<close>

lemma evaluate_live: "evaluate_action c t \<noteq> HoldPassive \<Longrightarrow> \<not> lifecycle_terminal (ec_status c) \<and> cooldown_elapsed c t"
  by (auto simp: evaluate_action_def split: if_splits)

lemma evaluate_rejected:
  "\<not> ec_validation_approved c \<Longrightarrow> evaluate_action c t \<in> {HoldPassive, Abort, ExitPosition (cross_price c)}"
  by (simp add: evaluate_action_def)

lemma evaluate_unpriced:
  "compute_improved_price c = None \<Longrightarrow>
     evaluate_action c t \<notin> {CrossSpread} \<union> range StepAhead \<union> range Replace"
  by (auto simp: evaluate_action_def Let_def split: option.splits if_splits)

lemma evaluate_cancel_limit:
  "evaluate_action c t = Cancel \<Longrightarrow> ec_cancel_count c < ec_max_cancel_per_order c"
  by (auto simp: evaluate_action_def Let_def should_cancel_def not_le split: option.splits if_splits)

lemma evaluate_replace_limit:
  "evaluate_action c t \<in> {CrossSpread} \<union> range StepAhead \<union> range Replace \<Longrightarrow>
     ec_replace_count c < ec_max_replace_per_order c"
  by (auto simp: evaluate_action_def Let_def should_replace_def not_le split: option.splits if_splits)

lemma evaluate_exit_price: "evaluate_action c t = ExitPosition p \<Longrightarrow> p = cross_price c"
  by (auto simp: evaluate_action_def Let_def split: option.splits if_splits)

lemma apply_fields [simp]:
  "ec_last_action_ts (apply_action c a t) = t"
  "ec_order_id (apply_action c a t) = ec_order_id c"
  "ec_fill_state (apply_action c a t) = ec_fill_state c"
  "ec_queue_state (apply_action c a t) = ec_queue_state c"
  "ec_queue_engine (apply_action c a t) = ec_queue_engine c"
  "a \<noteq> Abort \<Longrightarrow> ec_status (apply_action c a t) = ec_status c"
  by (cases a; simp add: apply_action_def Let_def)+

lemma apply_replace_count:
  "ec_replace_count (apply_action c a t) =
     (if a \<in> {CrossSpread} \<union> range StepAhead \<union> range Replace then sat_add (ec_replace_count c) 1 else ec_replace_count c)"
  by (cases a) (auto simp: apply_action_def Let_def)

lemma apply_price:
  "a \<notin> {CrossSpread} \<union> range StepAhead \<union> range Replace \<Longrightarrow> ec_current_price (apply_action c a t) = ec_current_price c"
  by (cases a) (auto simp: apply_action_def Let_def)

section \<open>Invariants of a controller\<close>

text \<open>Counters: the replacements never pass their limit, and the sum is kept up to date.\<close>

definition counters_ok :: "execution_controller \<Rightarrow> bool" where
  "counters_ok c \<longleftrightarrow>
     ec_replace_count c \<le> ec_max_replace_per_order c \<and>
     xo_cancel_replace_count (ec_order_state c) = ec_cancel_count c + ec_replace_count c \<and>
     length (xo_queue_position_history (ec_order_state c)) \<le> MAX_HISTORY"

lemma history_window: "length h \<le> MAX_HISTORY \<Longrightarrow> push_bounded_history h v = drop (length h + 1 - MAX_HISTORY) (h @ [v])"
  by (cases h) (auto simp: push_bounded_history_def list_remove_def MAX_HISTORY_def)

interpretation history: window push_bounded_history "\<lambda>h. h" MAX_HISTORY
  by unfold_locales (auto simp: history_window MAX_HISTORY_def)

lemma on_market_order_state:
  "xo_cancel_replace_count (ec_order_state (on_market_update c u)) = xo_cancel_replace_count (ec_order_state c)"
  "length (xo_queue_position_history (ec_order_state c)) \<le> MAX_HISTORY \<Longrightarrow>
     length (xo_queue_position_history (ec_order_state (on_market_update c u))) \<le> MAX_HISTORY"
  by (cases u; auto simp: on_book_def on_trade_def Let_def history.push_bounded split: list.splits prod.splits)+

lemma on_event_order_state [simp]:
  "xo_cancel_replace_count (ec_order_state (on_execution_event c e)) = xo_cancel_replace_count (ec_order_state c)"
  "xo_queue_position_history (ec_order_state (on_execution_event c e)) = xo_queue_position_history (ec_order_state c)"
  by (simp_all add: on_execution_event_def on_fill_def Let_def)

lemma fields_eq:
  "fixed_fields c = fixed_fields d \<Longrightarrow> ec_max_replace_per_order c = ec_max_replace_per_order d"
  "fixed_fields c = fixed_fields d \<Longrightarrow> ec_side c = ec_side d"
  "fixed_fields c = fixed_fields d \<Longrightarrow> ec_validation_approved c = ec_validation_approved d"
  "fixed_fields c = fixed_fields d \<Longrightarrow> ec_action_cooldown_ms c = ec_action_cooldown_ms d"
  "fixed_fields c = fixed_fields d \<Longrightarrow> ec_edge_half_life_ms c = ec_edge_half_life_ms d"
  "fixed_fields c = fixed_fields d \<Longrightarrow> ec_start_ts c = ec_start_ts d"
  "fixed_fields c = fixed_fields d \<Longrightarrow> ec_initial_decision c = ec_initial_decision d"
  "action_fields c = action_fields d \<Longrightarrow> ec_replace_count c = ec_replace_count d"
  "action_fields c = action_fields d \<Longrightarrow> ec_cancel_count c = ec_cancel_count d"
  "action_fields c = action_fields d \<Longrightarrow> ec_current_price c = ec_current_price d"
  "action_fields c = action_fields d \<Longrightarrow> ec_last_action_ts c = ec_last_action_ts d"
  by (simp_all add: fixed_fields_def action_fields_def)

lemmas market_same = fields_eq(1-7)[OF on_market_fields(1)] fields_eq(8-11)[OF on_market_fields(2)]
lemmas event_same = fields_eq(1-7)[OF on_event_fields(1)] fields_eq(8-11)[OF on_event_fields(2)]
lemmas apply_same = fields_eq(1-7)[OF apply_fixed]

text \<open>Every step is an update followed by at most one action; this is the induction the
invariants use.\<close>

lemma controller_step_cases:
  obtains (idle) c1 where "controller_step c i = (c1, None)"
      "c1 = c \<or> (\<exists>u. c1 = on_market_update c u) \<or> (\<exists>e. c1 = on_execution_event c e)"
  | (act) c1 t ins where "controller_step c i = (apply_action c1 (evaluate_action c1 t) t, Some ins)"
      "evaluate_and_convert c1 t = (apply_action c1 (evaluate_action c1 t) t, Some ins)"
      "evaluate_action c1 t \<noteq> HoldPassive"
      "(\<exists>u. i = MarketIn u \<and> c1 = on_market_update c u \<and> t = market_timestamp u) \<or>
       (\<exists>e. i = EventIn e \<and> c1 = on_execution_event c e \<and> t = ce_event_ts e)"
proof (cases i)
  case (MarketIn u)
  show ?thesis
  proof (cases "ec_is_terminal c")
    case True
    then show ?thesis using MarketIn by (intro idle[of c]) auto
  next
    case False
    show ?thesis
      by (rule eval_cases[of "on_market_update c u" "market_timestamp u"])
        (use MarketIn False idle[of "on_market_update c u"] act[of "on_market_update c u" "market_timestamp u"]
          in \<open>auto simp: controller_on_market_def\<close>)
  qed
next
  case (EventIn e)
  show ?thesis
  proof (cases "ec_is_terminal (on_execution_event c e)")
    case True
    then show ?thesis using EventIn by (intro idle[of "on_execution_event c e"]) (auto simp: controller_on_event_def Let_def)
  next
    case False
    show ?thesis
      by (rule eval_cases[of "on_execution_event c e" "ce_event_ts e"])
        (use EventIn False idle[of "on_execution_event c e"] act[of "on_execution_event c e" "ce_event_ts e"]
          in \<open>auto simp: controller_on_event_def Let_def\<close>)
  qed
qed

text \<open>What holds of the update and is kept by an action holds after the step.\<close>

lemma step_preserves:
  assumes "P c" "\<And>u. P c \<Longrightarrow> P (on_market_update c u)" "\<And>e. P c \<Longrightarrow> P (on_execution_event c e)"
    "\<And>c1 t. P c1 \<Longrightarrow> evaluate_action c1 t \<noteq> HoldPassive \<Longrightarrow> P (apply_action c1 (evaluate_action c1 t) t)"
  shows "P (fst (controller_step c i))"
  by (rule controller_step_cases[of c i]) (use assms in auto)

lemma counters_step [inv_intros]: "counters_ok c \<Longrightarrow> counters_ok (fst (controller_step c i))"
proof (rule step_preserves[where P = counters_ok])
  fix c1 :: execution_controller and t
  assume c: "counters_ok c1"
  define a where "a = evaluate_action c1 t"
  have "ec_replace_count (apply_action c1 a t) \<le> ec_max_replace_per_order c1"
    using c evaluate_replace_limit[of c1 t]
    by (auto simp: apply_replace_count a_def[symmetric] counters_ok_def intro: sat_add_1_le)
  moreover have "xo_cancel_replace_count (ec_order_state (apply_action c1 a t)) =
      ec_cancel_count (apply_action c1 a t) + ec_replace_count (apply_action c1 a t)"
    "xo_queue_position_history (ec_order_state (apply_action c1 a t)) = xo_queue_position_history (ec_order_state c1)"
    by (cases a; simp add: apply_action_def Let_def)+
  ultimately show "counters_ok (apply_action c1 (evaluate_action c1 t) t)"
    using c by (simp add: counters_ok_def apply_same a_def[symmetric])
qed (auto simp: counters_ok_def market_same event_same on_market_order_state)

lemma counters_new: "counters_ok (controller_new i cfg)"
  by (simp add: counters_ok_def controller_new_def Let_def)

text \<open>A controller that has not been re-priced and sees no prices.\<close>

definition unpriced :: "execution_controller \<Rightarrow> bool" where
  "unpriced c \<longleftrightarrow> blind c \<and> ec_replace_count c = 0 \<and>
     (case ec_current_price c of None \<Rightarrow> True | Some p \<Rightarrow> price_ok p)"

lemma unpriced_reference: "unpriced c \<Longrightarrow> price_ok (reference_price c)"
  by (auto simp: unpriced_def blind_def no_prices_def reference_price_def price_ok_def split: option.splits)

lemma unpriced_no_improvement: "unpriced c \<Longrightarrow> compute_improved_price c = None"
  by (rule no_improvement) (auto simp: unpriced_reference, simp add: unpriced_def blind_def)

lemma unpriced_market: "unpriced c \<Longrightarrow> unpriced (on_market_update c u)"
  by (simp add: unpriced_def market_same blind_market)

lemma unpriced_event: "unpriced c \<Longrightarrow> unpriced (on_execution_event c e)"
  by (simp add: unpriced_def event_same blind_event)

lemma unpriced_apply: "unpriced c \<Longrightarrow> unpriced (apply_action c (evaluate_action c t) t)"
  using evaluate_unpriced[OF unpriced_no_improvement, of c t]
  by (simp add: unpriced_def blind_apply apply_replace_count apply_price)

lemma unpriced_step [inv_intros]: "unpriced c \<Longrightarrow> unpriced (fst (controller_step c i))"
  by (rule step_preserves[where P = unpriced]) (auto intro: unpriced_market unpriced_event unpriced_apply)

lemma unpriced_new:
  "(case rq_price (oi_request intent) of None \<Rightarrow> True | Some p \<Rightarrow> price_ok p) \<Longrightarrow> unpriced (controller_new intent cfg)"
  using blind_new[of intent cfg] by (simp add: unpriced_def controller_new_def Let_def)

interpretation counters: handler "\<lambda>c i. fst (controller_step c i)" counters_ok
  by unfold_locales (rule counters_step)

interpretation unpriced: handler "\<lambda>c i. fst (controller_step c i)" unpriced
  by unfold_locales (rule unpriced_step)

lemma fixed_step [simp]: "fixed_fields (fst (controller_step c i)) = fixed_fields c"
  by (rule step_preserves[where P = "\<lambda>d. fixed_fields d = fixed_fields c"]) auto

section \<open>Runs of a controller\<close>

definition controller_run ::
  "execution_controller \<Rightarrow> controller_input list \<Rightarrow> execution_controller \<times> execution_instruction option list" where
  "controller_run = run_task controller_step"

lemmas controller_run_Cons = run_task_Cons[of controller_step, folded controller_run_def]
  and controller_run_fst = run_task_fst[of controller_step, folded controller_run_def]

lemma controller_run_Nil [simp]: "controller_run c [] = (c, [])"
  by (simp add: controller_run_def)

lemma fixed_run: "fixed_fields (fst (controller_run c is)) = fixed_fields c"
  by (induction "is" arbitrary: c) (simp_all add: controller_run_Cons)

text \<open>A property of the output of one step that holds under an invariant holds of all outputs.\<close>

lemma run_outputs:
  assumes "\<And>c i. I c \<Longrightarrow> I (fst (controller_step c i))" "\<And>c i. I c \<Longrightarrow> Q (snd (controller_step c i))"
  shows "I c \<Longrightarrow> list_all Q (snd (controller_run c is))"
  by (induction "is" arbitrary: c) (simp_all add: controller_run_Cons assms)

text \<open>Instructions that re-price the order.\<close>

fun reprices :: "execution_instruction \<Rightarrow> bool" where
  "reprices (ReplaceI _ _ _ _) = True"
| "reprices (SwitchI _ _ _ price reason) = (reason = ''cross_spread'' \<or> price \<noteq> None)"
| "reprices _ = False"

lemma unpriced_output: "unpriced c \<Longrightarrow> pred_option (\<lambda>ins. \<not> reprices ins) (snd (controller_step c i))"
proof (rule controller_step_cases[of c i])
  fix c1 t ins
  assume u: "unpriced c" and s: "controller_step c i = (apply_action c1 (evaluate_action c1 t) t, Some ins)"
    and e: "evaluate_and_convert c1 t = (apply_action c1 (evaluate_action c1 t) t, Some ins)"
    and c1: "(\<exists>u. i = MarketIn u \<and> c1 = on_market_update c u \<and> t = market_timestamp u) \<or>
       (\<exists>e. i = EventIn e \<and> c1 = on_execution_event c e \<and> t = ce_event_ts e)"
  have n: "compute_improved_price c1 = None"
    using u c1 by (auto intro!: unpriced_no_improvement unpriced_market unpriced_event)
  then show ?thesis
    using evaluate_unpriced[OF n, of t] e s
    by (cases "evaluate_action c1 t") (auto simp: evaluate_and_convert_def Let_def)
qed auto

section \<open>Pacing\<close>

fun input_ts :: "controller_input \<Rightarrow> u64" where
  "input_ts (MarketIn u) = market_timestamp u"
| "input_ts (EventIn e) = ce_event_ts e"

text \<open>The times of the inputs that were answered with an instruction.\<close>

definition emission_times :: "controller_input list \<Rightarrow> execution_instruction option list \<Rightarrow> u64 list" where
  "emission_times is outs = map (\<lambda>(i, out). input_ts i) (filter (\<lambda>(i, out). out \<noteq> None) (zip is outs))"

lemma emission_times_simps [simp]:
  "emission_times [] [] = []"
  "emission_times (i # is) (out # outs) = (if out = None then emission_times is outs else input_ts i # emission_times is outs)"
  by (simp_all add: emission_times_def)

lemma step_pace:
  "snd (controller_step c i) = None \<Longrightarrow> ec_last_action_ts (fst (controller_step c i)) = ec_last_action_ts c"
  "snd (controller_step c i) \<noteq> None \<Longrightarrow> ec_last_action_ts (fst (controller_step c i)) = input_ts i \<and>
     ec_action_cooldown_ms c \<le> sat_sub (input_ts i) (ec_last_action_ts c)"
proof -
  show "snd (controller_step c i) = None \<Longrightarrow> ec_last_action_ts (fst (controller_step c i)) = ec_last_action_ts c"
    by (rule controller_step_cases[of c i]) (auto simp: market_same event_same)
  show "snd (controller_step c i) \<noteq> None \<Longrightarrow> ec_last_action_ts (fst (controller_step c i)) = input_ts i \<and>
     ec_action_cooldown_ms c \<le> sat_sub (input_ts i) (ec_last_action_ts c)"
  proof (rule controller_step_cases[of c i])
    fix c1 t ins
    assume s: "controller_step c i = (apply_action c1 (evaluate_action c1 t) t, Some ins)"
      "evaluate_action c1 t \<noteq> HoldPassive"
      "(\<exists>u. i = MarketIn u \<and> c1 = on_market_update c u \<and> t = market_timestamp u) \<or>
       (\<exists>e. i = EventIn e \<and> c1 = on_execution_event c e \<and> t = ce_event_ts e)"
    have "cooldown_elapsed c1 t" using evaluate_live[OF s(2)] by simp
    then show ?thesis using s(1,3) by (auto simp: cooldown_elapsed_def market_same event_same)
  qed auto
qed

lemma pace:
  assumes "0 < ec_action_cooldown_ms c"
  shows "sorted_wrt (\<lambda>a b. unat a + unat (ec_action_cooldown_ms c) \<le> unat b)
      (ec_last_action_ts c # emission_times is (snd (controller_run c is)))"
  using assms
proof (induction "is" arbitrary: c)
  case (Cons i "is")
  define c' where "c' = fst (controller_step c i)"
  have cd: "ec_action_cooldown_ms c' = ec_action_cooldown_ms c"
    unfolding c'_def by (rule fields_eq(4)[OF fixed_step])
  note IH = Cons.IH[of c', unfolded cd, OF Cons.prems]
  show ?case
  proof (cases "snd (controller_step c i) = None")
    case True
    then show ?thesis using IH step_pace(1)[OF True] by (simp add: controller_run_Cons c'_def)
  next
    case False
    have p: "ec_last_action_ts c' = input_ts i" "ec_action_cooldown_ms c \<le> sat_sub (input_ts i) (ec_last_action_ts c)"
      using step_pace(2)[OF False] by (auto simp: c'_def)
    have "unat (ec_last_action_ts c) + unat (ec_action_cooldown_ms c) \<le> unat (input_ts i)"
      using p(2) Cons.prems by (simp add: word_le_nat_alt word_less_nat_alt unat_sat_sub)
    then show ?thesis using IH p(1) False by (fastforce simp: controller_run_Cons c'_def[symmetric])
  qed
qed simp

section \<open>Exits\<close>

lemma cross_price_unpriced:
  assumes "unpriced c"
  shows "ec_side c = Sell \<Longrightarrow> cross_price c = Some 0"
    "ec_side c = Buy \<Longrightarrow> \<exists>p. cross_price c = Some p \<and> reference_price c \<le> p"
proof -
  define r where "r = reference_price c"
  have r: "price_ok r" "fin r" "double r" "0 \<le> val r" "bound (val r)"
    using unpriced_reference[OF assms] by (auto simp: r_def price_ok_def double_def)
  have t: "rng 0 (val r) (derived_tick 0 0 r)" using r(1) by (rule tick_range)
  have z: "no_prices (ec_queue_state c)" using assms by (simp add: unpriced_def blind_def)
  have "rng 0 (val r) (r - derived_tick 0 0 r)"
    using rng_minus[of "val r" "val r" r 0 "val r" "derived_tick 0 0 r" 0 "val r"] r t by (simp add: rng_def)
  then have "\<not> r - derived_tick 0 0 r < 0" by (auto simp: fin_less_iff rng_def)
  moreover have "r - derived_tick 0 0 r \<noteq> NaN" using r t by (intro minus_not_nan) (auto dest: rngD)
  ultimately have "f_min 0 (r - derived_tick 0 0 r) = 0" by (simp add: f_min_def)
  then show "ec_side c = Sell \<Longrightarrow> cross_price c = Some 0"
    using z by (simp add: cross_price_def Let_def no_prices_def r_def)
  have "r \<le> r + derived_tick 0 0 r" using r t by (intro plus_nonneg_ge) (auto simp: rng_def)
  also have "\<dots> \<le> f_max 0 (r + derived_tick 0 0 r)" using calculation by (intro f_max_ge) auto
  finally show "ec_side c = Buy \<Longrightarrow> \<exists>p. cross_price c = Some p \<and> reference_price c \<le> p"
    using z by (simp add: cross_price_def Let_def no_prices_def r_def)
qed

text \<open>The size an exit instruction carries.\<close>

definition exit_size :: "execution_controller \<Rightarrow> f64" where
  "exit_size c = f_min (fp_filled_qty (ec_fill_state c)) (fp_filled_qty (ec_fill_state c) + fp_remaining_qty (ec_fill_state c))"

fun spaced :: "u64 \<Rightarrow> u64 \<Rightarrow> u64 list \<Rightarrow> bool" where
  "spaced cooldown prev [] = True"
| "spaced cooldown prev (t # ts) = (cooldown \<le> sat_sub t prev \<and> spaced cooldown t ts)"

lemma order_id_market [simp]: "ec_order_id (on_market_update c u) = ec_order_id c"
  by (cases u) (simp_all add: on_book_def on_trade_def Let_def split: list.splits prod.splits)

lemma exits_repeat:
  "\<not> ec_is_terminal c \<Longrightarrow> f_epsilon < fp_filled_qty (ec_fill_state c) \<Longrightarrow>
   spaced (ec_action_cooldown_ms c) (ec_last_action_ts c) (map market_timestamp us) \<Longrightarrow>
   list_all (\<lambda>u. ec_edge_half_life_ms c < elapsed_time_ms c (market_timestamp u)) us \<Longrightarrow>
   list_all (\<lambda>out. \<exists>p. out = Some (ExitI (ec_order_id c) (ec_symbol c) (opposite (ec_side c)) (exit_size c) p
       ''execution_dominance_exit'')) (snd (controller_run c (map MarketIn us)))"
proof (induction us arbitrary: c)
  case (Cons u us)
  define c1 where "c1 = on_market_update c u"
  define c2 where "c2 = apply_action c1 (ExitPosition (cross_price c1)) (market_timestamp u)"
  have f: "fixed_fields c1 = fixed_fields c" "ec_fill_state c1 = ec_fill_state c" "ec_order_id c1 = ec_order_id c"
    "ec_status c1 = ec_status c" "ec_last_action_ts c1 = ec_last_action_ts c"
    by (simp_all add: c1_def market_same)
  have ff: "ec_symbol c1 = ec_symbol c" "ec_side c1 = ec_side c" "ec_edge_half_life_ms c1 = ec_edge_half_life_ms c"
    "ec_start_ts c1 = ec_start_ts c" "ec_action_cooldown_ms c1 = ec_action_cooldown_ms c"
    using f(1) by (simp_all add: fixed_fields_def)
  have e: "evaluate_action c1 (market_timestamp u) = ExitPosition (cross_price c1)"
    using Cons.prems f ff by (simp add: evaluate_action_def ec_is_terminal_def cooldown_elapsed_def elapsed_time_ms_def)
  then have s: "controller_step c (MarketIn u) = (c2, Some (ExitI (ec_order_id c) (ec_symbol c) (opposite (ec_side c))
      (exit_size c) (cross_price c1) ''execution_dominance_exit''))"
    using Cons.prems(1) f ff
    by (simp add: controller_on_market_def evaluate_and_convert_def Let_def c1_def[symmetric] c2_def exit_size_def)
  have g: "fixed_fields c2 = fixed_fields c" "ec_fill_state c2 = ec_fill_state c" "ec_order_id c2 = ec_order_id c"
    "ec_status c2 = ec_status c" "ec_last_action_ts c2 = market_timestamp u"
    using f by (simp_all add: c2_def)
  have gg: "ec_symbol c2 = ec_symbol c" "ec_side c2 = ec_side c" "ec_edge_half_life_ms c2 = ec_edge_half_life_ms c"
    "ec_start_ts c2 = ec_start_ts c" "ec_action_cooldown_ms c2 = ec_action_cooldown_ms c" "exit_size c2 = exit_size c"
    using g by (simp_all add: fixed_fields_def exit_size_def)
  show ?case
    using Cons.IH[of c2] Cons.prems g gg s
    by (simp add: controller_run_Cons ec_is_terminal_def elapsed_time_ms_def)
qed simp

section \<open>Competition\<close>

text \<open>The estimator's own competition state is never changed.\<close>

definition plain :: "execution_controller \<Rightarrow> bool" where
  "plain c \<longleftrightarrow> qs_competition_state (qn_state (ec_queue_engine c)) = CompetitionNormal"

lemma observe_competition:
  "observe_book e v qty b sp t = (e', q) \<Longrightarrow>
     qs_competition_state q = qs_competition_state (qn_state e) \<and> qs_competition_state (qn_state e') = qs_competition_state (qn_state e)"
  "observe_trade e v qty t = (e', q) \<Longrightarrow>
     qs_competition_state q = qs_competition_state (qn_state e) \<and> qs_competition_state (qn_state e') = qs_competition_state (qn_state e)"
  by (auto simp: observe_book_def observe_trade_def Let_def)

lemma plain_market: "plain c \<Longrightarrow> plain (on_market_update c u)"
  by (cases u) (auto simp: plain_def on_book_def on_trade_def Let_def observe_competition split: list.splits prod.splits)

lemma plain_event: "plain c \<Longrightarrow> plain (on_execution_event c e)"
  by (simp add: plain_def on_execution_event_def on_fill_def Let_def)

lemma plain_step [inv_intros]: "plain c \<Longrightarrow> plain (fst (controller_step c i))"
  by (rule step_preserves[where P = plain]) (auto intro: plain_market plain_event, simp add: plain_def)

lemma plain_new: "plain (controller_new intent cfg)"
  by (simp add: plain_def controller_new_def Let_def queue_engine_new_def)

interpretation plain: handler "\<lambda>c i. fst (controller_step c i)" plain
  by unfold_locales (rule plain_step)

section \<open>Properties\<close>

text \<open>In every state a controller can reach from its creation, whatever market updates and
execution events it receives, it has replaced its order at most as often as configured, the combined
counter is the sum of its cancels and replacements, and its queue history holds at most sixteen
entries.\<close>
theorem controller_counters:
  "counters_ok (fst (controller_run (controller_new intent cfg) is))"
  using counters.run_ok[OF counters_new] by (simp add: controller_run_fst)

text \<open>C17: Two instructions of a controller are at least the configured cooldown apart, also when the
clock of its inputs goes backwards.\<close>
theorem controller_pacing:
  assumes "0 < cf_execution_action_cooldown_ms cfg"
  shows "sorted_wrt (\<lambda>a b. unat a + unat (cf_execution_action_cooldown_ms cfg) \<le> unat b)
    (emission_times is (snd (controller_run (controller_new intent cfg) is)))"
  using pace[of "controller_new intent cfg" "is"] assms by (simp add: controller_new_def Let_def)

text \<open>An order whose intent was not approved by the edge validation (trading disabled, or an
invalid edge) is never re-priced, cancelled or switched: its controller only aborts or exits.\<close>
theorem unapproved_only_leaves:
  assumes "\<not> oi_trading_enabled intent \<or> oi_edge_state intent = Invalid"
  shows "list_all (\<lambda>out. case out of None \<Rightarrow> True | Some (AbortI _ _ _) \<Rightarrow> True | Some (ExitI _ _ _ _ _ _) \<Rightarrow> True | _ \<Rightarrow> False)
    (snd (controller_run (controller_new intent cfg) is))"
proof (rule run_outputs[where I = "\<lambda>c. \<not> ec_validation_approved c"])
  fix c :: execution_controller and i
  assume c: "\<not> ec_validation_approved c"
  show "\<not> ec_validation_approved (fst (controller_step c i))" using c fields_eq(3)[OF fixed_step] by simp
  show "case snd (controller_step c i) of None \<Rightarrow> True | Some (AbortI _ _ _) \<Rightarrow> True | Some (ExitI _ _ _ _ _ _) \<Rightarrow> True | _ \<Rightarrow> False"
  proof (rule controller_step_cases[of c i])
    fix c1 t ins
    assume s: "controller_step c i = (apply_action c1 (evaluate_action c1 t) t, Some ins)"
      "evaluate_and_convert c1 t = (apply_action c1 (evaluate_action c1 t) t, Some ins)"
      "(\<exists>u. i = MarketIn u \<and> c1 = on_market_update c u \<and> t = market_timestamp u) \<or>
       (\<exists>e. i = EventIn e \<and> c1 = on_execution_event c e \<and> t = ce_event_ts e)"
    have "\<not> ec_validation_approved c1" using s(3) c by (auto simp: market_same event_same)
    from evaluate_rejected[OF this, of t] show ?thesis
      using s(1,2) by (auto simp: evaluate_and_convert_def Let_def)
  qed auto
qed (use assms in \<open>simp add: controller_new_def Let_def\<close>)

text \<open>The re-pricing of an order never happens. The book prices that \<open>on_market_update\<close> stores are
overwritten at once by the state of the queue estimator, whose prices stay zero; so no improved price
is ever found, and from an order with a finite non-negative price the controller never replaces,
steps ahead, crosses the spread or switches with a price, whatever the market does.\<close>
theorem repricing_unreachable:
  assumes "case rq_price (oi_request intent) of None \<Rightarrow> True | Some p \<Rightarrow> price_ok p"
  shows "list_all (pred_option (\<lambda>ins. \<not> reprices ins)) (snd (controller_run (controller_new intent cfg) is)) \<and>
    ec_replace_count (fst (controller_run (controller_new intent cfg) is)) = 0 \<and>
    no_prices (ec_queue_state (fst (controller_run (controller_new intent cfg) is)))"
proof -
  note new = unpriced_new[OF assms, of cfg]
  have "list_all (pred_option (\<lambda>ins. \<not> reprices ins)) (snd (controller_run (controller_new intent cfg) is))"
    by (rule run_outputs[where I = unpriced and Q = "pred_option (\<lambda>ins. \<not> reprices ins)"])
      (use new in \<open>auto intro: unpriced_step unpriced_output\<close>)
  then show ?thesis
    using unpriced.run_ok[OF new, of "is"] by (simp add: controller_run_fst unpriced_def blind_def)
qed

text \<open>An exit is priced from the side of the order, not of the exit, and from book prices that are
zero: the order that closes a sold position is a buy at price 0, and the one that closes a bought
position is a sell at or above the order's own price.\<close>
theorem exit_prices:
  assumes "unpriced c"
  shows "case snd (controller_step c i) of
      Some (ExitI _ _ s _ p _) \<Rightarrow>
        (case s of Buy \<Rightarrow> p = Some 0 | Sell \<Rightarrow> (\<exists>q. p = Some q \<and> reference_price (fst (controller_step c i)) \<le> q))
    | _ \<Rightarrow> True"
proof (rule controller_step_cases[of c i])
  fix c1 t ins
  assume s: "controller_step c i = (apply_action c1 (evaluate_action c1 t) t, Some ins)"
    "evaluate_and_convert c1 t = (apply_action c1 (evaluate_action c1 t) t, Some ins)"
    "(\<exists>u. i = MarketIn u \<and> c1 = on_market_update c u \<and> t = market_timestamp u) \<or>
     (\<exists>e. i = EventIn e \<and> c1 = on_execution_event c e \<and> t = ce_event_ts e)"
  have u: "unpriced c1" using s(3) assms by (auto intro: unpriced_market unpriced_event)
  show ?thesis
  proof (cases "evaluate_action c1 t")
    case (ExitPosition p)
    have "reference_price (apply_action c1 (ExitPosition p) t) = reference_price c1"
      by (simp add: reference_price_def apply_action_def Let_def cong: option.case_cong)
    then show ?thesis
      using cross_price_unpriced[OF u] evaluate_exit_price[OF ExitPosition] s(1,2) ExitPosition
      by (cases "ec_side c1") (auto simp: evaluate_and_convert_def Let_def)
  qed (use s(1,2) in \<open>auto simp: evaluate_and_convert_def Let_def\<close>)
qed auto

text \<open>C16: After the edge half-life every market update that respects the cooldown makes a controller
with a fill order the exit of its whole filled quantity again: the position is closed once per update
until an execution event changes the fill.\<close>
theorem exit_repeated:
  assumes "\<not> ec_is_terminal c" "f_epsilon < fp_filled_qty (ec_fill_state c)"
    "spaced (ec_action_cooldown_ms c) (ec_last_action_ts c) (map market_timestamp us)"
    "list_all (\<lambda>u. ec_edge_half_life_ms c < elapsed_time_ms c (market_timestamp u)) us"
  shows "list_all (\<lambda>out. \<exists>p. out = Some (ExitI (ec_order_id c) (ec_symbol c) (opposite (ec_side c)) (exit_size c) p
    ''execution_dominance_exit'')) (snd (controller_run c (map MarketIn us)))"
  by (rule exits_repeat[OF assms])

text \<open>Whatever competition an execution event has reported, the next trade of the market resets
the controller to normal competition.\<close>
theorem trade_forgets_competition:
  "qs_competition_state (ec_queue_state
     (on_market_update (fst (controller_run (controller_new intent cfg) is)) (TradeUpdate trade))) = CompetitionNormal"
proof -
  define c where "c = fst (controller_run (controller_new intent cfg) is)"
  have "plain c" using plain.run_ok[OF plain_new] by (simp add: c_def controller_run_fst)
  then show ?thesis
    by (auto simp: c_def[symmetric] on_trade_def Let_def plain_def observe_competition split: prod.splits)
qed

text \<open>A cancelled controller is not finished: an acknowledgement that arrives after its abort makes
it live again, and it aborts the same order a second time.\<close>
theorem late_event_revives:
  assumes "ec_status c = LcCanceled" "\<not> ec_validation_approved c" "\<not> f_epsilon < fp_filled_qty (ec_fill_state c)"
    "\<not> lifecycle_terminal (ce_status e)" "\<not> 0 < ce_filled_qty_delta e"
    "ec_action_cooldown_ms c \<le> sat_sub (ce_event_ts e) (ec_last_action_ts c)"
  shows "snd (controller_step c (EventIn e)) = Some (AbortI (ce_order_id e) (ec_symbol c) ''edge_decay_abort'')"
proof -
  define c1 where "c1 = on_execution_event c e"
  have f: "\<not> ec_validation_approved c1" "ec_status c1 = ce_status e" "ec_order_id c1 = ce_order_id e" "ec_symbol c1 = ec_symbol c"
    "fp_filled_qty (ec_fill_state c1) = fp_filled_qty (ec_fill_state c)" "cooldown_elapsed c1 (ce_event_ts e)"
    using assms by (simp_all add: c1_def on_execution_event_def Let_def cooldown_elapsed_def)
  then have "evaluate_action c1 (ce_event_ts e) = Abort" using assms(3,4) by (simp add: evaluate_action_def)
  then show ?thesis
    using f assms(4) by (simp add: controller_on_event_def Let_def c1_def[symmetric] ec_is_terminal_def evaluate_and_convert_def)
qed

text \<open>The idempotency key of an intent determines its symbol, its timestamp and its side.\<close>
theorem idempotency_key_injective:
  "idempotency_key i = idempotency_key j \<longleftrightarrow>
     rq_symbol (oi_request i) = rq_symbol (oi_request j) \<and> oi_timestamp i = oi_timestamp j \<and>
     rq_side (oi_request i) = rq_side (oi_request j)"
proof
  define suffix where "suffix s = (case s of Buy \<Rightarrow> ''buy'' | Sell \<Rightarrow> ''sell'')" for s
  have sep: "CHR ''-'' \<notin> set (suffix s)" for s by (cases s) (simp_all add: suffix_def)
  have key: "idempotency_key k = (rq_symbol (oi_request k) @ ''-'' @ string_of_nat (unat (oi_timestamp k))) @
      CHR ''-'' # suffix (rq_side (oi_request k))" for k
    by (simp add: idempotency_key_def suffix_def)
  assume "idempotency_key i = idempotency_key j"
  from split_last_sep[OF this[unfolded key] sep sep]
  have 1: "rq_symbol (oi_request i) @ CHR ''-'' # string_of_nat (unat (oi_timestamp i)) =
      rq_symbol (oi_request j) @ CHR ''-'' # string_of_nat (unat (oi_timestamp j))"
    and 2: "suffix (rq_side (oi_request i)) = suffix (rq_side (oi_request j))" by auto
  from split_last_sep[OF 1 string_of_nat_no_dash string_of_nat_no_dash] 2
  show "rq_symbol (oi_request i) = rq_symbol (oi_request j) \<and> oi_timestamp i = oi_timestamp j \<and>
     rq_side (oi_request i) = rq_side (oi_request j)"
    by (auto simp: suffix_def word_unat_eq_iff dest!: string_of_nat_inj split: side.splits)
qed (simp add: idempotency_key_def)

section \<open>Instances\<close>

definition ex_trade_at :: "u64 \<Rightarrow> market_update" where
  "ex_trade_at ts = TradeUpdate \<lparr>te_timestamp = ts, te_price = Fin 100, te_volume = 1, te_side = Buy\<rparr>"

definition ex_ack :: "u64 \<Rightarrow> execution_controller_event" where
  "ex_ack ts =
     \<lparr>ce_order_id = ''77'', ce_idempotency_key = None, ce_symbol = ''BTCUSDT'', ce_status = LcAck,
      ce_filled_qty_delta = 0, ce_cumulative_filled_qty = 0, ce_remaining_qty = 1, ce_partial_fill_ratio = 0,
      ce_slippage_bps = 0, ce_competition_flag = FlagNone, ce_latency_us = 100, ce_event_ts = ts\<rparr>"

definition ex_controller :: execution_controller where
  "ex_controller = (controller_new ex_intent config_default)
     \<lparr>ec_status := LcPartial,
      ec_fill_state := \<lparr>fp_filled_qty = Fin (1 / 2), fp_remaining_qty = Fin (1 / 2), fp_fill_rate = 0, fp_last_fill_ts = Some 2000\<rparr>,
      ec_edge_half_life_ms := Fin 6000\<rparr>"

lemma ex_trade_ts [simp]: "market_timestamp (ex_trade_at ts) = ts"
  by (simp add: market_timestamp_def ex_trade_at_def)

lemma ex_price: "case rq_price (oi_request ex_intent) of None \<Rightarrow> True | Some p \<Rightarrow> price_ok p"
  by (simp add: sample_defs price_ok_def double_def)

lemma ex_elapsed: "elapsed_time_ms ex_controller 9000 = Fin 8000" "elapsed_time_ms ex_controller 9100 = Fin 8100"
  by (simp_all add: elapsed_time_ms_def ex_controller_def controller_new_def Let_def sample_defs sat_sub_def f64_eval)

theorem controller_pacing_witness:
  "sorted_wrt (\<lambda>a b. unat a + 40 \<le> unat b)
    (emission_times [MarketIn (ex_trade_at 9000), EventIn (ex_ack 9020), MarketIn (ex_trade_at 9100)]
      (snd (controller_run (controller_new ex_intent config_default)
        [MarketIn (ex_trade_at 9000), EventIn (ex_ack 9020), MarketIn (ex_trade_at 9100)])))"
  using controller_pacing[of config_default "[MarketIn (ex_trade_at 9000), EventIn (ex_ack 9020), MarketIn (ex_trade_at 9100)]" ex_intent]
  by (simp add: config_default_def del: emission_times_simps)

theorem unapproved_only_leaves_witness:
  "list_all (\<lambda>out. case out of None \<Rightarrow> True | Some (AbortI _ _ _) \<Rightarrow> True | Some (ExitI _ _ _ _ _ _) \<Rightarrow> True | _ \<Rightarrow> False)
    (snd (controller_run (controller_new (ex_intent\<lparr>oi_trading_enabled := False\<rparr>) config_default) [MarketIn (ex_trade_at 9000)]))"
  by (rule unapproved_only_leaves) simp

theorem repricing_unreachable_witness:
  "ec_replace_count (fst (controller_run (controller_new ex_intent config_default) [MarketIn (ex_trade_at 9000), MarketIn (ex_trade_at 9100)])) = 0"
  using repricing_unreachable[OF ex_price] by blast

theorem exit_prices_witness:
  "case snd (controller_step (controller_new ex_intent config_default) (MarketIn (ex_trade_at 9000))) of
      Some (ExitI _ _ s _ p _) \<Rightarrow>
        (case s of Buy \<Rightarrow> p = Some 0
         | Sell \<Rightarrow> (\<exists>q. p = Some q \<and> reference_price (fst (controller_step (controller_new ex_intent config_default) (MarketIn (ex_trade_at 9000)))) \<le> q))
    | _ \<Rightarrow> True"
  by (rule exit_prices[OF unpriced_new[OF ex_price]])

text \<open>A half-filled order past its half-life: two trades, two exits of the same half.\<close>

theorem exit_repeated_witness:
  "list_all (\<lambda>out. \<exists>p. out = Some (ExitI (ec_order_id ex_controller) ''BTCUSDT'' Sell (Fin (1 / 2)) p
    ''execution_dominance_exit'')) (snd (controller_run ex_controller (map MarketIn [ex_trade_at 9000, ex_trade_at 9100])))"
proof -
  have c: "ec_symbol ex_controller = ''BTCUSDT''" "ec_side ex_controller = Buy" "exit_size ex_controller = Fin (1 / 2)"
    "ec_edge_half_life_ms ex_controller = Fin 6000" "ec_action_cooldown_ms ex_controller = 40" "ec_last_action_ts ex_controller = 0"
    "\<not> ec_is_terminal ex_controller" "f_epsilon < fp_filled_qty (ec_fill_state ex_controller)"
    by (simp_all add: ex_controller_def controller_new_def Let_def sample_defs exit_size_def config_default_def
        ec_is_terminal_def f64_eval)
  show ?thesis
    using exit_repeated[OF c(7,8), of "[ex_trade_at 9000, ex_trade_at 9100]"]
    by (simp add: c ex_elapsed sat_sub_def f64_eval)
qed

theorem late_event_revives_witness:
  "snd (controller_step ((controller_new (ex_intent\<lparr>oi_trading_enabled := False\<rparr>) config_default)\<lparr>ec_status := LcCanceled\<rparr>)
     (EventIn (ex_ack 9000))) = Some (AbortI ''77'' ''BTCUSDT'' ''edge_decay_abort'')"
proof -
  define c where "c = (controller_new (ex_intent\<lparr>oi_trading_enabled := False\<rparr>) config_default)\<lparr>ec_status := LcCanceled\<rparr>"
  have "ec_status c = LcCanceled" "\<not> ec_validation_approved c" "\<not> f_epsilon < fp_filled_qty (ec_fill_state c)"
    "\<not> lifecycle_terminal (ce_status (ex_ack 9000))" "\<not> 0 < ce_filled_qty_delta (ex_ack 9000)"
    "ec_action_cooldown_ms c \<le> sat_sub (ce_event_ts (ex_ack 9000)) (ec_last_action_ts c)"
    "ce_order_id (ex_ack 9000) = ''77''" "ec_symbol c = ''BTCUSDT''"
    by (simp_all add: c_def controller_new_def Let_def sample_defs ex_ack_def config_default_def sat_sub_def f64_eval)
  then show ?thesis using late_event_revives[of c "ex_ack 9000"] by (simp add: c_def)
qed

end
