(* ===== verification/ControllerRun.thy ===== *)
theory ControllerRun
  imports ControllerFacts "HOL-Library.List_Lexorder" "HOL-Library.Char_ord" "HOL-Library.Multiset"
begin

text \<open>
  The task \<open>run\<close> of \<open>rtts/src/execution_controller.rs\<close>: it owns the controllers of all orders, keyed by
  their idempotency keys, and a lookup from order ids to keys. A step handles one message of one of
  its three channels and yields the instructions and the feedback it offers downstream (a full
  channel drops them). The order in which the hash map of controllers is iterated is \<open>iter\<close>.
\<close>

section \<open>The task\<close>

record run_state =
  cr_controllers :: "string \<rightharpoonup> execution_controller"
  cr_order_lookup :: "string \<rightharpoonup> string"

definition run_init :: run_state where
  "run_init = \<lparr>cr_controllers = Map.empty, cr_order_lookup = Map.empty\<rparr>"

record run_output =
  co_instructions :: "execution_instruction list"
  co_feedback :: "execution_control_feedback list"

definition no_output :: run_output where
  "no_output = \<lparr>co_instructions = [], co_feedback = []\<rparr>"

definition resolve_controller_key :: "execution_controller_event \<Rightarrow> (string \<rightharpoonup> string) \<Rightarrow> string option" where
  "resolve_controller_key update lookup =
     (case lookup (ce_order_id update) of
        Some key \<Rightarrow> Some key
      | None \<Rightarrow> Option.bind (ce_idempotency_key update) lookup)"

definition on_intent :: "config \<Rightarrow> run_state \<Rightarrow> order_intent \<Rightarrow> run_state \<times> run_output" where
  "on_intent cfg s intent =
     (let controller = (controller_new intent cfg)\<lparr>ec_status := LcSent\<rparr>;
          key = ec_idempotency_key controller
      in (s\<lparr>cr_controllers := (cr_controllers s)(key \<mapsto> controller),
            cr_order_lookup := (cr_order_lookup s)(key \<mapsto> key)\<rparr>,
          \<lparr>co_instructions = [SubmitI intent key], co_feedback = []\<rparr>))"

definition failure_feedback :: "execution_controller \<Rightarrow> u64 \<Rightarrow> execution_control_feedback" where
  "failure_feedback c event_ts =
     \<lparr>cb_order_id = ec_order_id c, cb_symbol = ec_symbol c, cb_reason = classify_failure c event_ts,
      cb_elapsed_ms = elapsed_time_ms c event_ts,
      cb_fill_ratio = 1 - fp_remaining_qty (ec_fill_state c) /
        f_max (fp_filled_qty (ec_fill_state c) + fp_remaining_qty (ec_fill_state c)) (lit (1 / 10 ^ 9)),
      cb_expected_fill_time_ms = ec_expected_fill_time_ms c,
      cb_edge_half_life_ms = ec_edge_half_life_ms c,
      cb_aborted_due_to_decay = (ec_edge_half_life_ms c < elapsed_time_ms c event_ts)\<rparr>"

definition on_event :: "run_state \<Rightarrow> execution_controller_event \<Rightarrow> run_state \<times> run_output" where
  "on_event s update =
     (case resolve_controller_key update (cr_order_lookup s) of
        None \<Rightarrow> (s, no_output)
      | Some key \<Rightarrow>
          (case cr_controllers s key of
             None \<Rightarrow> (s, no_output)
           | Some c0 \<Rightarrow>
               (let c = on_execution_event c0 update;
                    lookup1 = (cr_order_lookup s)(ce_order_id update \<mapsto> key);
                    lookup2 = (case ce_idempotency_key update of
                                 None \<Rightarrow> lookup1 | Some client_key \<Rightarrow> lookup1(client_key \<mapsto> key))
                in if ec_is_terminal c then
                     (s\<lparr>cr_controllers := (cr_controllers s)(key := None), cr_order_lookup := lookup2\<rparr>,
                      \<lparr>co_instructions = [],
                       co_feedback = (if ec_status c \<noteq> LcFilled then [failure_feedback c (ce_event_ts update)] else [])\<rparr>)
                   else
                     (let (c', ins) = evaluate_and_convert c (ce_event_ts update)
                      in (s\<lparr>cr_controllers := (cr_controllers s)(key \<mapsto> c'), cr_order_lookup := lookup2\<rparr>,
                          \<lparr>co_instructions = (case ins of None \<Rightarrow> [] | Some i \<Rightarrow> [i]), co_feedback = []\<rparr>)))))"

definition eligible :: "config \<Rightarrow> execution_controller \<Rightarrow> bool" where
  "eligible cfg c \<longleftrightarrow> ec_symbol c = cf_symbol cfg \<and> \<not> ec_is_terminal c"

definition market_one ::
  "market_update \<Rightarrow> (string \<rightharpoonup> execution_controller) \<times> execution_instruction list \<Rightarrow> string \<Rightarrow>
   (string \<rightharpoonup> execution_controller) \<times> execution_instruction list" where
  "market_one update acc key =
     (case fst acc key of
        None \<Rightarrow> acc
      | Some c \<Rightarrow>
          (let (c', ins) = evaluate_and_convert (on_market_update c update) (market_timestamp update)
           in ((fst acc)(key \<mapsto> c'), snd acc @ (case ins of None \<Rightarrow> [] | Some i \<Rightarrow> [i]))))"

definition on_market ::
  "((string \<rightharpoonup> execution_controller) \<Rightarrow> string list) \<Rightarrow> config \<Rightarrow> run_state \<Rightarrow> market_update \<Rightarrow> run_state \<times> run_output" where
  "on_market iter cfg s update =
     (let controllers = cr_controllers s;
          keys = filter (\<lambda>k. case controllers k of None \<Rightarrow> False | Some c \<Rightarrow> eligible cfg c) (iter controllers);
          (controllers', instructions) = foldl (market_one update) (controllers, []) keys
      in (s\<lparr>cr_controllers := controllers'\<rparr>, \<lparr>co_instructions = instructions, co_feedback = []\<rparr>))"

datatype run_input = IntentMsg order_intent | EventMsg execution_controller_event | MarketMsg market_update

fun run_step ::
  "((string \<rightharpoonup> execution_controller) \<Rightarrow> string list) \<Rightarrow> config \<Rightarrow> run_state \<Rightarrow> run_input \<Rightarrow> run_state \<times> run_output" where
  "run_step iter cfg s (IntentMsg intent) = on_intent cfg s intent"
| "run_step iter cfg s (EventMsg event) = on_event s event"
| "run_step iter cfg s (MarketMsg update) = on_market iter cfg s update"

section \<open>The market update of all controllers\<close>

text \<open>The loop over the keys updates each eligible controller once, independently of the others.\<close>

definition market_updated :: "config \<Rightarrow> market_update \<Rightarrow> execution_controller \<Rightarrow> execution_controller" where
  "market_updated cfg u c = (if eligible cfg c then fst (controller_on_market c u) else c)"

definition market_instructions :: "market_update \<Rightarrow> execution_controller \<Rightarrow> execution_instruction list" where
  "market_instructions u c = (case snd (controller_on_market c u) of None \<Rightarrow> [] | Some i \<Rightarrow> [i])"

lemma market_one_Some:
  "fst acc k = Some c \<Longrightarrow> market_one u acc k = ((fst acc)(k \<mapsto> fst (controller_on_market c u)), snd acc @ market_instructions u c)"
  by (auto simp: market_one_def controller_on_market_def market_instructions_def split: prod.splits)

lemma market_fold:
  assumes "distinct ks" "\<forall>k \<in> set ks. \<exists>c. m k = Some c"
  shows "foldl (market_one u) (m, is) ks =
    ((\<lambda>k. if k \<in> set ks then map_option (\<lambda>c. fst (controller_on_market c u)) (m k) else m k),
     is @ concat (map (\<lambda>k. market_instructions u (the (m k))) ks))"
  using assms
proof (induction ks arbitrary: m "is")
  case (Cons k ks)
  then obtain c where c: "m k = Some c" by auto
  define m' where "m' = m(k \<mapsto> fst (controller_on_market c u))"
  have s: "market_one u (m, is) k = (m', is @ market_instructions u c)"
    using market_one_Some[of "(m, is)" k c u] c by (simp add: m'_def)
  have k: "k \<notin> set ks" using Cons.prems(1) by simp
  then have e: "map (\<lambda>k. market_instructions u (the (m' k))) ks = map (\<lambda>k. market_instructions u (the (m k))) ks"
    by (auto simp: m'_def)
  have "\<forall>j \<in> set ks. \<exists>c. m' j = Some c" using Cons.prems(2) by (auto simp: m'_def)
  then have "foldl (market_one u) (m', is @ market_instructions u c) ks =
      ((\<lambda>j. if j \<in> set ks then map_option (\<lambda>c. fst (controller_on_market c u)) (m' j) else m' j),
       (is @ market_instructions u c) @ concat (map (\<lambda>k. market_instructions u (the (m' k))) ks))"
    using Cons.prems(1) by (intro Cons.IH) auto
  then show ?case using s c k unfolding e by (auto simp: m'_def fun_eq_iff)
qed simp

lemma on_market_eq:
  assumes "lists_keys iter (cr_controllers s)"
  shows "cr_controllers (fst (on_market iter cfg s u)) = (\<lambda>k. map_option (market_updated cfg u) (cr_controllers s k))"
    "cr_order_lookup (fst (on_market iter cfg s u)) = cr_order_lookup s"
    "co_instructions (snd (on_market iter cfg s u)) =
       concat (map (\<lambda>k. market_instructions u (the (cr_controllers s k)))
         (filter (\<lambda>k. case cr_controllers s k of None \<Rightarrow> False | Some c \<Rightarrow> eligible cfg c) (iter (cr_controllers s))))"
    "co_feedback (snd (on_market iter cfg s u)) = []"
proof -
  define ks where "ks = filter (\<lambda>k. case cr_controllers s k of None \<Rightarrow> False | Some c \<Rightarrow> eligible cfg c) (iter (cr_controllers s))"
  have ks: "distinct ks" "\<forall>k \<in> set ks. \<exists>c. cr_controllers s k = Some c"
    using assms by (auto simp: ks_def lists_keys_def split: option.splits)
  note f = market_fold[OF ks, of u "[]"]
  have m: "k \<in> set ks \<longleftrightarrow> (case cr_controllers s k of None \<Rightarrow> False | Some c \<Rightarrow> eligible cfg c)" for k
    using assms by (auto simp: ks_def lists_keys_def split: option.splits)
  show "cr_controllers (fst (on_market iter cfg s u)) = (\<lambda>k. map_option (market_updated cfg u) (cr_controllers s k))"
    using f by (auto simp: on_market_def Let_def ks_def[symmetric] m market_updated_def fun_eq_iff split: option.splits)
  show "cr_order_lookup (fst (on_market iter cfg s u)) = cr_order_lookup s"
    "co_instructions (snd (on_market iter cfg s u)) = concat (map (\<lambda>k. market_instructions u (the (cr_controllers s k))) ks)"
    "co_feedback (snd (on_market iter cfg s u)) = []"
    using f by (simp_all add: on_market_def Let_def ks_def[symmetric])
qed

section \<open>Invariants of the task\<close>

text \<open>Every controller is stored under its own key, was configured from \<open>cfg\<close> and has sound counters.\<close>

definition controller_entry_ok :: "config \<Rightarrow> string \<Rightarrow> execution_controller \<Rightarrow> bool" where
  "controller_entry_ok cfg k c \<longleftrightarrow> ec_idempotency_key c = k \<and> counters_ok c \<and>
     ec_max_replace_per_order c = cf_max_replace_per_order cfg \<and>
     ec_action_cooldown_ms c = cf_execution_action_cooldown_ms cfg"

definition run_ok :: "config \<Rightarrow> run_state \<Rightarrow> bool" where
  "run_ok cfg s \<longleftrightarrow> (\<forall>k c. cr_controllers s k = Some c \<longrightarrow> controller_entry_ok cfg k c \<and> k \<in> dom (cr_order_lookup s))"

text \<open>The two ways a stored controller changes are steps of the controller.\<close>

lemma market_updated_step: "market_updated cfg u c = c \<or> market_updated cfg u c = fst (controller_step c (MarketIn u))"
  by (auto simp: market_updated_def eligible_def)

lemma entry_step: "controller_entry_ok cfg k c \<Longrightarrow> controller_entry_ok cfg k (fst (controller_step c i))"
  using fixed_step[of c i] by (auto simp: controller_entry_ok_def counters_step fixed_fields_def)

lemma on_event_cases:
  obtains "on_event s e = (s, no_output)"
  | key c where "resolve_controller_key e (cr_order_lookup s) = Some key" "cr_controllers s key = Some c"
      "cr_controllers (fst (on_event s e)) =
         (cr_controllers s)(key := if ec_is_terminal (on_execution_event c e) then None else Some (fst (controller_step c (EventIn e))))"
      "dom (cr_order_lookup (fst (on_event s e))) \<supseteq> dom (cr_order_lookup s)"
      "co_instructions (snd (on_event s e)) = (case snd (controller_step c (EventIn e)) of None \<Rightarrow> [] | Some i \<Rightarrow> [i])"
proof (cases "resolve_controller_key e (cr_order_lookup s)")
  case None
  then show ?thesis using that(1) by (simp add: on_event_def)
next
  case (Some key)
  show ?thesis
  proof (cases "cr_controllers s key")
    case None
    then show ?thesis using Some that(1) by (simp add: on_event_def)
  next
    case (Some c)
    with \<open>resolve_controller_key e (cr_order_lookup s) = Some key\<close> show ?thesis
      by (intro that(2)[of key c])
        (auto simp: on_event_def Let_def controller_on_event_def split: prod.splits option.splits)
  qed
qed

lemma run_step_lookup: "lists_keys iter (cr_controllers s) \<Longrightarrow>
    dom (cr_order_lookup s) \<subseteq> dom (cr_order_lookup (fst (run_step iter cfg s i)))"
proof (cases i)
  case (EventMsg e)
  then show ?thesis by (cases rule: on_event_cases[of s e]) auto
qed (auto simp: on_intent_def Let_def on_market_eq)

lemma run_step_ok:
  assumes "run_ok cfg s" "lists_keys iter (cr_controllers s)"
  shows "run_ok cfg (fst (run_step iter cfg s i))"
proof (cases i)
  case (IntentMsg intent)
  have "controller_entry_ok cfg (idempotency_key intent) ((controller_new intent cfg)\<lparr>ec_status := LcSent\<rparr>)"
    by (simp add: controller_entry_ok_def controller_new_def Let_def counters_ok_def)
  moreover have "ec_idempotency_key (controller_new intent cfg) = idempotency_key intent"
    by (simp add: controller_new_def Let_def)
  ultimately show ?thesis using assms IntentMsg by (auto simp: run_ok_def on_intent_def Let_def)
next
  case (EventMsg e)
  show ?thesis
  proof (cases rule: on_event_cases[of s e])
    case (2 key c)
    then have "controller_entry_ok cfg key (fst (controller_step c (EventIn e)))"
      using assms(1) by (intro entry_step) (auto simp: run_ok_def)
    then have "controller_entry_ok cfg k d \<and> k \<in> dom (cr_order_lookup s)"
      if "cr_controllers (fst (on_event s e)) k = Some d" for k d
      using that 2(2,3) assms(1) unfolding run_ok_def by (cases "k = key") (auto simp del: controller_step.simps split: if_splits)
    then show ?thesis using 2(4) EventMsg unfolding run_ok_def by (metis run_step.simps(2) subsetD)
  qed (use assms EventMsg in simp)
next
  case (MarketMsg u)
  have "controller_entry_ok cfg k (market_updated cfg u c)" if "cr_controllers s k = Some c" for k c
    using market_updated_step[of cfg u c] entry_step[of cfg k c "MarketIn u"] assms(1) that by (auto simp: run_ok_def)
  then show ?thesis using assms MarketMsg by (auto simp: run_ok_def on_market_eq)
qed

text \<open>A hash map lists its keys, whatever it holds.\<close>

definition fair_iter :: "((string \<rightharpoonup> 'v) \<Rightarrow> string list) \<Rightarrow> (string \<rightharpoonup> 'v) \<Rightarrow> bool" where
  "fair_iter iter m \<longleftrightarrow> (finite (dom m) \<longrightarrow> lists_keys iter m)"

definition run_inv :: "((string \<rightharpoonup> execution_controller) \<Rightarrow> string list) \<Rightarrow> config \<Rightarrow> run_state \<Rightarrow> bool" where
  "run_inv iter cfg s \<longleftrightarrow> (\<forall>m. fair_iter iter m) \<and> finite (dom (cr_controllers s)) \<and> run_ok cfg s"

lemma run_inv_lists: "run_inv iter cfg s \<Longrightarrow> lists_keys iter (cr_controllers s)"
  by (simp add: run_inv_def fair_iter_def)

lemma run_step_finite:
  assumes "finite (dom (cr_controllers s))" "lists_keys iter (cr_controllers s)"
  shows "finite (dom (cr_controllers (fst (run_step iter cfg s i))))"
proof (cases i)
  case (EventMsg e)
  then show ?thesis using assms by (cases rule: on_event_cases[of s e]) auto
next
  case (MarketMsg u)
  have "dom (\<lambda>k. map_option (market_updated cfg u) (cr_controllers s k)) = dom (cr_controllers s)" by (auto simp: dom_def)
  then show ?thesis using assms MarketMsg by (simp add: on_market_eq)
qed (use assms in \<open>simp add: on_intent_def Let_def\<close>)

lemma run_step_inv [inv_intros]: "run_inv iter cfg s \<Longrightarrow> run_inv iter cfg (fst (run_step iter cfg s i))"
  using run_step_ok run_step_finite run_inv_lists by (metis run_inv_def)

interpretation orders: counting_handler "\<lambda>s i. fst (run_step iter cfg s i)" "run_inv iter cfg"
    "\<lambda>s. dom (cr_order_lookup s)"
  by unfold_locales (auto simp: run_step_inv run_inv_lists dest: run_step_lookup[OF run_inv_lists, THEN subsetD])

lemma run_init_inv: "(\<And>m. fair_iter iter m) \<Longrightarrow> run_inv iter cfg run_init"
  by (simp add: run_inv_def run_init_def run_ok_def)

section \<open>No order is ever re-priced\<close>

definition all_unpriced :: "run_state \<Rightarrow> bool" where
  "all_unpriced s \<longleftrightarrow> (\<forall>k c. cr_controllers s k = Some c \<longrightarrow> unpriced c)"

fun priced_input :: "run_input \<Rightarrow> bool" where
  "priced_input (IntentMsg intent) = (case rq_price (oi_request intent) of None \<Rightarrow> True | Some p \<Rightarrow> price_ok p)"
| "priced_input _ = True"

lemma run_step_unpriced:
  assumes "all_unpriced s" "priced_input i" "lists_keys iter (cr_controllers s)"
  shows "all_unpriced (fst (run_step iter cfg s i)) \<and> list_all (\<lambda>ins. \<not> reprices ins) (co_instructions (snd (run_step iter cfg s i)))"
proof (cases i)
  case (IntentMsg intent)
  have "unpriced ((controller_new intent cfg)\<lparr>ec_status := LcSent\<rparr>)"
    using unpriced_new[of intent cfg] assms(2) IntentMsg by (simp add: unpriced_def blind_def)
  then show ?thesis using assms IntentMsg by (auto simp: all_unpriced_def on_intent_def Let_def)
next
  case (EventMsg e)
  show ?thesis
  proof (cases rule: on_event_cases[of s e])
    case (2 key c)
    have u: "unpriced c" using 2 assms(1) by (simp add: all_unpriced_def)
    show ?thesis
      using 2 assms(1) EventMsg unpriced_step[OF u, of "EventIn e"] unpriced_output[OF u, of "EventIn e"]
      by (auto simp: all_unpriced_def split: if_splits option.splits)
  qed (use assms EventMsg in \<open>simp add: no_output_def\<close>)
next
  case (MarketMsg u)
  have 1: "unpriced (market_updated cfg u c)" if "cr_controllers s k = Some c" for k c
    using market_updated_step[of cfg u c] unpriced_step[of c "MarketIn u"] assms(1) that by (auto simp: all_unpriced_def)
  have 2: "list_all (\<lambda>ins. \<not> reprices ins) (market_instructions u c)" if "cr_controllers s k = Some c" "eligible cfg c" for k c
    using unpriced_output[of c "MarketIn u"] assms(1) that
    by (auto simp: all_unpriced_def market_instructions_def eligible_def split: option.splits)
  show ?thesis
    using 1 2 assms MarketMsg
    by (auto simp: all_unpriced_def on_market_eq list_all_iff lists_keys_def split: option.splits)
qed

definition unpriced_inv :: "((string \<rightharpoonup> execution_controller) \<Rightarrow> string list) \<Rightarrow> config \<Rightarrow> run_state \<Rightarrow> bool" where
  "unpriced_inv iter cfg s \<longleftrightarrow> run_inv iter cfg s \<and> all_unpriced s"

interpretation unpriced_orders: guarded_handler "\<lambda>s i. fst (run_step iter cfg s i)" "unpriced_inv iter cfg" priced_input
  by unfold_locales (auto simp: unpriced_inv_def run_step_inv run_inv_lists run_step_unpriced)

definition instructions_of :: "run_output list \<Rightarrow> execution_instruction list" where
  "instructions_of outs = concat (map co_instructions outs)"

lemma run_unpriced:
  "unpriced_inv iter cfg s \<Longrightarrow> list_all priced_input is \<Longrightarrow>
     list_all (\<lambda>ins. \<not> reprices ins) (instructions_of (snd (run_task (run_step iter cfg) s is)))"
proof (induction "is" arbitrary: s)
  case (Cons i "is")
  have "unpriced_inv iter cfg (fst (run_step iter cfg s i))"
    using Cons.prems by (intro unpriced_orders.step_valid) simp_all
  moreover have "lists_keys iter (cr_controllers s)"
    using Cons.prems(1) by (auto simp: unpriced_inv_def intro: run_inv_lists)
  then have "list_all (\<lambda>ins. \<not> reprices ins) (co_instructions (snd (run_step iter cfg s i)))"
    using Cons.prems run_step_unpriced[of s i iter cfg] by (simp add: unpriced_inv_def)
  ultimately show ?case
    using Cons by (simp add: run_task_Cons instructions_of_def del: run_task.simps)
qed (simp add: instructions_of_def)

section \<open>Properties\<close>

text \<open>However the hash map of controllers is iterated, a market update leads to the same
controllers and offers the same instructions, in some order.\<close>
theorem market_order_irrelevant:
  assumes "lists_keys iter1 (cr_controllers s)" "lists_keys iter2 (cr_controllers s)"
  shows "fst (on_market iter1 cfg s u) = fst (on_market iter2 cfg s u) \<and>
    mset (co_instructions (snd (on_market iter1 cfg s u))) = mset (co_instructions (snd (on_market iter2 cfg s u)))"
proof
  have e: "fst (on_market iter cfg s u) = s\<lparr>cr_controllers := cr_controllers (fst (on_market iter cfg s u))\<rparr>" for iter
    by (simp add: on_market_def Let_def split: prod.splits)
  show "fst (on_market iter1 cfg s u) = fst (on_market iter2 cfg s u)"
    using e[of iter1] e[of iter2] by (simp add: on_market_eq[OF assms(1)] on_market_eq[OF assms(2)])
  have "mset (iter1 (cr_controllers s)) = mset (iter2 (cr_controllers s))"
    using assms by (intro iffD1[OF set_eq_iff_mset_eq_distinct]) (auto simp: lists_keys_def)
  then have "mset (filter P (iter1 (cr_controllers s))) = mset (filter P (iter2 (cr_controllers s)))" for P by simp
  moreover have "mset (concat (map f ks)) = sum_mset (image_mset (\<lambda>k. mset (f k)) (mset ks))"
    for f :: "string \<Rightarrow> execution_instruction list" and ks
    by (induction ks) simp_all
  ultimately show "mset (co_instructions (snd (on_market iter1 cfg s u))) = mset (co_instructions (snd (on_market iter2 cfg s u)))"
    by (simp add: on_market_eq[OF assms(1)] on_market_eq[OF assms(2)])
qed

text \<open>Through any messages every controller stays stored under its own idempotency key, which the
lookup knows, with the limits of the configuration and its counters within them.\<close>
theorem run_keeps_controllers:
  assumes "\<And>m. fair_iter iter m" "cr_controllers (fst (run_task (run_step iter cfg) run_init is)) k = Some c"
  shows "controller_entry_ok cfg k c \<and> k \<in> dom (cr_order_lookup (fst (run_task (run_step iter cfg) run_init is)))"
  using orders.run_ok[OF run_init_inv[OF assms(1)], of cfg "is"] assms(2)
  by (simp add: run_task_fst run_inv_def run_ok_def del: domIff)

text \<open>C15: If every submitted order has a finite non-negative limit price (or none), the task never
offers an instruction that re-prices an order: no replacement, no step ahead, no crossing of the
spread.\<close>
theorem run_never_reprices:
  assumes "\<And>m. fair_iter iter m" "list_all priced_input is"
  shows "list_all (\<lambda>ins. \<not> reprices ins) (instructions_of (snd (run_task (run_step iter cfg) run_init is)))"
  using run_init_inv[OF assms(1)] assms(2) by (intro run_unpriced) (simp_all add: unpriced_inv_def all_unpriced_def run_init_def)

text \<open>An order id or client key that the lookup has learnt is never forgotten, also when its order
is long finished and its controller dropped: the lookup only grows.\<close>
theorem lookup_never_shrinks:
  assumes "\<And>m. fair_iter iter m"
  shows "dom (cr_order_lookup (fst (run_task (run_step iter cfg) run_init is))) \<subseteq>
    dom (cr_order_lookup (fst (run_task (run_step iter cfg) run_init (is @ later))))"
  using orders.run_count_append[OF run_init_inv[OF assms], of cfg "is" later] by (simp add: run_task_fst)

text \<open>An event that ends an order (filled, cancelled or rejected) drops its controller without a
further instruction, and reports a failure unless the order was filled.\<close>
theorem terminal_event_drops:
  assumes "resolve_controller_key e (cr_order_lookup s) = Some key" "cr_controllers s key = Some c"
    "lifecycle_terminal (ce_status e)"
  shows "cr_controllers (fst (on_event s e)) = (cr_controllers s)(key := None) \<and>
    co_instructions (snd (on_event s e)) = [] \<and>
    (co_feedback (snd (on_event s e)) = [] \<longleftrightarrow> ce_status e = LcFilled)"
  using assms by (simp add: on_event_def Let_def ec_is_terminal_def)

section \<open>Instances\<close>

text \<open>An iteration order: the keys sorted.\<close>

definition sorted_keys :: "(string \<rightharpoonup> 'v) \<Rightarrow> string list" where
  "sorted_keys m = sorted_list_of_set (dom m)"

lemma sorted_keys_fair: "fair_iter sorted_keys m"
  by (simp add: fair_iter_def lists_keys_def sorted_keys_def)

lemma ex_priced: "list_all priced_input [IntentMsg ex_intent, MarketMsg (ex_trade_at 9000)]"
  using ex_price by simp

lemma ex_run_stored:
  "cr_controllers (fst (run_task (run_step sorted_keys config_default) run_init [IntentMsg ex_intent])) (idempotency_key ex_intent) =
     Some ((controller_new ex_intent config_default)\<lparr>ec_status := LcSent\<rparr>)"
  by (simp add: on_intent_def Let_def run_init_def controller_new_def)

theorem market_order_irrelevant_witness:
  "mset (co_instructions (snd (on_market sorted_keys config_default (fst (on_intent config_default run_init ex_intent)) (ex_trade_at 9000)))) =
   mset (co_instructions (snd (on_market (\<lambda>m. rev (sorted_keys m)) config_default (fst (on_intent config_default run_init ex_intent)) (ex_trade_at 9000))))"
  using market_order_irrelevant[of sorted_keys "fst (on_intent config_default run_init ex_intent)" "\<lambda>m. rev (sorted_keys m)"]
  by (simp add: lists_keys_def sorted_keys_def on_intent_def Let_def run_init_def)

theorem run_keeps_controllers_witness:
  "controller_entry_ok config_default (idempotency_key ex_intent) ((controller_new ex_intent config_default)\<lparr>ec_status := LcSent\<rparr>)"
  using run_keeps_controllers[OF sorted_keys_fair ex_run_stored] by blast

theorem run_never_reprices_witness:
  "list_all (\<lambda>ins. \<not> reprices ins) (instructions_of (snd (run_task (run_step sorted_keys config_default) run_init
     [IntentMsg ex_intent, MarketMsg (ex_trade_at 9000)])))"
  by (rule run_never_reprices[OF sorted_keys_fair ex_priced])

theorem lookup_never_shrinks_witness:
  "dom (cr_order_lookup (fst (run_task (run_step sorted_keys config_default) run_init [IntentMsg ex_intent]))) \<subseteq>
   dom (cr_order_lookup (fst (run_task (run_step sorted_keys config_default) run_init ([IntentMsg ex_intent] @ [EventMsg (ex_ack 9000)]))))"
  by (rule lookup_never_shrinks[OF sorted_keys_fair])

theorem terminal_event_drops_witness:
  "co_feedback (snd (on_event (fst (on_intent config_default run_init ex_intent))
     ((ex_ack 9000)\<lparr>ce_order_id := idempotency_key ex_intent, ce_status := LcRejected\<rparr>))) \<noteq> []"
  using terminal_event_drops[of "(ex_ack 9000)\<lparr>ce_order_id := idempotency_key ex_intent, ce_status := LcRejected\<rparr>"
      "fst (on_intent config_default run_init ex_intent)" "idempotency_key ex_intent"]
  by (simp add: on_intent_def Let_def run_init_def controller_new_def resolve_controller_key_def)

end
