(* ===== verification/BTree.thy ===== *)
theory BTree
  imports Prelude
begin

text \<open>
  The ordered map \<open>BTreeMap\<close> of the order book: a list of entries in ascending order of their
  keys, with the operations the book calls.

  The interface \<open>ordered_map\<close> states what the book relies on (a lookup after an insertion or
  a removal, the order of the iteration), and its lemmas give the first and the last entry;
  the list of entries interprets it.
\<close>

type_synonym ('k, 'v) btree = "('k \<times> 'v) list"

fun bt_get :: "('k::linorder, 'v) btree \<Rightarrow> 'k \<Rightarrow> 'v option" where
  "bt_get [] k = None"
| "bt_get ((k', v) # m) k = (if k = k' then Some v else bt_get m k)"

fun bt_insert :: "'k::linorder \<Rightarrow> 'v \<Rightarrow> ('k, 'v) btree \<Rightarrow> ('k, 'v) btree" where
  "bt_insert k v [] = [(k, v)]"
| "bt_insert k v ((k', v') # m) =
     (if k < k' then (k, v) # (k', v') # m
      else if k = k' then (k, v) # m
      else (k', v') # bt_insert k v m)"

fun bt_remove :: "'k::linorder \<Rightarrow> ('k, 'v) btree \<Rightarrow> ('k, 'v) btree" where
  "bt_remove k [] = []"
| "bt_remove k ((k', v') # m) = (if k = k' then m else (k', v') # bt_remove k m)"

definition bt_ok :: "('k::linorder, 'v) btree \<Rightarrow> bool" where
  "bt_ok m \<longleftrightarrow> sorted_wrt (<) (map fst m)"

section \<open>The interface\<close>

locale ordered_map =
  fixes get :: "'m \<Rightarrow> 'k::linorder \<Rightarrow> 'v option" and put :: "'k \<Rightarrow> 'v \<Rightarrow> 'm \<Rightarrow> 'm"
    and del :: "'k \<Rightarrow> 'm \<Rightarrow> 'm" and entries :: "'m \<Rightarrow> ('k \<times> 'v) list" and ok :: "'m \<Rightarrow> bool"
  assumes entries_sorted: "ok m \<Longrightarrow> sorted_wrt (<) (map fst (entries m))"
    and get_entries: "ok m \<Longrightarrow> get m = map_of (entries m)"
    and get_put: "ok m \<Longrightarrow> get (put k v m) = (get m)(k \<mapsto> v)"
    and get_del: "ok m \<Longrightarrow> get (del k m) = (get m)(k := None)"
    and ok_put: "ok m \<Longrightarrow> ok (put k v m)"
    and ok_del: "ok m \<Longrightarrow> ok (del k m)"
begin

lemma entries_distinct: "ok m \<Longrightarrow> distinct (map fst (entries m))"
  using entries_sorted[of m] by (metis strict_sorted_iff)

lemma get_iff: "ok m \<Longrightarrow> get m k = Some v \<longleftrightarrow> (k, v) \<in> set (entries m)"
  by (simp add: get_entries entries_distinct map_of_eq_Some_iff)

lemma dom_get: "ok m \<Longrightarrow> dom (get m) = fst ` set (entries m)"
  by (simp add: get_entries dom_map_of_conv_image_fst)

lemma entries_Nil: "ok m \<Longrightarrow> entries m = [] \<longleftrightarrow> get m = Map.empty"
  by (simp add: get_entries)

lemma first_is_least: "ok m \<Longrightarrow> entries m \<noteq> [] \<Longrightarrow> k \<in> dom (get m) \<Longrightarrow> fst (hd (entries m)) \<le> k"
  using entries_sorted[of m] by (cases "entries m") (auto simp: dom_get less_imp_le)

lemma last_is_greatest: "ok m \<Longrightarrow> entries m \<noteq> [] \<Longrightarrow> k \<in> dom (get m) \<Longrightarrow> k \<le> fst (last (entries m))"
  using entries_sorted[of m]
  by (cases "entries m" rule: rev_cases) (auto simp: dom_get sorted_wrt_append less_imp_le)

lemma first_is_Min: "ok m \<Longrightarrow> entries m \<noteq> [] \<Longrightarrow> fst (hd (entries m)) = Min (dom (get m))"
  by (intro Min_eqI[symmetric]) (auto simp: dom_get first_is_least[unfolded dom_get])

lemma last_is_Max: "ok m \<Longrightarrow> entries m \<noteq> [] \<Longrightarrow> fst (last (entries m)) = Max (dom (get m))"
  by (intro Max_eqI[symmetric]) (auto simp: dom_get last_is_greatest[unfolded dom_get])

end

section \<open>The entries implement it\<close>

lemma bt_get_map_of: "bt_get m = map_of m"
proof
  show "bt_get m k = map_of m k" for k by (induction m) auto
qed

lemma bt_insert_keys: "fst ` set (bt_insert k v m) = insert k (fst ` set m)"
  by (induction k v m rule: bt_insert.induct) auto

lemma bt_remove_subset: "set (bt_remove k m) \<subseteq> set m"
  by (induction k m rule: bt_remove.induct) auto

lemma bt_insert_subset: "set (bt_insert k v m) \<subseteq> insert (k, v) (set m)"
  by (induction k v m rule: bt_insert.induct) auto

lemma bt_ok_Cons: "bt_ok ((k, v) # m) \<longleftrightarrow> (\<forall>k' \<in> fst ` set m. k < k') \<and> bt_ok m"
  by (auto simp: bt_ok_def)

lemma bt_ok_Nil: "bt_ok []"
  by (simp add: bt_ok_def)

lemma bt_ok_insert: "bt_ok m \<Longrightarrow> bt_ok (bt_insert k v m)"
  by (induction k v m rule: bt_insert.induct) (auto simp: bt_ok_Nil bt_ok_Cons bt_insert_keys)

lemma bt_ok_remove: "bt_ok m \<Longrightarrow> bt_ok (bt_remove k m)"
  by (induction k m rule: bt_remove.induct) (use bt_remove_subset in \<open>fastforce simp: bt_ok_Cons\<close>)+

lemma bt_get_insert: "bt_ok m \<Longrightarrow> bt_get (bt_insert k v m) = (bt_get m)(k \<mapsto> v)"
  by (rule ext, induction k v m rule: bt_insert.induct) (auto simp: bt_ok_Cons)

lemma bt_get_absent: "\<forall>k' \<in> fst ` set m. k < k' \<Longrightarrow> bt_get m k = None"
  by (induction m) auto

lemma bt_get_remove: "bt_ok m \<Longrightarrow> bt_get (bt_remove k m) = (bt_get m)(k := None)"
  by (rule ext, induction k m rule: bt_remove.induct) (auto simp: bt_ok_Cons bt_get_absent)

interpretation bt: ordered_map bt_get bt_insert bt_remove "\<lambda>m. m" bt_ok
  by unfold_locales
    (simp_all add: bt_get_insert[unfolded bt_get_map_of] bt_get_remove[unfolded bt_get_map_of]
      bt_ok_insert bt_ok_remove bt_get_map_of bt_ok_def[THEN iffD1])

end
