(* ===== verification/Scores.thy ===== *)
theory Scores
  imports Prelude
begin

text \<open>
  Ranges of the sums, counters and normalised quotients from which the components build their
  scores. A component's score lemma is an application of one of these rules; they are
  collected in \<open>rng_intros\<close>.
\<close>

section \<open>Exact values of rounded operations\<close>

lemma val_plus: "fin x \<Longrightarrow> fin y \<Longrightarrow> fin (x + y) \<Longrightarrow> val (x + y) = rnd (val x + val y)"
  by (auto simp: plus_fin val_mk split: if_splits)

lemma val_minus: "fin x \<Longrightarrow> fin y \<Longrightarrow> fin (x - y) \<Longrightarrow> val (x - y) = rnd (val x - val y)"
  unfolding minus_f64_def using val_plus[of x "- y"] by simp

lemma val_times: "fin x \<Longrightarrow> fin y \<Longrightarrow> fin (x * y) \<Longrightarrow> val (x * y) = rnd (val x * val y)"
  by (simp add: times_fin val_mk)

lemma val_divide: "fin x \<Longrightarrow> fin y \<Longrightarrow> val y \<noteq> 0 \<Longrightarrow> fin (x / y) \<Longrightarrow> val (x / y) = rnd (val x / val y)"
  by (simp add: divide_fin val_mk)

lemma rng_le: "rng a b x \<Longrightarrow> rng c d y \<Longrightarrow> b \<le> c \<Longrightarrow> x \<le> y"
  by (auto simp: rng_def fin_le_iff)

lemma rng_less: "rng a b x \<Longrightarrow> rng c d y \<Longrightarrow> b < c \<Longrightarrow> x < y"
  by (auto simp: rng_def fin_less_iff)

lemma rng_abs: "rng (- a) a x \<Longrightarrow> rng 0 a (f_abs x)"
  by (auto simp: rng_def)

lemma mk_nonneg: "0 \<le> q \<Longrightarrow> 0 \<le> mk s q"
  using rnd_nonneg[of q] by (auto simp: mk_def Let_def zero_f64_def f_zero_def)

lemma times_ge_self:
  assumes "fin x" "double x" "0 \<le> val x" "fin y" "1 \<le> val y"
  shows "x \<le> x * y"
proof -
  have b: "bound (val x)" using assms by (simp add: double_def)
  have m: "mk s (val x) \<le> mk t (val x * val y)" for s t
    using assms mult_left_mono[of 1 "val y" "val x"] by (intro mk_mono) simp
  show ?thesis
  proof (cases "val x = 0")
    case True
    then show ?thesis using assms by (auto simp: times_fin fin_le_iff mk_def Let_def)
  next
    case False
    then have "mk False (val x) = x" using assms(1) mk_exact[OF b, of False] by (cases x) auto
    then show ?thesis using m[of False] assms by (simp add: times_fin)
  qed
qed

lemma bound_pow2: "n < 1024 \<Longrightarrow> bound (2 ^ n)" "n < 1024 \<Longrightarrow> bound (- (2 ^ n))"
  using pow_less_huge[of n] repr_pow2[of n] bound_minus[of "2 ^ n"] by (simp_all add: bound_def)

text \<open>The length of a list as a double.\<close>

lemma f_of_nat_exact: "n \<le> 2 ^ 53 \<Longrightarrow> f_of_nat n = Fin (of_nat n)"
proof -
  assume "n \<le> 2 ^ 53"
  then have "\<bar>int n\<bar> \<le> 2 ^ 53" by (metis abs_of_nat of_nat_le_iff of_nat_numeral of_nat_power)
  then have "bound (of_nat n)" using bound_of_int[of "int n"] by simp
  then show ?thesis by (auto simp: f_of_nat_def mk_exact f_zero_def)
qed

section \<open>Sums\<close>

lemma f_sum_Nil [simp]: "f_sum [] = 0"
  by (simp add: f_sum_def)

text \<open>A sum of \<open>n\<close> values of at most \<open>m\<close> is at most \<open>n * m\<close>: no rounding error can leave that range.\<close>

lemma foldl_plus_rng:
  assumes "rng 0 (of_int k) a" "\<forall>x \<in> set xs. rng 0 (of_int m) x" "0 \<le> k" "0 \<le> m"
    "k + int (length xs) * m \<le> 2 ^ 53"
  shows "rng 0 (of_int (k + int (length xs) * m)) (foldl (+) a xs)"
  using assms
proof (induction xs arbitrary: a k)
  case (Cons x xs)
  have le: "k + m \<le> 2 ^ 53"
  proof -
    have "m \<le> int (length (x # xs)) * m" using Cons.prems(4) by (simp add: algebra_simps)
    then show ?thesis using Cons.prems(5) by linarith
  qed
  have "bound (of_int (k + m))" using le Cons.prems by (intro bound_of_int) simp
  then have "rng 0 (of_int (k + m)) (a + x)"
    using Cons.prems by (intro rng_plus[of 0 "of_int k" a 0 "of_int m" x]) auto
  from Cons.IH[OF this] Cons.prems show ?case by (simp add: algebra_simps)
qed simp

lemma f_sum_rng:
  assumes "\<forall>x \<in> set xs. rng 0 (of_int m) x" "length xs \<le> n" "0 \<le> m" "int n * m \<le> 2 ^ 53"
  shows "rng 0 (of_int (int n * m)) (f_sum xs)"
proof -
  have le: "int (length xs) * m \<le> int n * m" using assms by (intro mult_right_mono) auto
  have "rng 0 (of_int (0 + int (length xs) * m)) (f_sum xs)"
    unfolding f_sum_def using assms le by (intro foldl_plus_rng) (auto simp: rng_0_1)
  moreover have "(of_int (int (length xs) * m) :: rat) \<le> of_int (int n * m)" using le by (simp only: of_int_le_iff)
  ultimately show ?thesis by (auto intro: rng_weaken)
qed

text \<open>A sum of any number of nonnegative values is nonnegative; it may be infinite but not NaN.\<close>

lemma plus_nonneg: "0 \<le> x \<Longrightarrow> 0 \<le> y \<Longrightarrow> 0 \<le> x + y" for x y :: f64
proof -
  assume a: "0 \<le> x" "0 \<le> y"
  show ?thesis
  proof (cases "fin x \<and> fin y")
    case True
    then have "0 \<le> val x + val y" using a by (auto simp: fin_le_iff)
    then have "0 \<le> mk t (val x + val y)" for t by (rule mk_nonneg)
    then show ?thesis using True by (auto simp: plus_fin zero_f64_def)
  next
    case False
    then have "x = PInf \<or> y = PInf" using a by (cases x; cases y) (auto simp: zero_f64_def)
    then show ?thesis using a by (cases x; cases y) (auto simp: plus_f64_def zero_f64_def)
  qed
qed

lemma f_sum_nonneg: "\<forall>x \<in> set xs. 0 \<le> x \<Longrightarrow> 0 \<le> f_sum xs"
proof -
  have "0 \<le> a \<Longrightarrow> \<forall>x \<in> set xs. 0 \<le> x \<Longrightarrow> 0 \<le> foldl (+) a xs" for a :: f64
    by (induction xs arbitrary: a) (auto intro: plus_nonneg)
  then show "\<forall>x \<in> set xs. 0 \<le> x \<Longrightarrow> 0 \<le> f_sum xs" by (simp add: f_sum_def zero_f64_def)
qed

section \<open>Counters\<close>

text \<open>A counter kept in a double never passes \<open>2 ^ 53\<close>, where adding one no longer changes it.\<close>

lemma counter_rng: "rng 0 (2 ^ 53) x \<Longrightarrow> rng 0 (2 ^ 53) (x + 1)"
proof -
  assume x: "rng 0 (2 ^ 53) x"
  have one: "1 = Fin 1" by (simp add: one_f64_def)
  have "x + 1 \<le> Fin (2 ^ 53) + Fin 1"
    unfolding one using x by (intro plus_mono_fin) (auto simp: rng_iff_le)
  also have "Fin (2 ^ 53) + Fin 1 = Fin (2 ^ 53)" by (simp add: f64_eval)
  finally have "x + 1 \<le> Fin (2 ^ 53)" .
  moreover have "0 \<le> x + 1" using x by (intro plus_nonneg) (auto simp: rng_iff_le zero_f64_def one_f64_def)
  ultimately show ?thesis by (simp add: rng_iff_le zero_f64_def)
qed

lemma counter_ge_1: "rng 0 (2 ^ 53) x \<Longrightarrow> 1 \<le> val (x + 1)"
proof -
  assume x: "rng 0 (2 ^ 53) x"
  then have "fin x" "fin (x + 1)" using counter_rng[OF x] by (auto dest: rngD)
  moreover have "1 \<le> rnd (val x + 1)" using x by (intro rnd_ge) (auto simp: rng_def)
  ultimately show ?thesis by (simp add: val_plus)
qed

lemma counter_mono: "rng 0 (2 ^ 53) x \<Longrightarrow> rng 0 (2 ^ 53) y \<Longrightarrow> val x \<le> val y \<Longrightarrow> val (x + 1) \<le> val (y + 1)"
  using counter_rng[of x] counter_rng[of y] by (auto simp: val_plus rng_def intro: rnd_mono)

lemma counter_ge: "rng 0 (2 ^ 53) x \<Longrightarrow> double x \<Longrightarrow> val x \<le> val (x + 1)"
  using counter_rng[of x] plus_nonneg_ge[of x 1] by (auto simp: rng_def fin_le_iff)

section \<open>Quotients\<close>

text \<open>A difference of nonnegative values is bounded by their sum, also after rounding.\<close>

lemma diff_sum:
  assumes "rng 0 h l" "rng 0 h r" "h \<le> 2 ^ 52"
  shows "fin (l + r)" "fin (l - r)" "\<bar>val (l - r)\<bar> \<le> val (l + r)"
proof -
  have b: "bound (2 ^ 53)" using bound_of_int[of "2 ^ 53"] by simp
  then have b': "bound (- (2 ^ 53))" by (simp only: bound_minus)
  show s: "fin (l + r)" using assms b by (intro rngD(1)[OF rng_plus[OF assms(1,2), of 0 "2 ^ 53"]]) auto
  show d: "fin (l - r)" using assms b b' by (intro rngD(1)[OF rng_minus[OF assms(1,2), of "- (2 ^ 53)" "2 ^ 53"]]) auto
  have "rnd (val l - val r) \<le> rnd (val l + val r)" "rnd (- (val l - val r)) \<le> rnd (val l + val r)"
    using assms by (auto intro!: rnd_mono simp: rng_def)
  then have "rnd (val l - val r) \<le> rnd (val l + val r)" "- rnd (val l - val r) \<le> rnd (val l + val r)"
    by (simp_all only: rnd_minus)
  then show "\<bar>val (l - r)\<bar> \<le> val (l + r)"
    using s d assms by (auto simp: val_plus val_minus rngD abs_le_iff)
qed

text \<open>Products with a constant.\<close>

lemma times_not_nan': "x \<noteq> NaN \<Longrightarrow> fin c \<Longrightarrow> val c \<noteq> 0 \<Longrightarrow> x * c \<noteq> NaN \<and> c * x \<noteq> NaN"
  by (auto simp: times_f64_def Let_def)

text \<open>A part divided by its whole.\<close>

lemma rng_ratio:
  assumes "fin x" "fin y" "0 \<le> val x" "val x \<le> val y" "0 < val y"
  shows "rng 0 1 (x / y)"
proof -
  have "0 \<le> val x / val y" "val x / val y \<le> 1" using assms by (auto simp: divide_le_eq_1)
  then have "rng 0 1 (mk (signbit x \<noteq> signbit y) (val x / val y))" by (intro rng_mk) auto
  then show ?thesis using assms by (simp add: divide_fin)
qed

lemma rng_ratio_sym:
  assumes "fin x" "fin y" "\<bar>val x\<bar> \<le> val y" "0 < val y"
  shows "rng (- 1) 1 (x / y)"
proof -
  have "- 1 \<le> val x / val y" "val x / val y \<le> 1"
    using assms by (auto simp: divide_le_eq_1 le_divide_eq abs_le_iff)
  then have "rng (- 1) 1 (mk (signbit x \<noteq> signbit y) (val x / val y))" by (intro rng_mk) auto
  then show ?thesis using assms by (simp add: divide_fin)
qed

lemma divide_nonneg: "0 \<le> x \<Longrightarrow> fin y \<Longrightarrow> 0 < val y \<Longrightarrow> 0 \<le> x / y"
proof -
  assume a: "0 \<le> x" "fin y" "0 < val y"
  show ?thesis
  proof (cases "fin x")
    case True
    then have "0 \<le> val x / val y" using a by (simp add: fin_le_iff)
    then have "0 \<le> mk t (val x / val y)" for t by (rule mk_nonneg)
    then show ?thesis using True a by (simp add: divide_fin)
  next
    case False
    then have "x = PInf" using a by (cases x) (auto simp: zero_f64_def)
    moreover have "\<not> signbit y" using a by (cases y) auto
    ultimately show ?thesis using a by (auto simp: divide_f64_def zero_f64_def f_inf_def)
  qed
qed

lemma times_nonneg: "0 \<le> x \<Longrightarrow> fin c \<Longrightarrow> 0 < val c \<Longrightarrow> 0 \<le> c * x" "0 \<le> x \<Longrightarrow> fin c \<Longrightarrow> 0 < val c \<Longrightarrow> 0 \<le> x * c"
proof -
  assume a: "0 \<le> x" "fin c" "0 < val c"
  have "0 \<le> c * x \<and> 0 \<le> x * c"
  proof (cases "fin x")
    case True
    then have "0 \<le> val c * val x" "0 \<le> val x * val c" using a by (auto simp: fin_le_iff)
    then have "0 \<le> mk t (val c * val x)" "0 \<le> mk t (val x * val c)" for t by (auto intro: mk_nonneg)
    then show ?thesis using True a by (simp add: times_fin)
  next
    case False
    then have "x = PInf" using a by (cases x) (auto simp: zero_f64_def)
    moreover have "\<not> signbit c" using a by (cases c) auto
    ultimately show ?thesis using a by (auto simp: times_f64_def zero_f64_def f_inf_def)
  qed
  then show "0 \<le> c * x" "0 \<le> x * c" by simp_all
qed

lemma times_commute_f64: "x * y = y * x" for x y :: f64
  by (simp add: times_f64_def Let_def mult.commute[of "val y"] conj_commute disj_commute eq_commute[of "signbit y"])

text \<open>A finite value divided by a positive one, which may be infinite.\<close>

lemma divide_pos_not_nan: "fin x \<Longrightarrow> 0 < y \<Longrightarrow> x / y \<noteq> NaN"
  by (cases y) (auto simp: divide_f64_def Let_def f_inf_def f_zero_def zero_f64_def less_f64_def)

lemma f_clamp_unit_nonneg: "0 \<le> x \<Longrightarrow> rng 0 1 (f_clamp x 0 1)"
  by (rule f_clamp_unit) (auto dest: f64_le_not_nan)

lemma f_max_eps: "fin x \<Longrightarrow> fin (f_max x f_epsilon)" "fin x \<Longrightarrow> 0 < val (f_max x f_epsilon)"
  "fin x \<Longrightarrow> val x \<le> val (f_max x f_epsilon)"
  by (auto simp: val_f_max fin_f_max)

lemma f_max_positive: "fin x \<Longrightarrow> fin c \<Longrightarrow> 0 < val c \<Longrightarrow> fin (f_max x c) \<and> 0 < val (f_max x c) \<and> val x \<le> val (f_max x c)"
  by (auto simp: val_f_max fin_f_max)

end
