(* ===== verification/OrderBook.thy ===== *)
theory OrderBook
  imports BTree Scores Types
begin

text \<open>
  The order book (\<open>orderbook.rs\<close>): both sides as ordered maps from price ticks to quantities,
  the recent changes of the levels, and the state that is derived from them after each delta
  and each trade.

  The sections give the definitions, the effect of a delta on the two sides as a refinement of
  a plain map update, the window of the changes, the ranges of the derived scores, and the
  conversion between prices and ticks.
\<close>

section \<open>Data and operations\<close>

definition PRICE_SCALE :: f64 where
  "PRICE_SCALE = lit 100"

definition MAX_LEVELS :: nat where
  "MAX_LEVELS = 32"

record book_change =
  bc_timestamp :: u64
  bc_side :: side
  bc_price_tick :: int
  bc_old_qty :: f64
  bc_new_qty :: f64

record order_book =
  bk_bids :: "(int, f64) btree"
  bk_asks :: "(int, f64) btree"
  bk_changes :: "book_change list"
  bk_last_state :: order_book_state
  bk_last_trade_price :: f64
  bk_last_trade_volume :: f64

definition order_book_state_default :: order_book_state where
  "order_book_state_default = \<lparr>ob_best_bid = 0, ob_best_ask = 0, ob_bid_volume = 0, ob_ask_volume = 0,
     ob_imbalance = 0, ob_liquidity_clusters = [], ob_top_pressure = 0, ob_weighted_imbalance = 0,
     ob_spread = 0, ob_spoofing_score = 0, ob_liquidity_pull = 0, ob_absorption = 0\<rparr>"

definition order_book_default :: order_book where
  "order_book_default = \<lparr>bk_bids = [], bk_asks = [], bk_changes = [],
     bk_last_state = order_book_state_default, bk_last_trade_price = 0, bk_last_trade_volume = 0\<rparr>"

definition to_tick :: "f64 \<Rightarrow> int" where
  "to_tick price = f_as_i64 (f_round (price * PRICE_SCALE))"

definition from_tick :: "int \<Rightarrow> f64" where
  "from_tick tick = f_of_int tick / PRICE_SCALE"

definition midpoint :: "f64 \<Rightarrow> f64 \<Rightarrow> f64" where
  "midpoint best_bid best_ask =
     (if 0 < best_bid \<and> 0 < best_ask then (best_bid + best_ask) * lit 0.5
      else f_max best_bid best_ask)"

definition normalized_diff :: "f64 \<Rightarrow> f64 \<Rightarrow> f64" where
  "normalized_diff lhs rhs = (lhs - rhs) / f_max (lhs + rhs) f_epsilon"

definition avg_top_qty :: "(int \<times> f64) list \<Rightarrow> f64" where
  "avg_top_qty levels =
     (let (sum, count) = foldl (\<lambda>(sum, count) (_, qty). (sum + qty, count + 1)) (0, 0) levels
      in sum / f_max count 1)"

text \<open>The levels a statistic looks at: the best \<open>MAX_LEVELS\<close> of a side, best first.\<close>

definition top_bids :: "order_book \<Rightarrow> (int \<times> f64) list" where
  "top_bids b = take MAX_LEVELS (rev (bk_bids b))"

definition top_asks :: "order_book \<Rightarrow> (int \<times> f64) list" where
  "top_asks b = take MAX_LEVELS (bk_asks b)"

definition best_bid_qty :: "order_book \<Rightarrow> f64" where
  "best_bid_qty b = (if bk_bids b = [] then 0 else snd (last (bk_bids b)))"

definition best_ask_qty :: "order_book \<Rightarrow> f64" where
  "best_ask_qty b = (if bk_asks b = [] then 0 else snd (hd (bk_asks b)))"

definition mid_price :: "order_book \<Rightarrow> f64" where
  "mid_price b = midpoint (ob_best_bid (bk_last_state b)) (ob_best_ask (bk_last_state b))"

definition upsert_level :: "int \<Rightarrow> f64 \<Rightarrow> (int, f64) btree \<Rightarrow> (int, f64) btree" where
  "upsert_level tick quantity book =
     (if quantity \<le> f_epsilon then bt_remove tick book else bt_insert tick quantity book)"

definition apply_level :: "order_book \<Rightarrow> u64 \<Rightarrow> side \<Rightarrow> book_level \<Rightarrow> order_book" where
  "apply_level b timestamp side level =
     (if \<not> fin (bl_price level) \<or> \<not> fin (bl_quantity level) then b
      else let tick = to_tick (bl_price level);
               book = (case side of Buy \<Rightarrow> bk_bids b | Sell \<Rightarrow> bk_asks b);
               old_qty = (case bt_get book tick of Some q \<Rightarrow> q | None \<Rightarrow> 0);
               book' = upsert_level tick (bl_quantity level) book;
               b' = (case side of Buy \<Rightarrow> b\<lparr>bk_bids := book'\<rparr> | Sell \<Rightarrow> b\<lparr>bk_asks := book'\<rparr>)
           in b'\<lparr>bk_changes := bk_changes b' @
                [\<lparr>bc_timestamp = timestamp, bc_side = side, bc_price_tick = tick, bc_old_qty = old_qty,
                  bc_new_qty = f_max (bl_quantity level) 0\<rparr>]\<rparr>)"

definition trim_changes :: "order_book \<Rightarrow> u64 \<Rightarrow> u64 \<Rightarrow> order_book" where
  "trim_changes b now window_ms =
     b\<lparr>bk_changes := dropWhile (\<lambda>c. bc_timestamp c < sat_sub now window_ms) (bk_changes b)\<rparr>"

definition weighted_sum :: "(int \<times> f64) list \<Rightarrow> f64" where
  "weighted_sum levels =
     f_sum (map (\<lambda>(idx, (_, qty)). qty / (f_of_nat idx + 1)) (enumerate 0 levels))"

definition weighted_imbalance :: "order_book \<Rightarrow> f64" where
  "weighted_imbalance b = normalized_diff (weighted_sum (top_bids b)) (weighted_sum (top_asks b))"

definition collect_clusters :: "f64 \<Rightarrow> nat \<Rightarrow> f64 list \<Rightarrow> (int \<times> f64) list \<Rightarrow> f64 list" where
  "collect_clusters avg limit levels entries =
     foldl (\<lambda>levels (tick, qty).
       if avg * lit 2.5 < qty \<and> length levels < limit then levels @ [from_tick tick] else levels)
       levels entries"

definition liquidity_clusters :: "order_book \<Rightarrow> f64 list" where
  "liquidity_clusters b =
     collect_clusters (avg_top_qty (top_asks b)) 6
       (collect_clusters (avg_top_qty (top_bids b)) 3 [] (top_bids b)) (top_asks b)"

definition rapid_add :: "u64 \<Rightarrow> book_change \<Rightarrow> bool" where
  "rapid_add cutoff change \<longleftrightarrow>
     cutoff \<le> bc_timestamp change \<and> bc_old_qty change * lit 2 < bc_new_qty change"

definition removes_add :: "book_change \<Rightarrow> book_change \<Rightarrow> bool" where
  "removes_add add remove \<longleftrightarrow>
     bc_timestamp add < bc_timestamp remove
     \<and> sat_sub (bc_timestamp remove) (bc_timestamp add) < 450
     \<and> bc_side remove = bc_side add
     \<and> bc_price_tick remove = bc_price_tick add
     \<and> bc_new_qty remove < bc_new_qty add * lit 0.25"

text \<open>The loop over the additions; both counters are doubles.\<close>

definition count_spoofs :: "(book_change \<Rightarrow> bool) \<Rightarrow> f64 \<times> f64 \<Rightarrow> book_change list \<Rightarrow> f64 \<times> f64" where
  "count_spoofs removed counts adds =
     foldl (\<lambda>(rapid, all) add. (if removed add then rapid + 1 else rapid, all + 1)) counts adds"

definition spoofing_score :: "order_book \<Rightarrow> u64 \<Rightarrow> f64" where
  "spoofing_score b now =
     (let cutoff = sat_sub now 650;
          (rapid_add_remove, all) =
             count_spoofs (\<lambda>add. list_ex (removes_add add) (bk_changes b)) (0, 0)
               (filter (rapid_add cutoff) (bk_changes b))
      in if 0 < all then rapid_add_remove / all else 0)"

definition liquidity_pull :: "order_book \<Rightarrow> u64 \<Rightarrow> f64" where
  "liquidity_pull b now =
     (let cutoff = sat_sub now 350;
          pulled = f_sum (map (\<lambda>c. bc_old_qty c - bc_new_qty c)
            (filter (\<lambda>c. cutoff \<le> bc_timestamp c \<and> bc_new_qty c * lit 2.5 < bc_old_qty c) (bk_changes b)));
          current = ob_bid_volume (bk_last_state b) + ob_ask_volume (bk_last_state b)
      in f_clamp (pulled / f_max current 1) 0 1)"

definition best_bid_tick :: "order_book \<Rightarrow> int" where
  "best_bid_tick b = (if bk_bids b = [] then 0 else fst (last (bk_bids b)))"

definition best_ask_tick :: "order_book \<Rightarrow> int" where
  "best_ask_tick b = (if bk_asks b = [] then 0 else fst (hd (bk_asks b)))"

definition book_spread :: "f64 \<Rightarrow> f64 \<Rightarrow> f64" where
  "book_spread best_bid best_ask =
     (if 0 < best_bid \<and> best_bid < best_ask
      then (best_ask - best_bid) / f_max (midpoint best_bid best_ask) f_epsilon else 0)"

definition compute_state :: "order_book \<Rightarrow> u64 \<Rightarrow> order_book_state" where
  "compute_state b now =
     (let best_bid = from_tick (best_bid_tick b);
          best_ask = from_tick (best_ask_tick b);
          bid_volume = f_sum (map snd (top_bids b));
          ask_volume = f_sum (map snd (top_asks b))
      in \<lparr>ob_best_bid = best_bid, ob_best_ask = best_ask,
          ob_bid_volume = bid_volume, ob_ask_volume = ask_volume,
          ob_imbalance = normalized_diff bid_volume ask_volume,
          ob_liquidity_clusters = liquidity_clusters b,
          ob_top_pressure = normalized_diff (best_bid_qty b) (best_ask_qty b),
          ob_weighted_imbalance = weighted_imbalance b,
          ob_spread = book_spread best_bid best_ask,
          ob_spoofing_score = spoofing_score b now,
          ob_liquidity_pull = liquidity_pull b now,
          ob_absorption = ob_absorption (bk_last_state b) * lit 0.85\<rparr>)"

definition apply_levels :: "order_book \<Rightarrow> book_delta \<Rightarrow> order_book" where
  "apply_levels b delta =
     (let b1 = foldl (\<lambda>b. apply_level b (bd_timestamp delta) Buy) b (bd_bids delta)
      in foldl (\<lambda>b. apply_level b (bd_timestamp delta) Sell) b1 (bd_asks delta))"

definition apply_delta :: "order_book \<Rightarrow> book_delta \<Rightarrow> order_book \<times> order_book_state" where
  "apply_delta b delta =
     (let b1 = trim_changes (apply_levels b delta) (bd_timestamp delta) 750;
          state = compute_state b1 (bd_timestamp delta)
      in (b1\<lparr>bk_last_state := state\<rparr>, state))"

definition trade_absorption :: "f64 \<Rightarrow> f64 \<Rightarrow> f64 \<Rightarrow> f64 \<Rightarrow> f64" where
  "trade_absorption volume top_qty mid_move spread =
     (if f_max top_qty (lit 0.01) * lit 0.8 < volume \<and> mid_move < spread * lit 0.15 then 1
      else f_clamp (volume / f_max top_qty (lit 0.01)) 0 1 * lit 0.35)"

definition observe_book_trade :: "order_book \<Rightarrow> trade_event \<Rightarrow> order_book \<times> order_book_state" where
  "observe_book_trade b trade =
     (let previous_mid = mid_price b;
          b1 = b\<lparr>bk_last_trade_price := te_price trade, bk_last_trade_volume := te_volume trade\<rparr>;
          state = compute_state b1 (te_timestamp trade);
          mid_move = f_abs (mid_price b1 - previous_mid);
          top_qty = (case te_side trade of Buy \<Rightarrow> best_ask_qty b1 | Sell \<Rightarrow> best_bid_qty b1);
          state' = state\<lparr>ob_absorption :=
            trade_absorption (te_volume trade) top_qty mid_move (ob_spread state)\<rparr>
      in (b1\<lparr>bk_last_state := state'\<rparr>, state'))"

text \<open>The book is driven by the market updates of the feed.\<close>

definition book_step :: "order_book \<Rightarrow> market_update \<Rightarrow> order_book" where
  "book_step b update = (case update of
     BookUpdate delta \<Rightarrow> fst (apply_delta b delta)
   | TradeUpdate trade \<Rightarrow> fst (observe_book_trade b trade))"

section \<open>The sides of the book\<close>

text \<open>What a list of levels promises: each finite level sets or removes its own price.\<close>

definition level_spec :: "(int \<rightharpoonup> f64) \<Rightarrow> book_level \<Rightarrow> (int \<rightharpoonup> f64)" where
  "level_spec m level =
     (if fin (bl_price level) \<and> fin (bl_quantity level)
      then m(to_tick (bl_price level) :=
             (if bl_quantity level \<le> f_epsilon then None else Some (bl_quantity level)))
      else m)"

definition sides_ok :: "order_book \<Rightarrow> bool" where
  "sides_ok b \<longleftrightarrow> bt_ok (bk_bids b) \<and> bt_ok (bk_asks b)"

lemma upsert_level_ok: "bt_ok m \<Longrightarrow> bt_ok (upsert_level t q m)"
  by (simp add: upsert_level_def bt.ok_put bt.ok_del)

lemma upsert_level_get: "bt_ok m \<Longrightarrow> bt_get (upsert_level t q m) = (bt_get m)(t := (if q \<le> f_epsilon then None else Some q))"
  by (simp add: upsert_level_def bt.get_put bt.get_del)

lemma apply_level_sides:
  "bk_bids (apply_level b now Sell l) = bk_bids b" "bk_asks (apply_level b now Buy l) = bk_asks b"
  "sides_ok b \<Longrightarrow> sides_ok (apply_level b now sd l)"
  "sides_ok b \<Longrightarrow> bt_get (bk_bids (apply_level b now Buy l)) = level_spec (bt_get (bk_bids b)) l"
  "sides_ok b \<Longrightarrow> bt_get (bk_asks (apply_level b now Sell l)) = level_spec (bt_get (bk_asks b)) l"
  by (auto simp: apply_level_def Let_def sides_ok_def level_spec_def upsert_level_ok upsert_level_get split: side.splits)

lemma apply_level_frame [simp]:
  "bk_last_state (apply_level b now sd l) = bk_last_state b"
  by (auto simp: apply_level_def Let_def split: side.splits)

lemma fold_levels_frame [simp]:
  "bk_last_state (foldl (\<lambda>b. apply_level b now sd) b ls) = bk_last_state b"
  "bk_bids (foldl (\<lambda>b. apply_level b now Sell) b ls) = bk_bids b"
  "bk_asks (foldl (\<lambda>b. apply_level b now Buy) b ls) = bk_asks b"
  by (induction ls arbitrary: b) (simp_all add: apply_level_sides)

lemma fold_levels_sides:
  "sides_ok b \<Longrightarrow> sides_ok (foldl (\<lambda>b. apply_level b now sd) b ls)"
  "sides_ok b \<Longrightarrow> bt_get (bk_bids (foldl (\<lambda>b. apply_level b now Buy) b ls)) = foldl level_spec (bt_get (bk_bids b)) ls"
  "sides_ok b \<Longrightarrow> bt_get (bk_asks (foldl (\<lambda>b. apply_level b now Sell) b ls)) = foldl level_spec (bt_get (bk_asks b)) ls"
  by (induction ls arbitrary: b) (simp_all add: apply_level_sides)

lemma apply_levels_sides:
  "sides_ok b \<Longrightarrow> sides_ok (apply_levels b d)"
  "sides_ok b \<Longrightarrow> bt_get (bk_bids (apply_levels b d)) = foldl level_spec (bt_get (bk_bids b)) (bd_bids d)"
  "sides_ok b \<Longrightarrow> bt_get (bk_asks (apply_levels b d)) = foldl level_spec (bt_get (bk_asks b)) (bd_asks d)"
  by (simp_all add: apply_levels_def Let_def fold_levels_sides)

lemma apply_delta_sides [simp]:
  "bk_bids (fst (apply_delta b d)) = bk_bids (apply_levels b d)"
  "bk_asks (fst (apply_delta b d)) = bk_asks (apply_levels b d)"
  by (simp_all add: apply_delta_def trim_changes_def Let_def)

lemma observe_trade_sides [simp]:
  "bk_bids (fst (observe_book_trade b t)) = bk_bids b" "bk_asks (fst (observe_book_trade b t)) = bk_asks b"
  "bk_changes (fst (observe_book_trade b t)) = bk_changes b"
  by (simp_all add: observe_book_trade_def Let_def)

text \<open>The best ticks are the extreme keys of the sides.\<close>

lemma best_ticks:
  assumes "sides_ok b"
  shows "best_bid_tick b = (if bt_get (bk_bids b) = Map.empty then 0 else Max (dom (bt_get (bk_bids b))))"
    "best_ask_tick b = (if bt_get (bk_asks b) = Map.empty then 0 else Min (dom (bt_get (bk_asks b))))"
  using assms bt.entries_Nil[of "bk_bids b"] bt.entries_Nil[of "bk_asks b"]
    bt.last_is_Max[of "bk_bids b"] bt.first_is_Min[of "bk_asks b"]
  by (simp_all add: best_bid_tick_def best_ask_tick_def sides_ok_def)

text \<open>A level that no entry of a list names keeps its quantity.\<close>

lemma level_spec_other: "(\<forall>l \<in> set ls. to_tick (bl_price l) \<noteq> t) \<Longrightarrow> foldl level_spec m ls t = m t"
  by (induction ls arbitrary: m) (auto simp: level_spec_def)


section \<open>Ranges of the scores\<close>

text \<open>
  The invariant of the book: both sides are ordered and hold positive quantities of at most
  \<open>2 ^ 40\<close>, the changes record such quantities, and the last state has all its scores in range.
\<close>

definition qty_ok :: "f64 \<Rightarrow> bool" where
  "qty_ok q \<longleftrightarrow> double q \<and> rng 0 (2 ^ 40) q"

definition entries_ok :: "(int, f64) btree \<Rightarrow> bool" where
  "entries_ok m \<longleftrightarrow> (\<forall>(t, q) \<in> set m. \<bar>t\<bar> \<le> 2 ^ 63 \<and> f_epsilon < q \<and> qty_ok q)"

definition changes_ok :: "book_change list \<Rightarrow> bool" where
  "changes_ok cs \<longleftrightarrow> (\<forall>c \<in> set cs. qty_ok (bc_old_qty c) \<and> qty_ok (bc_new_qty c))"

definition state_ok :: "order_book_state \<Rightarrow> bool" where
  "state_ok st \<longleftrightarrow> rng 0 (2 ^ 45) (ob_bid_volume st) \<and> rng 0 (2 ^ 45) (ob_ask_volume st)
     \<and> rng (- 1) 1 (ob_imbalance st) \<and> rng (- 1) 1 (ob_top_pressure st)
     \<and> rng (- 1) 1 (ob_weighted_imbalance st) \<and> 0 \<le> ob_spread st
     \<and> rng 0 1 (ob_spoofing_score st) \<and> rng 0 1 (ob_liquidity_pull st)
     \<and> rng 0 1 (ob_absorption st) \<and> length (ob_liquidity_clusters st) \<le> 6"

definition book_ok :: "order_book \<Rightarrow> bool" where
  "book_ok b \<longleftrightarrow> sides_ok b \<and> entries_ok (bk_bids b) \<and> entries_ok (bk_asks b)
     \<and> changes_ok (bk_changes b) \<and> state_ok (bk_last_state b)"

definition level_valid :: "book_level \<Rightarrow> bool" where
  "level_valid l \<longleftrightarrow> double (bl_quantity l) \<and> (fin (bl_quantity l) \<longrightarrow> val (bl_quantity l) \<le> 2 ^ 40)"

definition update_valid :: "market_update \<Rightarrow> bool" where
  "update_valid u = (case u of
     BookUpdate d \<Rightarrow> list_all level_valid (bd_bids d) \<and> list_all level_valid (bd_asks d)
   | TradeUpdate t \<Rightarrow> te_volume t \<noteq> NaN)"

lemma qty_ok_0 [simp]: "qty_ok 0"
  by (simp add: qty_ok_def rng_0_1)

lemma normalized_diff_rng:
  assumes "rng 0 h l" "rng 0 h r" "h \<le> 2 ^ 52"
  shows "rng (- 1) 1 (normalized_diff l r)"
  unfolding normalized_diff_def
  using diff_sum[OF assms] f_max_eps[of "l + r"] by (intro rng_ratio_sym) auto

lemma entries_ok_qty: "entries_ok m \<Longrightarrow> x \<in> set (map snd (take n m)) \<Longrightarrow> qty_ok x"
  "entries_ok m \<Longrightarrow> x \<in> set (map snd (take n (rev m))) \<Longrightarrow> qty_ok x"
  by (fastforce simp: entries_ok_def dest!: in_set_takeD)+

lemma top_qty_ok:
  "entries_ok (bk_bids b) \<Longrightarrow> \<forall>x \<in> set (map snd (top_bids b)). qty_ok x"
  "entries_ok (bk_asks b) \<Longrightarrow> \<forall>x \<in> set (map snd (top_asks b)). qty_ok x"
  unfolding top_bids_def top_asks_def by (blast intro: entries_ok_qty)+

lemma length_top [simp]: "length (top_bids b) \<le> 32" "length (top_asks b) \<le> 32"
  by (simp_all add: top_bids_def top_asks_def MAX_LEVELS_def)

lemma volume_rng: "\<forall>x \<in> set xs. qty_ok x \<Longrightarrow> length xs \<le> 32 \<Longrightarrow> rng 0 (2 ^ 45) (f_sum xs)"
  using f_sum_rng[of xs "2 ^ 40" 32] by (simp add: qty_ok_def)

lemma weight_ok: "qty_ok q \<Longrightarrow> i \<le> 2 ^ 52 \<Longrightarrow> qty_ok (q / (f_of_nat i + 1))"
proof -
  assume q: "qty_ok q" and i: "i \<le> 2 ^ 52"
  have "rng (of_nat i) (of_nat i) (f_of_nat i)"
    unfolding f_of_nat_def using i bound_of_int[of "int i"] by (intro rng_mk) auto
  moreover have "bound (of_nat i + 1)" using i bound_of_int[of "int i + 1"] by simp
  ultimately have "rng (of_nat i + 1) (of_nat i + 1) (f_of_nat i + 1)"
    by (intro rng_plus[of "of_nat i" "of_nat i" _ 1 1]) (auto simp: rng_def)
  then have "rng 1 (of_nat i + 1) (f_of_nat i + 1)" by (rule rng_weaken) auto
  then show ?thesis using q unfolding qty_ok_def by (intro conjI double_divide rng_divide_nonneg) auto
qed

lemma weighted_sum_rng:
  assumes "\<forall>x \<in> set (map snd ls). qty_ok x" "length ls \<le> 32"
  shows "rng 0 (2 ^ 45) (weighted_sum ls)"
  unfolding weighted_sum_def
proof (rule volume_rng)
  show "\<forall>x \<in> set (map (\<lambda>(idx, _, qty). qty / (f_of_nat idx + 1)) (enumerate 0 ls)). qty_ok x"
    using assms by (fastforce simp: in_set_enumerate_eq dest!: nth_mem intro!: weight_ok)
qed (use assms in simp)

lemma best_qty_ok: "entries_ok (bk_bids b) \<Longrightarrow> qty_ok (best_bid_qty b)" "entries_ok (bk_asks b) \<Longrightarrow> qty_ok (best_ask_qty b)"
  using last_in_set[of "bk_bids b"] hd_in_set[of "bk_asks b"]
  by (auto simp: best_bid_qty_def best_ask_qty_def entries_ok_def case_prod_unfold)

text \<open>The spoofing counters: every counted removal is one of the counted additions.\<close>

lemma spoof_counters:
  assumes "rng 0 (2 ^ 53) r" "rng 0 (2 ^ 53) t" "val r \<le> val t" "double r" "double t" "val r = 0 \<or> 1 \<le> val r"
    "count_spoofs P (r, t) adds = (r', t')"
  shows "rng 0 (2 ^ 53) r' \<and> rng 0 (2 ^ 53) t' \<and> val r' \<le> val t' \<and> (val r' = 0 \<or> 1 \<le> val r') \<and>
    (1 \<le> val r' \<longleftrightarrow> 1 \<le> val r \<or> list_ex P adds)"
  using assms
proof (induction adds arbitrary: r t)
  case (Cons a adds)
  define r1 where "r1 = (if P a then r + 1 else r)"
  have r1: "rng 0 (2 ^ 53) r1" "double r1" using Cons.prems counter_rng[of r] by (simp_all add: r1_def)
  have t1: "rng 0 (2 ^ 53) (t + 1)" using Cons.prems by (intro counter_rng)
  have "val r \<le> val (t + 1)" using Cons.prems(2,3,5) counter_ge[of t] by linarith
  then have le: "val r1 \<le> val (t + 1)" using Cons.prems counter_mono[of r t] by (simp add: r1_def)
  have pos: "val r1 = 0 \<or> 1 \<le> val r1" "1 \<le> val r1 \<longleftrightarrow> 1 \<le> val r \<or> P a"
    using counter_ge_1[of r] Cons.prems(1,6) by (auto simp: r1_def)
  have "count_spoofs P (r1, t + 1) adds = (r', t')"
    using Cons.prems(7) by (simp add: r1_def count_spoofs_def)
  from Cons.IH[OF r1(1) t1 le r1(2) _ pos(1) this] show ?case unfolding pos(2) by (auto simp del: power_numeral)
qed (auto simp: count_spoofs_def)

lemma spoofing_score_facts:
  "rng 0 1 (spoofing_score b now)"
  "0 < spoofing_score b now \<longleftrightarrow>
     (\<exists>add \<in> set (bk_changes b). rapid_add (sat_sub now 650) add \<and> (\<exists>c \<in> set (bk_changes b). removes_add add c))"
proof -
  define P where "P add = list_ex (removes_add add) (bk_changes b)" for add
  define adds where "adds = filter (rapid_add (sat_sub now 650)) (bk_changes b)"
  obtain r t where rt: "count_spoofs P (0, 0) adds = (r, t)" by (cases "count_spoofs P (0, 0) adds")
  then have score: "spoofing_score b now = (if 0 < t then r / t else 0)"
    unfolding spoofing_score_def P_def[abs_def] adds_def by (simp add: Let_def)
  have c: "rng 0 (2 ^ 53) r" "rng 0 (2 ^ 53) t" "val r \<le> val t" "val r = 0 \<or> 1 \<le> val r"
    "1 \<le> val r \<longleftrightarrow> list_ex P adds"
    using spoof_counters[OF _ _ _ _ _ _ rt] by (auto simp: rng_0_1 simp del: power_numeral)
  have f: "fin r" "fin t" "0 \<le> val r" using c by (auto simp: rng_def)
  have t: "0 < t \<longleftrightarrow> 0 < val t" using f by (simp add: fin_less_iff)
  have u: "0 < val t \<Longrightarrow> rng 0 1 (r / t)" using f c(3) by (intro rng_ratio)
  then show "rng 0 1 (spoofing_score b now)" using t by (simp add: score rng_0_1)
  have "0 < r / t \<longleftrightarrow> 1 \<le> val r" if "0 < val t"
  proof (cases "1 \<le> val r")
    case True
    then have "rng 1 (2 ^ 53) r" "rng 1 (2 ^ 53) t" using c by (auto simp: rng_def)
    then have "rng (1 / 2 ^ 53) (2 ^ 53) (r / t)"
      using bound_dyadic[of 1 53] bound_of_int[of "2 ^ 53"] by (intro rng_divide_nonneg) auto
    then show ?thesis using True by (auto simp: fin_less_iff rng_def)
  next
    case False
    then have "val r = 0" using c(4) by simp
    then show ?thesis using that f u[OF that] by (auto simp: divide_fin fin_less_iff rng_def mk_def Let_def f_zero_def)
  qed
  then have "0 < spoofing_score b now \<longleftrightarrow> list_ex P adds"
    using c t by (auto simp: score less_f64_def)
  then show "0 < spoofing_score b now \<longleftrightarrow>
     (\<exists>add \<in> set (bk_changes b). rapid_add (sat_sub now 650) add \<and> (\<exists>c \<in> set (bk_changes b). removes_add add c))"
    by (auto simp: P_def adds_def list_ex_iff)
qed

lemma lit_5_2: "lit (5 / 2) = Fin (5 / 2)"
  by (simp add: f64_eval)

lemma liquidity_pull_rng:
  assumes "changes_ok (bk_changes b)" "state_ok (bk_last_state b)"
  shows "rng 0 1 (liquidity_pull b now)"
proof -
  let ?cs = "filter (\<lambda>c. sat_sub now 350 \<le> bc_timestamp c \<and> bc_new_qty c * lit 2.5 < bc_old_qty c) (bk_changes b)"
  have "0 \<le> bc_old_qty c - bc_new_qty c" if "c \<in> set ?cs" for c
  proof -
    have q: "rng 0 (2 ^ 40) (bc_old_qty c)" "rng 0 (2 ^ 40) (bc_new_qty c)" "double (bc_new_qty c)"
      using that assms(1) by (auto simp: changes_ok_def qty_ok_def)
    have "bc_new_qty c \<le> bc_new_qty c * lit 2.5"
      using q by (intro times_ge_self) (auto simp: rng_def lit_5_2 simp del: power_numeral)
    also have "\<dots> < bc_old_qty c" using that by simp
    finally have "val (bc_new_qty c) \<le> val (bc_old_qty c)" using q by (simp add: fin_less_iff rngD)
    then show ?thesis using q by (auto simp: minus_f64_def plus_fin rng_def zero_f64_def intro: mk_nonneg[unfolded zero_f64_def])
  qed
  then have p: "0 \<le> f_sum (map (\<lambda>c. bc_old_qty c - bc_new_qty c) ?cs)" by (intro f_sum_nonneg) auto
  have "rng 0 (2 ^ 46) (ob_bid_volume (bk_last_state b) + ob_ask_volume (bk_last_state b))"
    using assms(2) bound_of_int[of "2 ^ 46"]
    by (intro rng_plus[of 0 "2 ^ 45" _ 0 "2 ^ 45"]) (auto simp: state_ok_def)
  then have "fin (f_max (ob_bid_volume (bk_last_state b) + ob_ask_volume (bk_last_state b)) 1)"
    "0 < val (f_max (ob_bid_volume (bk_last_state b) + ob_ask_volume (bk_last_state b)) 1)"
    using f_max_positive by (auto dest: rngD)
  then show ?thesis unfolding liquidity_pull_def Let_def
    using p by (intro f_clamp_unit_nonneg divide_nonneg)
qed

lemma collect_clusters_length: "length levels \<le> limit \<Longrightarrow> length (collect_clusters avg limit levels entries) \<le> limit"
  unfolding collect_clusters_def by (induction entries arbitrary: levels) auto

lemma liquidity_clusters_length: "length (liquidity_clusters b) \<le> 6"
  unfolding liquidity_clusters_def
  using collect_clusters_length[of "[]" 3 "avg_top_qty (top_bids b)" "top_bids b"]
  by (intro collect_clusters_length) simp

lemma from_tick_rng: "\<bar>t\<bar> \<le> 2 ^ 63 \<Longrightarrow> rng (- (2 ^ 63)) (2 ^ 63) (from_tick t)"
proof -
  assume t: "\<bar>t\<bar> \<le> 2 ^ 63"
  have b: "bound (2 ^ 63)" "bound (- (2 ^ 63))" by (rule bound_pow2; simp)+
  from t have "(of_int \<bar>t\<bar> :: rat) \<le> of_int (2 ^ 63)" by (simp only: of_int_le_iff)
  then have "rng (- (2 ^ 63)) (2 ^ 63) (f_of_int t)"
    unfolding f_of_int_def using b by (intro rng_mk) auto
  then have f: "fin (f_of_int t)" "\<bar>val (f_of_int t)\<bar> \<le> 2 ^ 63" by (auto simp: rng_def abs_le_iff)
  have l: "fin (lit 100)" "val (lit 100) = 100" by (simp_all add: f64_eval)
  have "rng (- (2 ^ 63)) (2 ^ 63) (mk s (val (f_of_int t) / 100))" for s
    using f(2) b by (intro rng_mk) (auto simp: abs_le_iff)
  then show ?thesis using f l by (simp add: from_tick_def PRICE_SCALE_def divide_fin)
qed

lemma minus_nonneg: "fin x \<Longrightarrow> fin y \<Longrightarrow> val y \<le> val x \<Longrightarrow> 0 \<le> x - y"
  using mk_nonneg[of "val x - val y"] by (auto simp: minus_f64_def plus_fin zero_f64_def)

lemma book_spread_nonneg:
  assumes "rng (- (2 ^ 63)) (2 ^ 63) bid" "rng (- (2 ^ 63)) (2 ^ 63) ask"
  shows "0 \<le> book_spread bid ask"
proof (cases "0 < bid \<and> bid < ask")
  case True
  then have v: "0 < val bid" "val bid < val ask" "fin bid" "fin ask" using assms by (auto simp: fin_less_iff rngD)
  then have p: "rng 0 (2 ^ 63) bid" "rng 0 (2 ^ 63) ask" using assms by (auto simp: rng_def simp del: power_numeral)
  have "rng 0 (2 ^ 64) (bid + ask)" using bound_pow2(1)[of 64] by (intro rng_plus[OF p]) simp_all
  moreover have "rng 0 1 (lit 0.5)" by (rule rng_lit) simp_all
  ultimately have "rng 0 (2 ^ 64) ((bid + ask) * lit 0.5)"
    using bound_pow2(1)[of 64] by (intro rng_times_nonneg[of 0 "2 ^ 64" _ 0 1]) simp_all
  moreover have "0 < ask" using v by (simp add: fin_less_iff)
  ultimately have "fin (midpoint bid ask)" using True by (auto simp: midpoint_def dest: rngD)
  then show ?thesis using v True f_max_eps[of "midpoint bid ask"]
    by (simp add: book_spread_def divide_nonneg minus_nonneg)
qed (auto simp: book_spread_def)

lemma compute_state_ok:
  assumes "book_ok b"
  shows "state_ok (compute_state b now)"
proof -
  have e: "entries_ok (bk_bids b)" "entries_ok (bk_asks b)" "changes_ok (bk_changes b)" "state_ok (bk_last_state b)"
    using assms by (auto simp: book_ok_def)
  have v: "rng 0 (2 ^ 45) (f_sum (map snd (top_bids b)))" "rng 0 (2 ^ 45) (f_sum (map snd (top_asks b)))"
    "rng 0 (2 ^ 45) (weighted_sum (top_bids b))" "rng 0 (2 ^ 45) (weighted_sum (top_asks b))"
    using e top_qty_ok[of b] by (auto intro!: volume_rng weighted_sum_rng simp del: power_numeral)
  have q: "rng 0 (2 ^ 40) (best_bid_qty b)" "rng 0 (2 ^ 40) (best_ask_qty b)"
    using e best_qty_ok by (auto simp: qty_ok_def)
  have t: "\<bar>best_bid_tick b\<bar> \<le> 2 ^ 63" "\<bar>best_ask_tick b\<bar> \<le> 2 ^ 63"
    using e last_in_set[of "bk_bids b"] hd_in_set[of "bk_asks b"]
    by (auto simp: best_bid_tick_def best_ask_tick_def entries_ok_def case_prod_unfold)
  have "rng 0 1 (ob_absorption (bk_last_state b) * lit 0.85)"
    using e(4) by (intro rng_times_nonneg[of 0 1 _ 0 1]) (auto simp: state_ok_def intro: rng_lit)
  then show ?thesis
    using v q liquidity_pull_rng[OF e(3,4)] liquidity_clusters_length spoofing_score_facts(1)
      book_spread_nonneg[OF from_tick_rng[OF t(1)] from_tick_rng[OF t(2)]]
      normalized_diff_rng[OF v(1,2)] normalized_diff_rng[OF v(3,4)] normalized_diff_rng[OF q]
    by (simp add: state_ok_def compute_state_def Let_def weighted_imbalance_def)
qed

lemma to_tick_range: "\<bar>to_tick p\<bar> \<le> 2 ^ 63"
  by (auto simp: to_tick_def f_as_i64_def sat_int_def split: f64.splits)

lemma entries_ok_upsert:
  assumes "entries_ok m" "\<bar>t\<bar> \<le> 2 ^ 63" "fin q" "double q" "val q \<le> 2 ^ 40"
  shows "entries_ok (upsert_level t q m)"
proof (cases "q \<le> f_epsilon")
  case True
  then show ?thesis using assms bt_remove_subset[of t m] by (auto simp: upsert_level_def entries_ok_def)
next
  case False
  then have "f_epsilon < q" using assms f64_less_iff_not_le by auto
  moreover have "1 / 2 ^ 52 < val q" using calculation assms by (simp add: fin_less_iff)
  then have "qty_ok q" using assms less_trans[of 0 "1 / 2 ^ 52" "val q"]
    by (auto simp: qty_ok_def rng_def)
  ultimately show ?thesis using False assms bt_insert_subset[of t q m]
    by (auto simp: upsert_level_def entries_ok_def)
qed

lemma entries_ok_get: "entries_ok m \<Longrightarrow> bt_get m t = Some q \<Longrightarrow> qty_ok q"
  by (auto simp: bt_get_map_of entries_ok_def dest!: map_of_SomeD)

lemma apply_level_ok [inv_intros]:
  assumes "book_ok b" "level_valid l"
  shows "book_ok (apply_level b now sd l)"
proof (cases "fin (bl_price l) \<and> fin (bl_quantity l)")
  case True
  let ?q = "bl_quantity l"
  have b: "entries_ok (bk_bids b)" "entries_ok (bk_asks b)" "changes_ok (bk_changes b)" "state_ok (bk_last_state b)"
    "sides_ok b" using assms(1) by (auto simp: book_ok_def)
  have q: "fin ?q" "double ?q" "val ?q \<le> 2 ^ 40" using True assms(2) by (auto simp: level_valid_def)
  have n: "qty_ok (f_max ?q 0)" using q by (auto simp: qty_ok_def rng_def val_f_max fin_f_max)
  have old: "qty_ok (case bt_get m t of None \<Rightarrow> 0 | Some q \<Rightarrow> q)" if "entries_ok m" for m t
    using that by (auto dest: entries_ok_get split: option.splits)
  have "sides_ok (apply_level b now sd l)" using b(5) by (rule apply_level_sides)
  then show ?thesis using b q n old entries_ok_upsert[OF _ to_tick_range, of _ ?q] True
    by (cases sd) (auto simp: book_ok_def apply_level_def Let_def changes_ok_def)
qed (use assms in \<open>auto simp: apply_level_def\<close>)

lemma book_okI: "book_ok b \<Longrightarrow> state_ok st \<Longrightarrow> book_ok (b\<lparr>bk_last_state := st\<rparr>)"
  by (simp add: book_ok_def sides_ok_def)

lemma trim_changes_ok: "book_ok b \<Longrightarrow> book_ok (trim_changes b now w)"
  by (auto simp: book_ok_def trim_changes_def sides_ok_def changes_ok_def dest!: set_dropWhileD)

text \<open>The changes are a timed window of 750 ms.\<close>

interpretation changes: timed_window bc_timestamp bk_changes "\<lambda>b now. trim_changes b now w" "\<lambda>_. w" for w
  by unfold_locales (simp add: trim_changes_def)

interpretation levels: guarded_handler "\<lambda>b. apply_level b now sd" book_ok level_valid for now sd
  by unfold_locales (rule apply_level_ok)

lemma apply_levels_ok:
  "book_ok b \<Longrightarrow> list_all level_valid (bd_bids d) \<Longrightarrow> list_all level_valid (bd_asks d) \<Longrightarrow> book_ok (apply_levels b d)"
  unfolding apply_levels_def Let_def by (intro levels.run_valid)

lemma trade_absorption_rng:
  assumes "v \<noteq> NaN" "qty_ok q"
  shows "rng 0 1 (trade_absorption v q m s)"
proof -
  have "fin (lit 0.01)" "0 < val (lit 0.01)" by (simp_all add: f64_eval)
  then have t: "fin (f_max q (lit 0.01))" "0 < val (f_max q (lit 0.01))"
    using assms(2) f_max_positive[of q "lit 0.01"] by (auto simp: qty_ok_def rngD)
  have "rng 0 1 (f_clamp (v / f_max q (lit 0.01)) 0 1)" using t assms(1) by (intro f_clamp_unit divide_not_nan') auto
  then have "rng 0 1 (f_clamp (v / f_max q (lit 0.01)) 0 1 * lit 0.35)"
    by (intro rng_times_nonneg[of 0 1 _ 0 1]) (auto intro: rng_lit)
  then show ?thesis by (simp add: trade_absorption_def rng_0_1)
qed

lemma book_step_ok [inv_intros]: "book_ok b \<Longrightarrow> update_valid u \<Longrightarrow> book_ok (book_step b u)"
proof (cases u)
  case (TradeUpdate t)
  assume b: "book_ok b" and u: "update_valid u"
  let ?b = "b\<lparr>bk_last_trade_price := te_price t, bk_last_trade_volume := te_volume t\<rparr>"
  have b1: "book_ok ?b" using b by (simp add: book_ok_def sides_ok_def)
  then have st: "state_ok (compute_state ?b (te_timestamp t))" by (rule compute_state_ok)
  have q: "qty_ok (best_ask_qty ?b)" "qty_ok (best_bid_qty ?b)"
    using b1 by (intro best_qty_ok; simp add: book_ok_def)+
  have v: "te_volume t \<noteq> NaN" using u TradeUpdate by (simp add: update_valid_def)
  have "state_ok (st\<lparr>ob_absorption := x\<rparr>)" if "state_ok st" "rng 0 1 x" for st x
    using that by (simp add: state_ok_def)
  then show ?thesis using st b1 q v TradeUpdate
    by (auto simp: book_step_def observe_book_trade_def Let_def intro!: book_okI trade_absorption_rng split: side.splits)
next
  case (BookUpdate d)
  assume b: "book_ok b" and u: "update_valid u"
  let ?b = "trim_changes (apply_levels b d) (bd_timestamp d) 750"
  have "book_ok ?b" using b u BookUpdate by (intro trim_changes_ok apply_levels_ok) (auto simp: update_valid_def)
  then show ?thesis using BookUpdate compute_state_ok[of ?b]
    by (auto simp: book_step_def apply_delta_def Let_def intro!: book_okI)
qed

interpretation book: guarded_handler book_step book_ok update_valid
  by unfold_locales (rule book_step_ok)

lemma book_ok_default: "book_ok order_book_default"
  by (simp add: book_ok_def order_book_default_def sides_ok_def bt_ok_def entries_ok_def changes_ok_def
      state_ok_def order_book_state_default_def rng_def)

section \<open>Properties\<close>

definition ex_delta :: book_delta where
  "ex_delta = \<lparr>bd_timestamp = 1000, bd_bids = [\<lparr>bl_price = Fin 99, bl_quantity = Fin 2\<rparr>],
     bd_asks = [\<lparr>bl_price = Fin 101, bl_quantity = Fin 3\<rparr>]\<rparr>"

definition ex_later_delta :: book_delta where
  "ex_later_delta = \<lparr>bd_timestamp = 1100, bd_bids = [\<lparr>bl_price = Fin 103, bl_quantity = Fin 2\<rparr>],
     bd_asks = [\<lparr>bl_price = Fin 105, bl_quantity = Fin 3\<rparr>]\<rparr>"

definition ex_trade :: trade_event where
  "ex_trade = \<lparr>te_timestamp = 1200, te_price = Fin 101, te_volume = Fin 1, te_side = Buy\<rparr>"

lemma ex_delta_valid: "update_valid (BookUpdate ex_delta)"
  using bound_numeral[of "num.Bit0 num.One"] bound_numeral[of "num.Bit1 num.One"]
  by (simp add: update_valid_def ex_delta_def level_valid_def double_def)

text \<open>C19: Every sequence of valid deltas and trades leaves the book ordered on both sides, with
  positive bounded quantities, and its state with every score in range: imbalances and pressure
  in [-1, 1], spoofing, liquidity pull and absorption in [0, 1], a spread that is not negative
  and at most six liquidity clusters.\<close>
theorem book_invariant:
  "list_all update_valid us \<Longrightarrow> book_ok (foldl book_step order_book_default us)"
  by (rule book.run_valid[OF book_ok_default])

theorem book_invariant_witness:
  "book_ok (foldl book_step order_book_default [BookUpdate ex_delta, BookUpdate ex_delta])"
  by (rule book_invariant) (simp add: ex_delta_valid)

text \<open>C18: A delta refines the plain update of two maps from ticks to quantities: after it each
  side looks up what the levels, applied in order, set or removed, and the reported best bid
  and best ask are the prices of the greatest bid and the least ask tick of those maps.\<close>
theorem delta_refines_levels:
  assumes "sides_ok b"
  shows "let (b', st) = apply_delta b d;
             bids = foldl level_spec (bt_get (bk_bids b)) (bd_bids d);
             asks = foldl level_spec (bt_get (bk_asks b)) (bd_asks d)
         in sides_ok b' \<and> bt_get (bk_bids b') = bids \<and> bt_get (bk_asks b') = asks
            \<and> ob_best_bid st = from_tick (if bids = Map.empty then 0 else Max (dom bids))
            \<and> ob_best_ask st = from_tick (if asks = Map.empty then 0 else Min (dom asks))"
proof -
  let ?b = "apply_levels b d"
  have s: "sides_ok ?b" by (rule apply_levels_sides(1)[OF assms])
  have "best_bid_tick (trim_changes ?b n w) = best_bid_tick ?b" "best_ask_tick (trim_changes ?b n w) = best_ask_tick ?b"
    "sides_ok (trim_changes ?b n w\<lparr>bk_last_state := st\<rparr>)" for n w st
    using s by (simp_all add: trim_changes_def best_bid_tick_def best_ask_tick_def sides_ok_def)
  then show ?thesis using best_ticks[OF s] apply_levels_sides(2,3)[OF assms, of d]
    by (simp add: apply_delta_def Let_def compute_state_def) (simp add: trim_changes_def)
qed

theorem delta_refines_levels_witness:
  "bt_get (bk_bids (fst (apply_delta order_book_default ex_delta))) = foldl level_spec Map.empty (bd_bids ex_delta)"
proof -
  have "sides_ok order_book_default" using book_ok_default by (simp add: book_ok_def)
  from delta_refines_levels[OF this, of ex_delta] show ?thesis
    by (simp add: case_prod_unfold Let_def order_book_default_def bt_get_map_of)
qed

text \<open>A delta never touches a level that it does not name. The feed delivers depth
  snapshots of five levels as deltas, so the levels that left the snapshot stay in the book:
  after two such snapshots of a rising market the best bid lies above the best ask.\<close>
theorem unmentioned_levels_stay:
  assumes "sides_ok b" "\<forall>l \<in> set (bd_bids d). to_tick (bl_price l) \<noteq> t" "\<forall>l \<in> set (bd_asks d). to_tick (bl_price l) \<noteq> u"
  shows "bt_get (bk_bids (fst (apply_delta b d))) t = bt_get (bk_bids b) t
    \<and> bt_get (bk_asks (fst (apply_delta b d))) u = bt_get (bk_asks b) u"
  using assms by (simp add: apply_levels_sides level_spec_other)

lemma ex_ticks: "to_tick (Fin 99) = 9900" "to_tick (Fin 101) = 10100" "to_tick (Fin 103) = 10300" "to_tick (Fin 105) = 10500"
  by (simp_all add: to_tick_def PRICE_SCALE_def f64_eval f_as_i64_def sat_int_def rat_trunc_def rat_round_away_def)

lemmas book_eval = ex_delta_def ex_later_delta_def order_book_default_def apply_levels_def apply_level_def
  upsert_level_def ex_ticks f_epsilon_def

lemma ex_crossed:
  "best_bid_tick (fst (apply_delta (fst (apply_delta order_book_default ex_delta)) ex_later_delta)) = 10300"
  "best_ask_tick (fst (apply_delta (fst (apply_delta order_book_default ex_delta)) ex_later_delta)) = 10100"
  by (simp_all add: best_bid_tick_def best_ask_tick_def book_eval Let_def less_eval)

theorem unmentioned_levels_stay_witness:
  "let b = fst (apply_delta order_book_default ex_delta); b' = fst (apply_delta b ex_later_delta)
   in bt_get (bk_asks b') 10100 = bt_get (bk_asks b) 10100 \<and> best_ask_tick b' < best_bid_tick b'"
proof -
  let ?b = "fst (apply_delta order_book_default ex_delta)"
  have "book_ok (book_step order_book_default (BookUpdate ex_delta))"
    by (intro book_step_ok book_ok_default ex_delta_valid)
  then have "sides_ok ?b" by (simp add: book_ok_def book_step_def)
  moreover have "\<forall>l \<in> set (bd_bids ex_later_delta). to_tick (bl_price l) \<noteq> 0"
    "\<forall>l \<in> set (bd_asks ex_later_delta). to_tick (bl_price l) \<noteq> 10100"
    by (simp_all add: ex_later_delta_def ex_ticks)
  ultimately show ?thesis using unmentioned_levels_stay[of ?b ex_later_delta 0 10100]
    by (simp add: ex_crossed Let_def del: apply_delta_sides)
qed

text \<open>The test of the mid price in the absorption of a trade compares the mid with itself:
  with finite best prices the move is always 0, so absorption is full exactly when the trade
  exceeds 80% of the opposite best quantity and the spread is positive, whatever the book did.\<close>
theorem absorption_ignores_move:
  assumes "fin (mid_price b)"
  shows "ob_absorption (snd (observe_book_trade b t)) =
    (let q = f_max (case te_side t of Buy \<Rightarrow> best_ask_qty b | Sell \<Rightarrow> best_bid_qty b) (lit 0.01);
         spread = book_spread (from_tick (best_bid_tick b)) (from_tick (best_ask_tick b))
     in if q * lit 0.8 < te_volume t \<and> 0 < spread * lit 0.15 then 1
        else f_clamp (te_volume t / q) 0 1 * lit 0.35)"
proof -
  let ?b = "b\<lparr>bk_last_trade_price := te_price t, bk_last_trade_volume := te_volume t\<rparr>"
  have "mid_price ?b = mid_price b" by (simp add: mid_price_def)
  moreover have "f_abs (mid_price b - mid_price b) = 0"
    using assms by (cases "mid_price b") (auto simp: minus_f64_def plus_f64_def mk_def Let_def f_zero_def zero_f64_def)
  ultimately have m: "f_abs (mid_price ?b - mid_price b) = 0" by simp
  have f: "best_ask_qty ?b = best_ask_qty b" "best_bid_qty ?b = best_bid_qty b"
    "best_ask_tick ?b = best_ask_tick b" "best_bid_tick ?b = best_bid_tick b"
    by (simp_all add: best_ask_qty_def best_bid_qty_def best_ask_tick_def best_bid_tick_def)
  show ?thesis
    unfolding observe_book_trade_def Let_def m by (simp add: trade_absorption_def compute_state_def Let_def f split: side.splits)
qed

theorem absorption_ignores_move_witness:
  "ob_absorption (snd (observe_book_trade order_book_default ex_trade)) = f_clamp (Fin 1 / lit 0.01) 0 1 * lit 0.35"
proof -
  have "mid_price order_book_default = 0"
    by (simp add: mid_price_def order_book_default_def order_book_state_default_def midpoint_def f_max_def)
  then have "fin (mid_price order_book_default)" by simp
  from absorption_ignores_move[OF this, of ex_trade] show ?thesis
    by (simp add: ex_trade_def order_book_default_def best_ask_qty_def best_bid_tick_def best_ask_tick_def
        book_spread_def from_tick_def PRICE_SCALE_def f_of_int_def Let_def f64_eval zero_f64_def)
qed

text \<open>The reported spoofing score is positive exactly when some recent level change that more
  than doubled a quantity was followed within 450 ms, at the same tick and side, by a change
  below a quarter of it.\<close>
theorem spoofing_detected:
  "0 < ob_spoofing_score (snd (apply_delta b d)) \<longleftrightarrow>
     (\<exists>add \<in> set (bk_changes (fst (apply_delta b d))). rapid_add (sat_sub (bd_timestamp d) 650) add
       \<and> (\<exists>c \<in> set (bk_changes (fst (apply_delta b d))). removes_add add c))"
  using spoofing_score_facts(2)[of "trim_changes (apply_levels b d) (bd_timestamp d) 750" "bd_timestamp d"]
  by (simp add: apply_delta_def Let_def compute_state_def)

lemma round_away_near: "\<bar>r - of_int t\<bar> < 1 / 2 \<Longrightarrow> rat_round_away r = t"
proof -
  assume r: "\<bar>r - of_int t\<bar> < 1 / 2"
  then have "\<lfloor>r + 1 / 2\<rfloor> = t" "\<lfloor>1 / 2 - r\<rfloor> = - t" unfolding abs_less_iff by (auto intro!: floor_unique)
  then show ?thesis by (simp add: rat_round_away_def)
qed

lemma mk_rnd: "rnd q \<noteq> 0 \<Longrightarrow> \<bar>rnd q\<bar> < huge \<Longrightarrow> mk s q = Fin (rnd q)"
  by (auto simp: mk_def Let_def abs_less_iff)

text \<open>Two roundings move the price of a tick by less than half a tick.\<close>

lemma tick_error:
  assumes "1 \<le> \<bar>x\<bar>" "\<bar>x\<bar> \<le> 2 ^ 50"
  shows "\<bar>rnd (x / 100) - x / 100\<bar> \<le> 1 / 800" "\<bar>rnd (rnd (x / 100) * 100) - x\<bar> \<le> 3 / 8"
proof -
  have s: "(2::rat) powi (- 1022) \<le> 1 / 100" using powi2_mono[of "- 1022" "- 7"] by simp
  have "\<bar>rnd (x / 100) - x / 100\<bar> \<le> 2 ^ 50 / 100 / 2 ^ 53"
    using assms s by (intro rnd_error) (simp_all add: abs_divide)
  then show 1: "\<bar>rnd (x / 100) - x / 100\<bar> \<le> 1 / 800" by simp
  define q where "q = rnd (x / 100) * 100"
  have q: "\<bar>q - x\<bar> \<le> 1 / 8" using 1 unfolding q_def abs_le_iff by linarith
  have "\<bar>q\<bar> \<le> 2 ^ 51" using q assms(2) unfolding abs_le_iff by auto
  then have "\<bar>rnd q - q\<bar> \<le> 2 ^ 51 / 2 ^ 53" using s by (intro rnd_error) simp_all
  then have "\<bar>rnd q - q\<bar> \<le> 1 / 4" by simp
  then show "\<bar>rnd (rnd (x / 100) * 100) - x\<bar> \<le> 3 / 8"
    using q unfolding q_def[symmetric] abs_le_iff by linarith
qed

text \<open>The tick of the price of a tick is that tick, for every tick of at most \<open>2 ^ 50\<close>: the
  conversion of prices to ticks and back loses no level to rounding.\<close>
theorem tick_roundtrip:
  assumes "\<bar>t\<bar> \<le> 2 ^ 50"
  shows "to_tick (from_tick t) = t"
proof (cases "t = 0")
  case True
  then show ?thesis
    by (simp add: to_tick_def from_tick_def PRICE_SCALE_def f_of_int_def f64_eval f_as_i64_def sat_int_def
        rat_trunc_def rat_round_away_def)
next
  case False
  define x :: rat where "x = of_int t"
  define p where "p = rnd (x / 100)"
  define r where "r = rnd (p * 100)"
  have x1: "1 \<le> \<bar>x\<bar>" using False of_int_1_le_iff[of "\<bar>t\<bar>"] unfolding x_def by (simp del: of_int_1_le_iff)
  have "(of_int \<bar>t\<bar> :: rat) \<le> of_int (2 ^ 50)" using assms by (simp only: of_int_le_iff)
  then have x2: "\<bar>x\<bar> \<le> 2 ^ 50" by (simp add: x_def)
  note e = tick_error[OF x1 x2, folded p_def, folded r_def]
  have h: "\<bar>y\<bar> < huge" if "\<bar>y\<bar> \<le> 2 ^ 53" for y using that by (rule big_bound)
  have "\<bar>p\<bar> \<le> 2 ^ 53" "\<bar>r\<bar> \<le> 2 ^ 53" using e x2 unfolding abs_le_iff by auto
  then have p: "p \<noteq> 0" "\<bar>p\<bar> < huge" and r: "r \<noteq> 0" "\<bar>r\<bar> < huge" using e x1 by (auto intro!: h)
  have b: "bound x" unfolding x_def using assms by (intro bound_of_int) simp
  have x: "x \<noteq> 0" using x1 by auto
  have "f_of_int t = Fin x" unfolding f_of_int_def x_def[symmetric] using mk_exact[OF b] x by simp
  then have "from_tick t = Fin p"
    using mk_rnd[of "x / 100"] p by (simp add: from_tick_def PRICE_SCALE_def f64_eval(1) divide_fin lit_exact p_def)
  then have "from_tick t * PRICE_SCALE = Fin r"
    using mk_rnd[of "p * 100"] r by (simp add: PRICE_SCALE_def times_fin lit_exact r_def)
  moreover have "rat_round_away r = t" using e(2) by (intro round_away_near) (simp add: x_def)
  ultimately show ?thesis using False mk_exact[OF b] x assms
    by (simp add: to_tick_def x_def f_as_i64_def sat_int_def rat_trunc_def)
qed

theorem tick_roundtrip_witness: "to_tick (from_tick 6543210) = 6543210"
  by (rule tick_roundtrip) simp

end
