(* ===== verification/Tape.thy ===== *)
theory Tape
  imports Scores Types
begin

text \<open>
  The trade tape (\<open>tape.rs\<close>): the trades of the last \<open>window_ms\<close> and the statistics of them.
  The first section gives the operations, the second shows that the window is the one a filter
  over the whole history would give, and the third bounds the statistics.
\<close>

section \<open>Data and operations\<close>

record tape =
  tp_window_ms :: u64
  tp_trades :: "trade_event list"
  tp_last_state :: tape_state

definition tape_state_default :: tape_state where
  "tape_state_default = \<lparr>ts_buy_volume = 0, ts_sell_volume = 0, ts_delta = 0, ts_trade_frequency = 0,
     ts_volume_burst = 0, ts_exhaustion = 0, ts_continuation = 0, ts_last_price = 0\<rparr>"

definition tape_new :: "u64 \<Rightarrow> tape" where
  "tape_new window_ms = \<lparr>tp_window_ms = window_ms, tp_trades = [], tp_last_state = tape_state_default\<rparr>"

definition side_volume :: "side \<Rightarrow> trade_event list \<Rightarrow> f64" where
  "side_volume side trades = foldl (\<lambda>v t. if te_side t = side then v + te_volume t else v) 0 trades"

definition compute_tape :: "tape \<Rightarrow> tape_state" where
  "compute_tape tp =
     (if tp_trades tp = [] then tape_state_default
      else let first = hd (tp_trades tp); newest = List.last (tp_trades tp);
               elapsed_ms = f_of_word (max (sat_sub (te_timestamp newest) (te_timestamp first)) 1);
               buy_volume = side_volume Buy (tp_trades tp);
               sell_volume = side_volume Sell (tp_trades tp);
               delta = buy_volume - sell_volume;
               trade_frequency = f_of_nat (length (tp_trades tp)) / elapsed_ms * lit 1000;
               mean_volume = (buy_volume + sell_volume) / f_of_nat (max (length (tp_trades tp)) 1);
               volume_burst = f_clamp (te_volume newest / f_max mean_volume f_epsilon) 0 (lit 10);
               price_move = (te_price newest - te_price first) / f_max (te_price first) f_epsilon;
               aggression = f_abs delta / f_max (buy_volume + sell_volume) f_epsilon;
               exhaustion = (if lit 0.65 < aggression \<and> f_abs price_move < lit 0.00008 then aggression else 0);
               continuation = (if feq (f_signum price_move) (f_signum delta) \<and> lit 0.25 < aggression
                               then f_clamp (aggression * f_abs price_move * lit 10000) 0 1 else 0)
           in \<lparr>ts_buy_volume = buy_volume, ts_sell_volume = sell_volume, ts_delta = delta,
               ts_trade_frequency = trade_frequency, ts_volume_burst = volume_burst,
               ts_exhaustion = exhaustion, ts_continuation = continuation, ts_last_price = te_price newest\<rparr>)"

definition trim_tape :: "tape \<Rightarrow> u64 \<Rightarrow> tape" where
  "trim_tape tp now =
     tp\<lparr>tp_trades := dropWhile (\<lambda>t. te_timestamp t < sat_sub now (tp_window_ms tp)) (tp_trades tp)\<rparr>"

definition observe_tape :: "tape \<Rightarrow> trade_event \<Rightarrow> tape \<times> tape_state" where
  "observe_tape tp trade =
     (let tp1 = trim_tape tp (te_timestamp trade);
          tp2 = tp1\<lparr>tp_trades := tp_trades tp1 @ [trade]\<rparr>;
          state = compute_tape tp2
      in (tp2\<lparr>tp_last_state := state\<rparr>, state))"

abbreviation tape_step :: "tape \<Rightarrow> trade_event \<Rightarrow> tape" where
  "tape_step tp trade \<equiv> fst (observe_tape tp trade)"

section \<open>The window\<close>

interpretation tape: timed_window te_timestamp tp_trades trim_tape tp_window_ms
  by unfold_locales (simp add: trim_tape_def)

lemma observe_tape_simps [simp]:
  "tp_trades (tape_step tp t) = tp_trades (trim_tape tp (te_timestamp t)) @ [t]"
  "tp_window_ms (tape_step tp t) = tp_window_ms tp"
  "snd (observe_tape tp t) = compute_tape (tape_step tp t)"
  by (simp_all add: observe_tape_def trim_tape_def compute_tape_def Let_def)

lemma sat_sub_mono: "a \<le> b \<Longrightarrow> sat_sub a w \<le> sat_sub b w" for a b :: "'a::len word"
  by (simp add: word_le_nat_alt unat_sat_sub)

lemma run_window [simp]: "tp_window_ms (foldl tape_step tp ts) = tp_window_ms tp"
  by (induction ts arbitrary: tp) simp_all

lemma window_run:
  assumes "sorted (map te_timestamp (ts @ [t]))"
  shows "tp_trades (foldl tape_step (tape_new w) (ts @ [t])) =
    filter (\<lambda>x. sat_sub (te_timestamp t) w \<le> te_timestamp x) ts @ [t]"
  using assms
proof (induction ts arbitrary: t rule: rev_induct)
  case Nil
  show ?case by (simp add: tape_new_def trim_tape_def)
next
  case (snoc u ts)
  let ?tp = "foldl tape_step (tape_new w) (ts @ [u])"
  let ?in = "\<lambda>t x. sat_sub (te_timestamp t) w \<le> te_timestamp x"
  have win: "tp_window_ms ?tp = w" by (simp only: run_window) (simp add: tape_new_def)
  have IH: "tp_trades ?tp = filter (?in u) ts @ [u]" using snoc.prems by (intro snoc.IH) (simp add: sorted_append)
  have "sorted (map te_timestamp (filter (?in u) ts @ [u]))"
    using snoc.prems by (auto simp: sorted_append sorted_filter)
  then have "tp_trades (trim_tape ?tp (te_timestamp t)) = filter (?in t) (filter (?in u) ts @ [u])"
    using tape.trim_filter[of ?tp "te_timestamp t"] unfolding IH win by simp
  also have "\<dots> = filter (?in t) (ts @ [u])"
    using snoc.prems sat_sub_mono[of "te_timestamp u" "te_timestamp t" w]
    by (auto simp: sorted_append intro!: filter_cong)
  finally show ?case by simp
qed

section \<open>Ranges of the statistics\<close>

definition trade_ok :: "trade_event \<Rightarrow> bool" where
  "trade_ok t \<longleftrightarrow> rng 0 (2 ^ 32) (te_volume t) \<and> fin (te_price t)"

definition tape_scores_ok :: "tape_state \<Rightarrow> bool" where
  "tape_scores_ok st \<longleftrightarrow> rng 0 (2 ^ 53) (ts_buy_volume st) \<and> rng 0 (2 ^ 53) (ts_sell_volume st)
     \<and> 0 \<le> ts_trade_frequency st \<and> rng 0 10 (ts_volume_burst st)
     \<and> rng 0 1 (ts_exhaustion st) \<and> rng 0 1 (ts_continuation st)"

lemma side_volume_sum: "side_volume sd ts = f_sum (map te_volume (filter (\<lambda>t. te_side t = sd) ts))"
proof -
  have "foldl (\<lambda>v t. if te_side t = sd then v + te_volume t else v) a ts =
      foldl (+) a (map te_volume (filter (\<lambda>t. te_side t = sd) ts))" for a
    by (induction ts arbitrary: a) auto
  then show ?thesis by (simp add: side_volume_def f_sum_def)
qed

lemma side_volume_rng:
  assumes "list_all trade_ok ts" "length ts \<le> 2 ^ 19"
  shows "rng 0 (2 ^ 51) (side_volume sd ts)"
proof -
  have "rng 0 (of_int (int (2 ^ 19) * 2 ^ 32)) (side_volume sd ts)"
    unfolding side_volume_sum using assms le_trans[OF length_filter_le]
    by (intro f_sum_rng) (auto simp: list_all_iff trade_ok_def)
  then show ?thesis by simp
qed

text \<open>Aggression: the net volume over the gross volume.\<close>

lemma aggression_rng:
  assumes "rng 0 (2 ^ 51) b" "rng 0 (2 ^ 51) s"
  shows "rng 0 1 (f_abs (b - s) / f_max (b + s) f_epsilon)"
  using diff_sum[OF assms] f_max_eps[of "b + s"] by (intro rng_ratio) auto

lemma f_of_word_pos: "rng 1 (2 ^ 64) (f_of_word (max (w :: u64) 1))"
proof -
  have "1 \<le> unat (max w 1)" by (simp add: max_def word_le_nat_alt not_le)
  then have "of_nat 1 \<le> (of_nat (unat (max w 1)) :: rat)" by (simp only: of_nat_le_iff)
  then have "1 \<le> rnd (of_nat (unat (max w 1)))" by (intro rnd_ge) simp_all
  then show ?thesis using f_of_word_rng[of "max w 1"]
    by (auto simp: rng_def f_of_word_def f_of_nat_def val_mk)
qed

lemma compute_tape_ok:
  assumes "list_all trade_ok (tp_trades tp)" "length (tp_trades tp) \<le> 2 ^ 19"
  shows "tape_scores_ok (compute_tape tp)"
proof (cases "tp_trades tp = []")
  case True
  then show ?thesis by (simp add: compute_tape_def tape_state_default_def tape_scores_ok_def rng_def)
next
  case False
  define t0 where "t0 = hd (tp_trades tp)"
  define t1 where "t1 = List.last (tp_trades tp)"
  define b where "b = side_volume Buy (tp_trades tp)"
  define s where "s = side_volume Sell (tp_trades tp)"
  define n where "n = length (tp_trades tp)"
  define ag where "ag = f_abs (b - s) / f_max (b + s) f_epsilon"
  define pm where "pm = (te_price t1 - te_price t0) / f_max (te_price t0) f_epsilon"
  have t: "trade_ok t0" "trade_ok t1" using False assms(1) by (auto simp: t0_def t1_def list_all_iff)
  have v: "rng 0 (2 ^ 51) b" "rng 0 (2 ^ 51) s"
    using side_volume_rng[OF assms] by (simp_all only: b_def s_def)
  have v': "rng 0 (2 ^ 53) b" "rng 0 (2 ^ 53) s" using v by (auto elim!: rng_weaken)
  have sum: "rng 0 (2 ^ 53) (b + s)" using v bound_of_int[of "2 ^ 53"] by (intro rng_plus[OF v]) auto
  have n: "n \<le> 2 ^ 19" "1 \<le> n" using assms(2) False by (simp_all add: n_def Suc_le_eq)
  then have "(of_nat n :: rat) \<le> of_nat (2 ^ 19)" by (simp only: of_nat_le_iff)
  then have fn: "rng 1 (2 ^ 19) (f_of_nat n)" using f_of_nat_exact[of n] n by (auto simp: rng_def)
  have freq: "0 \<le> f_of_nat n / f_of_word (max w 1) * lit 1000" for w :: u64
  proof -
    have "rng 0 (2 ^ 19) (f_of_nat n / f_of_word (max w 1))"
      using fn by (intro rng_divide_nonneg[OF _ f_of_word_pos]) auto
    moreover have "rng 0 1000 (lit 1000)" by (rule rng_lit) simp_all
    ultimately have "rng 0 (2 ^ 30) (f_of_nat n / f_of_word (max w 1) * lit 1000)"
      by (intro rng_times_nonneg) auto
    then show ?thesis by (simp add: rng_iff_le zero_f64_def)
  qed
  have burst: "rng 0 10 (f_clamp (te_volume t1 / f_max ((b + s) / f_of_nat n) f_epsilon) 0 (lit 10))"
  proof -
    have "rng 0 (2 ^ 53) ((b + s) / f_of_nat n)"
      using bound_of_int[of "2 ^ 53"] by (intro rng_divide_nonneg[OF sum fn]) auto
    then have "fin ((b + s) / f_of_nat n)" by (rule rngD)
    then have "te_volume t1 / f_max ((b + s) / f_of_nat n) f_epsilon \<noteq> NaN"
      using t f_max_eps[of "(b + s) / f_of_nat n"] by (intro divide_not_nan') (auto simp: trade_ok_def dest: rngD)
    from f_clamp_rng[OF this, of 0 "lit 10"] show ?thesis by (simp add: lit_exact)
  qed
  have ag: "rng 0 1 ag" unfolding ag_def by (rule aggression_rng[OF v])
  have "pm \<noteq> NaN" unfolding pm_def using t f_max_eps[of "te_price t0"]
    by (intro divide_not_nan' minus_not_nan) (auto simp: trade_ok_def)
  then have "ag * f_abs pm * lit 10000 \<noteq> NaN" if "lit 0.25 < ag"
  proof -
    have "0 < val ag" using that ag by (simp add: f64_eval(1) lit_exact fin_less_iff rngD)
    then show ?thesis using times_not_nan' \<open>pm \<noteq> NaN\<close> ag by (simp add: lit_exact rngD)
  qed
  then have cont: "rng 0 1 (f_clamp (ag * f_abs pm * lit 10000) 0 1)" if "lit 0.25 < ag"
    using that by (intro f_clamp_unit)
  have "max n 1 = n" using n by simp
  then show ?thesis unfolding compute_tape_def
    using False v' freq burst ag cont
    by (simp add: tape_scores_ok_def Let_def rng_0_1 flip: t0_def t1_def b_def s_def n_def ag_def pm_def)
qed

lemma tape_run_ok:
  assumes "list_all trade_ok ts" "list_all trade_ok (tp_trades tp)"
  shows "list_all trade_ok (tp_trades (foldl tape_step tp ts))
    \<and> length (tp_trades (foldl tape_step tp ts)) \<le> length (tp_trades tp) + length ts"
  using assms
proof (induction ts arbitrary: tp)
  case (Cons t ts)
  have "list_all trade_ok (tp_trades (tape_step tp t))" "length (tp_trades (tape_step tp t)) \<le> length (tp_trades tp) + 1"
    using Cons.prems tape.trim_subset[of tp "te_timestamp t"]
    by (auto simp: list_all_iff trim_tape_def length_dropWhile_le)
  then show ?case using Cons.IH[of "tape_step tp t"] Cons.prems by simp
qed simp

section \<open>Properties\<close>

text \<open>C20: For trades that arrive in time order the tape holds exactly the trades of the history
  that are at most \<open>window_ms\<close> older than the newest one, in order, and its state is
  computed from those: the incremental window equals a filter over the whole history.\<close>
theorem tape_is_filtered_history:
  assumes "sorted (map te_timestamp (ts @ [t]))"
  shows "let tp = foldl tape_step (tape_new w) (ts @ [t])
    in tp_trades tp = filter (\<lambda>x. sat_sub (te_timestamp t) w \<le> te_timestamp x) ts @ [t]
       \<and> tp_last_state tp = compute_tape tp"
  using window_run[OF assms, of w] by (simp add: Let_def observe_tape_def compute_tape_def)

definition ex_trades :: "trade_event list" where
  "ex_trades = [\<lparr>te_timestamp = 1000, te_price = Fin 100, te_volume = Fin 1, te_side = Buy\<rparr>,
     \<lparr>te_timestamp = 1400, te_price = Fin 101, te_volume = Fin 2, te_side = Sell\<rparr>]"

theorem tape_is_filtered_history_witness:
  "map te_timestamp (tp_trades (foldl tape_step (tape_new 500)
     (ex_trades @ [\<lparr>te_timestamp = 1600, te_price = Fin 100, te_volume = Fin 1, te_side = Buy\<rparr>]))) = [1400, 1600]"
proof -
  let ?t = "\<lparr>te_timestamp = 1600, te_price = Fin 100, te_volume = Fin 1, te_side = Buy\<rparr>"
  have "sorted (map te_timestamp (ex_trades @ [?t]))" by (simp add: ex_trades_def)
  from tape_is_filtered_history[OF this, of 500] show ?thesis
    by (simp add: Let_def ex_trades_def sat_sub_def)
qed

text \<open>Every statistic of the tape stays in its range: the volumes are not negative and finite,
  the burst lies in [0, 10], exhaustion and continuation in [0, 1], as long as volumes are at
  most \<open>2 ^ 32\<close> and a window of at most \<open>2 ^ 19\<close> trades is kept.\<close>
theorem tape_scores_bounded:
  assumes "list_all trade_ok ts" "length ts \<le> 2 ^ 19"
  shows "tape_scores_ok (tp_last_state (foldl tape_step (tape_new w) ts))"
proof (cases ts rule: rev_cases)
  case Nil
  then show ?thesis by (simp add: tape_new_def tape_state_default_def tape_scores_ok_def rng_def)
next
  case (snoc us t)
  let ?tp = "foldl tape_step (tape_new w) ts"
  have "tp_last_state ?tp = compute_tape ?tp" by (simp add: snoc observe_tape_def compute_tape_def Let_def)
  moreover have "list_all trade_ok (tp_trades ?tp)" "length (tp_trades ?tp) \<le> 2 ^ 19"
    using tape_run_ok[OF assms(1), of "tape_new w"] assms(2) by (simp_all add: tape_new_def)
  ultimately show ?thesis using compute_tape_ok[of ?tp] by simp
qed

theorem tape_scores_bounded_witness:
  "tape_scores_ok (tp_last_state (foldl tape_step (tape_new 500) ex_trades))"
  by (rule tape_scores_bounded) (simp_all add: ex_trades_def trade_ok_def rng_def)

end
