(* ===== verification/Position.thy ===== *)
theory Position
  imports Ledger Scores Samples
begin

text \<open>
  The position task (\<open>position.rs\<close>): it owns the accounting engine, mirrors its exposure in a
  local position, and turns every scored decision into at most one order intent. Fills and
  decisions are the two kinds of input; a run is any interleaving of them. Metrics and logging
  are left out, and the order channel is taken to stay open.
\<close>

section \<open>Decisions\<close>

definition quote_to_base :: "f64 \<Rightarrow> f64 \<Rightarrow> f64" where
  "quote_to_base quote_size price = quote_size / f_max price f_epsilon"

fun flow_size_factor :: "flow_signal \<Rightarrow> f64" where
  "flow_size_factor StrongContinuation = 1"
| "flow_size_factor WeakContinuation = lit 0.65"
| "flow_size_factor Exhaustion = lit 0.25"
| "flow_size_factor ReversalRisk = 0"

fun context_size_factor :: "regime_kind \<Rightarrow> f64" where
  "context_size_factor LowLiquidity = lit 0.45"
| "context_size_factor HighVolatility = lit 0.70"
| "context_size_factor TrendExpansion = lit 1.20"
| "context_size_factor NewsShock = 0"
| "context_size_factor RegimeNormal = 1"

definition should_force_execution_exit :: "position \<Rightarrow> scored_decision \<Rightarrow> bool" where
  "should_force_execution_exit position signal \<longleftrightarrow>
     is_open position
     \<and> (\<not> sd_trading_enabled signal
        \<or> sd_competition_state signal = Saturated
        \<or> 4 \<le> sd_negative_capture_streak signal
        \<or> sd_edge_capture_mean signal < lit (- 0.05)
        \<or> sd_execution_alpha_mean signal < lit (- 1)
        \<or> lit 0.85 < sd_markout_degradation_score signal)"

definition allow_micro_entry :: "scored_decision \<Rightarrow> bool" where
  "allow_micro_entry signal \<longleftrightarrow>
     sd_trading_enabled signal
     \<and> sd_edge_state signal \<noteq> Invalid
     \<and> fs_signal (sd_flow signal) \<in> {StrongContinuation, WeakContinuation}
     \<and> mt_signal (sd_timing signal) \<in> {Optimal, TimingNeutral}
     \<and> lit 0.42 < fs_continuation_strength (sd_flow signal)
     \<and> lit 0.45 < mt_timing_score (sd_timing signal)"

definition side_sign :: "side \<Rightarrow> f64" where
  "side_sign desired_side = (if desired_side = Buy then 1 else lit (- 1))"

definition can_scale :: "position \<Rightarrow> scored_decision \<Rightarrow> f64 \<Rightarrow> side \<Rightarrow> u32 \<Rightarrow> bool" where
  "can_scale position signal last_score desired_side max_entries \<longleftrightarrow>
     is_open position
     \<and> position_side position = Some desired_side
     \<and> pos_entries position < max_entries
     \<and> last_score < sd_score signal
     \<and> lit 0.45 < sd_confidence signal
     \<and> fs_signal (sd_flow signal) = StrongContinuation
     \<and> mt_signal (sd_timing signal) \<noteq> Missed
     \<and> feq (f_signum (ft_order_flow_delta (sd_features signal))) (side_sign desired_side)
     \<and> feq (f_signum (ft_weighted_imbalance (sd_features signal))) (side_sign desired_side)
     \<and> lit (- 0.0001) \<le> pos_unrealized_pnl position
     \<and> sd_adversarial_risk signal < lit 0.55
     \<and> mc_regime (sd_context signal) \<noteq> NewsShock
     \<and> lit 0.35 < mc_liquidity_score (sd_context signal)"

definition intent_order_type :: "scored_decision \<Rightarrow> bool \<Rightarrow> order_type" where
  "intent_order_type signal reduce_only =
     (if lit 0.62 < sd_urgency signal \<or> reduce_only then MarketOrder else LimitOrder)"

definition intent_execution_mode :: "competition_state \<Rightarrow> order_type \<Rightarrow> execution_mode" where
  "intent_execution_mode competition order_type =
     (case competition of
        CompetitionNormal \<Rightarrow> (if order_type = MarketOrder then Aggressive else Passive)
      | Competitive \<Rightarrow> Passive
      | Saturated \<Rightarrow> Defensive)"

definition make_intent :: "config \<Rightarrow> side \<Rightarrow> f64 \<Rightarrow> bool \<Rightarrow> scored_decision \<Rightarrow> position \<Rightarrow> order_intent" where
  "make_intent cfg side qty reduce_only signal position =
     (let order_type = intent_order_type signal reduce_only
      in \<lparr>oi_request = \<lparr>rq_symbol = cf_symbol cfg, rq_side = side, rq_size = qty,
            rq_price = Some (me_price (sd_market signal)), rq_order_type = order_type,
            rq_post_only = (order_type = LimitOrder \<and> \<not> reduce_only), rq_reduce_only = reduce_only,
            rq_max_slippage_bps = f_max (sd_expected_slippage_bps signal * lit 1.8) (lit 2)\<rparr>,
          oi_reason = sd_decision signal, oi_score = sd_score signal,
          oi_last_price = me_price (sd_market signal), oi_position_before = position,
          oi_timestamp = me_timestamp (sd_market signal), oi_urgency = sd_urgency signal,
          oi_expected_slippage_bps = sd_expected_slippage_bps signal,
          oi_expected_duration_ms = sd_expected_duration_ms signal,
          oi_data_latency_ms = sd_data_latency_ms signal, oi_regime = sd_regime signal,
          oi_context = sd_context signal, oi_flow = sd_flow signal, oi_timing = sd_timing signal,
          oi_edge_state = sd_edge_state signal, oi_edge_regime = sd_edge_regime signal,
          oi_edge_reliability_score = sd_edge_reliability_score signal,
          oi_edge_half_life_samples = sd_edge_half_life_samples signal,
          oi_edge_capture_mean = sd_edge_capture_mean signal,
          oi_negative_capture_streak = sd_negative_capture_streak signal,
          oi_execution_alpha_mean = sd_execution_alpha_mean signal,
          oi_markout_degradation_score = sd_markout_degradation_score signal,
          oi_dynamic_size_multiplier = sd_dynamic_size_multiplier signal,
          oi_competition_state = sd_competition_state signal,
          oi_competition_score = sd_competition_score signal,
          oi_trading_enabled = sd_trading_enabled signal,
          oi_execution_mode = intent_execution_mode (sd_competition_state signal) order_type,
          oi_queue_estimate = queue_estimate_default,
          oi_fill_probability = sd_fill_probability signal, oi_meta = None\<rparr>)"

definition reduce_size :: "config \<Rightarrow> position \<Rightarrow> scored_decision \<Rightarrow> f64" where
  "reduce_size cfg position signal =
     (if lit 0.80 < sd_adversarial_risk signal then f_abs (pos_size position)
      else f_max (f_abs (pos_size position) * lit 0.50)
             (f_min (f_abs (pos_size position)) (quote_to_base (cf_base_order_usd cfg) (me_price (sd_market signal)))))"

definition micro_entry_size :: "config \<Rightarrow> scored_decision \<Rightarrow> f64" where
  "micro_entry_size cfg signal =
     quote_to_base (cf_base_order_usd cfg * sd_dynamic_size_multiplier signal * lit 0.35
       * f_max (sd_confidence signal) (lit 0.35) * context_size_factor (mc_regime (sd_context signal))
       * flow_size_factor (fs_signal (sd_flow signal))) (me_price (sd_market signal))"

definition scale_size :: "config \<Rightarrow> position \<Rightarrow> scored_decision \<Rightarrow> f64" where
  "scale_size cfg position signal =
     (let regime_boost = (if mc_regime (sd_context signal) = TrendExpansion then lit 0.35 else 0);
          entry_multiplier = lit 0.55 + f_of_word (pos_entries position) * lit 0.22
            + sd_confidence signal * lit 0.20 + regime_boost
      in quote_to_base (cf_base_order_usd cfg * entry_multiplier * sd_dynamic_size_multiplier signal)
           (me_price (sd_market signal)))"

text \<open>The early return of \<open>side()?\<close> is the branch \<open>None\<close>.\<close>

definition exit_intent :: "config \<Rightarrow> position \<Rightarrow> scored_decision \<Rightarrow> f64 \<Rightarrow> order_intent option" where
  "exit_intent cfg position signal qty =
     (case position_side position of
        None \<Rightarrow> None
      | Some s \<Rightarrow> Some (make_intent cfg (opposite s) qty True signal position))"

definition decide_order :: "config \<Rightarrow> position \<Rightarrow> scored_decision \<Rightarrow> f64 \<Rightarrow> f64 \<Rightarrow> order_intent option" where
  "decide_order cfg position signal last_score drawdown_pct =
     (if should_force_execution_exit position signal
      then exit_intent cfg position signal (f_abs (pos_size position))
      else if sd_decision signal = ExitD \<and> is_open position
      then exit_intent cfg position signal (reduce_size cfg position signal)
      else case direction_side (sd_direction signal) of
        None \<Rightarrow> None
      | Some side \<Rightarrow>
          (if sd_decision signal = EnterSmall \<and> \<not> is_open position \<and> allow_micro_entry signal
           then Some (make_intent cfg side (micro_entry_size cfg signal) False signal position)
           else if sd_decision signal \<in> {EnterSmall, ScaleIn}
                \<and> can_scale position signal last_score side (cf_max_entries cfg)
           then Some (make_intent cfg side (scale_size cfg position signal) False signal position)
           else if sd_decision signal = ExitD \<and> is_open position
           then exit_intent cfg position signal (f_abs (pos_size position))
           else None))"

section \<open>The task\<close>

record position_task =
  pt_accounting :: accounting_engine
  pt_position :: position
  pt_last_score :: f64
  pt_last_price :: f64

definition position_task_init :: position_task where
  "position_task_init = \<lparr>pt_accounting = accounting_engine_new Fifo, pt_position = position_default,
     pt_last_score = 0, pt_last_price = 0\<rparr>"

definition sync_position :: "position \<Rightarrow> accounting_engine \<Rightarrow> string \<Rightarrow> position" where
  "sync_position position accounting symbol =
     (let exposure = position_exposure_of accounting symbol
      in if f_abs (px_net_quantity exposure) \<le> f_epsilon then position_default
         else position\<lparr>pos_size := px_net_quantity exposure,
           pos_avg_price := px_avg_entry_price exposure,
           pos_entries := of_nat (px_open_lots exposure),
           pos_confidence := f_clamp (lit 0.25 + f_of_nat (px_open_lots exposure) * lit 0.10) (lit 0.25) 1,
           pos_unrealized_pnl := px_unrealized_pnl exposure\<rparr>)"

datatype position_input = FillInput fill_event | SignalInput scored_decision

definition on_position_fill :: "((string \<rightharpoonup> f64) \<Rightarrow> string list) \<Rightarrow> position_task \<Rightarrow> fill_event \<Rightarrow> position_task" where
  "on_position_fill iter s fill =
     (let accounting = fst (apply_fill iter (pt_accounting s) (ledger_entry_of_fill fill));
          accounting' = fst (mark_to_market iter accounting (fe_symbol fill) (f_max (pt_last_price s) (fe_price fill)))
      in s\<lparr>pt_accounting := accounting', pt_position := sync_position (pt_position s) accounting' (fe_symbol fill)\<rparr>)"

definition drawdown_pct :: "config \<Rightarrow> accounting_engine \<Rightarrow> f64" where
  "drawdown_pct cfg accounting =
     f_clamp (f_max (- as_realized_pnl_total (ae_state accounting)) 0 / cf_capital cfg) 0 1"

definition on_position_signal ::
  "((string \<rightharpoonup> f64) \<Rightarrow> string list) \<Rightarrow> config \<Rightarrow> position_task \<Rightarrow> scored_decision \<Rightarrow> position_task \<times> order_intent option" where
  "on_position_signal iter cfg s signal =
     (let price = me_price (sd_market signal);
          accounting = fst (mark_to_market iter (pt_accounting s) (cf_symbol cfg) price);
          position = sync_position (pt_position s) accounting (cf_symbol cfg);
          intent = decide_order cfg position signal (pt_last_score s) (drawdown_pct cfg accounting)
      in (\<lparr>pt_accounting = accounting, pt_position = position, pt_last_score = sd_score signal,
           pt_last_price = price\<rparr>, intent))"

definition position_step ::
  "((string \<rightharpoonup> f64) \<Rightarrow> string list) \<Rightarrow> config \<Rightarrow> position_task \<Rightarrow> position_input \<Rightarrow> position_task \<times> order_intent option" where
  "position_step iter cfg s input = (case input of
     FillInput fill \<Rightarrow> (on_position_fill iter s fill, None)
   | SignalInput signal \<Rightarrow> on_position_signal iter cfg s signal)"

definition position_run ::
  "((string \<rightharpoonup> f64) \<Rightarrow> string list) \<Rightarrow> config \<Rightarrow> position_task \<Rightarrow> position_input list \<Rightarrow> position_task \<times> order_intent option list" where
  "position_run iter cfg = run_task (position_step iter cfg)"

section \<open>The local position mirrors the ledger\<close>

text \<open>Nothing open, or the signed quantity, the number of lots and the side of the open lots.\<close>

definition mirrors :: "position \<Rightarrow> accounting_engine \<Rightarrow> string \<Rightarrow> bool" where
  "mirrors p engine s \<longleftrightarrow> (case lots_of engine s of
     [] \<Rightarrow> p = position_default
   | l # ls \<Rightarrow> is_open p \<and> pos_size p = px_net_quantity (position_exposure_of engine s)
       \<and> pos_entries p = of_nat (length (l # ls)) \<and> position_side p = Some (pl_side l))"

lemma dust_abs: "dust \<le> x \<or> x \<le> - dust \<Longrightarrow> f_epsilon < f_abs x"
  by (cases x) (auto simp: dust_eq f_epsilon_def less_f64_def)

lemma dust_side: "dust \<le> x \<Longrightarrow> 0 < x" "x \<le> - dust \<Longrightarrow> x < 0"
  by (cases x; auto simp: dust_eq less_f64_def zero_f64_def)+

lemma exposure_lots: "px_open_lots (position_exposure_of engine s) = length (lots_of engine s)"
  by (auto simp: position_exposure_of_def lots_of_def position_exposure_default_def Let_def split: option.splits prod.splits)

lemma sync_mirrors:
  assumes "lots_ok (lots_of engine s)"
  shows "mirrors (sync_position p engine s) engine s"
proof (cases "lots_of engine s")
  case Nil
  then show ?thesis using exposure_sign[OF assms]
    by (simp add: mirrors_def sync_position_def f_epsilon_def zero_f64_def)
next
  case (Cons l ls)
  let ?n = "px_net_quantity (position_exposure_of engine s)"
  have n: "case pl_side l of Buy \<Rightarrow> dust \<le> ?n | Sell \<Rightarrow> ?n \<le> - dust" using exposure_sign[OF assms] Cons by simp
  then have o: "f_epsilon < f_abs ?n" by (intro dust_abs) (simp split: side.splits)
  then have "\<not> f_abs ?n \<le> f_epsilon" by (simp add: less_f64_def)
  moreover have "position_side p' = Some (pl_side l)" if "pos_size p' = ?n" for p'
    using that n dust_side[of ?n] by (auto simp: position_side_def f64_less_not_sym split: side.splits)
  ultimately show ?thesis using o Cons
    by (simp add: mirrors_def sync_position_def Let_def is_open_def exposure_lots)
qed

lemma exposure_double: "double (px_net_quantity (position_exposure_of engine s))"
proof -
  have "double (fst (exposure_loop mark lots (0, 0, 0, 0)))" for mark lots
    by (cases lots rule: rev_cases) (simp_all add: exposure_loop_net)
  then show ?thesis
    by (auto simp: position_exposure_of_def position_exposure_default_def Let_def split: option.splits prod.splits)
      (metis fst_conv)
qed

lemma sync_double: "double (pos_size (sync_position p engine s))"
  by (auto simp: sync_position_def Let_def exposure_double position_default_def)

definition position_task_ok :: "config \<Rightarrow> position_task \<Rightarrow> bool" where
  "position_task_ok cfg s \<longleftrightarrow> ledger_ok (pt_accounting s) \<and> mirrors (pt_position s) (pt_accounting s) (cf_symbol cfg)"

definition own_fill :: "config \<Rightarrow> position_input \<Rightarrow> bool" where
  "own_fill cfg input = (case input of FillInput fill \<Rightarrow> fe_symbol fill = cf_symbol cfg | SignalInput _ \<Rightarrow> True)"

lemma position_step_ok [inv_intros]:
  assumes "position_task_ok cfg s" "own_fill cfg input"
  shows "position_task_ok cfg (fst (position_step iter cfg s input))"
proof (cases input)
  case (FillInput fill)
  let ?e1 = "ledger_step iter (pt_accounting s) (FillOp (ledger_entry_of_fill fill))"
  let ?e2 = "ledger_step iter ?e1 (MarkOp (fe_symbol fill) (f_max (pt_last_price s) (fe_price fill)))"
  have "ledger_ok ?e2" using assms(1) by (intro ledger_step_ok) (simp add: position_task_ok_def)
  then show ?thesis using FillInput assms(2) sync_mirrors[of ?e2 "cf_symbol cfg"]
    by (simp add: position_step_def on_position_fill_def position_task_ok_def ledger_ok_def own_fill_def Let_def)
next
  case (SignalInput signal)
  let ?e = "ledger_step iter (pt_accounting s) (MarkOp (cf_symbol cfg) (me_price (sd_market signal)))"
  have "ledger_ok ?e" using assms(1) by (intro ledger_step_ok) (simp add: position_task_ok_def)
  then show ?thesis using SignalInput sync_mirrors[of ?e "cf_symbol cfg"]
    by (simp add: position_step_def on_position_signal_def position_task_ok_def ledger_ok_def Let_def)
qed

lemma position_init_ok: "position_task_ok cfg position_task_init"
  using ledger_new_ok[of Fifo]
  by (simp add: position_task_ok_def position_task_init_def mirrors_def accounting_engine_new_def
      account_state_default_def lots_of_def)

interpretation position: guarded_handler "\<lambda>s x. fst (position_step iter cfg s x)" "position_task_ok cfg" "own_fill cfg"
  for iter cfg
  by unfold_locales (rule position_step_ok)

section \<open>The intents\<close>

lemma make_intent_simps [simp]:
  "rq_side (oi_request (make_intent cfg sd q r signal p)) = sd"
  "rq_size (oi_request (make_intent cfg sd q r signal p)) = q"
  "rq_reduce_only (oi_request (make_intent cfg sd q r signal p)) = r"
  "oi_position_before (make_intent cfg sd q r signal p) = p"
  "oi_competition_state (make_intent cfg sd q r signal p) = sd_competition_state signal"
  "oi_trading_enabled (make_intent cfg sd q r signal p) = sd_trading_enabled signal"
  by (simp_all add: make_intent_def Let_def)

lemma half_open:
  assumes "is_open p" "double (pos_size p)"
  shows "f_abs (pos_size p) * lit 0.50 \<le> f_abs (pos_size p)" "0 < f_abs (pos_size p) * lit 0.50" "0 < f_abs (pos_size p)"
proof -
  let ?x = "f_abs (pos_size p)"
  have x: "f_epsilon < ?x" "double ?x" using assms by (simp_all add: is_open_def)
  have h: "lit 0.50 = Fin (1 / 2)" by (simp add: f64_eval)
  show "0 < ?x" using x(1) by (cases ?x) (auto simp: f_epsilon_def less_f64_def zero_f64_def)
  have "?x * lit 0.50 \<le> ?x \<and> 0 < ?x * lit 0.50"
  proof (cases "fin ?x")
    case True
    then have v: "1 / 2 ^ 52 < val ?x" using x(1) by (simp add: fin_less_iff)
    then have "?x * lit 0.50 \<le> ?x" using True x(2) less_trans[of 0 "1 / 2 ^ 52" "val ?x"] unfolding h
      by (intro f64_times_le_self) (auto simp: double_def bound_def rng_def)
    moreover have "f_epsilon * Fin (1 / 2) \<le> ?x * Fin (1 / 2)" using True v by (intro times_nonneg_mono) auto
    moreover have "0 < f_epsilon * Fin (1 / 2)" by (simp add: f_epsilon_def zero_f64_def f64_eval)
    ultimately show ?thesis unfolding h by (auto intro: f64_less_le_trans)
  next
    case False
    then have "?x = PInf" using x(1) by (cases ?x) (auto simp: less_f64_def f_epsilon_def)
    then show ?thesis unfolding h by (simp add: times_f64_def less_f64_def zero_f64_def f_inf_def)
  qed
  then show "?x * lit 0.50 \<le> ?x" "0 < ?x * lit 0.50" by auto
qed

lemma reduce_size_bounds:
  assumes "is_open p" "double (pos_size p)"
  shows "0 < reduce_size cfg p signal" "reduce_size cfg p signal \<le> f_abs (pos_size p)"
proof -
  let ?x = "f_abs (pos_size p)" and ?q = "quote_to_base (cf_base_order_usd cfg) (me_price (sd_market signal))"
  note h = half_open[OF assms]
  have n: "?x \<noteq> NaN" using h(3) f64_less_not_nan by blast
  have m: "f_min ?x ?q \<le> ?x" using n by (rule f_min_le)
  have "f_max (?x * lit 0.50) (f_min ?x ?q) \<le> ?x" using f_max_cases[of "?x * lit 0.50" "f_min ?x ?q"] h(1) m by auto
  then show "reduce_size cfg p signal \<le> ?x" using n by (simp add: reduce_size_def)
  have "?x * lit 0.50 \<le> f_max (?x * lit 0.50) (f_min ?x ?q)"
    using h(2) f64_less_not_nan by (intro f_max_ge) blast
  then have "0 < f_max (?x * lit 0.50) (f_min ?x ?q)" using h(2) by (rule f64_less_le_trans[rotated])
  then show "0 < reduce_size cfg p signal" using h(3) by (simp add: reduce_size_def)
qed

lemma exit_intent_Some:
  "exit_intent cfg p signal q = Some i \<longleftrightarrow>
     (\<exists>sd. position_side p = Some sd \<and> i = make_intent cfg (opposite sd) q True signal p)"
  by (auto simp: exit_intent_def split: option.splits)

text \<open>What every emitted intent satisfies, by its kind.\<close>

definition reduces :: "position \<Rightarrow> order_request \<Rightarrow> bool" where
  "reduces p rq \<longleftrightarrow> is_open p \<and> position_side p = Some (opposite (rq_side rq))
     \<and> 0 < rq_size rq \<and> rq_size rq \<le> f_abs (pos_size p)"

definition adds_risk :: "config \<Rightarrow> scored_decision \<Rightarrow> position \<Rightarrow> order_request \<Rightarrow> bool" where
  "adds_risk cfg signal p rq \<longleftrightarrow> sd_trading_enabled signal
     \<and> direction_side (sd_direction signal) = Some (rq_side rq)
     \<and> (if is_open p then position_side p = Some (rq_side rq) \<and> pos_entries p < cf_max_entries cfg
          \<and> sd_competition_state signal \<noteq> Saturated
        else sd_edge_state signal \<noteq> Invalid)"

lemma decide_order_cases:
  assumes "decide_order cfg p signal ls dd = Some i" "double (pos_size p)"
  shows "oi_position_before i = p \<and>
    (if rq_reduce_only (oi_request i) then reduces p (oi_request i) else adds_risk cfg signal p (oi_request i))"
proof -
  have full: "0 < f_abs (pos_size p)" "f_abs (pos_size p) \<le> f_abs (pos_size p)" if "is_open p"
    using half_open(3)[OF that assms(2)] f64_less_not_nan[of 0 "f_abs (pos_size p)"] by auto
  have exit: "oi_position_before i = p \<and> rq_reduce_only (oi_request i) \<and> reduces p (oi_request i)"
    if "exit_intent cfg p signal q = Some i" "is_open p" "0 < q" "q \<le> f_abs (pos_size p)" for q
    using that by (auto simp: exit_intent_Some reduces_def)
  show ?thesis
  proof (cases "should_force_execution_exit p signal")
    case True
    then show ?thesis using assms(1) exit full by (auto simp: decide_order_def should_force_execution_exit_def)
  next
    case no_force: False
    show ?thesis
    proof (cases "sd_decision signal = ExitD \<and> is_open p")
      case True
      then show ?thesis
        using assms(1) no_force exit[of "reduce_size cfg p signal"] reduce_size_bounds[OF _ assms(2)]
        by (simp add: decide_order_def)
    next
      case False
      then obtain sd where sd: "direction_side (sd_direction signal) = Some sd"
        using assms(1) no_force by (auto simp: decide_order_def split: option.splits)
      show ?thesis
        using assms(1) no_force False sd
        by (auto simp: decide_order_def adds_risk_def allow_micro_entry_def can_scale_def
            should_force_execution_exit_def split: if_splits)
    qed
  qed
qed

section \<open>Properties\<close>

text \<open>C22: The local position refines the ledger: after any interleaving of fills of the traded symbol
  and decisions it is the flat default exactly when no lot is open, and otherwise has the
  signed quantity, the side and the number of entries of the open lots.\<close>
theorem position_mirrors_ledger:
  assumes "list_all (own_fill cfg) xs"
  shows "let s = fst (position_run iter cfg position_task_init xs)
    in mirrors (pt_position s) (pt_accounting s) (cf_symbol cfg)"
  using position.run_valid[OF position_init_ok assms, of iter]
  by (simp add: position_run_def run_task_fst position_task_ok_def Let_def)

lemma position_intent_guarded:
  assumes "snd (position_step iter cfg s (SignalInput signal)) = Some i"
  shows "oi_position_before i = pt_position (fst (position_step iter cfg s (SignalInput signal))) \<and>
      (if rq_reduce_only (oi_request i) then reduces (pt_position (fst (position_step iter cfg s (SignalInput signal)))) (oi_request i)
       else adds_risk cfg signal (pt_position (fst (position_step iter cfg s (SignalInput signal)))) (oi_request i))"
proof -
  let ?e = "fst (mark_to_market iter (pt_accounting s) (cf_symbol cfg) (me_price (sd_market signal)))"
  let ?p = "sync_position (pt_position s) ?e (cf_symbol cfg)"
  have "decide_order cfg ?p signal (pt_last_score s) (drawdown_pct cfg ?e) = Some i"
    using assms by (simp add: position_step_def on_position_signal_def Let_def)
  from decide_order_cases[OF this sync_double] show ?thesis
    by (simp add: position_step_def on_position_signal_def Let_def)
qed

text \<open>Every intent of the position task either only reduces: the position is open, the order is on
  the other side, for a positive size of at most the whole position; or it adds risk with
  trading enabled, on the side of the decision and of an open position, below the maximal number
  of entries.\<close>
theorem intents_guarded:
  assumes "snd (position_step iter cfg s (SignalInput signal)) = Some i"
  shows "let p = pt_position (fst (position_step iter cfg s (SignalInput signal)))
    in oi_position_before i = p \<and>
      (if rq_reduce_only (oi_request i) then reduces p (oi_request i) else adds_risk cfg signal p (oi_request i))"
  using position_intent_guarded[OF assms] by (simp add: Let_def)

section \<open>Instances\<close>

definition ex_signal :: scored_decision where
  "ex_signal = \<lparr>sd_market = \<lparr>me_timestamp = 1000, me_price = Fin 100, me_volume = 1, me_side = Buy,
       me_bid_ask_imbalance = 0, me_spread = 0\<rparr>,
     sd_event = EventNeutral, sd_features = features_default, sd_regime = ex_regime, sd_context = ex_context,
     sd_flow = ex_flow, sd_timing = ex_timing, sd_direction = Long, sd_confidence = Fin (1 / 2),
     sd_continuation_prob = Fin (1 / 2), sd_reversal_prob = Fin (1 / 4), sd_score = Fin (3 / 4),
     sd_decision = Ignore, sd_expected_duration_ms = 500, sd_urgency = Fin (1 / 2),
     sd_expected_slippage_bps = 1, sd_data_latency_ms = 10, sd_adversarial_risk = 0,
     sd_edge_state = Valid, sd_edge_regime = Stable, sd_edge_reliability_score = 1,
     sd_edge_half_life_samples = Fin 64, sd_edge_capture_mean = 1, sd_negative_capture_streak = 0,
     sd_execution_alpha_mean = 0, sd_markout_degradation_score = 0, sd_dynamic_size_multiplier = 1,
     sd_competition_state = Saturated, sd_competition_score = 0, sd_trading_enabled = True,
     sd_fill_probability = LowFill\<rparr>"

definition ex_position_fill :: fill_event where
  "ex_position_fill = \<lparr>fe_order_id = ''o'', fe_fill_id = ''f'', fe_symbol = ''BTCUSDT'', fe_side = Buy,
     fe_size = 1, fe_price = Fin 100, fe_requested_price = Fin 100, fe_filled_size = 1, fe_remaining_size = 0,
     fe_liquidity_flag = Taker, fe_fee = 0, fe_fee_asset = ''USDT'', fe_rebate_amount = 0, fe_funding_amount = 0,
     fe_timestamp = 900, fe_latency_us = 0,
     fe_latency_breakdown = \<lparr>lb_decision_latency_us = 0, lb_send_latency_us = 0, lb_ack_latency_us = 0,
       lb_first_fill_latency_us = 0, lb_full_fill_latency_us = 0\<rparr>,
     fe_expected_markout = 0, fe_expected_slippage_bps = 0, fe_actual_slippage_bps = 0,
     fe_competition_flag = FlagNone, fe_queue_estimate = queue_estimate_default, fe_execution_mode = Passive,
     fe_micro_exit = micro_exit_signal_default, fe_markout = markout_snapshot_default, fe_regime = ex_regime,
     fe_complete = True,
     fe_truth = \<lparr>et_request_timestamp = 0, et_send_timestamp = 0, et_ack_timestamp = 0,
       et_exchange_accept_timestamp = 0, et_first_fill_timestamp = 0, et_last_fill_timestamp = 0,
       et_partial_fill_ratio = 1, et_cancel_reason = None, et_reject_reason = None,
       et_spread_at_execution = 0, et_queue_delay_us = 0, et_simulated = True\<rparr>\<rparr>"

lemma ex_own_fill: "list_all (own_fill config_default) [FillInput ex_position_fill, SignalInput ex_signal]"
  by (simp add: own_fill_def ex_position_fill_def config_default_def)

lemma ex_filled_lots:
  "lots_of (fst (apply_fill iter (accounting_engine_new Fifo) (ledger_entry_of_fill ex_position_fill))) ''BTCUSDT'' =
     [new_lot (ledger_entry_of_fill ex_position_fill) 1]"
proof -
  have "f_max 1 0 = (1 :: f64)" by (simp add: f_max_def less_f64_def zero_f64_def one_f64_def)
  then have "fill_result (accounting_engine_new Fifo) (ledger_entry_of_fill ex_position_fill) = ([], 1, 0, [])"
    by (simp add: fill_result_def lots_of_def accounting_engine_new_def account_state_default_def
        ledger_entry_of_fill_def ex_position_fill_def match_loop_done opposite_lot_index_def)
  from apply_fill_effect(1)[OF this] show ?thesis
    by (simp add: ledger_entry_of_fill_def ex_position_fill_def dust_less_1)
qed

text \<open>The position after the sample fill is open and long.\<close>

definition ex_open_task :: "((string \<rightharpoonup> f64) \<Rightarrow> string list) \<Rightarrow> position_task" where
  "ex_open_task iter = fst (position_run iter config_default position_task_init [FillInput ex_position_fill])"

lemma ex_open_lots: "lots_of (pt_accounting (ex_open_task iter)) ''BTCUSDT'' = [new_lot (ledger_entry_of_fill ex_position_fill) 1]"
  by (simp add: ex_open_task_def position_run_def position_step_def on_position_fill_def Let_def
      position_task_init_def ex_filled_lots)

theorem position_mirrors_ledger_witness:
  "is_open (pt_position (ex_open_task ex_iter)) \<and> position_side (pt_position (ex_open_task ex_iter)) = Some Buy
   \<and> pos_entries (pt_position (ex_open_task ex_iter)) = 1"
proof -
  have "list_all (own_fill config_default) [FillInput ex_position_fill]" using ex_own_fill by simp
  from position_mirrors_ledger[OF this, of ex_iter] show ?thesis
    using ex_open_lots[of ex_iter]
    by (simp add: ex_open_task_def mirrors_def config_default_def ledger_entry_of_fill_def ex_position_fill_def Let_def)
qed

lemma ex_open_ok: "position_task_ok config_default (ex_open_task iter)"
  unfolding ex_open_task_def position_run_def run_task_fst
  using ex_own_fill by (intro position.run_valid position_init_ok) simp

text \<open>A saturated market forces the exit of an open position.\<close>

lemma forced_exit:
  assumes "position_task_ok cfg s" "lots_of (pt_accounting s) (cf_symbol cfg) \<noteq> []" "sd_competition_state signal = Saturated"
  shows "\<exists>i. snd (position_step iter cfg s (SignalInput signal)) = Some i \<and> rq_reduce_only (oi_request i)
     \<and> oi_competition_state i = Saturated
     \<and> rq_size (oi_request i) = f_abs (pos_size (pt_position (fst (position_step iter cfg s (SignalInput signal)))))"
proof -
  let ?s = "fst (position_step iter cfg s (SignalInput signal))"
  have "position_task_ok cfg ?s" using assms(1) by (intro position_step_ok) (simp_all add: own_fill_def)
  moreover have "lots_of (pt_accounting ?s) (cf_symbol cfg) \<noteq> []"
    using assms(2) by (simp add: position_step_def on_position_signal_def Let_def)
  ultimately obtain sd where p: "is_open (pt_position ?s)" "position_side (pt_position ?s) = Some sd"
    by (cases "lots_of (pt_accounting ?s) (cf_symbol cfg)") (auto simp: position_task_ok_def mirrors_def)
  then have "should_force_execution_exit (pt_position ?s) signal" using assms(3) by (simp add: should_force_execution_exit_def)
  with p assms(3) show ?thesis
    by (simp add: position_step_def on_position_signal_def Let_def decide_order_def exit_intent_def)
qed

theorem intents_guarded_witness:
  "\<exists>i. snd (position_step ex_iter config_default (ex_open_task ex_iter) (SignalInput ex_signal)) = Some i
     \<and> reduces (oi_position_before i) (oi_request i)"
proof -
  have "lots_of (pt_accounting (ex_open_task ex_iter)) (cf_symbol config_default) \<noteq> []"
    using ex_open_lots[of ex_iter] by (simp add: config_default_def)
  moreover have "sd_competition_state ex_signal = Saturated" by (simp add: ex_signal_def)
  ultimately obtain i where i: "snd (position_step ex_iter config_default (ex_open_task ex_iter) (SignalInput ex_signal)) = Some i"
    "rq_reduce_only (oi_request i)" using forced_exit[OF ex_open_ok] by blast
  from intents_guarded[OF i(1)] i show ?thesis by (auto simp: Let_def)
qed

end
