(* ===== verification/Meta.thy ===== *)
theory Meta
  imports Scores Samples
begin

text \<open>
  The meta engine (\<open>meta_engine.rs\<close>) with the three scores it consults: the scenario simulator
  (\<open>scenario_simulator.rs\<close>), the expected value (\<open>ev_calculator.rs\<close>), the quality of the entry
  (\<open>entry_quality.rs\<close>) and the competition for it (\<open>competition_model.rs\<close>). The task decides for
  every order intent whether it is executed, and remembers what it executed.

  Metrics are left out, the sleep before a confirmation changes nothing that the step reads, and
  the downstream channel is taken to stay open.
\<close>

section \<open>Scenarios and expected value\<close>

fun context_noise :: "regime_kind \<Rightarrow> f64" where
  "context_noise NewsShock = lit 0.45"
| "context_noise LowLiquidity = lit 0.24"
| "context_noise HighVolatility = lit 0.15"
| "context_noise TrendExpansion = lit (- 0.08)"
| "context_noise RegimeNormal = 0"

definition continuation_prob :: "order_intent \<Rightarrow> f64" where
  "continuation_prob intent =
     (let regime_noise = mr_volatility (oi_regime intent) * lit 0.08
            + mr_spread (oi_regime intent) * lit 0.015
            + context_noise (mc_regime (oi_context intent))
            + (1 - mc_stability_score (oi_context intent)) * lit 0.12
      in f_clamp (lit 0.34 + oi_score intent * lit 0.38 + oi_urgency intent * lit 0.10
           - regime_noise - f_of_word (oi_data_latency_ms intent) * lit 0.0004) (lit 0.05) (lit 0.82))"

definition reversal_prob :: "order_intent \<Rightarrow> f64" where
  "reversal_prob intent =
     f_clamp (lit 0.18 + (1 - oi_score intent) * lit 0.28 + mr_volatility (oi_regime intent) * lit 0.06
       + oi_expected_slippage_bps intent * lit 0.012) (lit 0.05) (lit 0.75)"

definition chop_prob :: "order_intent \<Rightarrow> f64" where
  "chop_prob intent = f_clamp (1 - continuation_prob intent - reversal_prob intent) (lit 0.05) (lit 0.75)"

definition prob_total :: "order_intent \<Rightarrow> f64" where
  "prob_total intent = continuation_prob intent + reversal_prob intent + chop_prob intent"

definition simulate :: "order_intent \<Rightarrow> scenario list" where
  "simulate intent =
     (let notional = rq_size (oi_request intent) * oi_last_price intent;
          slippage = oi_expected_slippage_bps intent;
          edge_bps = f_max (oi_score intent - lit 0.5) 0 * lit 18;
          duration_penalty = f_min (f_of_word (oi_expected_duration_ms intent) / lit 1000) (lit 1.5);
          continuation_pnl = notional * (edge_bps - slippage) / lit 10000;
          reversal_loss_bps = f_max (edge_bps * lit 0.70 + slippage * lit 1.8 + lit 4) (lit 2);
          chop_cost_bps = slippage + 1 + duration_penalty;
          scale_multiplier = (if oi_reason intent = ScaleIn then lit 1.25 else 1)
      in [\<lparr>sc_name = ScContinuation, sc_probability = continuation_prob intent / prob_total intent,
           sc_expected_pnl = continuation_pnl * scale_multiplier,
           sc_risk = notional * (slippage + 1) / lit 10000\<rparr>,
          \<lparr>sc_name = ScReversal, sc_probability = reversal_prob intent / prob_total intent,
           sc_expected_pnl = - notional * reversal_loss_bps / lit 10000,
           sc_risk = notional * reversal_loss_bps / lit 10000\<rparr>,
          \<lparr>sc_name = ScChop, sc_probability = chop_prob intent / prob_total intent,
           sc_expected_pnl = - notional * chop_cost_bps / lit 10000,
           sc_risk = notional * chop_cost_bps / lit 10000\<rparr>])"

record ev_result =
  ev_ev :: f64
  ev_adjusted_ev :: f64
  ev_worst_case_loss :: f64

definition calculate :: "scenario list \<Rightarrow> f64 \<Rightarrow> u64 \<Rightarrow> f64 \<Rightarrow> ev_result" where
  "calculate scenarios expected_slippage_bps latency_ms notional =
     (let ev = f_sum (map (\<lambda>s. sc_probability s * sc_expected_pnl s) scenarios);
          worst_case_loss = f_abs (foldl f_min 0 (map (\<lambda>s. sc_expected_pnl s - sc_risk s) scenarios));
          slippage_cost = notional * expected_slippage_bps / lit 10000;
          latency_cost = notional * f_min (f_of_word latency_ms * lit 0.002) (lit 8) / lit 10000
      in \<lparr>ev_ev = ev, ev_adjusted_ev = ev - slippage_cost - latency_cost,
          ev_worst_case_loss = worst_case_loss\<rparr>)"

section \<open>Entry quality and competition\<close>

fun quality_context :: "regime_kind \<Rightarrow> f64" where
  "quality_context TrendExpansion = lit 0.08"
| "quality_context RegimeNormal = 0"
| "quality_context HighVolatility = lit (- 0.06)"
| "quality_context LowLiquidity = lit (- 0.16)"
| "quality_context NewsShock = lit (- 0.45)"

definition entry_quality_score :: "order_intent \<Rightarrow> f64" where
  "entry_quality_score intent =
     (let side_sign = (case rq_side (oi_request intent) of Buy \<Rightarrow> 1 | Sell \<Rightarrow> lit (- 1));
          latency = f_of_word (oi_data_latency_ms intent);
          timing = f_clamp (oi_urgency intent * lit 0.55 + (1 - latency / lit 250) * lit 0.45) 0 1;
          liquidity_support = f_clamp (lit 0.5 + oi_score intent * lit 0.25
            - mr_spread (oi_regime intent) * lit 0.015) 0 1;
          orderflow_alignment = f_clamp (lit 0.5 + side_sign * (oi_score intent - lit 0.5)) 0 1;
          latency_impact = f_clamp (1 - latency / lit 300) 0 1;
          slippage_risk = f_clamp (1 - oi_expected_slippage_bps intent
            / f_max (rq_max_slippage_bps (oi_request intent)) 1) 0 1;
          context_modifier = quality_context (mc_regime (oi_context intent))
            + (mc_liquidity_score (oi_context intent) - lit 0.5) * lit 0.12
            + (mc_stability_score (oi_context intent) - lit 0.5) * lit 0.16
      in f_clamp (lit 0.25 * timing + lit 0.22 * liquidity_support + lit 0.23 * orderflow_alignment
           + lit 0.15 * latency_impact + lit 0.15 * slippage_risk + context_modifier) 0 1)"

fun regime_pressure :: "regime_kind \<Rightarrow> f64" where
  "regime_pressure NewsShock = lit 0.35"
| "regime_pressure TrendExpansion = lit 0.14"
| "regime_pressure HighVolatility = lit 0.10"
| "regime_pressure LowLiquidity = lit 0.18"
| "regime_pressure RegimeNormal = 0"

fun observed_competition :: "competition_state \<Rightarrow> f64" where
  "observed_competition CompetitionNormal = 0"
| "observed_competition Competitive = lit 0.18"
| "observed_competition Saturated = lit 0.40"

definition competition_model_score :: "order_intent \<Rightarrow> f64" where
  "competition_model_score intent =
     (let urgency_crowding = oi_urgency intent * lit 0.32;
          short_duration = f_clamp (1 - f_of_word (oi_expected_duration_ms intent) / lit 800) 0 1 * lit 0.24;
          spread_signal = f_clamp (1 - mr_spread (oi_regime intent) / lit 12) 0 1 * lit 0.18;
          latency = f_clamp (f_of_word (oi_data_latency_ms intent) / lit 250) 0 1 * lit 0.18;
          taker_penalty = (if rq_order_type (oi_request intent) = MarketOrder then lit 0.08 else 0)
      in f_clamp (urgency_crowding + short_duration + spread_signal + latency + taker_penalty
           + regime_pressure (mc_regime (oi_context intent))
           + observed_competition (oi_competition_state intent)
           + oi_competition_score intent * lit 0.35) 0 1)"

section \<open>The decision\<close>

record meta_state =
  ms_recent_executed :: "bool list"
  ms_recent_adjusted_ev :: "f64 list"
  ms_skipped :: u64
  ms_executed :: u64

definition meta_state_default :: meta_state where
  "meta_state_default = \<lparr>ms_recent_executed = [], ms_recent_adjusted_ev = [], ms_skipped = 0, ms_executed = 0\<rparr>"

record thresholds =
  th_ev :: f64
  th_entry_quality :: f64
  th_competition :: f64
  th_opportunity_rank :: f64

text \<open>\<open>iter().rev().take(n)\<close>: the most recent \<open>n\<close>, newest first.\<close>

definition recent :: "nat \<Rightarrow> 'a list \<Rightarrow> 'a list" where
  "recent n xs = take n (rev xs)"

fun threshold_regime :: "regime_kind \<Rightarrow> f64" where
  "threshold_regime NewsShock = lit 0.30"
| "threshold_regime LowLiquidity = lit 0.18"
| "threshold_regime HighVolatility = lit 0.12"
| "threshold_regime TrendExpansion = lit (- 0.04)"
| "threshold_regime RegimeNormal = 0"

fun threshold_edge :: "edge_state \<Rightarrow> f64" where
  "threshold_edge Valid = 0"
| "threshold_edge Uncertain = lit 0.08"
| "threshold_edge Invalid = lit 0.20"

fun competition_penalty :: "competition_state \<Rightarrow> f64" where
  "competition_penalty CompetitionNormal = 0"
| "competition_penalty Competitive = lit 0.08"
| "competition_penalty Saturated = lit 0.18"

definition meta_thresholds :: "config \<Rightarrow> meta_state \<Rightarrow> order_intent \<Rightarrow> thresholds" where
  "meta_thresholds cfg state intent =
     (let dd_pressure = (if f_sum (recent 8 (ms_recent_adjusted_ev state)) < 0 then lit 0.10 else 0);
          regime_penalty = threshold_regime (mc_regime (oi_context intent))
            + (if lit 10 < mr_spread (oi_regime intent) \<or> lit 3 < mr_volatility (oi_regime intent) then lit 0.05 else 0)
            + threshold_edge (oi_edge_state intent);
          reliability_penalty = f_clamp (1 - oi_edge_reliability_score intent) 0 1 * lit 0.12;
          penalty = competition_penalty (oi_competition_state intent)
      in \<lparr>th_ev = cf_base_order_usd cfg * lit 0.00015 + dd_pressure + reliability_penalty + penalty,
          th_entry_quality = f_clamp (lit 0.58 + regime_penalty + dd_pressure * lit 0.5 + reliability_penalty + penalty)
            (lit 0.50) (lit 0.92),
          th_competition = f_clamp (lit 0.78 - regime_penalty * lit 0.7 - oi_edge_reliability_score intent * lit 0.08
            - penalty * lit 0.5) (lit 0.35) (lit 0.84),
          th_opportunity_rank = f_clamp (lit 0.52 + regime_penalty + reliability_penalty + penalty)
            (lit 0.45) (lit 0.88)\<rparr>)"

definition opportunity_rank :: "meta_state \<Rightarrow> f64 \<Rightarrow> f64 \<Rightarrow> f64 \<Rightarrow> f64" where
  "opportunity_rank state adjusted_ev entry_quality competition =
     (let pending_quality = foldl f_max 0 (recent 6 (ms_recent_adjusted_ev state));
          relative_ev = (if 0 < pending_quality
            then f_clamp (adjusted_ev / f_max pending_quality (lit (1 / 10 ^ 9))) 0 (lit 1.5) / lit 1.5
            else lit 0.65)
      in f_clamp (lit 0.45 * entry_quality + lit 0.35 * relative_ev + lit 0.20 * (1 - competition)) 0 1)"

definition recent_success_rate :: "meta_state \<Rightarrow> f64" where
  "recent_success_rate state =
     (if ms_recent_executed state = [] then lit 0.50
      else f_of_nat (length (filter (\<lambda>v. v) (ms_recent_executed state))) / f_of_nat (length (ms_recent_executed state)))"

text \<open>The cascade of conditions, on the values computed before it.\<close>

definition meta_verdict ::
  "config \<Rightarrow> meta_state \<Rightarrow> order_intent \<Rightarrow> ev_result \<Rightarrow> f64 \<Rightarrow> f64 \<Rightarrow> f64 \<Rightarrow> thresholds \<Rightarrow> final_decision \<times> string" where
  "meta_verdict cfg state intent ev entry_quality competition_score rank th =
     (if oi_edge_state intent = Invalid then (Skip, ''edge_invalid_halt'')
      else if oi_competition_state intent = Saturated then (Skip, ''competition_saturated'')
      else if mc_regime (oi_context intent) = NewsShock then (Skip, ''news_shock_block'')
      else if mc_regime (oi_context intent) = LowLiquidity \<and> \<not> rq_reduce_only (oi_request intent)
        then (Skip, ''low_liquidity_no_new_risk'')
      else if mc_stability_score (oi_context intent) < lit 0.30 then (Skip, ''unstable_context'')
      else if lit 18 < mr_spread (oi_regime intent) then (Skip, ''spread_too_wide'')
      else if lit 4.2 < mr_volatility (oi_regime intent) \<and> mr_trend_strength (oi_regime intent) < lit 0.8
        then (Skip, ''toxic_volatility'')
      else if recent_success_rate state < lit 0.38 \<and> 12 \<le> length (ms_recent_executed state)
        then (Skip, ''recent_hit_rate_low'')
      else if cf_capital cfg * cf_max_risk_pct cfg * lit 1.4 < ev_worst_case_loss ev
        then (Skip, ''worst_case_too_large'')
      else if oi_edge_state intent = Uncertain \<and> oi_edge_reliability_score intent < lit 0.55
        then (Wait, ''edge_uncertain_degrade'')
      else if oi_competition_state intent = Competitive \<and> th_competition th * lit 0.88 < competition_score
        then (Wait, ''competition_degrade'')
      else if ev_adjusted_ev ev \<le> th_ev th then (Skip, ''negative_or_weak_ev'')
      else if entry_quality \<le> th_entry_quality th then (Skip, ''poor_entry_quality'')
      else if th_competition th \<le> competition_score then (Skip, ''opportunity_consumed'')
      else if rank < th_opportunity_rank th then (Wait, ''rank_wait'')
      else if oi_urgency intent < lit 0.55 \<and> 120 < oi_expected_duration_ms intent then (Wait, ''needs_confirmation'')
      else (Execute, ''edge_validated''))"

definition intent_ev :: "order_intent \<Rightarrow> ev_result" where
  "intent_ev intent = calculate (simulate intent) (oi_expected_slippage_bps intent) (oi_data_latency_ms intent)
     (rq_size (oi_request intent) * oi_last_price intent)"

definition meta_evaluate :: "config \<Rightarrow> meta_state \<Rightarrow> order_intent \<Rightarrow> meta_decision" where
  "meta_evaluate cfg state intent =
     (let ev = intent_ev intent;
          quality = entry_quality_score intent;
          competition = competition_model_score intent;
          rank = opportunity_rank state (ev_adjusted_ev ev) quality competition;
          (decision, reason) = meta_verdict cfg state intent ev quality competition rank
            (meta_thresholds cfg state intent)
      in \<lparr>md_decision = decision, md_scenarios = simulate intent, md_ev = ev_ev ev,
          md_adjusted_ev = ev_adjusted_ev ev, md_worst_case_loss = ev_worst_case_loss ev,
          md_entry_quality = quality, md_competition_score = competition, md_opportunity_rank = rank,
          md_reason = reason\<rparr>)"

section \<open>The task\<close>

definition confirm_window_ms :: "order_intent \<Rightarrow> u64" where
  "confirm_window_ms intent = min (max (oi_expected_duration_ms intent div 8) 3) 35"

definition confirm :: "meta_decision \<Rightarrow> meta_decision \<Rightarrow> meta_decision" where
  "confirm meta refreshed =
     (if md_adjusted_ev refreshed < md_adjusted_ev meta * lit 0.85
         \<or> md_entry_quality refreshed < md_entry_quality meta * lit 0.92
         \<or> md_competition_score meta + lit 0.12 < md_competition_score refreshed
      then refreshed\<lparr>md_decision := Skip, md_reason := ''confirmation_decay''\<rparr>
      else refreshed\<lparr>md_decision := Execute, md_reason := ''confirmed_edge''\<rparr>)"

definition meta_decide :: "config \<Rightarrow> meta_state \<Rightarrow> order_intent \<Rightarrow> meta_decision" where
  "meta_decide cfg state intent =
     (let meta = meta_evaluate cfg state intent
      in if md_decision meta = Wait then confirm meta (meta_evaluate cfg state intent) else meta)"

definition push_64 :: "'a list \<Rightarrow> 'a \<Rightarrow> 'a list" where
  "push_64 q v = (let q1 = q @ [v] in if 64 < length q1 then tl q1 else q1)"

definition meta_observe :: "meta_state \<Rightarrow> meta_decision \<Rightarrow> meta_state" where
  "meta_observe state meta =
     (let s1 = state\<lparr>ms_recent_adjusted_ev := push_64 (ms_recent_adjusted_ev state) (md_adjusted_ev meta)\<rparr>
      in if md_decision meta = Execute
         then s1\<lparr>ms_recent_executed := push_64 (ms_recent_executed s1) (0 < md_adjusted_ev meta)\<rparr>
         else s1)"

text \<open>What becomes of an intent: forwarded with the decision attached, or dropped with its reason.\<close>

datatype meta_outcome = MetaForward order_intent | MetaDrop string

definition meta_step :: "config \<Rightarrow> meta_state \<Rightarrow> order_intent \<Rightarrow> meta_state \<times> meta_outcome" where
  "meta_step cfg state intent =
     (let meta = meta_decide cfg state intent;
          s1 = meta_observe state meta
      in case md_decision meta of
           Execute \<Rightarrow> (s1\<lparr>ms_executed := sat_add (ms_executed s1) 1\<rparr>, MetaForward (intent\<lparr>oi_meta := Some meta\<rparr>))
         | _ \<Rightarrow> (s1\<lparr>ms_skipped := sat_add (ms_skipped s1) 1\<rparr>, MetaDrop (md_reason meta)))"

definition meta_run :: "config \<Rightarrow> meta_state \<Rightarrow> order_intent list \<Rightarrow> meta_state \<times> meta_outcome list" where
  "meta_run cfg = run_task (meta_step cfg)"

section \<open>Facts\<close>

lemma shrink_not_less: "0 \<le> x \<Longrightarrow> double x \<Longrightarrow> rng 0 1 c \<Longrightarrow> \<not> x < x * c"
proof
  assume x: "0 \<le> x" "double x" "rng 0 1 c" "x < x * c"
  then have "x \<noteq> PInf" by (cases "x * c") (auto simp: less_f64_def)
  then have f: "fin x" "0 \<le> val x" using x(1) by (cases x; auto simp: zero_f64_def)+
  then have "x * c \<le> x" using x by (intro f64_times_le_self) (auto simp: double_def bound_def)
  then show False using x(4) by (simp add: less_f64_def)
qed

lemma grow_not_less: "0 \<le> x \<Longrightarrow> double x \<Longrightarrow> fin d \<Longrightarrow> 0 \<le> val d \<Longrightarrow> \<not> x + d < x"
proof
  assume x: "0 \<le> x" "double x" "fin d" "0 \<le> val d" "x + d < x"
  then have "x \<noteq> PInf" using x(3) by (auto simp: plus_f64_def less_f64_def)
  then have "fin x" using x(1) by (cases x) (auto simp: zero_f64_def)
  then have "x \<le> x + d" using x by (intro plus_nonneg_ge)
  then show False using x(5) by (simp add: less_f64_def)
qed

text \<open>The two scores are clamped sums: in [0, 1], or NaN when an input is.\<close>

lemma clamped_score: "double x \<Longrightarrow> double (f_clamp x 0 1) \<and> (rng 0 1 (f_clamp x 0 1) \<or> f_clamp x 0 1 = NaN)"
  using f_clamp_unit[of x] by (cases "x = NaN") auto

lemma meta_scores:
  "double (entry_quality_score i)" "rng 0 1 (entry_quality_score i) \<or> entry_quality_score i = NaN"
  "double (competition_model_score i)" "rng 0 1 (competition_model_score i) \<or> competition_model_score i = NaN"
  "double (ev_adjusted_ev (intent_ev i))"
  unfolding entry_quality_score_def competition_model_score_def Let_def
  using clamped_score by (simp_all add: intent_ev_def calculate_def Let_def)

lemma lit_unit: "0 \<le> q \<Longrightarrow> q \<le> 1 \<Longrightarrow> rng 0 1 (lit q)"
  by (rule rng_lit) simp_all

lemma quality_stable: "\<not> entry_quality_score i < entry_quality_score i * lit 0.92"
proof (cases "entry_quality_score i = NaN")
  case False
  then show ?thesis using meta_scores(1,2)[of i] lit_unit[of "0.92"]
    by (intro shrink_not_less) (auto simp: rng_iff_le zero_f64_def)
qed simp

lemma competition_stable: "\<not> competition_model_score i + lit 0.12 < competition_model_score i"
proof (cases "competition_model_score i = NaN")
  case False
  then show ?thesis using meta_scores(3,4)[of i] lit_unit[of "0.12"]
    by (intro grow_not_less) (auto simp: rng_def fin_le_iff)
qed simp

lemma meta_evaluate_simps [simp]:
  "md_adjusted_ev (meta_evaluate cfg s i) = ev_adjusted_ev (intent_ev i)"
  "md_entry_quality (meta_evaluate cfg s i) = entry_quality_score i"
  "md_competition_score (meta_evaluate cfg s i) = competition_model_score i"
  "md_worst_case_loss (meta_evaluate cfg s i) = ev_worst_case_loss (intent_ev i)"
  "(md_decision (meta_evaluate cfg s i), md_reason (meta_evaluate cfg s i)) =
     meta_verdict cfg s i (intent_ev i) (entry_quality_score i) (competition_model_score i)
       (opportunity_rank s (ev_adjusted_ev (intent_ev i)) (entry_quality_score i) (competition_model_score i))
       (meta_thresholds cfg s i)"
  by (simp_all add: meta_evaluate_def Let_def case_prod_unfold)

lemmas meta_evaluate_decision = meta_evaluate_simps(5)[THEN arg_cong[where f = fst], unfolded fst_conv]

lemma confirm_same:
  "md_decision (confirm (meta_evaluate cfg s i) (meta_evaluate cfg s i)) =
     (if ev_adjusted_ev (intent_ev i) < ev_adjusted_ev (intent_ev i) * lit 0.85 then Skip else Execute)"
  using quality_stable[of i] competition_stable[of i] by (simp add: confirm_def)

lemma meta_decide_fields [simp]:
  "md_adjusted_ev (meta_decide cfg s i) = ev_adjusted_ev (intent_ev i)"
  "md_worst_case_loss (meta_decide cfg s i) = ev_worst_case_loss (intent_ev i)"
  by (auto simp: meta_decide_def confirm_def Let_def)

lemma meta_decide_Wait [simp]: "md_decision (meta_decide cfg s i) \<noteq> Wait"
  by (auto simp: meta_decide_def confirm_def Let_def)

lemma meta_step_forward:
  "snd (meta_step cfg s i) = MetaForward j \<longleftrightarrow>
     md_decision (meta_decide cfg s i) = Execute \<and> j = i\<lparr>oi_meta := Some (meta_decide cfg s i)\<rparr>"
  by (cases "md_decision (meta_decide cfg s i)") (auto simp: meta_step_def Let_def)

text \<open>What no confirmation and no threshold can override.\<close>

definition meta_hard_gates :: "config \<Rightarrow> meta_state \<Rightarrow> order_intent \<Rightarrow> bool" where
  "meta_hard_gates cfg state i \<longleftrightarrow>
     oi_edge_state i \<noteq> Invalid \<and> oi_competition_state i \<noteq> Saturated
     \<and> mc_regime (oi_context i) \<noteq> NewsShock
     \<and> (mc_regime (oi_context i) = LowLiquidity \<longrightarrow> rq_reduce_only (oi_request i))
     \<and> \<not> mc_stability_score (oi_context i) < lit 0.30
     \<and> \<not> lit 18 < mr_spread (oi_regime i)
     \<and> \<not> (lit 4.2 < mr_volatility (oi_regime i) \<and> mr_trend_strength (oi_regime i) < lit 0.8)
     \<and> \<not> (recent_success_rate state < lit 0.38 \<and> 12 \<le> length (ms_recent_executed state))
     \<and> \<not> cf_capital cfg * cf_max_risk_pct cfg * lit 1.4 < ev_worst_case_loss (intent_ev i)"

lemma hard_gates_verdict:
  "fst (meta_verdict cfg s i (intent_ev i) q c r th) \<noteq> Skip \<Longrightarrow> meta_hard_gates cfg s i"
  "meta_hard_gates cfg s i \<Longrightarrow> oi_edge_state i = Uncertain \<Longrightarrow> oi_edge_reliability_score i < lit 0.55 \<Longrightarrow>
     fst (meta_verdict cfg s i (intent_ev i) q c r th) = Wait"
  by (auto simp: meta_verdict_def meta_hard_gates_def split: if_splits)

lemma uncertain_executes:
  assumes "meta_hard_gates cfg s i" "oi_edge_state i = Uncertain" "oi_edge_reliability_score i < lit 0.55"
    "0 \<le> ev_adjusted_ev (intent_ev i)"
  shows "md_decision (meta_decide cfg s i) = Execute"
proof -
  have "md_decision (meta_evaluate cfg s i) = Wait"
    unfolding meta_evaluate_decision by (rule hard_gates_verdict(2)[OF assms(1-3)])
  moreover have "\<not> ev_adjusted_ev (intent_ev i) < ev_adjusted_ev (intent_ev i) * lit 0.85"
    using assms(4) meta_scores(5) lit_unit[of "0.85"] by (intro shrink_not_less) auto
  ultimately show ?thesis by (simp add: meta_decide_def confirm_same Let_def)
qed

text \<open>The windows of 64 entries.\<close>

interpretation recent_64: window push_64 "\<lambda>q. q" 64
proof unfold_locales
  show "push_64 q x = drop (length q + 1 - 64) (q @ [x])" if "length q \<le> 64" for q :: "'a list" and x
    using that by (cases "length q = 64") (cases q; auto simp: push_64_def Let_def drop_Suc)+
qed simp

fun outcome_evs :: "meta_outcome \<Rightarrow> bool list" where
  "outcome_evs (MetaForward j) = [case oi_meta j of Some m \<Rightarrow> 0 < md_adjusted_ev m | None \<Rightarrow> False]"
| "outcome_evs (MetaDrop r) = []"

abbreviation executed_evs :: "meta_outcome list \<Rightarrow> bool list" where
  "executed_evs os \<equiv> concat (map outcome_evs os)"

lemma meta_step_executed:
  "ms_recent_executed (fst (meta_step cfg s i)) = foldl push_64 (ms_recent_executed s) (outcome_evs (snd (meta_step cfg s i)))"
  by (cases "md_decision (meta_decide cfg s i)")
    (auto simp: meta_step_def Let_def meta_observe_def)

lemma meta_run_executed:
  "ms_recent_executed (fst (meta_run cfg s is)) = foldl push_64 (ms_recent_executed s) (executed_evs (snd (meta_run cfg s is)))"
proof (induction "is" arbitrary: s)
  case (Cons i "is")
  then show ?case by (simp add: meta_run_def run_task_Cons meta_step_executed del: run_task.simps)
qed (simp add: meta_run_def)

section \<open>A sample intent\<close>

definition ex_uncertain :: order_intent where
  "ex_uncertain = ex_intent\<lparr>oi_score := 1, oi_edge_state := Uncertain, oi_edge_reliability_score := Fin (1 / 2),
     oi_regime := \<lparr>mr_volatility = 0, mr_spread = 0, mr_trend_strength = 0\<rparr>\<rparr>"

lemmas ex_meta_simps = ex_uncertain_def sample_defs f64_eval f_of_word_def f_of_nat_def zero_f64_def one_f64_def

lemma ex_probs:
  "continuation_prob ex_uncertain = Fin (431219664320725 / 562949953421312)"
  "reversal_prob ex_uncertain = Fin (3458764513820541 / 18014398509481984)"
  by (simp_all add: continuation_prob_def reversal_prob_def Let_def ex_meta_simps)

lemma ex_chop:
  "chop_prob ex_uncertain = Fin (3602879701896397 / 72057594037927936)"
  by (simp add: chop_prob_def ex_probs) (simp add: ex_meta_simps)

lemma ex_total: "prob_total ex_uncertain = Fin (1134907106097365 / 1125899906842624)"
  by (simp add: prob_total_def ex_probs ex_chop) (simp add: ex_meta_simps)

lemma ex_scenarios:
  "simulate ex_uncertain =
     [\<lparr>sc_name = ScContinuation, sc_probability = Fin (1711189144129861 / 2251799813685248),
       sc_expected_pnl = Fin (5764607523034235 / 72057594037927936), sc_risk = Fin (5764607523034235 / 288230376151711744)\<rparr>,
      \<lparr>sc_name = ScReversal, sc_probability = Fin (857828500451523 / 4503599627370496),
       sc_expected_pnl = Fin (-272467777455915 / 2251799813685248), sc_risk = Fin (272467777455915 / 2251799813685248)\<rparr>,
      \<lparr>sc_name = ScChop, sc_probability = Fin (3574285418548013 / 72057594037927936),
       sc_expected_pnl = Fin (-3602879701896397 / 144115188075855872), sc_risk = Fin (3602879701896397 / 144115188075855872)\<rparr>]"
  by (simp add: simulate_def ex_probs ex_chop ex_total Let_def) (simp add: ex_meta_simps)

lemma ex_ev: "intent_ev ex_uncertain = \<lparr>ev_ev = Fin (5261062193269191 / 144115188075855872), ev_adjusted_ev = Fin (3791087274895461 / 144115188075855872),
     ev_worst_case_loss = Fin (272467777455915 / 1125899906842624)\<rparr>"
  by (simp add: intent_ev_def calculate_def ex_scenarios Let_def f_sum_def) (simp add: ex_meta_simps)

lemma ex_threshold: "th_ev (meta_thresholds config_default meta_state_default ex_uncertain) = Fin (2296835809958953 / 36028797018963968)"
  by (simp add: meta_thresholds_def meta_state_default_def recent_def Let_def) (simp add: ex_meta_simps)


lemma ex_hard_gates: "meta_hard_gates config_default meta_state_default ex_uncertain"
proof -
  have "\<not> recent_success_rate meta_state_default < lit 0.38"
    by (simp add: recent_success_rate_def meta_state_default_def) (simp add: f64_eval)
  moreover have "\<not> cf_capital config_default * cf_max_risk_pct config_default * lit 1.4 < ev_worst_case_loss (intent_ev ex_uncertain)"
    by (simp add: ex_ev) (simp add: config_default_def f64_eval)
  ultimately show ?thesis
    by (simp add: meta_hard_gates_def) (simp add: ex_meta_simps)
qed

section \<open>Properties\<close>

text \<open>The confirmation of a waiting intent never confirms anything: the second evaluation sees the
  same intent and the same state, so quality and competition pass whatever they are, and a
  waiting intent is executed unless its expected value is negative.\<close>
theorem confirmation_is_vacuous:
  "md_decision (meta_decide cfg s i) =
     (case md_decision (meta_evaluate cfg s i) of
        Wait \<Rightarrow> if ev_adjusted_ev (intent_ev i) < ev_adjusted_ev (intent_ev i) * lit 0.85 then Skip else Execute
      | d \<Rightarrow> d)"
  by (cases "md_decision (meta_evaluate cfg s i)") (simp_all add: meta_decide_def confirm_same Let_def)

text \<open>C21: An intent the meta engine forwards is the one it received with the decision attached, and it
  passed every hard gate: a valid or uncertain edge, no saturation, no news shock, new risk
  only in a liquid market, a stable context, a bounded spread, no toxic volatility, and a
  worst case within the risk limit.\<close>
theorem meta_gate_safe:
  assumes "snd (meta_step cfg s i) = MetaForward j"
  shows "meta_hard_gates cfg s i \<and> j = i\<lparr>oi_meta := Some (meta_decide cfg s i)\<rparr>"
proof -
  have d: "md_decision (meta_decide cfg s i) = Execute" "j = i\<lparr>oi_meta := Some (meta_decide cfg s i)\<rparr>"
    using assms by (simp_all add: meta_step_forward)
  then have "md_decision (meta_evaluate cfg s i) \<noteq> Skip" by (auto simp: meta_decide_def Let_def)
  then have "meta_hard_gates cfg s i"
    unfolding meta_evaluate_decision by (rule hard_gates_verdict(1))
  then show ?thesis using d(2) by simp
qed

theorem meta_gate_safe_witness:
  "\<exists>j. snd (meta_step config_default meta_state_default ex_uncertain) = MetaForward j
     \<and> meta_hard_gates config_default meta_state_default ex_uncertain"
proof -
  have d: "md_decision (meta_evaluate config_default meta_state_default ex_uncertain) = Wait"
    unfolding meta_evaluate_decision
    by (intro hard_gates_verdict(2) ex_hard_gates) (simp_all add: ex_uncertain_def f64_eval)
  have "\<not> ev_adjusted_ev (intent_ev ex_uncertain) < ev_adjusted_ev (intent_ev ex_uncertain) * lit 0.85"
    by (simp add: ex_ev) (simp add: f64_eval)
  with d have "md_decision (meta_decide config_default meta_state_default ex_uncertain) = Execute"
    by (simp add: meta_decide_def confirm_same Let_def)
  then have "snd (meta_step config_default meta_state_default ex_uncertain) =
      MetaForward (ex_uncertain\<lparr>oi_meta := Some (meta_decide config_default meta_state_default ex_uncertain)\<rparr>)"
    by (simp add: meta_step_forward)
  from this meta_gate_safe[OF this] show ?thesis by blast
qed

text \<open>An uncertain edge of low reliability that passes the hard gates is executed whenever its
  expected value is not negative: the thresholds for expected value, quality, competition and
  rank, which a valid edge has to meet, are never consulted.\<close>
theorem unreliable_edge_skips_thresholds:
  assumes "meta_hard_gates cfg s i" "oi_edge_state i = Uncertain" "oi_edge_reliability_score i < lit 0.55"
    "0 \<le> ev_adjusted_ev (intent_ev i)"
  shows "\<exists>j. snd (meta_step cfg s i) = MetaForward j"
  using uncertain_executes[OF assms] by (simp add: meta_step_forward)

theorem unreliable_edge_skips_thresholds_witness:
  "(\<exists>j. snd (meta_step config_default meta_state_default ex_uncertain) = MetaForward j)
   \<and> ev_adjusted_ev (intent_ev ex_uncertain) < th_ev (meta_thresholds config_default meta_state_default ex_uncertain)"
proof -
  have "0 \<le> ev_adjusted_ev (intent_ev ex_uncertain)" by (simp add: ex_ev zero_f64_def)
  moreover have "oi_edge_state ex_uncertain = Uncertain" "oi_edge_reliability_score ex_uncertain < lit 0.55"
    by (simp_all add: ex_uncertain_def f64_eval)
  ultimately have "\<exists>j. snd (meta_step config_default meta_state_default ex_uncertain) = MetaForward j"
    by (intro unreliable_edge_skips_thresholds ex_hard_gates)
  then show ?thesis by (simp add: ex_ev ex_threshold) (simp add: f64_eval)
qed

text \<open>The success rate behind the \<open>recent_hit_rate_low\<close> gate is computed from predictions only:
  after any run from the initial state the window holds, for the last 64 forwarded intents,
  whether their own expected value was positive when they were forwarded.\<close>
theorem hit_rate_is_predicted:
  "ms_recent_executed (fst (meta_run cfg meta_state_default is)) =
     (let evs = executed_evs (snd (meta_run cfg meta_state_default is)) in drop (length evs - 64) evs)"
  using recent_64.push_all[of "[]" "executed_evs (snd (meta_run cfg meta_state_default is))"]
  by (simp add: meta_run_executed meta_state_default_def Let_def)

end
