(* ===== verification/Pipeline.thy ===== *)
theory Pipeline
  imports Position Risk Meta
begin

text \<open>
  The path of an order through the pipeline (\<open>pipeline.rs\<close>): a scored decision enters the
  position task, its intent goes through the risk gate and then through the meta engine to the
  execution controller. Each stage is the step of its own theory; the channels between them
  keep the order, so a decision is followed through the three stages one after the other.
\<close>

section \<open>The composition\<close>

record order_path =
  op_position :: position_task
  op_risk :: risk_state
  op_meta :: meta_state

definition order_path_init :: order_path where
  "order_path_init = \<lparr>op_position = position_task_init, op_risk = risk_init, op_meta = meta_state_default\<rparr>"

text \<open>What becomes of a decision: no intent, stopped in the risk gate, dropped by the meta engine,
  or delivered to the controller.\<close>

datatype path_outcome = NoIntent | StoppedByRisk risk_outcome | DroppedByMeta string | Delivered order_intent

definition path_signal ::
  "((string \<rightharpoonup> f64) \<Rightarrow> string list) \<Rightarrow> config \<Rightarrow> order_path \<Rightarrow> scored_decision \<Rightarrow> order_path \<times> path_outcome" where
  "path_signal iter cfg s signal =
     (let (position, intent) = position_step iter cfg (op_position s) (SignalInput signal);
          s1 = s\<lparr>op_position := position\<rparr>
      in case intent of
           None \<Rightarrow> (s1, NoIntent)
         | Some i \<Rightarrow>
             (let (risk, outcome) = risk_step cfg (op_risk s1) i;
                  s2 = s1\<lparr>op_risk := risk\<rparr>
              in case outcome of
                   Forwarded j \<Rightarrow>
                     (let (meta, result) = meta_step cfg (op_meta s2) j;
                          s3 = s2\<lparr>op_meta := meta\<rparr>
                      in case result of
                           MetaForward k \<Rightarrow> (s3, Delivered k)
                         | MetaDrop reason \<Rightarrow> (s3, DroppedByMeta reason))
                 | _ \<Rightarrow> (s2, StoppedByRisk outcome)))"

definition path_step ::
  "((string \<rightharpoonup> f64) \<Rightarrow> string list) \<Rightarrow> config \<Rightarrow> order_path \<Rightarrow> position_input \<Rightarrow> order_path \<times> path_outcome" where
  "path_step iter cfg s input = (case input of
     SignalInput signal \<Rightarrow> path_signal iter cfg s signal
   | FillInput fill \<Rightarrow> (s\<lparr>op_position := fst (position_step iter cfg (op_position s) input)\<rparr>, NoIntent))"

section \<open>Properties\<close>

lemma path_delivered:
  assumes "snd (path_signal iter cfg s signal) = Delivered k"
  obtains i where "snd (position_step iter cfg (op_position s) (SignalInput signal)) = Some i"
    "snd (risk_step cfg (op_risk s) i) = Forwarded i" "snd (meta_step cfg (op_meta s) i) = MetaForward k"
proof -
  from assms obtain i j where i: "snd (position_step iter cfg (op_position s) (SignalInput signal)) = Some i"
    "snd (risk_step cfg (op_risk s) i) = Forwarded j" "snd (meta_step cfg (op_meta s) j) = MetaForward k"
    by (auto simp: path_signal_def Let_def split: option.splits risk_outcome.splits meta_outcome.splits prod.splits)
  moreover have "j = i" using i(2) by (auto simp: risk_step_def split: sum.splits if_splits)
  ultimately show ?thesis using that by simp
qed

lemma meta_forward_facts:
  assumes "snd (meta_step cfg m i) = MetaForward k"
  shows "meta_hard_gates cfg m i" "oi_request k = oi_request i" "oi_position_before k = oi_position_before i"
proof -
  have d: "md_decision (meta_decide cfg m i) = Execute" "k = i\<lparr>oi_meta := Some (meta_decide cfg m i)\<rparr>"
    using assms by (simp_all add: meta_step_forward)
  then have "md_decision (meta_evaluate cfg m i) \<noteq> Skip" by (auto simp: meta_decide_def Let_def)
  then show "meta_hard_gates cfg m i" unfolding meta_evaluate_decision by (rule hard_gates_verdict(1))
qed (use assms in \<open>simp_all add: meta_step_forward\<close>)


text \<open>C23: A market that is reported as saturated makes the position task order the exit of the whole
  open position, and the meta engine drops every order while the market is saturated: the
  forced exit never reaches the controller.\<close>
theorem saturated_exit_never_leaves:
  assumes "position_task_ok cfg (op_position s)"
    "lots_of (pt_accounting (op_position s)) (cf_symbol cfg) \<noteq> []" "sd_competition_state signal = Saturated"
  shows "(\<exists>i. snd (position_step iter cfg (op_position s) (SignalInput signal)) = Some i \<and> rq_reduce_only (oi_request i)
       \<and> rq_size (oi_request i) = f_abs (pos_size (oi_position_before i)))
    \<and> (\<forall>k. snd (path_signal iter cfg s signal) \<noteq> Delivered k)"
proof -
  obtain i where i: "snd (position_step iter cfg (op_position s) (SignalInput signal)) = Some i"
    "rq_reduce_only (oi_request i)" "oi_competition_state i = Saturated"
    "rq_size (oi_request i) = f_abs (pos_size (pt_position (fst (position_step iter cfg (op_position s) (SignalInput signal)))))"
    using forced_exit[OF assms] by blast
  have "oi_position_before i = pt_position (fst (position_step iter cfg (op_position s) (SignalInput signal)))"
    using position_intent_guarded[OF i(1)] by simp
  moreover have False if "snd (path_signal iter cfg s signal) = Delivered k" for k
    using path_delivered[OF that] meta_forward_facts(1) i(1,3)
    by (metis meta_hard_gates_def option.inject)
  ultimately show ?thesis using i by auto
qed

definition ex_path :: "((string \<rightharpoonup> f64) \<Rightarrow> string list) \<Rightarrow> order_path" where
  "ex_path iter = order_path_init\<lparr>op_position := ex_open_task iter\<rparr>"

theorem saturated_exit_never_leaves_witness:
  "\<forall>k. snd (path_signal ex_iter config_default (ex_path ex_iter) ex_signal) \<noteq> Delivered k"
proof -
  have "lots_of (pt_accounting (op_position (ex_path ex_iter))) (cf_symbol config_default) \<noteq> []"
    using ex_open_lots[of ex_iter] by (simp add: ex_path_def config_default_def)
  moreover have "sd_competition_state ex_signal = Saturated" by (simp add: ex_signal_def)
  ultimately show ?thesis
    using saturated_exit_never_leaves[of config_default "ex_path ex_iter" ex_signal ex_iter] ex_open_ok[of ex_iter]
    by (simp add: ex_path_def)
qed

text \<open>A first entry that passes all three stages.\<close>

definition ex_entry :: scored_decision where
  "ex_entry = ex_signal\<lparr>sd_decision := EnterSmall, sd_competition_state := CompetitionNormal, sd_score := 1,
     sd_confidence := 1, sd_edge_state := Uncertain, sd_edge_reliability_score := Fin (1 / 2),
     sd_flow := ex_flow\<lparr>fs_signal := StrongContinuation\<rparr>,
     sd_regime := \<lparr>mr_volatility = 0, mr_spread = 0, mr_trend_strength = 0\<rparr>\<rparr>"

definition ex_entry_intent :: order_intent where
  "ex_entry_intent = make_intent config_default Buy (Fin (3152519739159347 / 36028797018963968)) False ex_entry position_default"

lemma ex_entry_fields [simp]:
  "oi_score ex_entry_intent = 1" "oi_urgency ex_entry_intent = Fin (1 / 2)" "oi_data_latency_ms ex_entry_intent = 10"
  "oi_regime ex_entry_intent = \<lparr>mr_volatility = 0, mr_spread = 0, mr_trend_strength = 0\<rparr>"
  "oi_context ex_entry_intent = ex_context" "oi_expected_slippage_bps ex_entry_intent = 1"
  "oi_expected_duration_ms ex_entry_intent = 500" "oi_reason ex_entry_intent = EnterSmall"
  "oi_last_price ex_entry_intent = Fin 100" "rq_size (oi_request ex_entry_intent) = Fin (3152519739159347 / 36028797018963968)"
  "oi_edge_state ex_entry_intent = Uncertain" "oi_edge_reliability_score ex_entry_intent = Fin (1 / 2)"
  "oi_competition_state ex_entry_intent = CompetitionNormal" "\<not> rq_reduce_only (oi_request ex_entry_intent)"
  "rq_max_slippage_bps (oi_request ex_entry_intent) = f_max (1 * lit 1.8) (lit 2)"
  by (simp_all add: ex_entry_intent_def make_intent_def ex_entry_def ex_signal_def Let_def)

lemmas ex_entry_simps = ex_context_def f64_eval f_of_word_def f_of_nat_def zero_f64_def one_f64_def

lemma ex_entry_step:
  "snd (position_step iter config_default position_task_init (SignalInput ex_entry)) = Some ex_entry_intent"
proof -
  let ?e = "fst (mark_to_market iter (accounting_engine_new Fifo) ''BTCUSDT'' (Fin 100))"
  have "position_task_ok config_default (fst (position_step iter config_default position_task_init (SignalInput ex_entry)))"
    by (intro position_step_ok position_init_ok) (simp add: own_fill_def)
  then have p: "sync_position position_default ?e ''BTCUSDT'' = position_default"
    by (simp add: position_step_def on_position_signal_def Let_def position_task_ok_def mirrors_def position_task_init_def
        accounting_engine_new_def account_state_default_def lots_of_def config_default_def ex_entry_def ex_signal_def)
  have size: "micro_entry_size config_default ex_entry = Fin (3152519739159347 / 36028797018963968)"
    by (simp add: micro_entry_size_def quote_to_base_def) (simp add: ex_entry_def ex_signal_def sample_defs ex_entry_simps f_epsilon_def)
  have "allow_micro_entry ex_entry"
    by (simp add: allow_micro_entry_def) (simp add: ex_entry_def ex_signal_def sample_defs ex_entry_simps)
  moreover have "\<not> should_force_execution_exit position_default ex_entry" by (simp add: should_force_execution_exit_def)
  moreover have "cf_symbol config_default = ''BTCUSDT''" "me_price (sd_market ex_entry) = Fin 100"
    "direction_side (sd_direction ex_entry) = Some Buy" "sd_decision ex_entry = EnterSmall"
    by (simp_all add: config_default_def ex_entry_def ex_signal_def)
  ultimately show ?thesis using p size
    by (simp add: position_step_def on_position_signal_def Let_def position_task_init_def decide_order_def ex_entry_intent_def)
qed

lemma ex_entry_risk: "risk_step config_default risk_init ex_entry_intent = (risk_init, Forwarded ex_entry_intent)"
proof -
  have "validate config_default ex_entry_intent 0 False = Inr ()"
    by (simp add: validate_def Let_def config_default_def) (simp add: ex_entry_simps)
  moreover have "\<not> abnormal ex_entry_intent" by (simp add: abnormal_def) (simp add: ex_entry_simps)
  ultimately show ?thesis by (simp add: risk_step_def risk_init_def)
qed

lemma ex_entry_probs:
  "continuation_prob ex_entry_intent = Fin (431219664320725 / 562949953421312)"
  "reversal_prob ex_entry_intent = Fin (3458764513820541 / 18014398509481984)"
  by (simp_all add: continuation_prob_def reversal_prob_def Let_def ex_entry_simps)

lemma ex_entry_chop: "chop_prob ex_entry_intent = Fin (3602879701896397 / 72057594037927936)"
  by (simp add: chop_prob_def ex_entry_probs) (simp add: f64_eval one_f64_def)

lemma ex_entry_total: "prob_total ex_entry_intent = Fin (1134907106097365 / 1125899906842624)"
  by (simp add: prob_total_def ex_entry_probs ex_entry_chop) (simp add: f64_eval)

lemma ex_entry_scenarios:
  "simulate ex_entry_intent =
     [\<lparr>sc_name = ScContinuation, sc_probability = Fin (1711189144129861 / 2251799813685248),
       sc_expected_pnl = Fin (8070450532247929 / 1152921504606846976), sc_risk = Fin (8070450532247929 / 4611686018427387904)\<rparr>,
      \<lparr>sc_name = ScReversal, sc_probability = Fin (857828500451523 / 4503599627370496),
       sc_expected_pnl = Fin (-381454888438281 / 36028797018963968), sc_risk = Fin (381454888438281 / 36028797018963968)\<rparr>,
      \<lparr>sc_name = ScChop, sc_probability = Fin (3574285418548013 / 72057594037927936),
       sc_expected_pnl = Fin (-1261007895663739 / 576460752303423488), sc_risk = Fin (1261007895663739 / 576460752303423488)\<rparr>]"
  by (simp add: simulate_def ex_entry_probs ex_entry_chop ex_entry_total Let_def) (simp add: ex_entry_simps)

lemma ex_entry_ev: "intent_ev ex_entry_intent = \<lparr>ev_ev = Fin (7365487070576867 / 2305843009213693952), ev_adjusted_ev = Fin (5307522184853645 / 2305843009213693952),
     ev_worst_case_loss = Fin (381454888438281 / 18014398509481984)\<rparr>"
  by (simp add: intent_ev_def calculate_def ex_entry_scenarios Let_def f_sum_def) (simp add: ex_entry_simps)

lemma ex_entry_meta:
  "\<exists>k. snd (meta_step config_default meta_state_default ex_entry_intent) = MetaForward k"
proof -
  have "meta_hard_gates config_default meta_state_default ex_entry_intent"
    unfolding meta_hard_gates_def ex_entry_ev
    by (simp add: recent_success_rate_def meta_state_default_def) (simp add: config_default_def ex_entry_simps)
  moreover have "oi_edge_state ex_entry_intent = Uncertain" "oi_edge_reliability_score ex_entry_intent < lit 0.55"
    "0 \<le> ev_adjusted_ev (intent_ev ex_entry_intent)"
    unfolding ex_entry_ev by (simp_all add: ex_entry_simps)
  ultimately have "md_decision (meta_decide config_default meta_state_default ex_entry_intent) = Execute"
    by (rule uncertain_executes)
  then show ?thesis by (simp add: meta_step_forward)
qed


end
