(* ===== verification/Stats.thy ===== *)
theory Stats
  imports "HOL-Library.Product_Lexorder" "HOL-Library.Multiset" Scores
begin

text \<open>
  What the statistics of the accounting modules take from the standard library: the correctly
  rounded square root, the total order of \<open>f64::total_cmp\<close> with the sort it gives, and sums of
  values of arbitrary sign whose magnitude is bounded by a power of two.
\<close>

section \<open>Square root\<close>

fun isqrt :: "nat \<Rightarrow> nat" where
  "isqrt n =
     (if n = 0 then 0 else let r = 2 * isqrt (n div 4) in if (r + 1) * (r + 1) \<le> n then r + 1 else r)"

declare isqrt.simps [simp del]

lemma isqrt_bounds: "isqrt n * isqrt n \<le> n \<and> n < (isqrt n + 1) * (isqrt n + 1)"
proof (induction n rule: isqrt.induct)
  case (1 n)
  show ?case
  proof (cases "n = 0")
    case False
    define r where "r = isqrt (n div 4)"
    have r: "r * r \<le> n div 4" "n div 4 < (r + 1) * (r + 1)" using 1[OF False] by (simp_all add: r_def)
    have "4 * (n div 4) \<le> n" "n < 4 * (n div 4) + 4" by linarith+
    then have "4 * (r * r) \<le> n" "n < 4 * ((r + 1) * (r + 1))" using r by linarith+
    moreover have "isqrt n = (if (2 * r + 1) * (2 * r + 1) \<le> n then 2 * r + 1 else 2 * r)"
      using False by (simp add: isqrt.simps[of n] r_def Let_def)
    ultimately show ?thesis by (auto simp: algebra_simps)
  qed (simp add: isqrt.simps)
qed

text \<open>
  The root of a positive rational to 64 bits; an inexact root is put between two neighbours, so
  that rounding the result to 53 bits is rounding the root itself.
\<close>

definition sqrt_exp :: "rat \<Rightarrow> int" where
  "sqrt_exp q = ilog2 q div 2 - 63"

definition sqrt_rat :: "rat \<Rightarrow> rat" where
  "sqrt_rat q =
     (let e = sqrt_exp q; s = q / 2 powi (2 * e); r = isqrt (nat \<lfloor>s\<rfloor>)
      in (if of_nat (r * r) = s then of_nat r else of_nat r + 1 / 2) * 2 powi e)"

fun f_sqrt :: "f64 \<Rightarrow> f64" where
  "f_sqrt (Fin q) = (if q < 0 then NaN else if q = 0 then 0 else mk False (sqrt_rat q))"
| "f_sqrt NegZero = NegZero"
| "f_sqrt PInf = PInf"
| "f_sqrt NInf = NaN"
| "f_sqrt NaN = NaN"

declare f_sqrt.simps [f64_eval]

lemma sqrt_scaled:
  assumes "0 < q"
  shows "2 powi 126 \<le> q / 2 powi (2 * sqrt_exp q)" "q / 2 powi (2 * sqrt_exp q) < 2 powi 128"
proof -
  define a where "a = ilog2 q div 2"
  have e: "2 * sqrt_exp q = 2 * a - 126" by (simp add: sqrt_exp_def a_def)
  have a: "2 * a \<le> ilog2 q" "ilog2 q \<le> 2 * a + 1" unfolding a_def by linarith+
  have "(2::rat) powi (2 * a) \<le> 2 powi ilog2 q" using a(1) by (rule powi2_mono)
  also have "\<dots> \<le> q" using assms by (rule ilog2_bounds)
  finally have 1: "2 powi (2 * a) \<le> q" .
  have "q < 2 powi (ilog2 q + 1)" using assms by (rule ilog2_bounds)
  also have "\<dots> \<le> 2 powi (2 * a + 2)" using a(2) by (intro powi2_mono) simp
  finally have 2: "q < 2 powi (2 * a + 2)" .
  have "2 powi 126 * 2 powi (2 * a - 126) \<le> q" "q < 2 powi 128 * 2 powi (2 * a - 126)"
    using 1 2 by (simp_all add: powi2_add[symmetric] add.commute del: power_int_numeral)
  then show "2 powi 126 \<le> q / 2 powi (2 * sqrt_exp q)" "q / 2 powi (2 * sqrt_exp q) < 2 powi 128"
    by (simp_all only: e pos_le_divide_eq pos_divide_less_eq powi2_pos)
qed

lemma sqrt_rat_mantissa:
  assumes "0 < q"
  obtains m where "sqrt_rat q = m * 2 powi sqrt_exp q" "2 powi 63 \<le> m" "m < 2 powi 64"
    "\<bar>m * m - q / 2 powi (2 * sqrt_exp q)\<bar> < 2 * m"
proof -
  define s where "s = q / 2 powi (2 * sqrt_exp q)"
  define n where "n = nat \<lfloor>s\<rfloor>"
  define r where "r = isqrt n"
  define m :: rat where "m = (if of_nat (r * r) = s then of_nat r else of_nat r + 1 / 2)"
  have s: "2 ^ 126 \<le> s" "s < 2 ^ 128" using sqrt_scaled[OF assms] by (simp_all add: s_def)
  have "of_nat n = (of_int \<lfloor>s\<rfloor> :: rat)" using s(1) by (simp add: n_def)
  then have n: "of_nat n \<le> s" "s < of_nat n + 1" by linarith+
  have nb: "2 ^ 126 \<le> n" "n < 2 ^ 128"
  proof -
    have "(of_nat n :: rat) < of_nat (2 ^ 128)" using n(1) s(2) by simp
    then show "n < 2 ^ 128" by (simp only: of_nat_less_iff)
    have "(of_nat (2 ^ 126) :: rat) < of_nat (n + 1)" using n(2) s(1) by simp
    then have "2 ^ 126 < n + 1" by (simp only: of_nat_less_iff)
    then show "2 ^ 126 \<le> n" by simp
  qed
  have r: "r * r \<le> n" "n < (r + 1) * (r + 1)" using isqrt_bounds[of n] by (simp_all add: r_def)
  have r1: "2 ^ 63 \<le> r"
  proof (rule ccontr)
    assume "\<not> 2 ^ 63 \<le> r"
    then have "r + 1 \<le> 2 ^ 63" by simp
    then have "(r + 1) * (r + 1) \<le> 2 ^ 63 * 2 ^ 63" by (intro mult_mono) auto
    then show False using r(2) nb(1) by simp
  qed
  have r2: "r + 1 \<le> 2 ^ 64"
  proof (rule ccontr)
    assume "\<not> r + 1 \<le> 2 ^ 64"
    then have "2 ^ 64 * 2 ^ 64 \<le> r * r" by (intro mult_mono) auto
    then show False using r(1) nb(2) by simp
  qed
  have q1: "(2 ^ 63 :: rat) \<le> of_nat r" "of_nat r + 1 \<le> (2 ^ 64 :: rat)"
    using r1 r2 of_nat_le_iff[of "2 ^ 63" r, where 'a = rat] of_nat_le_iff[of "r + 1" "2 ^ 64", where 'a = rat] by simp_all
  have q2: "of_nat r * of_nat r \<le> s" "s < (of_nat r + 1) * (of_nat r + 1)"
  proof -
    have "(of_nat (r * r) :: rat) \<le> of_nat n" using r(1) by (simp only: of_nat_le_iff)
    then show "of_nat r * of_nat r \<le> s" using n(1) by simp
    have "(of_nat (n + 1) :: rat) \<le> of_nat ((r + 1) * (r + 1))" using r(2) by (simp only: of_nat_le_iff)
    then have "of_nat n + 1 \<le> (of_nat r + 1) * (of_nat r + 1 :: rat)" by (simp add: algebra_simps)
    then show "s < (of_nat r + 1) * (of_nat r + 1)" using n(2) by linarith
  qed
  have sq: "sqrt_rat q = m * 2 powi sqrt_exp q"
    by (simp add: sqrt_rat_def Let_def s_def n_def r_def m_def)
  have m: "of_nat r \<le> m" "m < of_nat r + 1" by (auto simp: m_def)
  have "\<bar>m * m - s\<bar> < 2 * m"
  proof (cases "of_nat (r * r) = s")
    case True
    then show ?thesis using q1 m by (simp add: m_def)
  next
    case False
    then have "m = of_nat r + 1 / 2" by (simp add: m_def)
    then have "m * m = of_nat r * of_nat r + of_nat r + 1 / 4" by (simp only:) (simp add: algebra_simps)
    moreover have "(of_nat r + 1) * (of_nat r + 1 :: rat) = of_nat r * of_nat r + 2 * of_nat r + 1"
      by (simp add: algebra_simps)
    moreover have "(1::rat) \<le> of_nat r" using q1(1) by simp
    ultimately show ?thesis using q2 m unfolding abs_less_iff by (intro conjI) linarith+
  qed
  then show ?thesis using that[OF sq] m q1 by (simp add: s_def)
qed


text \<open>The root of a nonnegative value is finite and nonnegative, and positive away from zero.\<close>

lemma sqrt_rat_lower: "0 < q \<Longrightarrow> 2 powi (ilog2 q div 2) \<le> sqrt_rat q"
  and sqrt_rat_upper: "0 < q \<Longrightarrow> sqrt_rat q \<le> 2 powi (ilog2 q div 2 + 1)"
proof -
  assume q: "0 < q"
  from sqrt_rat_mantissa[OF q] obtain m
    where m: "sqrt_rat q = m * 2 powi sqrt_exp q" "2 powi 63 \<le> m" "m < 2 powi 64" by blast
  have "2 powi 63 * 2 powi sqrt_exp q \<le> m * 2 powi sqrt_exp q"
    "m * 2 powi sqrt_exp q \<le> 2 powi 64 * 2 powi sqrt_exp q"
    using m by (intro mult_right_mono; simp)+
  then show "2 powi (ilog2 q div 2) \<le> sqrt_rat q" "sqrt_rat q \<le> 2 powi (ilog2 q div 2 + 1)"
    by (simp_all only: m(1) powi2_add[symmetric] sqrt_exp_def) (simp_all del: power_int_numeral add: add.commute)
qed

lemma f_sqrt_fin:
  assumes "rng 0 (2 ^ (2 * k)) x" "k < 512"
  shows "rng 0 (2 ^ Suc k) (f_sqrt x)"
proof (cases "\<exists>q. x = Fin q \<and> 0 < q")
  case True
  then obtain q where q: "x = Fin q" "0 < q" "q \<le> 2 ^ (2 * k)" using assms by (auto simp: rng_def)
  have "(2::rat) powi ilog2 q \<le> 2 powi int (2 * k)"
    using ilog2_bounds(1)[OF q(2)] q(3) by (simp only: power_int_of_nat order_trans)
  then have "\<not> int (2 * k) < ilog2 q" using powi2_strict_mono[of "int (2 * k)" "ilog2 q"] by linarith
  then have "ilog2 q div 2 + 1 \<le> int (Suc k)" by linarith
  then have "(2::rat) powi (ilog2 q div 2 + 1) \<le> 2 powi int (Suc k)" by (rule powi2_mono)
  then have "sqrt_rat q \<le> 2 ^ Suc k"
    using sqrt_rat_upper[OF q(2)] by (simp only: power_int_of_nat order_trans)
  moreover have "0 \<le> sqrt_rat q" using sqrt_rat_lower[OF q(2)] powi2_pos[of "ilog2 q div 2"] by linarith
  moreover have "bound (2 ^ Suc k)"
    using assms(2) pow_less_huge[of "Suc k"] repr_pow2[of "Suc k"] unfolding bound_def by (simp del: power_Suc)
  ultimately show ?thesis using q by (simp add: rng_mk del: power_Suc)
next
  case False
  then have "x = Fin 0 \<or> x = NegZero" using assms by (cases x) (auto simp: rng_def)
  then show ?thesis by (auto simp: rng_def)
qed

lemma f_sqrt_positive:
  assumes "f_epsilon < x" "rng 0 (2 ^ (2 * k)) x" "k < 512"
  shows "1 / 2 ^ 26 \<le> val (f_sqrt x)"
proof -
  have "fin x" using assms(2) by (rule rngD)
  then obtain q where q: "x = Fin q" "1 / 2 ^ 52 < q"
    using assms(1) by (cases x) (auto simp: f_epsilon_def less_f64_def)
  have "(0::rat) < 1 / 2 ^ 52" by simp
  with q(2) have "0 < q" by (rule less_trans[rotated])
  have p: "(2::rat) powi (- 52) = 1 / 2 ^ 52" "(2::rat) powi (- 26) = 1 / 2 ^ 26"
    by (simp_all add: power_int_minus)
  have "(2::rat) powi (- 52) < 2 powi (ilog2 q + 1)"
    unfolding p using q(2) ilog2_bounds(2)[OF \<open>0 < q\<close>] by (rule less_trans)
  then have "- 52 < ilog2 q + 1" by (rule powi2_less_D)
  then have "- 26 \<le> ilog2 q div 2" by linarith
  then have "(2::rat) powi (- 26) \<le> 2 powi (ilog2 q div 2)" by (rule powi2_mono)
  then have "1 / 2 ^ 26 \<le> sqrt_rat q"
    unfolding p using sqrt_rat_lower[OF \<open>0 < q\<close>] by (rule order_trans)
  then have "1 / 2 ^ 26 \<le> rnd (sqrt_rat q)" using repr_dyadic[of 1 26] by (intro rnd_ge) auto
  moreover have "fin (f_sqrt x)" using f_sqrt_fin[OF assms(2,3)] by (rule rngD)
  ultimately show ?thesis using q \<open>0 < q\<close> by (simp add: val_mk)
qed

lemma f_sqrt_not_nan: "0 \<le> x \<Longrightarrow> f_sqrt x \<noteq> NaN"
  by (cases x) (auto simp: zero_f64_def)

lemmas sqrt_eval = sqrt_rat_def sqrt_exp_def Let_def isqrt.simps

section \<open>The order of \<open>total_cmp\<close>\<close>

text \<open>\<open>-0.0\<close> comes before \<open>0.0\<close>, and NaN (the positive one) after everything else.\<close>

datatype total = Total (of_total: f64)

fun total_key :: "f64 \<Rightarrow> int \<times> rat \<times> int" where
  "total_key NInf = (- 1, 0, 0)"
| "total_key (Fin q) = (0, q, 1)"
| "total_key NegZero = (0, 0, 0)"
| "total_key PInf = (1, 0, 0)"
| "total_key NaN = (2, 0, 0)"

lemma total_key_inj: "total_key x = total_key y \<Longrightarrow> x = y"
  by (cases x; cases y) auto

instantiation total :: linorder
begin

definition less_eq_total :: "total \<Rightarrow> total \<Rightarrow> bool" where
  "less_eq_total x y \<longleftrightarrow> total_key (of_total x) \<le> total_key (of_total y)"

definition less_total :: "total \<Rightarrow> total \<Rightarrow> bool" where
  "less_total x y \<longleftrightarrow> total_key (of_total x) < total_key (of_total y)"

instance
proof
  fix x y z :: total
  show "(x < y) = (x \<le> y \<and> \<not> y \<le> x)" by (auto simp: less_eq_total_def less_total_def)
  show "x \<le> x" by (simp add: less_eq_total_def)
  show "x \<le> y \<Longrightarrow> y \<le> z \<Longrightarrow> x \<le> z" unfolding less_eq_total_def by (rule order_trans)
  show "x \<le> y \<or> y \<le> x" unfolding less_eq_total_def by (rule linear)
  show "x = y" if "x \<le> y" "y \<le> x"
  proof -
    have "total_key (of_total x) = total_key (of_total y)"
      using that unfolding less_eq_total_def by (rule order.antisym)
    then show ?thesis by (intro total.expand total_key_inj)
  qed
qed

end

definition sort_total :: "f64 list \<Rightarrow> f64 list" where
  "sort_total xs = map of_total (sort (map Total xs))"

lemma total_le_numbers: "x \<noteq> NaN \<Longrightarrow> y \<noteq> NaN \<Longrightarrow> Total x \<le> Total y \<Longrightarrow> x \<le> y"
  by (cases x; cases y) (auto simp: less_eq_total_def split: if_splits)

lemma mset_sort_total [simp]: "mset (sort_total xs) = mset xs"
  by (simp add: sort_total_def image_mset.compositionality comp_def)

lemma set_sort_total [simp]: "set (sort_total xs) = set xs"
  by (simp add: sort_total_def image_image)

lemma length_sort_total [simp]: "length (sort_total xs) = length xs"
  by (simp add: sort_total_def)

lemma sort_total_sorted: "NaN \<notin> set xs \<Longrightarrow> sorted_wrt (\<le>) (sort_total xs)"
proof -
  assume n: "NaN \<notin> set xs"
  have "sorted_wrt (\<le>) (sort (map Total xs))" by simp
  then have "sorted_wrt (\<lambda>x y. of_total x \<le> of_total y) (sort (map Total xs))"
  proof (rule sorted_wrt_mono_rel[rotated])
    fix x y assume a: "x \<in> set (sort (map Total xs))" "y \<in> set (sort (map Total xs))" "x \<le> y"
    then have "of_total x \<in> set xs" "of_total y \<in> set xs" by auto
    with a(3) n show "of_total x \<le> of_total y" by (intro total_le_numbers) auto
  qed
  then show ?thesis by (simp add: sort_total_def sorted_wrt_map)
qed

section \<open>Magnitudes\<close>

text \<open>Values of either sign, finite and of absolute value at most a power of two.\<close>

definition mag :: "nat \<Rightarrow> f64 \<Rightarrow> bool" where
  "mag k x \<longleftrightarrow> fin x \<and> \<bar>val x\<bar> \<le> 2 ^ k"

lemma mag_rng: "mag k x = rng (- (2 ^ k)) (2 ^ k) x"
  by (auto simp: mag_def rng_def abs_le_iff)

lemma mag_fin: "mag k x \<Longrightarrow> fin x" and mag_not_nan: "mag k x \<Longrightarrow> x \<noteq> NaN"
  by (auto simp: mag_def)

lemma mag_mono: "mag j x \<Longrightarrow> j \<le> k \<Longrightarrow> mag k x"
  using power_increasing[of j k "2 :: rat"] by (auto simp: mag_def simp del: power_increasing_iff intro: order_trans)

lemma mag_zero [simp]: "mag k 0" and mag_one [simp]: "mag k 1"
  by (simp_all add: mag_def)

lemma mag_mk: "\<bar>q\<bar> \<le> 2 ^ k \<Longrightarrow> k < 1024 \<Longrightarrow> mag k (mk s q)"
  unfolding mag_rng using bound_pow2(1)[of k] by (intro rng_mk) (auto simp: bound_minus abs_le_iff)

lemma mag_plus: "mag k x \<Longrightarrow> mag k y \<Longrightarrow> k < 1023 \<Longrightarrow> mag (Suc k) (x + y)"
proof (cases "x = NegZero \<and> y = NegZero")
  case False
  assume a: "mag k x" "mag k y" "k < 1023"
  then have "\<bar>val x + val y\<bar> \<le> 2 ^ Suc k"
    using abs_triangle_ineq[of "val x" "val y"] by (simp add: mag_def)
  then have "mag (Suc k) (mk s (val x + val y))" for s using a by (intro mag_mk) auto
  then show ?thesis using a False by (auto simp: plus_fin mag_fin)
qed (auto simp: mag_def plus_fin)

lemma mag_uminus [simp]: "mag k (- x) = mag k x"
  by (simp add: mag_def)

lemma mag_minus: "mag k x \<Longrightarrow> mag k y \<Longrightarrow> k < 1023 \<Longrightarrow> mag (Suc k) (x - y)"
  unfolding minus_f64_def by (intro mag_plus) simp_all

lemma mag_times:
  assumes "mag j x" "mag k y" "j + k < 1024"
  shows "mag (j + k) (x * y)"
proof -
  have "\<bar>val x * val y\<bar> \<le> 2 ^ (j + k)"
    unfolding abs_mult power_add using assms by (intro mult_mono) (auto simp: mag_def)
  then show ?thesis using assms by (simp add: times_fin mag_fin mag_mk)
qed

lemma mag_divide:
  assumes "mag k x" "fin y" "1 \<le> val y" "k < 1024"
  shows "mag k (x / y)"
proof -
  have "\<bar>val x\<bar> / val y \<le> \<bar>val x\<bar> / 1" using assms by (intro divide_left_mono) auto
  also have "\<dots> \<le> 2 ^ k" using assms by (simp add: mag_def)
  finally have "\<bar>val x / val y\<bar> \<le> 2 ^ k" using assms by simp
  then show ?thesis using assms by (simp add: divide_fin mag_fin mag_mk)
qed

lemma mag_abs: "mag k x \<Longrightarrow> rng 0 (2 ^ k) (f_abs x)"
  by (auto simp: mag_def rng_def)

lemma mag_select: "mag k x \<Longrightarrow> mag k y \<Longrightarrow> mag k (f_max x y)" "mag k x \<Longrightarrow> mag k y \<Longrightarrow> mag k (f_min x y)"
  using f_max_cases[of x y] f_min_cases[of x y] by auto

lemma repr_scaled: "\<bar>m\<bar> \<le> 2 ^ 53 \<Longrightarrow> repr (of_int m * 2 ^ k)"
  unfolding repr_def by (intro exI[of _ m] exI[of _ "int k"]) simp

text \<open>A sum of at most \<open>2 ^ m\<close> values of magnitude \<open>k\<close> has magnitude \<open>k + m\<close>.\<close>

lemma foldl_plus_mag:
  assumes "fin a" "\<bar>val a\<bar> \<le> of_nat n * 2 ^ k" "\<forall>x \<in> set xs. mag k x"
    "n + length xs \<le> 2 ^ 53" "k < 960"
  shows "fin (foldl (+) a xs) \<and> \<bar>val (foldl (+) a xs)\<bar> \<le> of_nat (n + length xs) * 2 ^ k"
  using assms
proof (induction xs arbitrary: a n)
  case (Cons x xs)
  let ?h = "of_nat (Suc n) * 2 ^ k :: rat"
  have n: "Suc n \<le> 2 ^ 53" using Cons.prems(4) by simp
  have "repr (of_int (int (Suc n)) * 2 ^ k)"
    using n by (intro repr_scaled) (metis abs_of_nat of_nat_le_iff of_nat_numeral of_nat_power)
  then have r: "repr ?h" by simp
  have "(of_nat (Suc n) :: rat) \<le> of_nat (2 ^ 53)" using n by (simp only: of_nat_le_iff)
  then have "?h \<le> 2 ^ 53 * 2 ^ k" by (intro mult_right_mono) auto
  also have "\<dots> = 2 ^ (53 + k)" by (simp only: power_add)
  also have "\<dots> < huge" using Cons.prems(5) by (intro pow_less_huge) simp
  finally have b: "bound ?h" using r by (simp add: bound_def)
  have m: "mag k x" using Cons.prems(3) by simp
  have s: "\<bar>val a + val x\<bar> \<le> ?h"
    using m abs_triangle_ineq[of "val a" "val x"] Cons.prems(2) by (simp add: mag_def algebra_simps)
  have "rng (- ?h) ?h (a + x)"
  proof (cases "a = NegZero \<and> x = NegZero")
    case False
    then have "a + x = mk (val a + val x < 0) (val a + val x)"
      by (simp only: plus_fin[OF Cons.prems(1) mag_fin[OF m]] if_False)
    then show ?thesis using s b by (auto intro!: rng_mk simp: bound_minus abs_le_iff)
  qed (auto simp: plus_fin rng_def)
  then have "fin (a + x)" "\<bar>val (a + x)\<bar> \<le> ?h" by (auto simp: rng_def abs_le_iff)
  from Cons.IH[OF this] Cons.prems show ?case by simp
qed simp

lemma f_sum_mag:
  assumes "\<forall>x \<in> set xs. mag k x" "length xs \<le> 2 ^ m" "m \<le> 53" "k < 960"
  shows "mag (k + m) (f_sum xs)"
proof -
  have "2 ^ m \<le> (2 ^ 53 :: nat)" using assms(3) by (intro power_increasing) auto
  then have "0 + length xs \<le> 2 ^ 53" using assms(2) by (simp only: add_0)
  from foldl_plus_mag[of 0 0 k xs, OF _ _ assms(1) this assms(4)]
  have f: "fin (f_sum xs)" "\<bar>val (f_sum xs)\<bar> \<le> of_nat (length xs) * 2 ^ k"
    by (simp_all add: f_sum_def)
  have "(of_nat (length xs) :: rat) \<le> of_nat (2 ^ m)" using assms(2) by (simp only: of_nat_le_iff)
  then have "of_nat (length xs) * 2 ^ k \<le> (2 ^ m * 2 ^ k :: rat)" by (intro mult_right_mono) auto
  with f(2) have "\<bar>val (f_sum xs)\<bar> \<le> 2 ^ m * 2 ^ k" by (rule order_trans)
  then show ?thesis using f(1) by (simp add: mag_def power_add mult.commute)
qed

lemma f_of_nat_mag: "n \<le> 2 ^ k \<Longrightarrow> k \<le> 53 \<Longrightarrow> mag k (f_of_nat n)"
proof -
  assume n: "n \<le> 2 ^ k" "k \<le> 53"
  have "2 ^ k \<le> (2 ^ 53 :: nat)" using n(2) by (intro power_increasing) auto
  then have "f_of_nat n = Fin (of_nat n)" using n(1) by (intro f_of_nat_exact) linarith
  moreover have "(of_nat n :: rat) \<le> of_nat (2 ^ k)" using n(1) by (simp only: of_nat_le_iff)
  ultimately show "mag k (f_of_nat n)" by (simp add: mag_def)
qed

end
