(* ===== verification/EdgeValidation.thy ===== *)
theory EdgeValidation
  imports Stats Controller
begin

text \<open>
  \<open>accounting/edge_validation.rs\<close>: the engine that decides from the realised markouts whether the
  edge is valid, and how large a position may be.

  The \<open>VecDeque\<close> windows are lists, oldest element first, and their lengths are natural numbers.
  The loop of \<open>ks_statistic\<close> may run forever, so \<open>ks_loop\<close> is a partial function and everything
  that depends on it is an option: \<open>None\<close> is a call that never returns.
\<close>

section \<open>State\<close>

definition NOISE_FLOOR :: f64 where
  "NOISE_FLOOR = lit (1 / 10 ^ 4)"

record edge_snapshot =
  vs_edge_state :: edge_state
  vs_edge_regime :: edge_regime
  vs_competition_state :: competition_state
  vs_t_statistic :: f64
  vs_ks_statistic :: f64
  vs_reliability :: f64
  vs_sharpe_like :: f64
  vs_half_life_samples :: f64
  vs_error_mean :: f64
  vs_error_variance :: f64
  vs_error_skew :: f64
  vs_capture_mean :: f64
  vs_capture_variance :: f64
  vs_negative_capture_streak :: usize
  vs_execution_alpha_mean :: f64
  vs_execution_alpha_variance :: f64
  vs_confidence_low :: f64
  vs_confidence_high :: f64
  vs_competition_score :: f64
  vs_edge_component_mean :: f64
  vs_execution_loss_mean :: f64
  vs_fees_rebates_mean :: f64
  vs_adverse_selection_loss_mean :: f64
  vs_regime_reliability :: f64
  vs_regime_pnl_mean :: f64
  vs_regime_execution_quality :: f64
  vs_sample_count :: nat
  vs_position_size_multiplier :: f64
  vs_trading_enabled :: bool

record regime_memory =
  rm_reliability :: f64
  rm_pnl :: f64
  rm_execution_quality :: f64
  rm_capture :: f64
  rm_sample_count :: usize

definition regime_memory_default :: regime_memory where
  "regime_memory_default =
     \<lparr>rm_reliability = 0, rm_pnl = 0, rm_execution_quality = 0, rm_capture = 0, rm_sample_count = 0\<rparr>"

record edge_engine =
  vl_capacity :: nat
  vl_min_samples :: nat
  vl_expected_edges :: "f64 list"
  vl_realized_markouts :: "f64 list"
  vl_realized_pnls :: "f64 list"
  vl_adjusted_returns :: "f64 list"
  vl_edge_errors :: "f64 list"
  vl_capture_ratios :: "f64 list"
  vl_execution_alphas :: "f64 list"
  vl_fill_rates :: "f64 list"
  vl_slippages :: "f64 list"
  vl_outbid_flags :: "f64 list"
  vl_edge_components :: "f64 list"
  vl_execution_losses :: "f64 list"
  vl_fees_rebates :: "f64 list"
  vl_adverse_losses :: "f64 list"
  vl_competition_states :: "competition_state list"
  vl_negative_capture_streak :: usize
  vl_regime_memory :: "string \<rightharpoonup> regime_memory"
  vl_failure_ema :: f64

definition edge_engine_new :: "nat \<Rightarrow> edge_engine" where
  "edge_engine_new win =
     \<lparr>vl_capacity = max win 32, vl_min_samples = 24, vl_expected_edges = [], vl_realized_markouts = [],
      vl_realized_pnls = [], vl_adjusted_returns = [], vl_edge_errors = [], vl_capture_ratios = [],
      vl_execution_alphas = [], vl_fill_rates = [], vl_slippages = [], vl_outbid_flags = [],
      vl_edge_components = [], vl_execution_losses = [], vl_fees_rebates = [], vl_adverse_losses = [],
      vl_competition_states = [], vl_negative_capture_streak = 0, vl_regime_memory = Map.empty,
      vl_failure_ema = 0\<rparr>"

definition edge_engine_default :: edge_engine where
  "edge_engine_default = edge_engine_new 128"

section \<open>Statistics of a window\<close>

definition edge_ewma :: "f64 \<Rightarrow> f64 \<Rightarrow> f64 \<Rightarrow> f64" where
  "edge_ewma current value alpha = current * (1 - alpha) + value * alpha"

definition filter_noise :: "f64 \<Rightarrow> f64" where
  "filter_noise value = (if f_abs value \<le> NOISE_FLOOR then 0 else value)"

definition mean_of :: "f64 list \<Rightarrow> f64" where
  "mean_of values = (if values = [] then 0 else f_sum values / f_of_nat (length values))"

record moments =
  mo_mean :: f64
  mo_variance :: f64
  mo_skew :: f64

definition central_sums :: "f64 \<Rightarrow> f64 list \<Rightarrow> f64 \<times> f64" where
  "central_sums m values =
     foldl (\<lambda>(m2, m3) v. let delta = v - m in (m2 + delta * delta, m3 + delta * delta * delta)) (0, 0) values"

text \<open>\<open>powi(3)\<close>.\<close>

definition f_cube :: "f64 \<Rightarrow> f64" where
  "f_cube x = x * (x * x)"

definition rolling_moments :: "f64 list \<Rightarrow> moments" where
  "rolling_moments values =
     (if values = [] then \<lparr>mo_mean = 0, mo_variance = 0, mo_skew = 0\<rparr>
      else let n = f_of_nat (length values);
               m = mean_of values;
               (m2, m3) = central_sums m values;
               variance = (if 1 < length values then m2 / (n - 1) else 0);
               skew = (if variance \<le> f_epsilon then 0 else (m3 / n) / f_cube (f_sqrt variance))
           in \<lparr>mo_mean = m, mo_variance = variance, mo_skew = skew\<rparr>)"

definition rolling_sharpe_like :: "f64 list \<Rightarrow> f64" where
  "rolling_sharpe_like values =
     (let ms = rolling_moments values
      in if mo_variance ms \<le> f_epsilon then 0 else mo_mean ms / f_sqrt (mo_variance ms))"

definition one_sample_t_statistic :: "f64 list \<Rightarrow> f64" where
  "one_sample_t_statistic values =
     (let ms = rolling_moments values
      in if length values < 2 then 0
         else if mo_variance ms \<le> f_epsilon
           then (if 0 < mo_mean ms then lit 10 else if mo_mean ms < 0 then lit (- 10) else 0)
         else mo_mean ms / (f_sqrt (mo_variance ms) / f_sqrt (f_of_nat (length values))))"

definition confidence_interval :: "f64 list \<Rightarrow> f64 \<times> f64" where
  "confidence_interval values =
     (let ms = rolling_moments values
      in if values = [] then (0, 0)
         else let margin = lit 1.96 * f_sqrt (mo_variance ms) / f_sqrt (f_of_nat (length values))
              in (mo_mean ms - margin, mo_mean ms + margin))"

definition coefficient_of_variation :: "f64 list \<Rightarrow> f64" where
  "coefficient_of_variation values =
     (let ms = rolling_moments values
      in if f_abs (mo_mean ms) \<le> NOISE_FLOOR then PInf
         else f_sqrt (mo_variance ms) / f_abs (mo_mean ms))"

definition LN_2 :: f64 where
  "LN_2 = lit 0.693147180559945309417232121458"

definition estimate_half_life :: "f64 list \<Rightarrow> f64 list \<Rightarrow> f64" where
  "estimate_half_life expected realized =
     (if expected = [] \<or> realized = [] then 0
      else let ratio = (if NOISE_FLOOR < f_abs (mean_of expected)
                        then f_abs (mean_of realized / mean_of expected) else 0)
           in if ratio \<le> f_epsilon then 0
              else let decay = f_max (1 - f_clamp ratio 0 (lit 0.999)) (lit 0.001)
                   in f_clamp (LN_2 / decay) 1 (f_of_nat (length expected) * lit 2))"

section \<open>The Kolmogorov-Smirnov statistic\<close>

text \<open>The inner loops: pass the values up to \<open>v\<close>.\<close>

definition advance :: "f64 list \<Rightarrow> f64 \<Rightarrow> nat \<Rightarrow> nat" where
  "advance xs v i = i + length (takeWhile (\<lambda>x. x \<le> v) (drop i xs))"

definition cdf_at :: "nat \<Rightarrow> f64 list \<Rightarrow> f64" where
  "cdf_at i xs = f_of_nat i / f_of_nat (length xs)"

partial_function (option) ks_loop :: "f64 list \<Rightarrow> f64 list \<Rightarrow> nat \<Rightarrow> nat \<Rightarrow> f64 \<Rightarrow> f64 option" where
  "ks_loop xs ys i j d =
     (if i < length xs \<and> j < length ys then
        (let v = f_min (xs ! i) (ys ! j);
             i' = advance xs v i;
             j' = advance ys v j
         in ks_loop xs ys i' j' (f_max d (f_abs (cdf_at i' xs - cdf_at j' ys))))
      else Some d)"

definition ks_statistic :: "f64 list \<Rightarrow> f64 list \<Rightarrow> f64 option" where
  "ks_statistic expected realized =
     (if expected = [] \<or> realized = [] then Some 0
      else ks_loop (sort_total expected) (sort_total realized) 0 0 0)"

section \<open>Scores and classification\<close>

definition dynamic_position_size_multiplier :: "f64 \<Rightarrow> edge_state \<Rightarrow> edge_regime \<Rightarrow> f64 \<Rightarrow> f64" where
  "dynamic_position_size_multiplier reliability state regime drawdown_pct =
     (let state_factor = (case state of Valid \<Rightarrow> 1 | Uncertain \<Rightarrow> lit 0.65 | Invalid \<Rightarrow> 0);
          regime_factor = (case regime of Stable \<Rightarrow> 1 | Decaying \<Rightarrow> lit 0.75 | Unstable \<Rightarrow> lit 0.40);
          drawdown_factor = f_clamp (1 - drawdown_pct * lit 1.35) 0 1
      in f_clamp (f_clamp reliability 0 1 * state_factor * regime_factor * drawdown_factor) 0 1)"

definition regime_memory_factor :: "regime_memory \<Rightarrow> f64" where
  "regime_memory_factor m =
     (if 8 \<le> rm_sample_count m
      then f_clamp (lit 0.65 + rm_reliability m * lit 0.20 + rm_execution_quality m * lit 0.10
                    + f_max (rm_capture m) 0 * lit 0.05) (lit 0.35) (lit 1.10)
      else lit 0.85)"

fun competition_factor :: "competition_state \<Rightarrow> f64" where
  "competition_factor CompetitionNormal = 1"
| "competition_factor Competitive = lit 0.65"
| "competition_factor Saturated = 0"

definition position_size_multiplier ::
  "f64 \<Rightarrow> edge_state \<Rightarrow> edge_regime \<Rightarrow> competition_state \<Rightarrow> f64 \<Rightarrow> regime_memory \<Rightarrow> f64" where
  "position_size_multiplier reliability state regime competition drawdown_pct memory =
     f_clamp (dynamic_position_size_multiplier reliability state regime drawdown_pct
       * competition_factor competition * regime_memory_factor memory) 0 (lit 1.25)"

definition classify_state ::
  "nat \<Rightarrow> nat \<Rightarrow> f64 \<Rightarrow> f64 \<Rightarrow> f64 \<Rightarrow> f64 \<Rightarrow> f64 \<Rightarrow> usize \<Rightarrow> f64 \<Rightarrow> edge_state" where
  "classify_state sample_count min_samples t_statistic ks error_mean confidence_low capture_mean streak reliability =
     (if sample_count < min_samples then Uncertain
      else if 6 \<le> streak
           \<or> capture_mean < lit (- 0.10)
           \<or> confidence_low < 0 \<and> t_statistic < 0
           \<or> lit 0.72 < ks \<and> capture_mean < lit 0.05 \<and> reliability < lit 0.50 \<and> lit 0.25 < f_abs error_mean
           \<or> reliability < lit 0.28
        then Invalid
      else if lit 1.30 < t_statistic
           \<and> 0 < confidence_low
           \<and> (ks < lit 0.45
              \<or> lit 0.75 < capture_mean \<and> f_abs error_mean < lit 0.25 \<and> lit 0.75 < reliability)
           \<and> lit 0.15 < capture_mean
           \<and> lit 0.55 < reliability
        then Valid
      else Uncertain)"

definition classify_regime :: "f64 \<Rightarrow> f64 \<Rightarrow> f64 \<Rightarrow> f64 \<Rightarrow> edge_regime" where
  "classify_regime reliability half_life ks capture_mean =
     (if reliability < lit 0.35 \<or> lit 0.70 < ks \<or> capture_mean < 0 then Unstable
      else if half_life < lit 16 \<or> reliability < lit 0.60 \<or> lit 0.45 < ks then Decaying
      else Stable)"

definition classify_competition :: "f64 \<Rightarrow> f64 list \<Rightarrow> usize \<Rightarrow> competition_state" where
  "classify_competition score fill_rates streak =
     (let fill_mean = mean_of fill_rates
      in if lit 0.75 \<le> score \<or> fill_mean < lit 0.35 \<or> 8 \<le> streak then Saturated
         else if lit 0.45 \<le> score \<or> fill_mean < lit 0.60 then Competitive
         else CompetitionNormal)"

definition competition_score :: "f64 list \<Rightarrow> f64 list \<Rightarrow> f64 list \<Rightarrow> f64 list \<Rightarrow> f64" where
  "competition_score expected_edges fill_rates slippages outbid_flags =
     (let edge_mean = f_max (mean_of expected_edges) 0;
          stable_signal = coefficient_of_variation expected_edges < 1;
          high_edge_pressure = f_clamp (edge_mean / lit 4) 0 1;
          fill_penalty = f_clamp (1 - mean_of fill_rates) 0 1;
          outbid_penalty = f_clamp (mean_of outbid_flags) 0 1;
          stable_slippage_penalty =
            (if stable_signal then f_clamp (mean_of slippages / lit 12) 0 1
             else f_clamp (mean_of slippages / lit 20) 0 1)
      in f_clamp (lit 0.25 * high_edge_pressure + lit 0.30 * fill_penalty + lit 0.25 * outbid_penalty
                  + lit 0.20 * stable_slippage_penalty) 0 1)"

definition reliability_score :: "f64 \<Rightarrow> f64 \<Rightarrow> f64 \<Rightarrow> f64 \<Rightarrow> f64 \<Rightarrow> f64 \<Rightarrow> f64 \<Rightarrow> f64" where
  "reliability_score error_mean error_variance error_skew sharpe_like capture_mean competition failure_ema =
     (let mean_penalty = f_clamp (f_abs error_mean / lit 10) 0 1;
          variance_penalty = f_clamp (error_variance / lit 25) 0 1;
          skew_penalty = f_clamp (f_abs error_skew / lit 4) 0 1;
          sharpe_bonus = f_clamp ((sharpe_like + 1) / lit 3) 0 1;
          capture_bonus = f_clamp ((capture_mean + lit 0.5) / lit 1.5) 0 1;
          competition_penalty = f_clamp competition 0 1
      in f_clamp (f_mul_add (lit 0.40 * (1 - mean_penalty) + lit 0.18 * (1 - variance_penalty)
                             + lit 0.07 * (1 - skew_penalty) + lit 0.20 * sharpe_bonus
                             + lit 0.10 * capture_bonus - lit 0.15 * competition_penalty)
                            (1 - f_clamp failure_ema 0 (lit 0.95) * lit 0.35) 0) 0 1)"

definition execution_quality :: "f64 \<Rightarrow> f64 \<Rightarrow> f64 \<Rightarrow> f64" where
  "execution_quality fill_rate slippage_bps competition =
     f_clamp (lit 0.50 * f_clamp fill_rate 0 1
              + lit 0.30 * (1 - f_clamp (f_abs slippage_bps / lit 15) 0 1)
              + lit 0.20 * (1 - f_clamp competition 0 1)) 0 1"

definition regime_bucket :: "market_regime \<Rightarrow> string" where
  "regime_bucket regime =
     (if lit 10 < mr_spread regime then ''wide_spread''
      else if lit 2.5 < mr_volatility regime then ''high_vol''
      else if lit 1.5 < mr_trend_strength regime then ''trending''
      else ''normal'')"

section \<open>Operations of the engine\<close>

fun failure_severity :: "execution_failure_reason \<Rightarrow> f64" where
  "failure_severity QueueTooDeep = lit 0.35"
| "failure_severity Outbid = lit 0.55"
| "failure_severity LatencyTooHigh = lit 0.65"
| "failure_severity CompetitionSpike = lit 0.80"
| "failure_severity LiquidityPull = lit 0.70"
| "failure_severity NoFillTimeout = lit 0.75"

definition observe_failure :: "edge_engine \<Rightarrow> execution_failure_reason \<Rightarrow> edge_engine" where
  "observe_failure v reason =
     v\<lparr>vl_failure_ema := edge_ewma (vl_failure_ema v) (failure_severity reason) (lit 0.18)\<rparr>"

definition update_memory :: "regime_memory \<Rightarrow> f64 \<Rightarrow> f64 \<Rightarrow> f64 \<Rightarrow> f64 \<Rightarrow> regime_memory" where
  "update_memory m reliability pnl quality capture =
     (let m' = (if rm_sample_count m = 0
          then m\<lparr>rm_reliability := reliability, rm_pnl := pnl, rm_execution_quality := quality, rm_capture := capture\<rparr>
          else m\<lparr>rm_reliability := edge_ewma (rm_reliability m) reliability (lit 0.08),
                 rm_pnl := edge_ewma (rm_pnl m) pnl (lit 0.08),
                 rm_execution_quality := edge_ewma (rm_execution_quality m) quality (lit 0.08),
                 rm_capture := edge_ewma (rm_capture m) capture (lit 0.08)\<rparr>)
      in m'\<lparr>rm_sample_count := sat_add (rm_sample_count m) 1\<rparr>)"

definition sample_capture :: "learning_sample \<Rightarrow> f64" where
  "sample_capture x =
     (let expected_edge = filter_noise (ls_expected_markout x)
      in if NOISE_FLOOR < f_abs expected_edge
         then f_clamp (filter_noise (ls_pnl x) / expected_edge) (lit (- 5)) (lit 5) else 0)"

definition adjusted_return :: "learning_sample \<Rightarrow> f64" where
  "adjusted_return x =
     filter_noise (ls_pnl x) - f_abs (ls_actual_slippage_bps x) * lit 0.20 - f_of_word (ls_duration_ms x) * lit 0.0005"

text \<open>The pushes at the start of \<open>observe\<close>, and the streak of negative captures.\<close>

definition push_sample :: "edge_engine \<Rightarrow> learning_sample \<Rightarrow> edge_engine" where
  "push_sample v x =
     (let n = vl_capacity v;
          expected_edge = filter_noise (ls_expected_markout x);
          realized_markout = filter_noise (ls_realized_markout x)
      in v\<lparr>vl_expected_edges := push_capped (vl_expected_edges v) expected_edge n,
           vl_realized_markouts := push_capped (vl_realized_markouts v) realized_markout n,
           vl_realized_pnls := push_capped (vl_realized_pnls v) (filter_noise (ls_pnl x)) n,
           vl_adjusted_returns := push_capped (vl_adjusted_returns v) (adjusted_return x) n,
           vl_edge_errors := push_capped (vl_edge_errors v) (expected_edge - realized_markout) n,
           vl_capture_ratios := push_capped (vl_capture_ratios v) (sample_capture x) n,
           vl_execution_alphas := push_capped (vl_execution_alphas v) (filter_noise (ls_execution_alpha x)) n,
           vl_fill_rates := push_capped (vl_fill_rates v) (f_clamp (ls_fill_ratio x) 0 1) n,
           vl_slippages := push_capped (vl_slippages v) (f_max (ls_actual_slippage_bps x) 0) n,
           vl_outbid_flags := push_capped (vl_outbid_flags v)
             (if ls_competition_state x = Competitive \<or> ls_competition_state x = Saturated then 1 else 0) n,
           vl_edge_components := push_capped (vl_edge_components v) (ls_edge_component x) n,
           vl_execution_losses := push_capped (vl_execution_losses v) (f_max (ls_execution_loss x) 0) n,
           vl_fees_rebates := push_capped (vl_fees_rebates v) (ls_fees_rebates_component x) n,
           vl_adverse_losses := push_capped (vl_adverse_losses v) (f_max (ls_adverse_selection_loss x) 0) n,
           vl_competition_states := push_capped (vl_competition_states v) (ls_competition_state x) n\<rparr>)"

definition update_streak :: "edge_engine \<Rightarrow> f64 \<Rightarrow> edge_engine" where
  "update_streak v capture =
     v\<lparr>vl_negative_capture_streak :=
         (if capture < lit (- 0.05) then sat_add (vl_negative_capture_streak v) 1
          else sat_sub (vl_negative_capture_streak v) 1)\<rparr>"

text \<open>The scores of the current windows.\<close>

definition engine_competition :: "edge_engine \<Rightarrow> f64" where
  "engine_competition v =
     competition_score (vl_expected_edges v) (vl_fill_rates v) (vl_slippages v) (vl_outbid_flags v)"

definition engine_reliability :: "edge_engine \<Rightarrow> f64" where
  "engine_reliability v =
     (let errors = rolling_moments (vl_edge_errors v);
          capture = rolling_moments (vl_capture_ratios v);
          alpha = rolling_moments (vl_execution_alphas v)
      in reliability_score (mo_mean errors) (mo_variance errors) (mo_skew errors)
           (rolling_sharpe_like (vl_adjusted_returns v))
           (mo_mean capture + f_signum (mo_mean alpha) * f_min (f_abs (mo_mean alpha)) 1 * lit 0.15)
           (engine_competition v) (vl_failure_ema v))"

definition engine_competition_state :: "edge_engine \<Rightarrow> competition_state" where
  "engine_competition_state v =
     classify_competition (engine_competition v) (vl_fill_rates v) (vl_negative_capture_streak v)"

definition engine_regime :: "edge_engine \<Rightarrow> f64 \<Rightarrow> edge_regime" where
  "engine_regime v ks =
     classify_regime (engine_reliability v) (estimate_half_life (vl_expected_edges v) (vl_realized_markouts v)) ks
       (mo_mean (rolling_moments (vl_capture_ratios v)))"

definition engine_state :: "edge_engine \<Rightarrow> f64 \<Rightarrow> edge_state" where
  "engine_state v ks =
     classify_state (length (vl_realized_pnls v)) (vl_min_samples v) (one_sample_t_statistic (vl_realized_pnls v)) ks
       (mo_mean (rolling_moments (vl_edge_errors v))) (fst (confidence_interval (vl_realized_pnls v)))
       (mo_mean (rolling_moments (vl_capture_ratios v))) (vl_negative_capture_streak v) (engine_reliability v)"

text \<open>The snapshot that \<open>observe\<close> and \<open>snapshot\<close> both build; they differ in the regime memory.\<close>

definition build_snapshot :: "edge_engine \<Rightarrow> f64 \<Rightarrow> f64 \<Rightarrow> regime_memory \<Rightarrow> edge_snapshot" where
  "build_snapshot v ks drawdown_pct memory =
     (let errors = rolling_moments (vl_edge_errors v);
          capture = rolling_moments (vl_capture_ratios v);
          alpha = rolling_moments (vl_execution_alphas v);
          (low, high) = confidence_interval (vl_realized_pnls v);
          state = engine_state v ks;
          regime = engine_regime v ks;
          competition = engine_competition_state v;
          reliability = engine_reliability v
      in \<lparr>vs_edge_state = state, vs_edge_regime = regime, vs_competition_state = competition,
          vs_t_statistic = one_sample_t_statistic (vl_realized_pnls v), vs_ks_statistic = ks,
          vs_reliability = reliability, vs_sharpe_like = rolling_sharpe_like (vl_adjusted_returns v),
          vs_half_life_samples = estimate_half_life (vl_expected_edges v) (vl_realized_markouts v),
          vs_error_mean = mo_mean errors, vs_error_variance = mo_variance errors, vs_error_skew = mo_skew errors,
          vs_capture_mean = mo_mean capture, vs_capture_variance = mo_variance capture,
          vs_negative_capture_streak = vl_negative_capture_streak v,
          vs_execution_alpha_mean = mo_mean alpha, vs_execution_alpha_variance = mo_variance alpha,
          vs_confidence_low = low, vs_confidence_high = high,
          vs_competition_score = engine_competition v,
          vs_edge_component_mean = mean_of (vl_edge_components v),
          vs_execution_loss_mean = mean_of (vl_execution_losses v),
          vs_fees_rebates_mean = mean_of (vl_fees_rebates v),
          vs_adverse_selection_loss_mean = mean_of (vl_adverse_losses v),
          vs_regime_reliability = rm_reliability memory, vs_regime_pnl_mean = rm_pnl memory,
          vs_regime_execution_quality = rm_execution_quality memory,
          vs_sample_count = length (vl_realized_pnls v),
          vs_position_size_multiplier =
            position_size_multiplier reliability state regime competition drawdown_pct memory,
          vs_trading_enabled = (state \<noteq> Invalid \<and> competition \<noteq> Saturated)\<rparr>)"

definition memory_of :: "edge_engine \<Rightarrow> string \<Rightarrow> regime_memory" where
  "memory_of v key = (case vl_regime_memory v key of None \<Rightarrow> regime_memory_default | Some m \<Rightarrow> m)"

definition edge_observe :: "edge_engine \<Rightarrow> learning_sample \<Rightarrow> f64 \<Rightarrow> (edge_engine \<times> edge_snapshot) option" where
  "edge_observe v x drawdown_pct =
     (let v1 = update_streak (push_sample v x) (sample_capture x)
      in Option.bind (ks_statistic (vl_expected_edges v1) (vl_realized_markouts v1)) (\<lambda>ks.
           let key = regime_bucket (ls_regime x);
               memory = update_memory (memory_of v1 key) (engine_reliability v1) (filter_noise (ls_pnl x))
                          (execution_quality (ls_fill_ratio x) (ls_actual_slippage_bps x) (engine_competition v1))
                          (sample_capture x)
           in Some (v1\<lparr>vl_regime_memory := (vl_regime_memory v1)(key \<mapsto> memory)\<rparr>,
                    build_snapshot v1 ks drawdown_pct memory)))"

text \<open>\<open>values().max_by_key\<close>: the last of the greatest, in the order of the iterator.\<close>

definition busiest_memory :: "((string \<rightharpoonup> regime_memory) \<Rightarrow> string list) \<Rightarrow> edge_engine \<Rightarrow> regime_memory" where
  "busiest_memory iter v =
     (let ms = map (\<lambda>k. the (vl_regime_memory v k)) (iter (vl_regime_memory v))
      in case ms of [] \<Rightarrow> regime_memory_default
         | m # rest \<Rightarrow> foldl (\<lambda>best m. if rm_sample_count m < rm_sample_count best then best else m) m rest)"

definition edge_snapshot_of ::
  "((string \<rightharpoonup> regime_memory) \<Rightarrow> string list) \<Rightarrow> edge_engine \<Rightarrow> f64 \<Rightarrow> edge_snapshot option" where
  "edge_snapshot_of iter v drawdown_pct =
     map_option (\<lambda>ks. build_snapshot v ks drawdown_pct (busiest_memory iter v))
       (ks_statistic (vl_expected_edges v) (vl_realized_markouts v))"

section \<open>The loop of the Kolmogorov-Smirnov statistic\<close>

lemma advance_ge: "i \<le> advance xs v i"
  by (simp add: advance_def)

lemma advance_le: "i \<le> length xs \<Longrightarrow> advance xs v i \<le> length xs"
  using length_takeWhile_le[of "\<lambda>x. x \<le> v" "drop i xs"] by (simp add: advance_def)

lemma advance_progress: "i < length xs \<Longrightarrow> xs ! i \<le> v \<Longrightarrow> i < advance xs v i"
  by (simp add: advance_def Cons_nth_drop_Suc[symmetric])

text \<open>No NaN is ever passed.\<close>

lemma advance_nan: "i \<le> k \<Longrightarrow> k < length xs \<Longrightarrow> xs ! k = NaN \<Longrightarrow> advance xs v i \<le> k"
proof (rule ccontr)
  assume a: "i \<le> k" "k < length xs" "xs ! k = NaN" "\<not> advance xs v i \<le> k"
  then have l: "k - i < length (takeWhile (\<lambda>x. x \<le> v) (drop i xs))" by (simp add: advance_def)
  then have "takeWhile (\<lambda>x. x \<le> v) (drop i xs) ! (k - i) \<le> v" by (meson nth_mem set_takeWhileD)
  moreover have "takeWhile (\<lambda>x. x \<le> v) (drop i xs) ! (k - i) = xs ! k"
    using l a by (simp add: takeWhile_nth)
  ultimately show False using a(3) by simp
qed

lemma ks_loop_returns:
  "NaN \<notin> set xs \<or> NaN \<notin> set ys \<Longrightarrow> i \<le> length xs \<Longrightarrow> j \<le> length ys \<Longrightarrow> \<exists>r. ks_loop xs ys i j d = Some r"
proof (induction "(length xs - i) + (length ys - j)" arbitrary: i j d rule: less_induct)
  case less
  show ?case
  proof (cases "i < length xs \<and> j < length ys")
    case True
    define v where "v = f_min (xs ! i) (ys ! j)"
    have n: "xs ! i \<noteq> NaN \<or> ys ! j \<noteq> NaN" using less.prems(1) True nth_mem by metis
    have "xs ! i \<le> v \<or> ys ! j \<le> v"
      using n f_min_cases[of "xs ! i" "ys ! j"] f_min_not_nan[OF n] unfolding v_def by (metis f64_le_refl)
    then have "i < advance xs v i \<or> j < advance ys v j" using True by (auto intro: advance_progress)
    moreover have a: "i \<le> advance xs v i" "j \<le> advance ys v j" "advance xs v i \<le> length xs" "advance ys v j \<le> length ys"
      using True by (auto simp: advance_ge advance_le)
    ultimately have "(length xs - advance xs v i) + (length ys - advance ys v j) < (length xs - i) + (length ys - j)"
      using True by linarith
    from less.hyps[OF this less.prems(1) a(3,4)] show ?thesis
      using True by (subst ks_loop.simps) (simp add: Let_def v_def)
  next
    case False
    then show ?thesis by (subst ks_loop.simps) auto
  qed
qed

lemma ks_loop_hangs:
  assumes "a < length xs" "xs ! a = NaN" "b < length ys" "ys ! b = NaN" "i \<le> a" "j \<le> b"
  shows "ks_loop xs ys i j d = None"
proof (rule ccontr)
  let ?P = "\<lambda>us vs i j (d :: f64) (r :: f64). us = xs \<longrightarrow> vs = ys \<longrightarrow> \<not> (i \<le> a \<and> j \<le> b)"
  assume "ks_loop xs ys i j d \<noteq> None"
  then obtain r where "ks_loop xs ys i j d = Some r" by blast
  then have "?P xs ys i j d r"
  proof (rule ks_loop.raw_induct[where P = ?P, rotated])
    fix loop us vs i j d r
    assume IH: "\<And>us vs i j d r. loop us vs i j d = Some r \<Longrightarrow> ?P us vs i j d r"
      and r: "(if i < length us \<and> j < length vs then
        let v = f_min (us ! i) (vs ! j); i' = advance us v i; j' = advance vs v j
        in loop us vs i' j' (f_max d (f_abs (cdf_at i' us - cdf_at j' vs)))
       else Some d) = Some r"
    show "?P us vs i j d r"
    proof (intro impI notI)
      assume e: "us = xs" "vs = ys" and ij: "i \<le> a \<and> j \<le> b"
      define v where "v = f_min (xs ! i) (ys ! j)"
      have "loop xs ys (advance xs v i) (advance ys v j)
          (f_max d (f_abs (cdf_at (advance xs v i) xs - cdf_at (advance ys v j) ys))) = Some r"
        using r ij assms(1,3) by (simp add: e v_def Let_def split: if_splits)
      from IH[OF this] have "\<not> (advance xs v i \<le> a \<and> advance ys v j \<le> b)" by simp
      then show False using advance_nan ij assms by blast
    qed
  qed
  then show False using assms by simp
qed

section \<open>The statistic is the distance of the empirical distributions\<close>

text \<open>The reference: the share of the values up to \<open>v\<close>, and the distance of two such shares.\<close>

definition count_le :: "f64 list \<Rightarrow> f64 \<Rightarrow> nat" where
  "count_le xs v = length (filter (\<lambda>x. x \<le> v) xs)"

definition cdf_distance :: "f64 list \<Rightarrow> f64 list \<Rightarrow> f64 \<Rightarrow> f64" where
  "cdf_distance xs ys v = f_abs (cdf_at (count_le xs v) xs - cdf_at (count_le ys v) ys)"

lemma count_le_length: "count_le xs v \<le> length xs"
  by (simp add: count_le_def)

lemma count_le_mono: "v \<le> w \<Longrightarrow> count_le xs v \<le> count_le xs w"
  by (induction xs) (auto simp: count_le_def intro: f64_le_trans)

lemma count_le_mset: "mset xs = mset ys \<Longrightarrow> count_le xs v = count_le ys v"
  unfolding count_le_def by (metis mset_filter size_mset)

lemma cdf_distance_sort: "cdf_distance (sort_total xs) (sort_total ys) = cdf_distance xs ys"
  by (rule ext) (simp add: cdf_distance_def cdf_at_def count_le_mset[OF mset_sort_total])

text \<open>Counting in a sorted list.\<close>

lemma sorted_nth: "sorted_wrt (\<le>) xs \<Longrightarrow> NaN \<notin> set xs \<Longrightarrow> k \<le> l \<Longrightarrow> l < length xs \<Longrightarrow> xs ! k \<le> xs ! l"
  using sorted_wrt_nth_less[of "(\<le>)" xs k l] nth_mem[of l xs]
  by (cases "k = l") (metis f64_le_refl, simp)

lemma count_le_takeWhile:
  "sorted_wrt (\<le>) xs \<Longrightarrow> count_le xs v = length (takeWhile (\<lambda>x. x \<le> v) xs)"
proof (induction xs)
  case (Cons x xs)
  have "filter (\<lambda>x. x \<le> v) xs = []" if "\<not> x \<le> v"
    using Cons.prems that by (auto simp: filter_empty_conv intro: f64_le_trans)
  then show ?case using Cons by (auto simp: count_le_def)
qed (simp add: count_le_def)

lemma count_le_nth: "sorted_wrt (\<le>) xs \<Longrightarrow> k < count_le xs v \<Longrightarrow> xs ! k \<le> v"
  by (metis count_le_takeWhile nth_mem set_takeWhileD takeWhile_nth)

lemma count_le_nth': "sorted_wrt (\<le>) xs \<Longrightarrow> NaN \<notin> set xs \<Longrightarrow> count_le xs v \<le> k \<Longrightarrow> k < length xs \<Longrightarrow> \<not> xs ! k \<le> v"
proof
  assume a: "sorted_wrt (\<le>) xs" "NaN \<notin> set xs" "count_le xs v \<le> k" "k < length xs" "xs ! k \<le> v"
  let ?c = "length (takeWhile (\<lambda>x. x \<le> v) xs)"
  have c: "?c \<le> k" "?c < length xs" using a count_le_takeWhile[OF a(1), of v] by simp_all
  then have "\<not> xs ! ?c \<le> v" using nth_length_takeWhile by fastforce
  moreover have "xs ! ?c \<le> xs ! k" using sorted_nth[OF a(1,2) c(1) a(4)] .
  ultimately show False using a(5) f64_le_trans by blast
qed

lemma count_le_ge: "sorted_wrt (\<le>) xs \<Longrightarrow> NaN \<notin> set xs \<Longrightarrow> i \<le> length xs \<Longrightarrow> (\<And>k. k < i \<Longrightarrow> xs ! k \<le> v) \<Longrightarrow> i \<le> count_le xs v"
  using count_le_nth'[of xs v "count_le xs v"] by (meson leI less_le_trans order_refl)

lemma count_le_lt: "sorted_wrt (\<le>) xs \<Longrightarrow> i \<le> length xs \<Longrightarrow> (i < length xs \<Longrightarrow> \<not> xs ! i \<le> v) \<Longrightarrow> count_le xs v \<le> i"
  using count_le_nth[of xs i v] count_le_length[of xs v] by (meson leI le_trans less_le_trans)

lemma advance_count:
  assumes "sorted_wrt (\<le>) xs" "i \<le> count_le xs v"
  shows "advance xs v i = count_le xs v"
proof -
  let ?P = "\<lambda>x. x \<le> v"
  have c: "count_le xs v = length (takeWhile ?P xs)" using assms(1) by (rule count_le_takeWhile)
  have "\<forall>x \<in> set (take i xs). ?P x"
    using assms c by (metis set_takeWhileD takeWhile_eq_take take_take min.absorb1 in_set_takeD)
  then have "takeWhile ?P (take i xs @ drop i xs) = take i xs @ takeWhile ?P (drop i xs)"
    by (intro takeWhile_append2) auto
  moreover have "i \<le> length xs" using assms(2) count_le_length le_trans by blast
  ultimately show ?thesis using c by (simp add: advance_def)
qed

text \<open>The shares as doubles.\<close>

lemma cdf_at_props:
  assumes "i \<le> length xs" "xs \<noteq> []" "length xs \<le> 2 ^ 53"
  shows "cdf_at i xs = mk False (of_nat i / of_nat (length xs))" "rng 0 1 (cdf_at i xs)"
proof -
  have n: "0 < length xs" using assms(2) by simp
  show e: "cdf_at i xs = mk False (of_nat i / of_nat (length xs))"
    using assms n by (simp add: cdf_at_def f_of_nat_exact divide_fin)
  have "(of_nat i / of_nat (length xs) :: rat) \<le> 1" using assms(1) n by simp
  then show "rng 0 1 (cdf_at i xs)" unfolding e by (intro rng_mk) simp_all
qed

lemma cdf_at_full: "xs \<noteq> [] \<Longrightarrow> length xs \<le> 2 ^ 53 \<Longrightarrow> cdf_at (length xs) xs = 1"
  by (simp add: cdf_at_props mk_exact one_f64_def)

lemma cdf_at_mono:
  assumes "i \<le> j" "j \<le> length xs" "xs \<noteq> []" "length xs \<le> 2 ^ 53"
  shows "cdf_at i xs \<le> cdf_at j xs"
proof -
  have "(of_nat i / of_nat (length xs) :: rat) \<le> of_nat j / of_nat (length xs)"
    using assms(1) by (intro divide_right_mono) auto
  then show ?thesis using assms by (simp add: cdf_at_props mk_mono)
qed

lemma unit_diff: "rng 0 1 a \<Longrightarrow> rng 0 1 b \<Longrightarrow> rng (- 1) 1 (a - b)"
  by (rule rng_minus) auto

lemma unit_distance: "rng 0 1 a \<Longrightarrow> rng 0 1 b \<Longrightarrow> rng 0 1 (f_abs (a - b))"
  by (rule rng_abs) (simp add: unit_diff)

text \<open>Beyond the last value of one list the distance only shrinks.\<close>

lemma distance_shrinks:
  assumes "rng 0 1 a" "rng 0 1 b" "a \<le> b"
  shows "f_abs (1 - b) \<le> f_abs (1 - a)" "f_abs (b - 1) \<le> f_abs (a - 1)"
proof -
  have r: "fin (1 - a)" "fin (1 - b)" using assms unit_diff[of 1 a] unit_diff[of 1 b] by (auto simp: rng_def)
  have s: "fin (a - 1)" "fin (b - 1)" using assms unit_diff[of a 1] unit_diff[of b 1] by (auto simp: rng_def)
  have v: "0 \<le> val a" "val a \<le> val b" "val b \<le> 1" "fin a" "fin b" using assms by (auto simp: rng_def fin_le_iff)
  have "0 \<le> rnd (1 - val b)" "rnd (1 - val b) \<le> rnd (1 - val a)" using v by (auto intro: rnd_nonneg rnd_mono)
  then show "f_abs (1 - b) \<le> f_abs (1 - a)" using v r by (simp add: fin_le_iff val_minus)
  have "rnd (val a - 1) \<le> rnd (val b - 1)" "rnd (val b - 1) \<le> 0"
    using v rnd_mono[of "val b - 1" 0] by (auto intro: rnd_mono)
  then show "f_abs (b - 1) \<le> f_abs (a - 1)" using v s by (simp add: fin_le_iff val_minus)
qed

text \<open>
  The invariant of the loop: the values that were passed are below the ones that were not; the
  distance \<open>d\<close> bounds the distances up to the cut, it bounds the one at the cut, and it is 0 or
  attained.
\<close>

definition ks_inv :: "f64 list \<Rightarrow> f64 list \<Rightarrow> nat \<Rightarrow> nat \<Rightarrow> f64 \<Rightarrow> bool" where
  "ks_inv xs ys i j d \<longleftrightarrow>
     i \<le> length xs \<and> j \<le> length ys
     \<and> (\<forall>k l. k < i \<longrightarrow> j \<le> l \<longrightarrow> l < length ys \<longrightarrow> xs ! k \<le> ys ! l)
     \<and> (\<forall>k l. k < j \<longrightarrow> i \<le> l \<longrightarrow> l < length xs \<longrightarrow> ys ! k \<le> xs ! l)
     \<and> rng 0 1 d
     \<and> (\<forall>v. count_le xs v \<le> i \<longrightarrow> count_le ys v \<le> j \<longrightarrow> cdf_distance xs ys v \<le> d)
     \<and> f_abs (cdf_at i xs - cdf_at j ys) \<le> d
     \<and> (d = 0 \<or> (\<exists>v \<in> set xs \<union> set ys. cdf_distance xs ys v = d))"

lemma cut_at_min:
  assumes "sorted_wrt (\<le>) xs" "NaN \<notin> set xs" "NaN \<notin> set ys" "i < length xs" "j < length ys"
    and below: "\<And>k. k < i \<Longrightarrow> xs ! k \<le> ys ! j"
  defines "v \<equiv> f_min (xs ! i) (ys ! j)"
  shows "i \<le> count_le xs v" "\<And>w. w < v \<Longrightarrow> count_le xs w \<le> i"
proof -
  have nn: "xs ! i \<noteq> NaN" "ys ! j \<noteq> NaN" using assms nth_mem by metis+
  have min: "v \<le> xs ! i" using nn f_min_le by (simp add: v_def)
  show "i \<le> count_le xs v"
  proof (rule count_le_ge[OF assms(1,2)])
    fix k assume "k < i"
    then have "xs ! k \<le> xs ! i" "xs ! k \<le> ys ! j" using assms by (auto intro: sorted_nth)
    then show "xs ! k \<le> v" using f_min_cases[of "xs ! i" "ys ! j"] by (auto simp: v_def)
  qed (use assms in simp)
  show "count_le xs w \<le> i" if "w < v" for w
    using assms(1)
  proof (rule count_le_lt)
    show "\<not> xs ! i \<le> w" using that min f64_less_le_trans f64_le_less_trans f64_less_irrefl by blast
  qed (use assms in simp)
qed

lemma f_min_comm: "x \<noteq> NaN \<Longrightarrow> y \<noteq> NaN \<Longrightarrow> count_le zs (f_min x y) = count_le zs (f_min y x)"
proof (cases "feq x y")
  case True
  assume "x \<noteq> NaN" "y \<noteq> NaN"
  have "count_le zs x = count_le zs y" using True by (intro antisym count_le_mono) (auto simp: feq_def)
  then show ?thesis using f_min_cases by metis
next
  case False
  assume "x \<noteq> NaN" "y \<noteq> NaN"
  then have "f_min x y = f_min y x" using False by (auto simp: f_min_def feq_def less_f64_def dest: f64_le_total)
  then show ?thesis by simp
qed

lemma ks_step:
  assumes sx: "sorted_wrt (\<le>) xs" "NaN \<notin> set xs" "length xs \<le> 2 ^ 53"
    and sy: "sorted_wrt (\<le>) ys" "NaN \<notin> set ys" "length ys \<le> 2 ^ 53"
    and inv: "ks_inv xs ys i j d" and l: "i < length xs" "j < length ys"
  defines "v \<equiv> f_min (xs ! i) (ys ! j)"
  shows "ks_inv xs ys (advance xs v i) (advance ys v j)
    (f_max d (f_abs (cdf_at (advance xs v i) xs - cdf_at (advance ys v j) ys)))"
proof -
  have b: "\<And>k. k < i \<Longrightarrow> xs ! k \<le> ys ! j" "\<And>k. k < j \<Longrightarrow> ys ! k \<le> xs ! i"
    using inv l by (auto simp: ks_inv_def)
  have nn: "xs ! i \<noteq> NaN" "ys ! j \<noteq> NaN" using sx sy l nth_mem by metis+
  have vm: "v \<in> set xs \<union> set ys" using f_min_cases[of "xs ! i" "ys ! j"] l by (auto simp: v_def)
  then have "v \<noteq> NaN" using sx sy by auto
  note cx = cut_at_min[OF sx(1,2) sy(2) l b(1), folded v_def]
  note cy' = cut_at_min[OF sy(1,2) sx(2) l(2,1) b(2)]
  have cy: "j \<le> count_le ys v" using cy'(1) f_min_comm[OF nn, of ys] by (simp add: v_def)
  have cyw: "count_le ys w \<le> j" if "w < v" for w
  proof (rule cy'(2))
    show "w < f_min (ys ! j) (xs ! i)" using that nn unfolding v_def
      by (auto simp: f_min_def less_f64_def split: if_splits dest: f64_le_trans f64_le_total)
  qed
  have a: "advance xs v i = count_le xs v" "advance ys v j = count_le ys v"
    using advance_count[OF sx(1) cx(1)] advance_count[OF sy(1) cy] by simp_all
  have ne: "xs \<noteq> []" "ys \<noteq> []" using l by auto
  define e where "e = cdf_distance xs ys v"
  have e: "rng 0 1 e" unfolding e_def cdf_distance_def
    using ne sx sy by (intro unit_distance cdf_at_props) (auto simp: count_le_length)
  have d: "rng 0 1 d" using inv by (simp add: ks_inv_def)
  have m: "rng 0 1 (f_max d e)" using f_max_cases[of d e] d e by auto
  have le: "d \<le> f_max d e" "e \<le> f_max d e" using d e f_max_ge by (auto dest: rngD)
  have up: "x \<le> y" if "x \<le> v" "\<not> y \<le> v" "y \<noteq> NaN" for x y
    using that \<open>v \<noteq> NaN\<close> f64_le_total[of y v] f64_le_trans by blast
  have split: "xs ! k \<le> ys ! m" if "k < count_le xs v" "count_le ys v \<le> m" "m < length ys" for k m
  proof (rule up)
    show "ys ! m \<noteq> NaN" using that(3) sy(2) nth_mem by metis
  qed (use that sx sy count_le_nth count_le_nth' in blast)+
  have split': "ys ! k \<le> xs ! m" if "k < count_le ys v" "count_le xs v \<le> m" "m < length xs" for k m
  proof (rule up)
    show "xs ! m \<noteq> NaN" using that(3) sx(2) nth_mem by metis
  qed (use that sx sy count_le_nth count_le_nth' in blast)+
  have bound: "cdf_distance xs ys w \<le> f_max d e" if "count_le xs w \<le> count_le xs v" "count_le ys w \<le> count_le ys v" for w
  proof (cases "v \<le> w")
    case True
    then have "count_le xs w = count_le xs v" "count_le ys w = count_le ys v"
      using that count_le_mono[OF True, of xs] count_le_mono[OF True, of ys] by simp_all
    then have "cdf_distance xs ys w = e" by (simp add: e_def cdf_distance_def)
    then show ?thesis using le by simp
  next
    case False
    have "count_le xs w \<le> i \<and> count_le ys w \<le> j"
    proof (cases "w = NaN")
      case True
      then show ?thesis by (simp add: count_le_def)
    next
      case nan: False
      then have "w < v" using False \<open>v \<noteq> NaN\<close> f64_le_total[of v w] by (simp add: less_f64_def)
      then show ?thesis using cx(2) cyw by simp
    qed
    then have "cdf_distance xs ys w \<le> d" using inv by (simp add: ks_inv_def)
    then show ?thesis using le(1) f64_le_trans by blast
  qed
  have att: "f_max d e = 0 \<or> (\<exists>w \<in> set xs \<union> set ys. cdf_distance xs ys w = f_max d e)"
    using f_max_cases[of d e] inv vm by (auto simp: ks_inv_def e_def)
  have "f_abs (cdf_at (advance xs v i) xs - cdf_at (advance ys v j) ys) = e"
    by (simp add: a e_def cdf_distance_def)
  then show ?thesis
    unfolding ks_inv_def a using m le(2) bound att split split' by (simp add: count_le_length)
qed

text \<open>The value of the loop.\<close>

lemma ks_exit:
  assumes ne: "xs \<noteq> []" "ys \<noteq> []" and len: "length xs \<le> 2 ^ 53" "length ys \<le> 2 ^ 53"
    and inv: "ks_inv xs ys i j d" and l: "\<not> (i < length xs \<and> j < length ys)"
    and sx: "sorted_wrt (\<le>) xs" "NaN \<notin> set xs" and sy: "sorted_wrt (\<le>) ys" "NaN \<notin> set ys"
  shows "cdf_distance xs ys v \<le> d"
proof (cases "count_le xs v \<le> i \<and> count_le ys v \<le> j")
  case True
  then show ?thesis using inv by (simp add: ks_inv_def)
next
  case False
  have ij: "i \<le> length xs" "j \<le> length ys" using inv by (auto simp: ks_inv_def)
  have c: "count_le xs v \<le> length xs" "count_le ys v \<le> length ys" by (rule count_le_length)+
  have dist: "f_abs (cdf_at i xs - cdf_at j ys) \<le> d" using inv by (simp add: ks_inv_def)
  consider "i = length xs" "j < count_le ys v" | "j = length ys" "i < count_le xs v"
    using False l ij c by linarith
  then show ?thesis
  proof cases
    case 1
    then have j: "j < length ys" using c by simp
    have "ys ! j \<le> v" using count_le_nth[OF sy(1) 1(2)] .
    moreover have "\<And>k. k < i \<Longrightarrow> xs ! k \<le> ys ! j" using inv j by (auto simp: ks_inv_def)
    ultimately have "i \<le> count_le xs v" using ij by (intro count_le_ge[OF sx]) (auto intro: f64_le_trans)
    then have full: "count_le xs v = length xs" using 1 c by simp
    have "f_abs (1 - cdf_at (count_le ys v) ys) \<le> f_abs (1 - cdf_at j ys)"
      using ne len c ij 1 by (intro distance_shrinks cdf_at_props cdf_at_mono) auto
    then show ?thesis using dist 1(1) full ne len f64_le_trans by (auto simp: cdf_distance_def cdf_at_full)
  next
    case 2
    then have i: "i < length xs" using c by simp
    have "xs ! i \<le> v" using count_le_nth[OF sx(1) 2(2)] .
    moreover have "\<And>k. k < j \<Longrightarrow> ys ! k \<le> xs ! i" using inv i by (auto simp: ks_inv_def)
    ultimately have "j \<le> count_le ys v" using ij by (intro count_le_ge[OF sy]) (auto intro: f64_le_trans)
    then have full: "count_le ys v = length ys" using 2 c by simp
    have "f_abs (cdf_at (count_le xs v) xs - 1) \<le> f_abs (cdf_at i xs - 1)"
      using ne len c ij 2 by (intro distance_shrinks cdf_at_props cdf_at_mono) auto
    then show ?thesis using dist 2(1) full ne len f64_le_trans by (auto simp: cdf_distance_def cdf_at_full)
  qed
qed

definition is_sup_distance :: "f64 list \<Rightarrow> f64 list \<Rightarrow> f64 \<Rightarrow> bool" where
  "is_sup_distance xs ys d \<longleftrightarrow>
     rng 0 1 d \<and> (\<forall>v. cdf_distance xs ys v \<le> d) \<and> (d = 0 \<or> (\<exists>v \<in> set xs \<union> set ys. cdf_distance xs ys v = d))"

lemma ks_loop_correct:
  assumes ne: "xs \<noteq> []" "ys \<noteq> []"
    and sx: "sorted_wrt (\<le>) xs" "NaN \<notin> set xs" "length xs \<le> 2 ^ 53"
    and sy: "sorted_wrt (\<le>) ys" "NaN \<notin> set ys" "length ys \<le> 2 ^ 53"
    and "ks_inv xs ys i j d" "ks_loop xs ys i j d = Some r"
  shows "is_sup_distance xs ys r"
proof -
  let ?P = "\<lambda>us vs i j d r. us = xs \<longrightarrow> vs = ys \<longrightarrow> ks_inv xs ys i j d \<longrightarrow> is_sup_distance xs ys r"
  have "?P xs ys i j d r"
    using \<open>ks_loop xs ys i j d = Some r\<close>
  proof (rule ks_loop.raw_induct[where P = ?P, rotated])
    fix loop us vs i j d r
    assume IH: "\<And>us vs i j d r. loop us vs i j d = Some r \<Longrightarrow> ?P us vs i j d r"
      and r: "(if i < length us \<and> j < length vs then
        let v = f_min (us ! i) (vs ! j); i' = advance us v i; j' = advance vs v j
        in loop us vs i' j' (f_max d (f_abs (cdf_at i' us - cdf_at j' vs)))
       else Some d) = Some r"
    show "?P us vs i j d r"
    proof (intro impI)
      assume e: "us = xs" "vs = ys" and inv: "ks_inv xs ys i j d"
      show "is_sup_distance xs ys r"
      proof (cases "i < length xs \<and> j < length ys")
        case True
        then have "ks_inv xs ys (advance xs (f_min (xs ! i) (ys ! j)) i) (advance ys (f_min (xs ! i) (ys ! j)) j)
          (f_max d (f_abs (cdf_at (advance xs (f_min (xs ! i) (ys ! j)) i) xs
             - cdf_at (advance ys (f_min (xs ! i) (ys ! j)) j) ys)))"
          using ks_step[OF sx sy inv] by blast
        then show ?thesis using True r IH by (simp add: e Let_def)
      next
        case False
        then have "d = r" using r unfolding e by (simp only: if_False option.inject)
        then show ?thesis
          using ks_exit[OF ne sx(3) sy(3) inv False sx(1,2) sy(1,2)] inv
          by (simp add: is_sup_distance_def ks_inv_def)
      qed
    qed
  qed
  then show ?thesis using assms(9) by simp
qed

lemma ks_inv_init:
  assumes "xs \<noteq> []" "ys \<noteq> []" "length xs \<le> 2 ^ 53" "length ys \<le> 2 ^ 53"
  shows "ks_inv xs ys 0 0 0"
proof -
  have z: "cdf_at 0 xs = 0" "cdf_at 0 ys = 0" using assms by (simp_all add: cdf_at_props mk_def zero_f64_def f_zero_def)
  have "(0::f64) - 0 = 0 \<and> f_abs 0 = (0::f64)" by (simp add: zero_f64_def f64_eval)
  then show ?thesis using z by (auto simp: ks_inv_def cdf_distance_def rng_0_1)
qed

text \<open>
  The statistic exists unless both windows hold a NaN, and then the loop runs forever, wherever
  the sort puts the NaNs.
\<close>

lemma ks_returns: "NaN \<notin> set xs \<or> NaN \<notin> set ys \<Longrightarrow> \<exists>d. ks_statistic xs ys = Some d"
  using ks_loop_returns[of "sort_total xs" "sort_total ys" 0 0 0] by (simp add: ks_statistic_def)

lemma ks_hangs: "NaN \<in> set xs \<Longrightarrow> NaN \<in> set ys \<Longrightarrow> ks_statistic xs ys = None"
proof -
  assume n: "NaN \<in> set xs" "NaN \<in> set ys"
  then obtain a b where "a < length (sort_total xs)" "sort_total xs ! a = NaN" "b < length (sort_total ys)" "sort_total ys ! b = NaN"
    by (metis in_set_conv_nth set_sort_total)
  from ks_loop_hangs[OF this, of 0 0 0] n show ?thesis by (auto simp: ks_statistic_def)
qed

lemma ks_correct:
  assumes "xs \<noteq> []" "ys \<noteq> []" "NaN \<notin> set xs" "NaN \<notin> set ys" "length xs \<le> 2 ^ 53" "length ys \<le> 2 ^ 53"
    "ks_statistic xs ys = Some d"
  shows "is_sup_distance xs ys d"
proof -
  have ne: "sort_total xs \<noteq> []" "sort_total ys \<noteq> []" using assms(1,2) by (metis length_0_conv length_sort_total)+
  have "ks_loop (sort_total xs) (sort_total ys) 0 0 0 = Some d" using assms by (simp add: ks_statistic_def)
  from ks_loop_correct[OF ne _ _ _ _ _ _ ks_inv_init this] ne assms
  have "is_sup_distance (sort_total xs) (sort_total ys) d" by (simp add: sort_total_sorted)
  then show ?thesis by (simp add: is_sup_distance_def cdf_distance_sort)
qed

end
