(* ===== verification/EdgeFacts.thy ===== *)
theory EdgeFacts
  imports EdgeValidation Samples
begin

text \<open>
  What the edge validation guarantees: its windows stay in step and within their ranges, its
  scores stay in the unit interval, no size is granted while trading is disabled, losing runs
  always disable trading; and what a NaN does to it.
\<close>

section \<open>Ranges of the statistics\<close>

text \<open>Samples of a magnitude of at most \<open>2 ^ 42\<close> in windows of at most \<open>2 ^ 10\<close> elements.\<close>

lemma length_double:
  assumes "xs \<noteq> []" "length xs \<le> 2 ^ 10"
  shows "f_of_nat (length xs) = Fin (of_nat (length xs))" "fin (f_of_nat (length xs))" "1 \<le> val (f_of_nat (length xs))"
proof -
  show e: "f_of_nat (length xs) = Fin (of_nat (length xs))" using assms(2) by (intro f_of_nat_exact) simp
  have "1 \<le> length xs" using assms(1) by (simp add: Suc_le_eq)
  then show "fin (f_of_nat (length xs))" "1 \<le> val (f_of_nat (length xs))" by (simp_all add: e)
qed

lemma length_minus_one:
  assumes "1 < length xs" "length xs \<le> 2 ^ 10"
  shows "fin (f_of_nat (length xs) - 1)" "1 \<le> val (f_of_nat (length xs) - 1)"
proof -
  have r: "rng 2 (2 ^ 10) (f_of_nat (length xs))" using assms by (simp add: f_of_nat_exact rng_def)
  have "rng 1 (2 ^ 10) (f_of_nat (length xs) - 1)"
    by (rule rng_minus[OF r, of 1 1 1]) (simp_all add: rng_0_1 rng_def)
  then show "fin (f_of_nat (length xs) - 1)" "1 \<le> val (f_of_nat (length xs) - 1)" by (auto simp: rng_def)
qed

lemma mean_mag:
  assumes "\<forall>x \<in> set xs. mag k x" "length xs \<le> 2 ^ 10" "k < 900"
  shows "mag (k + 10) (mean_of xs)"
  using assms f_sum_mag[of xs k 10] length_double[of xs]
  by (auto simp: mean_of_def intro!: mag_divide)

lemma mean_unit:
  assumes "\<forall>x \<in> set xs. rng 0 1 x" "length xs \<le> 2 ^ 10"
  shows "0 \<le> val (mean_of xs)" "mag 10 (mean_of xs)"
proof -
  have "\<forall>x \<in> set xs. mag 0 x" using assms(1) by (auto simp: mag_def rng_def)
  then show m: "mag 10 (mean_of xs)" using mean_mag[of xs 0] assms(2) by simp
  have "0 \<le> f_sum xs" using assms(1) by (intro f_sum_nonneg) (auto simp: rng_iff_le zero_f64_def)
  then have "0 \<le> mean_of xs" using length_double[of xs] assms(2)
    by (auto simp: mean_of_def intro!: divide_nonneg)
  then show "0 \<le> val (mean_of xs)" using mag_fin[OF m] by (simp add: fin_le_iff)
qed

lemma central_sums_eq:
  "central_sums m xs =
     (f_sum (map (\<lambda>v. (v - m) * (v - m)) xs), f_sum (map (\<lambda>v. (v - m) * (v - m) * (v - m)) xs))"
proof -
  have "foldl (\<lambda>(m2, m3) v. let delta = v - m in (m2 + delta * delta, m3 + delta * delta * delta)) (a, b) xs =
     (foldl (+) a (map (\<lambda>v. (v - m) * (v - m)) xs), foldl (+) b (map (\<lambda>v. (v - m) * (v - m) * (v - m)) xs))" for a b
    by (induction xs arbitrary: a b) (simp_all add: Let_def)
  then show ?thesis by (simp add: central_sums_def f_sum_def)
qed

lemma square_nonneg: "fin x \<Longrightarrow> 0 \<le> x * x"
  by (simp add: times_fin mk_nonneg)

lemma moments_ok:
  assumes "\<forall>x \<in> set xs. mag 42 x" "length xs \<le> 2 ^ 10"
  shows "mag 52 (mo_mean (rolling_moments xs))" "rng 0 (2 ^ 116) (mo_variance (rolling_moments xs))"
    "mo_skew (rolling_moments xs) \<noteq> NaN"
proof -
  define m where "m = mean_of xs"
  have m: "mag 52 m" using mean_mag[OF assms(1,2)] by (simp add: m_def)
  have d: "mag 53 (x - m)" if "x \<in> set xs" for x
    using mag_minus[of 52 x m] m assms(1) that mag_mono[of 42 x 52] by simp
  have d2: "mag 106 ((x - m) * (x - m))" if "x \<in> set xs" for x
    using mag_times[OF d[OF that] d[OF that]] by simp
  have d3: "mag 159 ((x - m) * (x - m) * (x - m))" if "x \<in> set xs" for x
    using mag_times[OF d2[OF that] d[OF that]] by simp
  obtain m2 m3 where s: "central_sums m xs = (m2, m3)" by fastforce
  have m2: "mag 116 m2"
    using f_sum_mag[of "map (\<lambda>v. (v - m) * (v - m)) xs" 106 10] d2 assms(2) s by (auto simp: central_sums_eq)
  have m3: "mag 169 m3"
    using f_sum_mag[of "map (\<lambda>v. (v - m) * (v - m) * (v - m)) xs" 159 10] d3 assms(2) s by (auto simp: central_sums_eq)
  have m2n: "0 \<le> m2"
    using f_sum_nonneg[of "map (\<lambda>v. (v - m) * (v - m)) xs"] s d by (auto simp: central_sums_eq intro: square_nonneg mag_fin)
  define var where "var = (if 1 < length xs then m2 / (f_of_nat (length xs) - 1) else 0)"
  have v: "rng 0 (2 ^ 116) var"
  proof (cases "1 < length xs")
    case True
    note l = length_minus_one[OF True assms(2)]
    have "mag 116 var" using True m2 l by (simp add: var_def mag_divide)
    moreover have "0 \<le> var" using True m2n l by (simp add: var_def divide_nonneg)
    ultimately show ?thesis by (auto simp: mag_def rng_def fin_le_iff)
  qed (simp add: var_def rng_0_1)
  define skew where "skew = (if var \<le> f_epsilon then 0 else (m3 / f_of_nat (length xs)) / f_cube (f_sqrt var))"
  have k: "skew \<noteq> NaN" if ne: "xs \<noteq> []"
  proof (cases "var \<le> f_epsilon")
    case False
    have "f_epsilon < var" using False v by (auto simp: fin_le_iff fin_less_iff rng_def)
    have v': "rng 0 (2 ^ (2 * 58)) var" using v by simp
    have r: "rng (1 / 2 ^ 26) (2 ^ 59) (f_sqrt var)"
      using f_sqrt_fin[OF v'] f_sqrt_positive[OF \<open>f_epsilon < var\<close> v'] by (simp add: rng_def)
    have b: "bound (1 / 2 ^ 52)" "bound (1 / 2 ^ 78)" "bound (2 ^ 118)" "bound (2 ^ 177)"
      using bound_dyadic[of 1 52] bound_dyadic[of 1 78] bound_pow2(1)[of 118] bound_pow2(1)[of 177] by (simp_all del: power_numeral)
    have "rng (1 / 2 ^ 52) (2 ^ 118) (f_sqrt var * f_sqrt var)"
      by (rule rng_times_nonneg[OF r r _ _ b(1,3)]) simp_all
    from rng_times_nonneg[OF r this _ _ b(2,4)] have c: "rng (1 / 2 ^ 78) (2 ^ 177) (f_cube (f_sqrt var))"
      by (simp add: f_cube_def)
    then have "1 / 2 ^ 78 \<le> val (f_cube (f_sqrt var))" "fin (f_cube (f_sqrt var))" by (auto simp: rng_def)
    then have "0 < val (f_cube (f_sqrt var))" "fin (f_cube (f_sqrt var))" by (auto intro: less_le_trans[rotated])
    moreover have "fin (m3 / f_of_nat (length xs))"
      using m3 length_double[OF ne assms(2)] by (auto intro!: mag_fin[OF mag_divide])
    ultimately show ?thesis using False by (simp add: skew_def divide_not_nan)
  qed (simp add: skew_def)
  have e: "rolling_moments xs = (if xs = [] then \<lparr>mo_mean = 0, mo_variance = 0, mo_skew = 0\<rparr>
      else \<lparr>mo_mean = m, mo_variance = var, mo_skew = skew\<rparr>)"
    by (simp add: rolling_moments_def m_def[symmetric] s var_def skew_def Let_def)
  show "mag 52 (mo_mean (rolling_moments xs))" "rng 0 (2 ^ 116) (mo_variance (rolling_moments xs))"
    "mo_skew (rolling_moments xs) \<noteq> NaN"
    using m v k by (auto simp: e rng_0_1)
qed

lemma sharpe_not_nan:
  assumes "\<forall>x \<in> set xs. mag 42 x" "length xs \<le> 2 ^ 10"
  shows "rolling_sharpe_like xs \<noteq> NaN"
proof (cases "mo_variance (rolling_moments xs) \<le> f_epsilon")
  case False
  note m = moments_ok[OF assms]
  have v: "rng 0 (2 ^ (2 * 58)) (mo_variance (rolling_moments xs))" using m(2) by simp
  have "f_epsilon < mo_variance (rolling_moments xs)" using False m(2) by (auto simp: fin_le_iff fin_less_iff rng_def)
  from f_sqrt_positive[OF this v] have "0 < val (f_sqrt (mo_variance (rolling_moments xs)))"
    by (auto intro: less_le_trans[rotated])
  moreover have "fin (f_sqrt (mo_variance (rolling_moments xs)))" using f_sqrt_fin[OF v] by (auto simp: rng_def)
  ultimately show ?thesis using mag_not_nan[OF m(1)] False
    by (simp add: rolling_sharpe_like_def Let_def divide_not_nan')
qed (simp add: rolling_sharpe_like_def Let_def)

section \<open>Ranges of the scores\<close>

lemma unit_mag: "rng 0 1 x \<Longrightarrow> mag 0 x"
  by (auto simp: mag_def rng_def)

lemma lit_unit_mag: "0 \<le> q \<Longrightarrow> q \<le> 1 \<Longrightarrow> mag 0 (lit q)"
  by (rule unit_mag) (simp add: rng_lit)

lemma unit_complement: "rng 0 1 x \<Longrightarrow> rng 0 1 (1 - x)"
  by (rule rng_minus[of 1 1]) (auto simp: rng_def)

lemma weight_unit: "0 \<le> q \<Longrightarrow> q \<le> 1 \<Longrightarrow> rng 0 1 x \<Longrightarrow> rng 0 1 (lit q * x)" "0 \<le> q \<Longrightarrow> q \<le> 1 \<Longrightarrow> rng 0 1 x \<Longrightarrow> rng 0 1 (x * lit q)"
  by (rule rng_times_nonneg[where a = 0 and b = 1 and c = 0 and d = 1]; simp add: rng_lit)+

lemma f_clamp_fin_unit: "fin x \<Longrightarrow> rng 0 1 (f_clamp x 0 1)"
  by (simp add: f_clamp_unit)

text \<open>Sums of a few terms of the unit interval.\<close>

lemma fin_sum: "mag j x \<Longrightarrow> mag k y \<Longrightarrow> j < 100 \<Longrightarrow> k < 100 \<Longrightarrow> mag (Suc (max j k)) (x + y)"
  "mag j x \<Longrightarrow> mag k y \<Longrightarrow> j < 100 \<Longrightarrow> k < 100 \<Longrightarrow> mag (Suc (max j k)) (x - y)"
  by (intro mag_plus mag_minus; auto intro: mag_mono)+

lemma f_mul_add_not_nan: "fin x \<Longrightarrow> fin y \<Longrightarrow> fin z \<Longrightarrow> f_mul_add x y z \<noteq> NaN"
  by (simp add: f_mul_add_def plus_not_nan times_not_nan)

lemma reliability_unit:
  assumes "m \<noteq> NaN" "var \<noteq> NaN" "skew \<noteq> NaN" "sharpe \<noteq> NaN" "capture \<noteq> NaN" "competition \<noteq> NaN" "ema \<noteq> NaN"
  shows "rng 0 1 (reliability_score m var skew sharpe capture competition ema)"
proof -
  let ?p1 = "f_clamp (f_abs m / lit 10) 0 1" and ?p2 = "f_clamp (var / lit 25) 0 1"
    and ?p3 = "f_clamp (f_abs skew / lit 4) 0 1" and ?p4 = "f_clamp ((sharpe + 1) / lit 3) 0 1"
    and ?p5 = "f_clamp ((capture + lit 0.5) / lit 1.5) 0 1" and ?p6 = "f_clamp competition 0 1"
    and ?e = "f_clamp ema 0 (lit 0.95)"
  have l: "fin (lit 10)" "fin (lit 25)" "fin (lit 4)" "fin (lit 3)" "fin (lit 1.5)" "fin (lit 0.5)"
    "val (lit 10) \<noteq> 0" "val (lit 25) \<noteq> 0" "val (lit 4) \<noteq> 0" "val (lit 3) \<noteq> 0" "val (lit 1.5) \<noteq> 0"
    by (simp_all add: f64_eval)
  have p: "rng 0 1 ?p1" "rng 0 1 ?p2" "rng 0 1 ?p3" "rng 0 1 ?p4" "rng 0 1 ?p5" "rng 0 1 ?p6"
    using assms l by (auto intro!: f_clamp_unit simp: divide_not_nan' plus_not_nan(2))
  have e: "rng 0 1 ?e" using assms by (intro f_clamp_lit[of _ 0, simplified]) auto
  have t: "mag 0 (lit 0.40 * (1 - ?p1))" "mag 0 (lit 0.18 * (1 - ?p2))" "mag 0 (lit 0.07 * (1 - ?p3))"
    "mag 0 (lit 0.20 * ?p4)" "mag 0 (lit 0.10 * ?p5)" "mag 0 (lit 0.15 * ?p6)"
    using p by (auto intro!: unit_mag weight_unit unit_complement)
  have a: "mag 5 (lit 0.40 * (1 - ?p1) + lit 0.18 * (1 - ?p2) + lit 0.07 * (1 - ?p3) + lit 0.20 * ?p4
      + lit 0.10 * ?p5 - lit 0.15 * ?p6)"
    using fin_sum(2)[OF fin_sum(1)[OF fin_sum(1)[OF fin_sum(1)[OF fin_sum(1)[OF t(1) t(2)] t(3)] t(4)] t(5)] t(6)]
    by (simp add: eval_nat_numeral)
  have b: "rng 0 1 (1 - ?e * lit 0.35)" using e by (intro unit_complement weight_unit) auto
  show ?thesis
    unfolding reliability_score_def Let_def
    using a b by (intro f_clamp_unit f_mul_add_not_nan) (auto intro: mag_fin rngD)
qed

lemma competition_unit:
  assumes "mean_of expected \<noteq> NaN" "mean_of fills \<noteq> NaN" "mean_of slips \<noteq> NaN" "mean_of flags \<noteq> NaN"
  shows "rng 0 1 (competition_score expected fills slips flags)"
proof -
  have l: "fin (lit 4)" "fin (lit 12)" "fin (lit 20)" "val (lit 4) \<noteq> 0" "val (lit 12) \<noteq> 0" "val (lit 20) \<noteq> 0"
    by (simp_all add: f64_eval)
  let ?p1 = "f_clamp (f_max (mean_of expected) 0 / lit 4) 0 1" and ?p2 = "f_clamp (1 - mean_of fills) 0 1"
    and ?p3 = "f_clamp (mean_of flags) 0 1"
    and ?p4 = "if coefficient_of_variation expected < 1 then f_clamp (mean_of slips / lit 12) 0 1 else f_clamp (mean_of slips / lit 20) 0 1"
  have p: "rng 0 1 ?p1" "rng 0 1 ?p2" "rng 0 1 ?p3" "rng 0 1 ?p4"
    using assms l by (auto intro!: f_clamp_unit simp: divide_not_nan' minus_not_nan f_max_not_nan)
  have t: "mag 0 (lit 0.25 * ?p1)" "mag 0 (lit 0.30 * ?p2)" "mag 0 (lit 0.25 * ?p3)" "mag 0 (lit 0.20 * ?p4)"
    using p by (intro unit_mag weight_unit; simp)+
  from mag_fin[OF fin_sum(1)[OF fin_sum(1)[OF fin_sum(1)[OF t(1) t(2)] t(3)] t(4)]] show ?thesis
    unfolding competition_score_def Let_def by (intro f_clamp_fin_unit) simp
qed

lemma quality_unit:
  assumes "fill \<noteq> NaN" "slip \<noteq> NaN" "competition \<noteq> NaN"
  shows "rng 0 1 (execution_quality fill slip competition)"
proof -
  have l: "fin (lit 15)" "val (lit 15) \<noteq> 0" by (simp_all add: f64_eval)
  have p: "rng 0 1 (f_clamp fill 0 1)" "rng 0 1 (1 - f_clamp (f_abs slip / lit 15) 0 1)" "rng 0 1 (1 - f_clamp competition 0 1)"
    using assms l by (auto intro!: unit_complement f_clamp_unit simp: divide_not_nan')
  have t: "mag 0 (lit 0.50 * f_clamp fill 0 1)" "mag 0 (lit 0.30 * (1 - f_clamp (f_abs slip / lit 15) 0 1))"
    "mag 0 (lit 0.20 * (1 - f_clamp competition 0 1))"
    using p by (intro unit_mag weight_unit; simp)+
  from mag_fin[OF fin_sum(1)[OF fin_sum(1)[OF t(1) t(2)] t(3)]] show ?thesis
    unfolding execution_quality_def by (intro f_clamp_fin_unit) simp
qed

text \<open>The regime memory of a symbol's regime, and the size it allows.\<close>

definition memory_ok :: "regime_memory \<Rightarrow> bool" where
  "memory_ok m \<longleftrightarrow> rng 0 1 (rm_reliability m) \<and> rng 0 1 (rm_execution_quality m) \<and> rng (- 8) 8 (rm_capture m)"

lemma memory_ok_default: "memory_ok regime_memory_default"
  by (simp add: memory_ok_def regime_memory_default_def rng_def)

lemma edge_ewma_8:
  "rng 0 1 x \<Longrightarrow> rng 0 1 y \<Longrightarrow> rng 0 1 (edge_ewma x y (lit (2 / 25)))"
  "rng (- 8) 8 x \<Longrightarrow> rng (- 8) 8 y \<Longrightarrow> rng (- 8) 8 (edge_ewma x y (lit (2 / 25)))"
  unfolding edge_ewma_def by (rule rng_mix; simp add: f64_eval)+

lemma edge_ewma_18: "rng 0 1 x \<Longrightarrow> rng 0 1 y \<Longrightarrow> rng 0 1 (edge_ewma x y (lit (9 / 50)))"
  unfolding edge_ewma_def by (rule rng_mix; simp add: f64_eval)

lemma update_memory_ok:
  "memory_ok m \<Longrightarrow> rng 0 1 r \<Longrightarrow> rng 0 1 q \<Longrightarrow> rng (- 8) 8 c \<Longrightarrow> memory_ok (update_memory m r p q c)"
  by (auto simp: memory_ok_def update_memory_def Let_def edge_ewma_8)

lemma memory_factor_range:
  assumes "memory_ok m"
  shows "rng 0 (val (lit (11 / 10))) (regime_memory_factor m)"
proof -
  have l: "fin (lit (7 / 20))" "fin (lit (11 / 10))" "val (lit (7 / 20)) \<le> val (lit (11 / 10))" "0 \<le> val (lit (7 / 20))"
    "rng 0 (val (lit (11 / 10))) (lit (17 / 20))" by (simp_all add: f64_eval rng_def)
  have "rng 0 8 (f_max (rm_capture m) 0)" using assms rng_f_max[of "- 8" 8 "rm_capture m" 0 0 0]
    by (auto simp: memory_ok_def rng_0_1)
  then have "mag 3 (f_max (rm_capture m) 0)" by (auto simp: mag_def rng_def)
  then have "mag 3 (f_max (rm_capture m) 0 * lit (1 / 20))" using mag_times[of 3 _ 0 "lit (1 / 20)"] lit_unit_mag[of "1 / 20"] by simp
  moreover have "mag 0 (lit (13 / 20))" "mag 0 (rm_reliability m * lit (1 / 5))" "mag 0 (rm_execution_quality m * lit (1 / 10))"
    using assms by (auto simp: memory_ok_def rng_lit intro!: unit_mag weight_unit)
  ultimately have "mag (Suc (max (Suc (max (Suc (max 0 0)) 0)) 3)) (lit (13 / 20) + rm_reliability m * lit (1 / 5)
      + rm_execution_quality m * lit (1 / 10) + f_max (rm_capture m) 0 * lit (1 / 20))"
    by (intro fin_sum) simp_all
  then have "rng (val (lit (7 / 20))) (val (lit (11 / 10))) (f_clamp (lit (13 / 20) + rm_reliability m * lit (1 / 5)
      + rm_execution_quality m * lit (1 / 10) + f_max (rm_capture m) 0 * lit (1 / 20)) (lit (7 / 20)) (lit (11 / 10)))"
    using l by (intro f_clamp_rng) (auto dest: mag_not_nan)
  then show ?thesis using l by (auto simp: regime_memory_factor_def intro: rng_weaken)
qed

lemma rng_zero_times: "rng 0 0 x \<Longrightarrow> fin y \<Longrightarrow> rng 0 0 (x * y)" "fin x \<Longrightarrow> rng 0 0 y \<Longrightarrow> rng 0 0 (x * y)"
  by (auto simp: times_fin rng_def mk_def Let_def)

lemma clamp_zero: "rng 0 0 x \<Longrightarrow> fin hi \<Longrightarrow> 0 \<le> val hi \<Longrightarrow> rng 0 0 (f_clamp x 0 hi)"
  by (subst f_clamp_id[of 0 0]) auto

lemma drawdown_factor_unit: "d \<noteq> NaN \<Longrightarrow> rng 0 1 (f_clamp (1 - d * lit 1.35) 0 1)"
proof -
  have "fin (lit 1.35)" "val (lit 1.35) \<noteq> 0" by (simp_all add: f64_eval)
  then show "d \<noteq> NaN \<Longrightarrow> rng 0 1 (f_clamp (1 - d * lit 1.35) 0 1)"
    by (intro f_clamp_unit minus_not_nan) (simp_all only: times_not_nan' val_Fin_0 simp_thms)
qed

text \<open>The size: within 1.1 of the configured one, and zero for an invalid edge or a saturated market.\<close>

lemma dynamic_multiplier_range:
  assumes "rng 0 1 r" "d \<noteq> NaN"
  shows "rng 0 1 (dynamic_position_size_multiplier r st rg d)"
    "st = Invalid \<Longrightarrow> rng 0 0 (dynamic_position_size_multiplier r st rg d)"
proof -
  define s where "s = (case st of Valid \<Rightarrow> 1 | Uncertain \<Rightarrow> lit 0.65 | Invalid \<Rightarrow> 0)"
  define g where "g = (case rg of Stable \<Rightarrow> 1 | Decaying \<Rightarrow> lit 0.75 | Unstable \<Rightarrow> lit 0.40)"
  define f where "f = f_clamp (1 - d * lit 1.35) 0 1"
  have e: "dynamic_position_size_multiplier r st rg d = f_clamp (f_clamp r 0 1 * s * g * f) 0 1"
    unfolding dynamic_position_size_multiplier_def Let_def s_def g_def f_def ..
  have c: "f_clamp r 0 1 = r" using assms(1) by (intro f_clamp_id[of 0 1]) auto
  have u: "rng 0 1 s" "rng 0 1 g" "rng 0 1 f"
    unfolding f_def
    by (simp_all only: drawdown_factor_unit[OF assms(2)])
       (auto simp: s_def g_def rng_lit rng_0_1 split: edge_state.splits edge_regime.splits)
  have m: "rng 0 1 x \<Longrightarrow> rng 0 1 y \<Longrightarrow> rng 0 1 (x * y)" for x y
    by (rule rng_times_nonneg[where a = 0 and b = 1 and c = 0 and d = 1]) auto
  have "rng 0 1 (r * s * g * f)" using assms(1) u by (intro m)
  then show "rng 0 1 (dynamic_position_size_multiplier r st rg d)" unfolding e c by (auto intro: f_clamp_unit dest: rngD)
  assume "st = Invalid"
  then have "rng 0 0 s" by (simp add: s_def rng_0_1)
  then have "rng 0 0 (r * s * g * f)" using assms(1) u by (intro rng_zero_times) (auto dest: rngD)
  then show "rng 0 0 (dynamic_position_size_multiplier r st rg d)" unfolding e c by (simp add: clamp_zero)
qed

lemma multiplier_range:
  assumes "rng 0 1 r" "d \<noteq> NaN" "memory_ok m"
  shows "rng 0 (val (lit (11 / 10))) (position_size_multiplier r st rg c d m)"
    "st = Invalid \<or> c = Saturated \<Longrightarrow> rng 0 0 (position_size_multiplier r st rg c d m)"
proof -
  let ?h = "val (lit (11 / 10))" and ?d = "dynamic_position_size_multiplier r st rg d"
  have l: "fin (lit (5 / 4))" "?h \<le> val (lit (5 / 4))" "0 \<le> val (lit (5 / 4))" by (simp_all add: f64_eval)
  have h: "bound ?h" using repr_val_mk[of False "11 / 10"] by (simp add: lit_def[symmetric] bound_def huge_def f64_eval)
  have f: "rng 0 ?h (regime_memory_factor m)" by (rule memory_factor_range[OF assms(3)])
  have k: "rng 0 1 (competition_factor c)" by (cases c) (simp_all add: rng_lit rng_0_1)
  have "rng 0 1 (?d * competition_factor c)"
    by (rule rng_times_nonneg[OF dynamic_multiplier_range(1)[OF assms(1,2)] k]) auto
  from rng_times_nonneg[OF this f, of 0 ?h] have p: "rng 0 ?h (?d * competition_factor c * regime_memory_factor m)"
    using h by simp
  show "rng 0 ?h (position_size_multiplier r st rg c d m)"
    unfolding position_size_multiplier_def using f_clamp_id[OF p] p l by simp
  assume "st = Invalid \<or> c = Saturated"
  then have "rng 0 0 (?d * competition_factor c)"
  proof
    assume "st = Invalid"
    then show ?thesis using dynamic_multiplier_range(2)[OF assms(1,2)] k by (intro rng_zero_times(1)) (auto dest: rngD)
  next
    assume "c = Saturated"
    then show ?thesis using dynamic_multiplier_range(1)[OF assms(1,2), of st rg]
      by (intro rng_zero_times(2)) (auto simp: rng_0_1 dest: rngD)
  qed
  then have "rng 0 0 (?d * competition_factor c * regime_memory_factor m)"
    by (rule rng_zero_times(1)) (use f in \<open>auto dest: rngD\<close>)
  then show "rng 0 0 (position_size_multiplier r st rg c d m)"
    using l by (simp add: position_size_multiplier_def clamp_zero)
qed

section \<open>The invariant of the engine\<close>

text \<open>
  The windows have the same length, at most the capacity (assumed to be at most 1024; the program
  uses 128), and hold what a sample of bounded magnitudes puts there.
\<close>

definition sample_ok :: "learning_sample \<Rightarrow> bool" where
  "sample_ok x \<longleftrightarrow>
     mag 40 (ls_expected_markout x) \<and> mag 40 (ls_realized_markout x) \<and> mag 40 (ls_pnl x)
     \<and> mag 40 (ls_execution_alpha x) \<and> mag 40 (ls_actual_slippage_bps x) \<and> ls_fill_ratio x \<noteq> NaN
     \<and> ls_duration_ms x < 2 ^ 40"

definition stat_windows :: "edge_engine \<Rightarrow> f64 list list" where
  "stat_windows v = [vl_expected_edges v, vl_realized_markouts v, vl_realized_pnls v, vl_adjusted_returns v,
     vl_edge_errors v, vl_capture_ratios v, vl_execution_alphas v, vl_slippages v]"

definition unit_windows :: "edge_engine \<Rightarrow> f64 list list" where
  "unit_windows v = [vl_fill_rates v, vl_outbid_flags v]"

definition report_windows :: "edge_engine \<Rightarrow> f64 list list" where
  "report_windows v = [vl_edge_components v, vl_execution_losses v, vl_fees_rebates v, vl_adverse_losses v]"

definition regime_keys :: "string list" where
  "regime_keys = [''wide_spread'', ''high_vol'', ''trending'', ''normal'']"

lemma regime_bucket_key: "regime_bucket r \<in> set regime_keys"
  by (simp add: regime_bucket_def regime_keys_def)

definition engine_ok :: "edge_engine \<Rightarrow> bool" where
  "engine_ok v \<longleftrightarrow>
     0 < vl_capacity v \<and> vl_capacity v \<le> 2 ^ 10 \<and> length (vl_realized_pnls v) \<le> vl_capacity v
     \<and> (\<forall>w \<in> set (stat_windows v @ unit_windows v @ report_windows v). length w = length (vl_realized_pnls v))
     \<and> length (vl_competition_states v) = length (vl_realized_pnls v)
     \<and> (\<forall>w \<in> set (stat_windows v). \<forall>x \<in> set w. mag 42 x)
     \<and> (\<forall>w \<in> set (unit_windows v). \<forall>x \<in> set w. rng 0 1 x)
     \<and> rng 0 1 (vl_failure_ema v)
     \<and> dom (vl_regime_memory v) \<subseteq> set regime_keys \<and> (\<forall>m \<in> ran (vl_regime_memory v). memory_ok m)"

lemmas window_defs = stat_windows_def unit_windows_def report_windows_def

lemma engine_ok_new: "win \<le> 2 ^ 10 \<Longrightarrow> engine_ok (edge_engine_new win)"
  by (simp add: engine_ok_def window_defs edge_engine_new_def rng_0_1)

lemma failure_severity_unit: "rng 0 1 (failure_severity r)"
  by (cases r) (simp_all add: rng_lit)

lemma observe_failure_ok: "engine_ok v \<Longrightarrow> engine_ok (observe_failure v r)"
  using edge_ewma_18[OF _ failure_severity_unit, of "vl_failure_ema v" r] by (simp add: engine_ok_def window_defs observe_failure_def)

lemma filter_noise_mag: "mag k x \<Longrightarrow> mag k (filter_noise x)"
  by (simp add: filter_noise_def)

lemma f_clamp_mag3: "x \<noteq> NaN \<Longrightarrow> rng (- 8) 8 (f_clamp x (lit (- 5)) (lit 5))"
  by (rule f_clamp_lit) simp_all

lemma capture_range:
  assumes "sample_ok x"
  shows "rng (- 8) 8 (sample_capture x)" "mag 42 (sample_capture x)"
proof -
  let ?e = "filter_noise (ls_expected_markout x)"
  have m: "mag 40 ?e" "mag 40 (filter_noise (ls_pnl x))" using assms by (auto simp: sample_ok_def filter_noise_mag)
  have "val ?e \<noteq> 0" if "NOISE_FLOOR < f_abs ?e"
  proof -
    have "fin NOISE_FLOOR" "0 < val NOISE_FLOOR" by (simp_all add: NOISE_FLOOR_def f64_eval)
    then show ?thesis using that m(1) by (auto simp: fin_less_iff mag_fin)
  qed
  then show r: "rng (- 8) 8 (sample_capture x)"
    using m by (auto simp: sample_capture_def Let_def rng_def mag_fin mag_not_nan divide_not_nan intro!: f_clamp_mag3[unfolded rng_def])
  then have "mag 3 (sample_capture x)" by (auto simp: mag_def rng_def)
  then show "mag 42 (sample_capture x)" by (rule mag_mono) simp
qed

lemma adjusted_mag: "sample_ok x \<Longrightarrow> mag 42 (adjusted_return x)"
proof -
  assume x: "sample_ok x"
  have s: "mag 40 (f_abs (ls_actual_slippage_bps x))" using x by (auto simp: sample_ok_def mag_def)
  have "unat (ls_duration_ms x) < 2 ^ 40"
    using x unat_mono[of "ls_duration_ms x" "2 ^ 40"] by (simp add: sample_ok_def)
  then have "mag 40 (f_of_word (ls_duration_ms x))"
    unfolding f_of_word_def by (intro f_of_nat_mag) simp_all
  then have d: "mag 40 (f_of_word (ls_duration_ms x) * lit 0.0005)"
    using mag_times[of 40 _ 0 "lit 0.0005"] lit_unit_mag by simp
  have p: "mag 40 (filter_noise (ls_pnl x))" using x by (auto simp: sample_ok_def filter_noise_mag)
  have "mag 40 (f_abs (ls_actual_slippage_bps x) * lit 0.20)"
    using mag_times[OF s, of 0 "lit 0.20"] lit_unit_mag by simp
  from mag_minus[OF p this] mag_mono[OF d, of 41] show ?thesis
    unfolding adjusted_return_def
    using mag_minus[of 41 "filter_noise (ls_pnl x) - f_abs (ls_actual_slippage_bps x) * lit 0.20"] by simp
qed

text \<open>A sample adds one value to each window.\<close>

definition push_windows :: "nat \<Rightarrow> f64 list list \<Rightarrow> f64 list \<Rightarrow> f64 list list" where
  "push_windows n ws ys = map2 (\<lambda>w y. push_capped w y n) ws ys"

lemma push_windows_all:
  "\<forall>w \<in> set ws. \<forall>x \<in> set w. P x \<Longrightarrow> \<forall>y \<in> set ys. P y \<Longrightarrow> \<forall>w \<in> set (push_windows n ws ys). \<forall>x \<in> set w. P x"
proof (intro ballI)
  fix w x
  assume a: "\<forall>w \<in> set ws. \<forall>x \<in> set w. P x" "\<forall>y \<in> set ys. P y" "w \<in> set (push_windows n ws ys)" "x \<in> set w"
  from a(3) obtain q y where z: "(q, y) \<in> set (zip ws ys)" and w: "w = push_capped q y n"
    by (auto simp: push_windows_def)
  have "x \<in> insert y (set q)" using a(4) set_push_capped[of q y n] unfolding w by (rule subsetD[rotated])
  then show "P x" using bspec[OF bspec[OF a(1) set_zip_leftD[OF z]]] bspec[OF a(2) set_zip_rightD[OF z]] by (cases "x = y") auto
qed

lemma length_push_capped: "0 < n \<Longrightarrow> length (push_capped q y n) = (if length q = n then n else Suc (length q))"
  by (auto simp: push_capped_def)

lemma push_windows_length:
  "0 < n \<Longrightarrow> \<forall>w \<in> set ws. length w = l \<Longrightarrow> \<forall>w \<in> set (push_windows n ws ys). length w = (if l = n then n else Suc l)"
  unfolding push_windows_def by (auto simp: length_push_capped dest: set_zip_leftD)

lemma push_sample_windows:
  "stat_windows (push_sample v x) = push_windows (vl_capacity v) (stat_windows v)
     [filter_noise (ls_expected_markout x), filter_noise (ls_realized_markout x), filter_noise (ls_pnl x),
      adjusted_return x, filter_noise (ls_expected_markout x) - filter_noise (ls_realized_markout x),
      sample_capture x, filter_noise (ls_execution_alpha x), f_max (ls_actual_slippage_bps x) 0]"
  "unit_windows (push_sample v x) = push_windows (vl_capacity v) (unit_windows v)
     [f_clamp (ls_fill_ratio x) 0 1,
      if ls_competition_state x = Competitive \<or> ls_competition_state x = Saturated then 1 else 0]"
  "report_windows (push_sample v x) = push_windows (vl_capacity v) (report_windows v)
     [ls_edge_component x, f_max (ls_execution_loss x) 0, ls_fees_rebates_component x,
      f_max (ls_adverse_selection_loss x) 0]"
  by (simp_all add: window_defs push_sample_def push_windows_def Let_def)

lemma push_sample_fields:
  "vl_capacity (push_sample v x) = vl_capacity v"
  "vl_realized_pnls (push_sample v x) = push_capped (vl_realized_pnls v) (filter_noise (ls_pnl x)) (vl_capacity v)"
  "vl_competition_states (push_sample v x) = push_capped (vl_competition_states v) (ls_competition_state x) (vl_capacity v)"
  "vl_failure_ema (push_sample v x) = vl_failure_ema v" "vl_regime_memory (push_sample v x) = vl_regime_memory v"
  "vl_min_samples (push_sample v x) = vl_min_samples v"
  "vl_negative_capture_streak (push_sample v x) = vl_negative_capture_streak v"
  by (simp_all add: push_sample_def Let_def)

lemma update_streak_fields:
  "stat_windows (update_streak v c) = stat_windows v" "unit_windows (update_streak v c) = unit_windows v"
  "report_windows (update_streak v c) = report_windows v"
  by (simp_all add: window_defs update_streak_def)

lemma update_streak_ok: "engine_ok (update_streak v c) = engine_ok v"
  unfolding engine_ok_def update_streak_fields by (simp add: update_streak_def)

lemma push_sample_ok:
  assumes "engine_ok v" "sample_ok x"
  shows "engine_ok (push_sample v x)"
proof -
  have x: "mag 42 (filter_noise (ls_expected_markout x))" "mag 42 (filter_noise (ls_realized_markout x))"
    "mag 42 (filter_noise (ls_pnl x))" "mag 42 (filter_noise (ls_execution_alpha x))"
    using assms(2) by (auto simp: sample_ok_def intro!: filter_noise_mag intro: mag_mono)
  have e: "mag 42 (filter_noise (ls_expected_markout x) - filter_noise (ls_realized_markout x))"
    using assms(2) by (intro mag_mono[OF mag_minus[of 40]] filter_noise_mag) (auto simp: sample_ok_def)
  have s: "mag 42 (f_max (ls_actual_slippage_bps x) 0)"
    using assms(2) by (auto simp: sample_ok_def intro!: mag_select intro: mag_mono)
  have r: "rng 0 1 (f_clamp (ls_fill_ratio x) 0 1)" using assms(2) by (intro f_clamp_unit) (simp add: sample_ok_def)
  let ?n = "vl_capacity v" and ?l = "length (vl_realized_pnls v)"
  have n: "0 < ?n" "?l \<le> ?n" using assms(1) by (auto simp: engine_ok_def)
  have l: "length (vl_realized_pnls (push_sample v x)) = (if ?l = ?n then ?n else Suc ?l)"
    "length (vl_competition_states (push_sample v x)) = (if ?l = ?n then ?n else Suc ?l)"
    using assms(1) n by (auto simp: push_sample_fields length_push_capped engine_ok_def)
  have "\<forall>w \<in> set (stat_windows (push_sample v x) @ unit_windows (push_sample v x) @ report_windows (push_sample v x)).
      length w = (if ?l = ?n then ?n else Suc ?l)"
    unfolding push_sample_windows set_append ball_Un using assms(1) n
    by (intro conjI push_windows_length) (auto simp: engine_ok_def)
  moreover have "\<forall>w \<in> set (stat_windows (push_sample v x)). \<forall>y \<in> set w. mag 42 y"
    unfolding push_sample_windows using assms(1) x e s capture_range(2)[OF assms(2)] adjusted_mag[OF assms(2)]
    by (intro push_windows_all) (auto simp: engine_ok_def)
  moreover have "\<forall>w \<in> set (unit_windows (push_sample v x)). \<forall>y \<in> set w. rng 0 1 y"
    unfolding push_sample_windows using assms(1) r
    by (intro push_windows_all) (auto simp: engine_ok_def rng_0_1)
  ultimately show ?thesis
    using assms(1) n l unfolding engine_ok_def by (simp add: push_sample_fields)
qed

text \<open>The scores of an engine in its invariant.\<close>

lemma engine_ok_windows:
  assumes "engine_ok v" "w \<in> set (stat_windows v)"
  shows "\<forall>x \<in> set w. mag 42 x" "length w \<le> 2 ^ 10"
proof -
  show "\<forall>x \<in> set w. mag 42 x" using assms unfolding engine_ok_def by blast
  have "length w = length (vl_realized_pnls v)" using assms unfolding engine_ok_def set_append by blast
  then show "length w \<le> 2 ^ 10" using assms(1) unfolding engine_ok_def by linarith
qed

lemma engine_ok_units:
  assumes "engine_ok v" "w \<in> set (unit_windows v)"
  shows "\<forall>x \<in> set w. rng 0 1 x" "length w \<le> 2 ^ 10"
proof -
  show "\<forall>x \<in> set w. rng 0 1 x" using assms unfolding engine_ok_def by blast
  have "length w = length (vl_realized_pnls v)" using assms unfolding engine_ok_def set_append by blast
  then show "length w \<le> 2 ^ 10" using assms(1) unfolding engine_ok_def by linarith
qed

lemma engine_competition_unit: "engine_ok v \<Longrightarrow> rng 0 1 (engine_competition v)"
proof -
  assume v: "engine_ok v"
  have "mean_of w \<noteq> NaN" if "w \<in> set (stat_windows v)" for w
    by (rule mag_not_nan[OF mean_mag[OF engine_ok_windows[OF v that]]]) simp
  moreover have "mean_of w \<noteq> NaN" if "w \<in> set (unit_windows v)" for w
    using mean_unit(2)[OF engine_ok_units[OF v that]] by (rule mag_not_nan)
  ultimately show ?thesis unfolding engine_competition_def
    by (intro competition_unit) (auto simp: window_defs)
qed

lemma signed_part_mag:
  assumes "mag 52 a"
  shows "mag 0 (f_signum a * f_min (f_abs a) 1 * lit 0.15)"
proof -
  have "mag 0 (f_signum a)" using f_signum_cases[OF mag_not_nan[OF assms]] by (auto simp: mag_def)
  moreover have "mag 0 (f_min (f_abs a) 1)" using assms by (auto simp: mag_def fin_f_max val_f_min)
  ultimately have "mag 0 (f_signum a * f_min (f_abs a) 1)" using mag_times[of 0 _ 0] by simp
  then show ?thesis using mag_times[of 0 _ 0 "lit 0.15"] lit_unit_mag by simp
qed

lemma engine_reliability_unit: "engine_ok v \<Longrightarrow> rng 0 1 (engine_reliability v)"
proof -
  assume v: "engine_ok v"
  have m: "mag 52 (mo_mean (rolling_moments w))" "mo_variance (rolling_moments w) \<noteq> NaN" "mo_skew (rolling_moments w) \<noteq> NaN"
    "rolling_sharpe_like w \<noteq> NaN" if "w \<in> set (stat_windows v)" for w
    using moments_ok[OF engine_ok_windows[OF v that]] sharpe_not_nan[OF engine_ok_windows[OF v that]] by (auto dest: rngD)
  have w: "vl_edge_errors v \<in> set (stat_windows v)" "vl_capture_ratios v \<in> set (stat_windows v)"
    "vl_execution_alphas v \<in> set (stat_windows v)" "vl_adjusted_returns v \<in> set (stat_windows v)"
    by (simp_all add: stat_windows_def)
  have "mo_mean (rolling_moments (vl_capture_ratios v))
      + f_signum (mo_mean (rolling_moments (vl_execution_alphas v)))
        * f_min (f_abs (mo_mean (rolling_moments (vl_execution_alphas v)))) 1 * lit 0.15 \<noteq> NaN"
    using m(1)[OF w(2)] signed_part_mag[OF m(1)[OF w(3)]] by (intro plus_not_nan) (auto dest: mag_fin mag_not_nan)
  moreover have "vl_failure_ema v \<noteq> NaN" using v by (auto simp: engine_ok_def dest: rngD)
  ultimately show ?thesis
    unfolding engine_reliability_def Let_def
    using m[OF w(1)] m[OF w(4)] engine_competition_unit[OF v]
    by (intro reliability_unit) (auto dest: mag_not_nan rngD)
qed

section \<open>Observations and snapshots\<close>

text \<open>What \<open>observe\<close> does once the statistic has returned.\<close>

definition observed :: "edge_engine \<Rightarrow> learning_sample \<Rightarrow> edge_engine" where
  "observed v x = update_streak (push_sample v x) (sample_capture x)"

definition observed_memory :: "edge_engine \<Rightarrow> learning_sample \<Rightarrow> regime_memory" where
  "observed_memory v x =
     update_memory (memory_of (observed v x) (regime_bucket (ls_regime x))) (engine_reliability (observed v x))
       (filter_noise (ls_pnl x))
       (execution_quality (ls_fill_ratio x) (ls_actual_slippage_bps x) (engine_competition (observed v x)))
       (sample_capture x)"

lemma edge_observe_eq:
  "edge_observe v x d =
     map_option (\<lambda>ks. ((observed v x)\<lparr>vl_regime_memory :=
         (vl_regime_memory (observed v x))(regime_bucket (ls_regime x) \<mapsto> observed_memory v x)\<rparr>,
       build_snapshot (observed v x) ks d (observed_memory v x)))
     (ks_statistic (vl_expected_edges (observed v x)) (vl_realized_markouts (observed v x)))"
  by (simp add: edge_observe_def observed_def[symmetric] observed_memory_def[symmetric] Let_def map_option_case Option.bind_def
      split: option.split)

lemma observed_ok: "engine_ok v \<Longrightarrow> sample_ok x \<Longrightarrow> engine_ok (observed v x)"
  by (simp add: observed_def update_streak_ok push_sample_ok)

lemma memory_of_ok: "engine_ok v \<Longrightarrow> memory_ok (memory_of v k)"
  by (auto simp: memory_of_def engine_ok_def memory_ok_default ran_def split: option.split)

lemma observed_memory_ok:
  assumes "engine_ok v" "sample_ok x"
  shows "memory_ok (observed_memory v x)"
proof -
  note o = observed_ok[OF assms]
  have "rng 0 1 (execution_quality (ls_fill_ratio x) (ls_actual_slippage_bps x) (engine_competition (observed v x)))"
    using assms(2) engine_competition_unit[OF o] by (intro quality_unit) (auto simp: sample_ok_def dest: mag_not_nan rngD)
  then show ?thesis unfolding observed_memory_def
    by (intro update_memory_ok memory_of_ok o engine_reliability_unit capture_range assms(2))
qed

lemma engine_ok_memory:
  "engine_ok v \<Longrightarrow> k \<in> set regime_keys \<Longrightarrow> memory_ok m \<Longrightarrow>
    engine_ok (v\<lparr>vl_regime_memory := (vl_regime_memory v)(k \<mapsto> m)\<rparr>)"
  by (auto simp: engine_ok_def window_defs ran_def)

lemma engine_windows_number:
  assumes "engine_ok v" "w \<in> set (stat_windows v)"
  shows "NaN \<notin> set w"
  using engine_ok_windows(1)[OF assms] mag_not_nan by blast

lemma engine_ks:
  assumes "engine_ok v"
  shows "\<exists>ks. ks_statistic (vl_expected_edges v) (vl_realized_markouts v) = Some ks \<and> rng 0 1 ks"
proof -
  let ?a = "vl_expected_edges v" and ?b = "vl_realized_markouts v"
  have w: "?a \<in> set (stat_windows v)" "?b \<in> set (stat_windows v)" by (simp_all add: stat_windows_def)
  have n: "NaN \<notin> set ?a" "NaN \<notin> set ?b" using engine_windows_number[OF assms] w by blast+
  have "length ?a \<le> 2 ^ 10" "length ?b \<le> 2 ^ 10" using engine_ok_windows(2)[OF assms] w by blast+
  then have l: "length ?a \<le> 2 ^ 53" "length ?b \<le> 2 ^ 53" by simp_all
  obtain ks where k: "ks_statistic ?a ?b = Some ks" using ks_returns n by blast
  have "rng 0 1 ks"
  proof (cases "?a = [] \<or> ?b = []")
    case True
    then show ?thesis using k by (auto simp: ks_statistic_def rng_0_1)
  next
    case False
    then show ?thesis using ks_correct[OF _ _ n l k] by (simp add: is_sup_distance_def)
  qed
  with k show ?thesis by blast
qed

text \<open>What a snapshot promises to the decision engine.\<close>

definition snapshot_ok :: "edge_snapshot \<Rightarrow> bool" where
  "snapshot_ok s \<longleftrightarrow>
     rng 0 1 (vs_reliability s) \<and> rng 0 1 (vs_ks_statistic s) \<and> rng 0 1 (vs_competition_score s)
     \<and> rng 0 (val (lit (11 / 10))) (vs_position_size_multiplier s)
     \<and> vs_trading_enabled s = (vs_edge_state s \<noteq> Invalid \<and> vs_competition_state s \<noteq> Saturated)
     \<and> (\<not> vs_trading_enabled s \<longrightarrow> feq (vs_position_size_multiplier s) 0)"

lemma build_snapshot_ok:
  assumes "engine_ok v" "rng 0 1 ks" "d \<noteq> NaN" "memory_ok m"
  shows "snapshot_ok (build_snapshot v ks d m)"
proof -
  note r = engine_reliability_unit[OF assms(1)] and c = engine_competition_unit[OF assms(1)]
  let ?p = "position_size_multiplier (engine_reliability v) (engine_state v ks) (engine_regime v ks) (engine_competition_state v) d m"
  have "rng 0 (val (lit (11 / 10))) ?p" by (rule multiplier_range(1)[OF r assms(3,4)])
  moreover have "feq ?p 0" if "engine_state v ks = Invalid \<or> engine_competition_state v = Saturated"
    using multiplier_range(2)[OF r assms(3,4) that, of "engine_regime v ks"] by (auto simp: rng_def feq_fin)
  ultimately show ?thesis using r c assms(2)
    by (auto simp: snapshot_ok_def build_snapshot_def Let_def case_prod_unfold)
qed

lemma busiest_memory_ok:
  assumes "engine_ok v" "lists_keys iter (vl_regime_memory v)"
  shows "memory_ok (busiest_memory iter v)"
proof -
  define ms where "ms = map (\<lambda>k. the (vl_regime_memory v k)) (iter (vl_regime_memory v))"
  have ok: "\<forall>m \<in> set ms. memory_ok m"
    using assms by (auto simp: ms_def lists_keys_def engine_ok_def ran_def)
  have "\<forall>m \<in> set xs. memory_ok m \<Longrightarrow> memory_ok m \<Longrightarrow>
      memory_ok (foldl (\<lambda>best m. if rm_sample_count m < rm_sample_count best then best else m) m xs)" for m xs
    by (induction xs arbitrary: m) auto
  then show ?thesis using ok memory_ok_default
    by (auto simp: busiest_memory_def ms_def[symmetric] Let_def split: list.split)
qed


text \<open>C25: An observation fails to return exactly when, after the sample is taken in, the window of
  expected edges and the window of realised markouts both hold a NaN: the loop of the
  Kolmogorov-Smirnov statistic then never advances past them and spins forever, blocking the task
  that owns the engine. Two samples, up to a whole window apart, suffice.\<close>
theorem observe_hangs_on_nan:
  "edge_observe v x d = None \<longleftrightarrow>
     NaN \<in> set (push_capped (vl_expected_edges v) (filter_noise (ls_expected_markout x)) (vl_capacity v))
     \<and> NaN \<in> set (push_capped (vl_realized_markouts v) (filter_noise (ls_realized_markout x)) (vl_capacity v))"
proof -
  let ?a = "push_capped (vl_expected_edges v) (filter_noise (ls_expected_markout x)) (vl_capacity v)"
  let ?b = "push_capped (vl_realized_markouts v) (filter_noise (ls_realized_markout x)) (vl_capacity v)"
  have "vl_expected_edges (observed v x) = ?a" "vl_realized_markouts (observed v x) = ?b"
    by (simp_all add: observed_def update_streak_def push_sample_def Let_def)
  moreover have "(ks_statistic ?a ?b = None) = (NaN \<in> set ?a \<and> NaN \<in> set ?b)"
    using ks_returns[of ?a ?b] ks_hangs[of ?a ?b] by fastforce
  ultimately show ?thesis by (simp add: edge_observe_eq)
qed

text \<open>C26: On NaN-free windows the merging loop computes what its name says: the largest distance
  between the two empirical distribution functions over all thresholds, each share rounded to a double.\<close>
theorem ks_statistic_is_distance:
  assumes "xs \<noteq> []" "ys \<noteq> []" "NaN \<notin> set xs" "NaN \<notin> set ys" "length xs \<le> 2 ^ 53" "length ys \<le> 2 ^ 53"
  shows "\<exists>d. ks_statistic xs ys = Some d \<and> rng 0 1 d \<and> (\<forall>v. cdf_distance xs ys v \<le> d)
    \<and> (d = 0 \<or> (\<exists>v \<in> set xs \<union> set ys. cdf_distance xs ys v = d))"
proof -
  obtain d where d: "ks_statistic xs ys = Some d" using ks_returns assms(3) by blast
  from ks_correct[OF assms d] show ?thesis unfolding d is_sup_distance_def by simp
qed

text \<open>The engine as a handler of samples; a call that hangs leaves it where it is.\<close>

definition edge_step :: "edge_engine \<Rightarrow> learning_sample \<times> f64 \<Rightarrow> edge_engine" where
  "edge_step v e = (case edge_observe v (fst e) (snd e) of None \<Rightarrow> v | Some (v', s) \<Rightarrow> v')"

lemma edge_step_ok: "engine_ok v \<Longrightarrow> sample_ok (fst e) \<Longrightarrow> engine_ok (edge_step v e)"
  by (auto simp: edge_step_def edge_observe_eq intro!: engine_ok_memory observed_ok observed_memory_ok regime_bucket_key split: option.splits)

interpretation edges: guarded_handler edge_step engine_ok "\<lambda>e. sample_ok (fst e)"
  by unfold_locales (rule edge_step_ok)

interpretation edge_window: window "\<lambda>q x. push_capped q x (max n 32)" "\<lambda>q. q" "max n 32" for n
  by unfold_locales (auto simp: push_capped_def drop_Suc)

text \<open>A snapshot taken right after an observation.\<close>

lemma build_snapshot_memory:
  "build_snapshot (v\<lparr>vl_regime_memory := f\<rparr>) ks d m = build_snapshot v ks d m"
  by (simp add: build_snapshot_def engine_state_def engine_regime_def engine_competition_state_def
      engine_reliability_def engine_competition_def)

lemma build_snapshot_other_memory:
  "build_snapshot v ks d m = (build_snapshot v ks d m')\<lparr>vs_regime_reliability := rm_reliability m,
     vs_regime_pnl_mean := rm_pnl m, vs_regime_execution_quality := rm_execution_quality m,
     vs_position_size_multiplier :=
       (let s = build_snapshot v ks d m' in
        position_size_multiplier (vs_reliability s) (vs_edge_state s) (vs_edge_regime s) (vs_competition_state s) d m)\<rparr>"
  by (simp add: build_snapshot_def Let_def case_prod_unfold)

lemma busiest_single:
  assumes "lists_keys iter (vl_regime_memory v)" "dom (vl_regime_memory v) = {k}"
  shows "busiest_memory iter v = memory_of v k"
proof -
  have "distinct (iter (vl_regime_memory v))" "set (iter (vl_regime_memory v)) = {k}"
    using assms by (auto simp: lists_keys_def)
  then have i: "iter (vl_regime_memory v) = [k]"
    by (cases "iter (vl_regime_memory v)"; cases "tl (iter (vl_regime_memory v))") auto
  from assms(2) obtain m where "vl_regime_memory v k = Some m" by auto
  then show ?thesis by (simp add: busiest_memory_def memory_of_def i)
qed

text \<open>The snapshot on which decisions are scored is the one that the last observation returned,
  except for the regime memory: it reports, and sizes by, the memory of the regime with the most
  samples, whichever regime the market is in. While only one regime has been seen they are equal.\<close>
theorem snapshot_follows_observe:
  assumes "edge_observe v x d = Some (v', s)" "lists_keys iter (vl_regime_memory v')"
  shows "\<exists>s'. edge_snapshot_of iter v' d = Some s'
    \<and> s' = s\<lparr>vs_regime_reliability := rm_reliability (busiest_memory iter v'),
         vs_regime_pnl_mean := rm_pnl (busiest_memory iter v'),
         vs_regime_execution_quality := rm_execution_quality (busiest_memory iter v'),
         vs_position_size_multiplier := position_size_multiplier (vs_reliability s) (vs_edge_state s)
           (vs_edge_regime s) (vs_competition_state s) d (busiest_memory iter v')\<rparr>
    \<and> (dom (vl_regime_memory v') = {regime_bucket (ls_regime x)} \<longrightarrow> s' = s)"
proof -
  let ?o = "observed v x" and ?k = "regime_bucket (ls_regime x)" and ?m = "observed_memory v x"
  obtain ks where ks: "ks_statistic (vl_expected_edges ?o) (vl_realized_markouts ?o) = Some ks"
    and v': "v' = ?o\<lparr>vl_regime_memory := (vl_regime_memory ?o)(?k \<mapsto> ?m)\<rparr>"
    and s: "s = build_snapshot ?o ks d ?m"
    using assms(1) by (auto simp: edge_observe_eq)
  let ?b = "busiest_memory iter v'"
  have e: "edge_snapshot_of iter v' d = Some (build_snapshot ?o ks d ?b)"
    by (simp add: edge_snapshot_of_def v' ks build_snapshot_memory)
  have "?b = ?m" if "dom (vl_regime_memory v') = {?k}"
    using busiest_single[OF assms(2) that] by (simp add: memory_of_def v')
  with e show ?thesis
    using build_snapshot_other_memory[of ?o ks d ?b ?m] unfolding s by (auto simp: Let_def)
qed

section \<open>Losing runs\<close>

lemma observed_streak:
  assumes "sample_capture x < lit (- 0.05)"
  shows "vl_negative_capture_streak (observed v x) = sat_add (vl_negative_capture_streak v) 1"
  using assms by (simp add: observed_def update_streak_def push_sample_fields)

lemma sat_add_streak: "min 6 (unat a + 1) \<le> unat (sat_add a 1)" for a :: u64
proof (cases "a < - 1")
  case True
  then show ?thesis by (simp add: unat_sat_add_1)
next
  case False
  then have "a = - 1" using word_le_minus_one[of a] by (simp add: not_less word_order.extremum_uniqueI)
  then show ?thesis by (simp add: sat_add_def word_less_nat_alt unsigned_minus_1_eq_mask mask_eq_exp_minus_1)
qed

lemma edge_step_streak:
  assumes "engine_ok v" "sample_ok (fst e)" "sample_capture (fst e) < lit (- 0.05)"
  shows "min 6 (unat (vl_negative_capture_streak v) + 1) \<le> unat (vl_negative_capture_streak (edge_step v e))"
    "vl_min_samples (edge_step v e) = vl_min_samples v"
    "length (vl_realized_pnls v) \<le> length (vl_realized_pnls (edge_step v e))"
proof -
  obtain ks where "ks_statistic (vl_expected_edges (observed v (fst e))) (vl_realized_markouts (observed v (fst e))) = Some ks"
    using engine_ks[OF observed_ok[OF assms(1,2)]] by blast
  then have e: "edge_step v e = (observed v (fst e))\<lparr>vl_regime_memory := (vl_regime_memory (observed v (fst e)))
      (regime_bucket (ls_regime (fst e)) \<mapsto> observed_memory v (fst e))\<rparr>"
    by (simp add: edge_step_def edge_observe_eq)
  show "min 6 (unat (vl_negative_capture_streak v) + 1) \<le> unat (vl_negative_capture_streak (edge_step v e))"
    using sat_add_streak observed_streak[OF assms(3)] by (simp add: e)
  show "vl_min_samples (edge_step v e) = vl_min_samples v"
    by (simp add: e observed_def update_streak_def push_sample_fields)
  have "0 < vl_capacity v" "length (vl_realized_pnls v) \<le> vl_capacity v" using assms(1) by (auto simp: engine_ok_def)
  then show "length (vl_realized_pnls v) \<le> length (vl_realized_pnls (edge_step v e))"
    by (simp add: e observed_def update_streak_def push_sample_fields length_push_capped)
qed

lemma losing_run:
  assumes "engine_ok v" "list_all (\<lambda>e. sample_ok (fst e) \<and> sample_capture (fst e) < lit (- 0.05)) es"
  shows "engine_ok (foldl edge_step v es) \<and> vl_min_samples (foldl edge_step v es) = vl_min_samples v
    \<and> length (vl_realized_pnls v) \<le> length (vl_realized_pnls (foldl edge_step v es))
    \<and> min 6 (unat (vl_negative_capture_streak v) + length es) \<le> unat (vl_negative_capture_streak (foldl edge_step v es))"
  using assms
proof (induction es arbitrary: v)
  case (Cons e es)
  then have a: "sample_ok (fst e)" "sample_capture (fst e) < lit (- 0.05)" by auto
  note st = edge_step_streak[OF Cons.prems(1) a] and ok = edge_step_ok[OF Cons.prems(1) a(1)]
  have r: "min 6 (unat (vl_negative_capture_streak (edge_step v e)) + length es)
      \<le> unat (vl_negative_capture_streak (foldl edge_step (edge_step v e) es))"
    using Cons.IH[OF ok] Cons.prems(2) by simp
  have "min 6 (unat (vl_negative_capture_streak v) + length (e # es))
      \<le> min 6 (unat (vl_negative_capture_streak (edge_step v e)) + length es)"
    using st(1) by simp
  with r show ?case using Cons.IH[OF ok] Cons.prems(2) st(2,3) by simp
qed simp

lemma invalid_by_streak: "vl_min_samples v \<le> length (vl_realized_pnls v) \<Longrightarrow> 6 \<le> vl_negative_capture_streak v \<Longrightarrow> engine_state v ks = Invalid"
  by (simp add: engine_state_def classify_state_def)


section \<open>NaN\<close>

lemma nan_ops [simp]:
  "NaN + x = NaN" "x + NaN = NaN" "NaN * x = NaN" "x * NaN = NaN" "NaN / x = NaN" "x / NaN = NaN" "- NaN = NaN"
  by (simp_all add: plus_f64_def times_f64_def divide_f64_def)

lemma nan_minus [simp]: "NaN - x = NaN" "x - NaN = NaN"
  by (simp_all add: minus_f64_def)

lemma f_sum_nan: "NaN \<in> set xs \<Longrightarrow> f_sum xs = NaN"
proof -
  have n: "foldl (+) NaN xs = NaN" for xs by (induction xs) simp_all
  have "NaN \<in> set xs \<Longrightarrow> foldl (+) a xs = NaN" for a by (induction xs arbitrary: a) (auto simp: n)
  then show "NaN \<in> set xs \<Longrightarrow> f_sum xs = NaN" by (simp add: f_sum_def)
qed

lemma mean_nan: "NaN \<in> set xs \<Longrightarrow> mean_of xs = NaN"
  by (auto simp: mean_of_def f_sum_nan)

lemma moments_mean: "mo_mean (rolling_moments xs) = mean_of xs"
  by (auto simp: rolling_moments_def mean_of_def Let_def case_prod_unfold)

lemma variance_nan: "NaN \<in> set xs \<Longrightarrow> 2 \<le> length xs \<Longrightarrow> mo_variance (rolling_moments xs) = NaN"
proof -
  assume n: "NaN \<in> set xs" "2 \<le> length xs"
  have "map (\<lambda>v. (v - mean_of xs) * (v - mean_of xs)) xs = map (\<lambda>v. NaN) xs" using n by (simp add: mean_nan)
  then have "NaN \<in> set (map (\<lambda>v. (v - mean_of xs) * (v - mean_of xs)) xs)" using n by auto
  then have "fst (central_sums (mean_of xs) xs) = NaN" by (simp only: central_sums_eq fst_conv f_sum_nan)
  then show ?thesis using n by (auto simp: rolling_moments_def Let_def case_prod_unfold)
qed

lemma reliability_nan: "reliability_score m var skew sharpe NaN competition ema = NaN"
  by (simp add: reliability_score_def Let_def f_mul_add_def)

lemma engine_reliability_nan: "NaN \<in> set (vl_capture_ratios v) \<Longrightarrow> engine_reliability v = NaN"
  by (simp add: engine_reliability_def Let_def moments_mean mean_nan reliability_nan)

lemma engine_state_nan:
  assumes "NaN \<in> set (vl_capture_ratios v)" "NaN \<in> set (vl_realized_pnls v)"
  shows "engine_state v ks =
    (if vl_min_samples v \<le> length (vl_realized_pnls v) \<and> 6 \<le> vl_negative_capture_streak v then Invalid else Uncertain)"
proof -
  have l: "fst (confidence_interval (vl_realized_pnls v)) = NaN"
    using assms(2) by (auto simp: confidence_interval_def Let_def moments_mean mean_nan)
  show ?thesis
    unfolding engine_state_def classify_state_def engine_reliability_nan[OF assms(1)] moments_mean mean_nan[OF assms(1)] l
    by simp
qed

lemma multiplier_nan: "position_size_multiplier NaN st rg c d m = NaN"
  by (simp add: position_size_multiplier_def dynamic_position_size_multiplier_def Let_def)

lemma multiplier_memory_nan: "rm_reliability m = NaN \<Longrightarrow> 8 \<le> rm_sample_count m \<Longrightarrow> position_size_multiplier r st rg c d m = NaN"
  by (simp add: position_size_multiplier_def regime_memory_factor_def)

lemma observed_regime_memory: "vl_regime_memory (observed v x) = vl_regime_memory v"
  by (simp add: observed_def update_streak_def push_sample_fields)

lemma observed_memory_fields:
  "rm_reliability (observed_memory v x) =
     (if rm_sample_count (memory_of v (regime_bucket (ls_regime x))) = 0 then engine_reliability (observed v x)
      else edge_ewma (rm_reliability (memory_of v (regime_bucket (ls_regime x)))) (engine_reliability (observed v x)) (lit 0.08))"
  "rm_sample_count (observed_memory v x) = sat_add (rm_sample_count (memory_of v (regime_bucket (ls_regime x)))) 1"
proof -
  have "memory_of (observed v x) k = memory_of v k" for k by (simp add: memory_of_def observed_regime_memory)
  then show
  "rm_reliability (observed_memory v x) =
     (if rm_sample_count (memory_of v (regime_bucket (ls_regime x))) = 0 then engine_reliability (observed v x)
      else edge_ewma (rm_reliability (memory_of v (regime_bucket (ls_regime x)))) (engine_reliability (observed v x)) (lit 0.08))"
  "rm_sample_count (observed_memory v x) = sat_add (rm_sample_count (memory_of v (regime_bucket (ls_regime x)))) 1"
    by (simp_all add: observed_memory_def update_memory_def Let_def)
qed

lemma observe_result:
  assumes "edge_observe v x d = Some (v', s)"
  shows "\<exists>ks. s = build_snapshot (observed v x) ks d (observed_memory v x)"
    "memory_of v' k = (if k = regime_bucket (ls_regime x) then observed_memory v x else memory_of v k)"
proof -
  show "\<exists>ks. s = build_snapshot (observed v x) ks d (observed_memory v x)"
    "memory_of v' k = (if k = regime_bucket (ls_regime x) then observed_memory v x else memory_of v k)"
    using assms by (auto simp: edge_observe_eq memory_of_def observed_regime_memory)
qed

text \<open>A NaN profit takes the edge validation out of action: the edge is then uncertain, never
  valid, and never invalid except by a long streak, so trading stays enabled unless the competition
  saturates; the size multiplier is NaN, and so is the reliability in the memory of the regime.\<close>
theorem nan_sample_disarms:
  assumes "ls_pnl x = NaN" "NOISE_FLOOR < f_abs (ls_expected_markout x)" "edge_observe v x d = Some (v', s)"
  shows "vs_edge_state s = (if vl_min_samples v \<le> vs_sample_count s \<and> 6 \<le> vs_negative_capture_streak s then Invalid else Uncertain)
    \<and> vs_position_size_multiplier s = NaN \<and> rm_reliability (memory_of v' (regime_bucket (ls_regime x))) = NaN"
proof -
  let ?o = "observed v x"
  have e: "filter_noise (ls_expected_markout x) = ls_expected_markout x" "filter_noise NaN = NaN"
    using assms(2) by (auto simp: filter_noise_def less_f64_def)
  then have c: "sample_capture x = NaN" using assms(1,2) by (simp add: sample_capture_def Let_def)
  have w: "NaN \<in> set (vl_capture_ratios ?o)" "NaN \<in> set (vl_realized_pnls ?o)"
    using assms(1) c e(2) by (simp_all add: observed_def update_streak_def push_sample_def Let_def push_capped_def)
  obtain ks where s: "s = build_snapshot ?o ks d (observed_memory v x)" using observe_result(1)[OF assms(3)] by blast
  have m: "vl_min_samples ?o = vl_min_samples v" by (simp add: observed_def update_streak_def push_sample_fields)
  have "vs_edge_state s = engine_state ?o ks" "vs_sample_count s = length (vl_realized_pnls ?o)"
    "vs_negative_capture_streak s = vl_negative_capture_streak ?o" "vs_position_size_multiplier s = NaN"
    using engine_reliability_nan[OF w(1)] multiplier_nan by (simp_all add: s build_snapshot_def Let_def case_prod_unfold)
  moreover have "rm_reliability (observed_memory v x) = NaN"
    by (simp add: observed_memory_fields engine_reliability_nan[OF w(1)] edge_ewma_def)
  ultimately show ?thesis using engine_state_nan[OF w] observe_result(2)[OF assms(3)] m by simp
qed

text \<open>A memory with a NaN in it stays so.\<close>

definition poisoned :: "string \<Rightarrow> edge_engine \<Rightarrow> bool" where
  "poisoned k v \<longleftrightarrow> rm_reliability (memory_of v k) = NaN \<and> 8 \<le> rm_sample_count (memory_of v k)"

lemma poisoned_observe:
  assumes "poisoned k v" "edge_observe v x d = Some (v', s)"
  shows "poisoned k v'" "regime_bucket (ls_regime x) = k \<Longrightarrow> vs_position_size_multiplier s = NaN"
proof -
  let ?m = "memory_of v k"
  have "rm_reliability (observed_memory v x) = NaN \<and> 8 \<le> rm_sample_count (observed_memory v x)" if "regime_bucket (ls_regime x) = k"
  proof -
    have "8 \<le> rm_sample_count ?m" using assms(1) by (simp add: poisoned_def)
    then have "rm_sample_count ?m \<noteq> 0" by (auto simp: word_le_nat_alt)
    moreover have "8 \<le> sat_add (rm_sample_count ?m) 1"
      using \<open>8 \<le> rm_sample_count ?m\<close> sat_add_ge by (rule order_trans)
    ultimately show ?thesis using assms(1) that by (simp add: observed_memory_fields poisoned_def edge_ewma_def)
  qed
  note m = this
  then show "poisoned k v'" using assms(1) observe_result(2)[OF assms(2), of k] by (auto simp: poisoned_def)
  assume "regime_bucket (ls_regime x) = k"
  with m have "rm_reliability (observed_memory v x) = NaN" "8 \<le> rm_sample_count (observed_memory v x)" by auto
  then show "vs_position_size_multiplier s = NaN"
    using observe_result(1)[OF assms(2)] multiplier_memory_nan
    by (auto simp: build_snapshot_def Let_def case_prod_unfold)
qed

interpretation poison: handler edge_step "poisoned k" for k
  by unfold_locales (auto simp: edge_step_def dest: poisoned_observe(1) split: option.splits)

text \<open>The damage is permanent: once the memory of a regime holds a NaN reliability (and has eight
  samples), no later sample repairs it, and every later observation in that regime sizes by NaN,
  which the risk gate rejects as a bad size. The averages have no way to forget a NaN.\<close>
theorem nan_memory_is_permanent:
  assumes "poisoned (regime_bucket (ls_regime x)) v" "edge_observe (foldl edge_step v es) x d = Some (v', s)"
  shows "vs_position_size_multiplier s = NaN \<and> poisoned (regime_bucket (ls_regime x)) v'"
  using poisoned_observe[OF poison.run_ok[OF assms(1)] assms(2)] by blast

section \<open>Instances\<close>

definition ex_sample :: learning_sample where
  "ex_sample = \<lparr>ls_timestamp = 1, ls_direction = Long, ls_confidence = Fin (1 / 2), ls_predicted_score = Fin (1 / 2),
     ls_expected_slippage_bps = 0, ls_actual_slippage_bps = 1, ls_pnl = Fin (- 1), ls_expected_markout = 1,
     ls_realized_markout = Fin (- 1), ls_execution_alpha = Fin (- 2), ls_fill_ratio = 1, ls_fees_paid = 0,
     ls_rebates_received = 0, ls_funding_cost = 0, ls_edge_component = 1, ls_execution_loss = Fin 2,
     ls_fees_rebates_component = 0, ls_adverse_selection_loss = 1, ls_edge_capture_ratio = Fin (- 1),
     ls_competition_state = CompetitionNormal, ls_duration_ms = 25, ls_entry_quality = Fin (1 / 2),
     ls_markout_100ms = Fin (- 1), ls_markout_500ms = Fin (- 1), ls_markout_1s = Fin (- 1), ls_markout_5s = Fin (- 1),
     ls_regime = ex_regime\<rparr>"

definition ex_edge_engine :: edge_engine where
  "ex_edge_engine = (let w = replicate 24 0 in
     edge_engine_default\<lparr>vl_expected_edges := w, vl_realized_markouts := w, vl_realized_pnls := w,
       vl_adjusted_returns := w, vl_edge_errors := w, vl_capture_ratios := w, vl_execution_alphas := w,
       vl_fill_rates := w, vl_slippages := w, vl_outbid_flags := w, vl_edge_components := w,
       vl_execution_losses := w, vl_fees_rebates := w, vl_adverse_losses := w,
       vl_competition_states := replicate 24 CompetitionNormal\<rparr>)"

lemma ex_sample_ok: "sample_ok ex_sample"
  by (simp add: sample_ok_def ex_sample_def mag_def)

lemma ex_engine_ok: "engine_ok ex_edge_engine" "vl_min_samples ex_edge_engine = 24" "length (vl_realized_pnls ex_edge_engine) = 24"
  by (simp_all add: engine_ok_def window_defs ex_edge_engine_def edge_engine_default_def edge_engine_new_def Let_def rng_0_1)

lemma ex_capture: "sample_capture ex_sample < lit (- 0.05)"
  by (simp add: sample_capture_def filter_noise_def NOISE_FLOOR_def ex_sample_def one_f64_def f64_eval)

definition ex_regime_iter :: "(string \<rightharpoonup> regime_memory) \<Rightarrow> string list" where
  "ex_regime_iter m = filter (\<lambda>k. m k \<noteq> None) regime_keys"

lemma ex_regime_iter: "dom m \<subseteq> set regime_keys \<Longrightarrow> lists_keys ex_regime_iter m"
  by (auto simp: lists_keys_def ex_regime_iter_def) (simp add: regime_keys_def)


theorem ks_statistic_is_distance_witness:
  "\<exists>d. ks_statistic [1, Fin 2] [Fin 2, Fin 3] = Some d \<and> rng 0 1 d
    \<and> (\<forall>v. cdf_distance [1, Fin 2] [Fin 2, Fin 3] v \<le> d)"
  using ks_statistic_is_distance[of "[1, Fin 2]" "[Fin 2, Fin 3]"] by (auto simp: one_f64_def)

lemma ex_observe:
  "NaN \<notin> set (vl_expected_edges (observed v x)) \<Longrightarrow> \<exists>v' s. edge_observe v x d = Some (v', s)"
  using ks_returns[of "vl_expected_edges (observed v x)" "vl_realized_markouts (observed v x)"]
  by (auto simp: edge_observe_eq)

lemma ex_expected: "NaN \<notin> set (vl_expected_edges (observed (edge_engine_new 128) (ex_sample\<lparr>ls_pnl := p\<rparr>)))"
  by (simp add: observed_def update_streak_def push_sample_def Let_def push_capped_def edge_engine_new_def ex_sample_def
      filter_noise_def one_f64_def zero_f64_def)

theorem snapshot_follows_observe_witness:
  "\<exists>v' s. edge_observe (edge_engine_new 128) ex_sample 0 = Some (v', s) \<and> edge_snapshot_of ex_regime_iter v' 0 = Some s"
proof -
  obtain v' s where o: "edge_observe (edge_engine_new 128) (ex_sample\<lparr>ls_pnl := ls_pnl ex_sample\<rparr>) 0 = Some (v', s)"
    using ex_observe[OF ex_expected] by blast
  then have o: "edge_observe (edge_engine_new 128) ex_sample 0 = Some (v', s)" by simp
  have d: "dom (vl_regime_memory v') = {regime_bucket (ls_regime ex_sample)}"
  proof -
    have "vl_regime_memory (edge_engine_new 128) = Map.empty" by (simp add: edge_engine_new_def)
    then show ?thesis using o by (auto simp: edge_observe_eq observed_regime_memory split: if_splits)
  qed
  then have "dom (vl_regime_memory v') \<subseteq> set regime_keys" using regime_bucket_key by simp
  from snapshot_follows_observe[OF o ex_regime_iter[OF this]] d o show ?thesis by auto
qed


theorem nan_sample_disarms_witness:
  "\<exists>v' s. edge_observe (edge_engine_new 128) (ex_sample\<lparr>ls_pnl := NaN\<rparr>) 0 = Some (v', s)
    \<and> vs_edge_state s = Uncertain \<and> vs_position_size_multiplier s = NaN"
proof -
  obtain v' s where o: "edge_observe (edge_engine_new 128) (ex_sample\<lparr>ls_pnl := NaN\<rparr>) 0 = Some (v', s)"
    using ex_observe[OF ex_expected] by blast
  have f: "NOISE_FLOOR < f_abs (ls_expected_markout (ex_sample\<lparr>ls_pnl := NaN\<rparr>))"
    by (simp add: ex_sample_def NOISE_FLOOR_def one_f64_def f64_eval)
  have "vs_sample_count s = 1"
    using observe_result(1)[OF o]
    by (auto simp: build_snapshot_def Let_def case_prod_unfold observed_def update_streak_def push_sample_fields
        edge_engine_new_def push_capped_def)
  then have "\<not> vl_min_samples (edge_engine_new 128) \<le> vs_sample_count s" by (simp add: edge_engine_new_def)
  with nan_sample_disarms[OF _ f o] o show ?thesis by simp
qed

definition ex_poisoned :: edge_engine where
  "ex_poisoned = (edge_engine_new 128)\<lparr>vl_regime_memory :=
     [''normal'' \<mapsto> regime_memory_default\<lparr>rm_reliability := NaN, rm_sample_count := 9\<rparr>]\<rparr>"

theorem nan_memory_is_permanent_witness:
  "\<exists>v' s. edge_observe (foldl edge_step ex_poisoned [(ex_sample, 0), (ex_sample, 0)]) ex_sample 0 = Some (v', s)
    \<and> vs_position_size_multiplier s = NaN"
proof -
  have b: "regime_bucket (ls_regime ex_sample) = ''normal''"
    by (simp add: regime_bucket_def ex_sample_def ex_regime_def one_f64_def zero_f64_def f64_eval)
  have p: "poisoned ''normal'' ex_poisoned" by (simp add: poisoned_def ex_poisoned_def memory_of_def)
  let ?v = "foldl edge_step ex_poisoned [(ex_sample, 0), (ex_sample, 0)]"
  have n: "NaN \<notin> set (vl_expected_edges (edge_step v (ex_sample, d)))" if "NaN \<notin> set (vl_expected_edges v)" for v d
  proof -
    have "NaN \<notin> set (vl_expected_edges (observed v ex_sample))"
      using that set_push_capped[of "vl_expected_edges v" "filter_noise (ls_expected_markout ex_sample)" "vl_capacity v"]
      by (auto simp: observed_def update_streak_def push_sample_def Let_def filter_noise_def ex_sample_def one_f64_def zero_f64_def split: if_splits)
    then show ?thesis using that by (auto simp: edge_step_def edge_observe_eq split: option.split)
  qed
  have "NaN \<notin> set (vl_expected_edges ?v)" by (simp add: n ex_poisoned_def edge_engine_new_def)
  then have "NaN \<notin> set (vl_expected_edges (observed ?v ex_sample))"
    using set_push_capped[of "vl_expected_edges ?v" "filter_noise (ls_expected_markout ex_sample)" "vl_capacity ?v"]
    by (auto simp: observed_def update_streak_def push_sample_def Let_def filter_noise_def ex_sample_def one_f64_def zero_f64_def split: if_splits)
  then obtain v' s where o: "edge_observe ?v ex_sample 0 = Some (v', s)" using ex_observe by blast
  from nan_memory_is_permanent[OF _ o] p b o show ?thesis by auto
qed

end
