(* ===== verification/Microstructure.thy ===== *)
theory Microstructure
  imports OrderBook Tape Stats
begin

text \<open>
  The micro structure task: the running normalisation of the features
  (\<open>microstructure.rs\<close>), the market context (\<open>context_engine.rs\<close>), the order flow
  (\<open>flow_intelligence.rs\<close>) and the timing (\<open>micro_timing.rs\<close>), composed on top of the book and
  the tape into the frame of one market update. The first sections give the operations, the
  others show that every frame of a valid feed is well formed.
\<close>

section \<open>Normalised features\<close>

record ema_stats =
  em_mean :: f64
  em_var :: f64
  em_initialized :: bool

definition ema_default :: ema_stats where
  "ema_default = \<lparr>em_mean = 0, em_var = 0, em_initialized = False\<rparr>"

definition ema_normalize :: "ema_stats \<Rightarrow> f64 \<Rightarrow> f64 \<Rightarrow> ema_stats \<times> f64" where
  "ema_normalize s value alpha =
     (if \<not> fin value then (s, 0)
      else if \<not> em_initialized s then (\<lparr>em_mean = value, em_var = 1, em_initialized = True\<rparr>, 0)
      else let diff = value - em_mean s;
               mean = em_mean s + alpha * diff;
               var = (1 - alpha) * (em_var s + alpha * diff * diff)
           in (s\<lparr>em_mean := mean, em_var := var\<rparr>,
               f_clamp ((value - mean) / f_max (f_sqrt var) (lit (1 / 10 ^ 9))) (lit (- 5)) (lit 5)))"

record feature_normalizer =
  fn_velocity :: ema_stats
  fn_volume :: ema_stats
  fn_volatility :: ema_stats
  fn_spread :: ema_stats
  fn_spread_dynamics :: ema_stats
  fn_trade_clustering :: ema_stats
  fn_liquidity_shift :: ema_stats
  fn_delta :: ema_stats
  fn_previous_mid :: f64
  fn_previous_spread :: f64
  fn_previous_depth :: f64

definition feature_normalizer_default :: feature_normalizer where
  "feature_normalizer_default = \<lparr>fn_velocity = ema_default, fn_volume = ema_default, fn_volatility = ema_default,
     fn_spread = ema_default, fn_spread_dynamics = ema_default, fn_trade_clustering = ema_default,
     fn_liquidity_shift = ema_default, fn_delta = ema_default,
     fn_previous_mid = 0, fn_previous_spread = 0, fn_previous_depth = 0\<rparr>"

text \<open>The change of a quantity relative to its previous value, zero before there is one.\<close>

definition relative_change :: "f64 \<Rightarrow> f64 \<Rightarrow> f64" where
  "relative_change now previous = (if 0 < previous then (now - previous) / f_max previous f_epsilon else 0)"

definition frame_mid :: "order_book_state \<Rightarrow> tape_state \<Rightarrow> f64" where
  "frame_mid book tape =
     (if 0 < ob_best_bid book \<and> 0 < ob_best_ask book then (ob_best_bid book + ob_best_ask book) * lit 0.5
      else ts_last_price tape)"

definition ema_alpha :: "u64 \<Rightarrow> f64" where
  "ema_alpha timestamp = (if timestamp mod 2 = 0 then lit 0.035 else lit 0.030)"

text \<open>The statistics of the velocity are updated twice, once for each scale, in this order.\<close>

definition normalize_features ::
  "feature_normalizer \<Rightarrow> order_book_state \<Rightarrow> tape_state \<Rightarrow> u64 \<Rightarrow> feature_normalizer \<times> features" where
  "normalize_features n book tape timestamp =
     (let mid = frame_mid book tape;
          raw_velocity = relative_change mid (fn_previous_mid n);
          spread_dynamics = relative_change (ob_spread book) (fn_previous_spread n);
          depth = ob_bid_volume book + ob_ask_volume book;
          liquidity_shift = relative_change depth (fn_previous_depth n);
          alpha = ema_alpha timestamp;
          (velocity1, velocity) = ema_normalize (fn_velocity n) (raw_velocity * lit 10000) alpha;
          (volume, vol_z) = ema_normalize (fn_volume n) (ts_volume_burst tape) alpha;
          (volatility1, volatility) = ema_normalize (fn_volatility n) (f_abs raw_velocity * lit 10000) alpha;
          (spread1, spread) = ema_normalize (fn_spread n) (ob_spread book * lit 10000) alpha;
          (dynamics1, dynamics) = ema_normalize (fn_spread_dynamics n) spread_dynamics alpha;
          (velocity2, micro_price_velocity) = ema_normalize velocity1 (raw_velocity * lit 100000) alpha;
          (clustering1, clustering) = ema_normalize (fn_trade_clustering n) (ts_trade_frequency tape) alpha;
          (shift1, shift) = ema_normalize (fn_liquidity_shift n) liquidity_shift alpha;
          (delta1, delta) = ema_normalize (fn_delta n) (ts_delta tape) alpha
      in (\<lparr>fn_velocity = velocity2, fn_volume = volume, fn_volatility = volatility1, fn_spread = spread1,
           fn_spread_dynamics = dynamics1, fn_trade_clustering = clustering1, fn_liquidity_shift = shift1,
           fn_delta = delta1, fn_previous_mid = mid, fn_previous_spread = ob_spread book,
           fn_previous_depth = depth\<rparr>,
          \<lparr>ft_velocity = velocity, ft_vol_z = vol_z, ft_imbalance = ob_imbalance book,
           ft_volatility = f_abs volatility, ft_spread = f_max spread 0,
           ft_weighted_imbalance = ob_weighted_imbalance book, ft_spread_dynamics = dynamics,
           ft_micro_price_velocity = micro_price_velocity, ft_trade_clustering = clustering,
           ft_liquidity_shift = shift, ft_order_flow_delta = delta,
           ft_absorption = f_clamp (f_max (ob_absorption book) (ts_exhaustion tape)) 0 1,
           ft_spoofing_risk = f_clamp (ob_spoofing_score book) 0 1,
           ft_liquidity_pull = f_clamp (ob_liquidity_pull book) 0 1\<rparr>))"

definition frame_regime :: "features \<Rightarrow> order_book_state \<Rightarrow> market_regime" where
  "frame_regime features book =
     \<lparr>mr_volatility = f_clamp (f_abs (ft_volatility features)) 0 (lit 5),
      mr_spread = f_clamp (ob_spread book * lit 10000) 0 (lit 100),
      mr_trend_strength = (f_abs (ft_velocity features) + f_abs (ft_micro_price_velocity features)
        + f_abs (ft_order_flow_delta features)) / lit 3\<rparr>"

definition direction_hint :: "features \<Rightarrow> order_book_state \<Rightarrow> direction" where
  "direction_hint features book =
     (let score = ft_order_flow_delta features + ft_micro_price_velocity features + ob_weighted_imbalance book
      in if lit 0.20 < score then Long else if score < lit (- 0.20) then Short else Flat)"

text \<open>The clock reads the milliseconds since the epoch, or nothing when it is before the epoch.\<close>

definition data_age_ms :: "u64 option \<Rightarrow> u64 \<Rightarrow> u64" where
  "data_age_ms clock timestamp =
     sat_sub (case clock of Some now \<Rightarrow> now | None \<Rightarrow> timestamp) timestamp"

section \<open>Context\<close>

record context_engine =
  cx_baseline_depth :: f64
  cx_previous_imbalance :: f64
  cx_initialized :: bool

definition context_engine_default :: context_engine where
  "context_engine_default = \<lparr>cx_baseline_depth = 1, cx_previous_imbalance = 0, cx_initialized = False\<rparr>"

definition context_shock :: "f64 \<Rightarrow> f64 \<Rightarrow> f64 \<Rightarrow> f64 \<Rightarrow> f64 \<Rightarrow> bool" where
  "context_shock volatility spread_bps depth_ratio trade_frequency imbalance_shift \<longleftrightarrow>
     lit 3.8 < volatility \<and> lit 14 < spread_bps \<and> depth_ratio < lit 0.45
     \<and> (lit 70 < trade_frequency \<or> lit 0.65 < imbalance_shift)"

definition classify_context ::
  "f64 \<Rightarrow> f64 \<Rightarrow> f64 \<Rightarrow> f64 \<Rightarrow> f64 \<Rightarrow> features \<Rightarrow> f64 \<Rightarrow> regime_kind" where
  "classify_context volatility spread_bps depth_ratio trade_frequency imbalance_shift features stability_score =
     (if context_shock volatility spread_bps depth_ratio trade_frequency imbalance_shift
         \<or> stability_score < lit 0.22 then NewsShock
      else if depth_ratio < lit 0.38 \<or> lit 18 < spread_bps \<or> lit 0.70 < ft_liquidity_pull features then LowLiquidity
      else if lit 3 < volatility \<or> lit 90 < trade_frequency then HighVolatility
      else if lit 1.25 < f_abs (ft_micro_price_velocity features)
           \<and> feq (f_signum (ft_order_flow_delta features)) (f_signum (ft_micro_price_velocity features))
           \<and> feq (f_signum (ft_weighted_imbalance features)) (f_signum (ft_micro_price_velocity features))
           \<and> spread_bps < lit 10 \<and> lit 0.55 < depth_ratio
        then TrendExpansion
      else RegimeNormal)"

definition liquidity_score :: "f64 \<Rightarrow> order_book_state \<Rightarrow> f64" where
  "liquidity_score depth_ratio book =
     f_clamp (lit 0.65 * f_min depth_ratio 1 + lit 0.20 * (1 - ob_liquidity_pull book)
       + lit 0.15 * (1 - f_clamp (ob_spread book * lit 10000 / lit 20) 0 1)) 0 1"

definition instability :: "f64 \<Rightarrow> f64 \<Rightarrow> f64 \<Rightarrow> f64 \<Rightarrow> f64 \<Rightarrow> f64" where
  "instability volatility spread_widening depth_collapse velocity_burst imbalance_shift =
     f_clamp (lit 0.30 * f_clamp (volatility / lit 5) 0 1 + lit 0.22 * spread_widening
       + lit 0.22 * depth_collapse + lit 0.16 * velocity_burst
       + lit 0.10 * f_clamp imbalance_shift 0 1) 0 1"

definition context_update ::
  "context_engine \<Rightarrow> features \<Rightarrow> order_book_state \<Rightarrow> tape_state \<Rightarrow> context_engine \<times> market_context" where
  "context_update c features book tape =
     (let depth = f_max (ob_bid_volume book + ob_ask_volume book) 0;
          c1 = (if cx_initialized c then c
                else \<lparr>cx_baseline_depth = f_max depth 1, cx_previous_imbalance = ob_weighted_imbalance book,
                      cx_initialized = True\<rparr>);
          baseline_depth = lit 0.985 * cx_baseline_depth c1 + lit 0.015 * f_max depth 1;
          depth_ratio = f_clamp (depth / f_max baseline_depth 1) 0 (lit 2);
          imbalance_shift = f_abs (ob_weighted_imbalance book - cx_previous_imbalance c1);
          volatility = f_max (f_abs (ft_volatility features)) (f_abs (ft_micro_price_velocity features) * lit 0.25);
          spread_widening = f_clamp (f_max (ft_spread_dynamics features) 0) 0 (lit 5) / lit 5;
          velocity_burst = f_clamp (ts_trade_frequency tape / lit 80) 0 1;
          depth_collapse = f_clamp (1 - depth_ratio) 0 1;
          stability_score = 1 - instability volatility spread_widening depth_collapse velocity_burst imbalance_shift
      in (c1\<lparr>cx_baseline_depth := baseline_depth, cx_previous_imbalance := ob_weighted_imbalance book\<rparr>,
          \<lparr>mc_regime = classify_context volatility (ob_spread book * lit 10000) depth_ratio (ts_trade_frequency tape)
             imbalance_shift features stability_score,
           mc_volatility = volatility,
           mc_liquidity_score = liquidity_score depth_ratio book,
           mc_stability_score = stability_score\<rparr>))"

section \<open>Flow and timing\<close>

record flow_intelligence =
  fi_previous_delta :: f64
  fi_previous_continuation :: f64

definition flow_intelligence_default :: flow_intelligence where
  "flow_intelligence_default = \<lparr>fi_previous_delta = 0, fi_previous_continuation = 0\<rparr>"

definition flow_side :: "direction \<Rightarrow> tape_state \<Rightarrow> f64" where
  "flow_side direction tape = (case direction of Long \<Rightarrow> 1 | Short \<Rightarrow> - 1 | Flat \<Rightarrow> f_signum (ts_delta tape))"

definition flow_signal_of :: "f64 \<Rightarrow> f64 \<Rightarrow> f64 \<Rightarrow> f64 \<Rightarrow> f64 \<Rightarrow> flow_signal" where
  "flow_signal_of reversal_pressure exhaustion continuation previous_continuation aggressive_ratio =
     (if lit 0.62 < reversal_pressure \<or> lit 0.74 < exhaustion then ReversalRisk
      else if lit 0.55 < exhaustion \<or> continuation < previous_continuation * lit 0.72 then Exhaustion
      else if lit 0.68 < continuation \<and> lit 0.35 < aggressive_ratio then StrongContinuation
      else WeakContinuation)"

definition flow_update ::
  "flow_intelligence \<Rightarrow> features \<Rightarrow> order_book_state \<Rightarrow> tape_state \<Rightarrow> direction \<Rightarrow> flow_intelligence \<times> flow_state" where
  "flow_update f features book tape direction =
     (let total = f_max (ts_buy_volume tape + ts_sell_volume tape) f_epsilon;
          aggressive_ratio = f_clamp (f_abs (ts_delta tape) / total) 0 1;
          side = flow_side direction tape;
          aligned_flow = f_clamp (f_max (ft_order_flow_delta features * side) 0) 0 (lit 5) / lit 5;
          aligned_book = f_clamp (f_max (ob_weighted_imbalance book * side) 0) 0 1;
          continuation = f_clamp (lit 0.42 * aggressive_ratio + lit 0.32 * aligned_flow + lit 0.26 * aligned_book) 0 1;
          delta_decay = f_max (f_abs (fi_previous_delta f) - f_abs (ts_delta tape)) 0
            / f_max (f_abs (fi_previous_delta f)) 1;
          exhaustion = f_clamp (f_max (ts_exhaustion tape) delta_decay + ob_absorption book * lit 0.35) 0 1;
          against = (if feq (f_signum (ft_order_flow_delta features)) (f_signum side) then 0 else 1);
          reversal_pressure = f_clamp (against * aggressive_ratio + ft_liquidity_pull features * lit 0.45
            + ft_spoofing_risk features * lit 0.35) 0 1
      in (\<lparr>fi_previous_delta = ts_delta tape, fi_previous_continuation = continuation\<rparr>,
          \<lparr>fs_signal = flow_signal_of reversal_pressure exhaustion continuation
             (fi_previous_continuation f) aggressive_ratio,
           fs_aggressive_ratio = aggressive_ratio, fs_absorption = ob_absorption book,
           fs_exhaustion = exhaustion, fs_continuation_strength = continuation\<rparr>))"

text \<open>The state of the timing engine is the previous velocity.\<close>

type_synonym micro_timing_engine = f64

definition micro_pullback :: "micro_timing_engine \<Rightarrow> f64 \<Rightarrow> f64" where
  "micro_pullback previous_velocity velocity =
     (if feq (f_signum previous_velocity) (f_signum velocity) \<or> f_abs previous_velocity \<le> f_epsilon then 0
      else f_clamp (f_abs velocity / lit 5) 0 1)"

definition timing_signal_of :: "f64 \<Rightarrow> f64 \<Rightarrow> f64 \<Rightarrow> features \<Rightarrow> timing_signal" where
  "timing_signal_of pull timing_score spread_compression features =
     (if lit 0.72 < pull \<or> lit 4.5 < f_abs (ft_micro_price_velocity features) then Missed
      else if lit 0.62 < timing_score \<and> lit 0.15 < spread_compression then Optimal
      else if timing_score < lit 0.38 \<or> lit 1.6 < ft_spread_dynamics features then TimingWait
      else TimingNeutral)"

definition timing_update ::
  "micro_timing_engine \<Rightarrow> features \<Rightarrow> order_book_state \<Rightarrow> tape_state \<Rightarrow> micro_timing_engine \<times> micro_timing_state" where
  "timing_update previous_velocity features book tape =
     (let spread_compression = f_clamp (f_max (- ft_spread_dynamics features) 0) 0 (lit 5) / lit 5;
          pull = f_clamp (ft_liquidity_pull features) 0 1;
          trade_burst = f_clamp (ts_volume_burst tape / lit 4) 0 1;
          pullback = micro_pullback previous_velocity (ft_micro_price_velocity features);
          depth_ok = f_clamp ((ob_bid_volume book + ob_ask_volume book) / lit 10) 0 1;
          timing_score = f_clamp (lit 0.30 * spread_compression + lit 0.22 * trade_burst + lit 0.18 * pullback
            + lit 0.18 * depth_ok + lit 0.12 * (1 - pull)) 0 1
      in (ft_micro_price_velocity features,
          \<lparr>mt_signal = timing_signal_of pull timing_score spread_compression features,
           mt_spread_compression = spread_compression, mt_liquidity_pull = pull,
           mt_trade_burst = trade_burst, mt_micro_pullback = pullback, mt_timing_score = timing_score\<rparr>))"

section \<open>The task\<close>

record micro_task =
  ms_book :: order_book
  ms_tape :: tape
  ms_normalizer :: feature_normalizer
  ms_context :: context_engine
  ms_flow :: flow_intelligence
  ms_timing :: micro_timing_engine

definition micro_task_init :: "u64 \<Rightarrow> micro_task" where
  "micro_task_init window_ms = \<lparr>ms_book = order_book_default, ms_tape = tape_new window_ms,
     ms_normalizer = feature_normalizer_default, ms_context = context_engine_default,
     ms_flow = flow_intelligence_default, ms_timing = 0\<rparr>"

definition update_timestamp :: "market_update \<Rightarrow> u64" where
  "update_timestamp u = (case u of BookUpdate delta \<Rightarrow> bd_timestamp delta | TradeUpdate trade \<Rightarrow> te_timestamp trade)"

definition observe_update :: "micro_task \<Rightarrow> market_update \<Rightarrow> micro_task \<times> trade_event option \<times> order_book_state \<times> tape_state" where
  "observe_update s u = (case u of
     BookUpdate delta \<Rightarrow>
       (let (book, book_state) = apply_delta (ms_book s) delta
        in (s\<lparr>ms_book := book\<rparr>, None, book_state, tp_last_state (ms_tape s)))
   | TradeUpdate trade \<Rightarrow>
       (let (tape, tape_state) = observe_tape (ms_tape s) trade;
            (book, book_state) = observe_book_trade (ms_book s) trade
        in (s\<lparr>ms_book := book, ms_tape := tape\<rparr>, Some trade, book_state, tape_state)))"

definition reversal_classifier_default :: reversal_classifier_snapshot where
  "reversal_classifier_default = \<lparr>rc_reversal_probability = 0, rc_continuation_probability = 0,
     rc_chop_probability = 0, rc_intent_score = 0, rc_movement_score = 0, rc_ready_long = False, rc_ready_short = False\<rparr>"

definition entry_scoring_default :: entry_scoring_snapshot where
  "entry_scoring_default = \<lparr>es_enter_long = False, es_enter_short = False, es_wait = False, es_score = 0,
     es_confidence = 0, es_expected_edge = 0\<rparr>"

definition micro_step :: "u64 \<Rightarrow> micro_task \<Rightarrow> market_update \<times> u64 option \<Rightarrow> micro_task \<times> microstructure_frame" where
  "micro_step max_data_age_ms s input =
     (let (update, clock) = input;
          timestamp = update_timestamp update;
          (s1, trade, book_state, tape_state) = observe_update s update;
          (normalizer, features) = normalize_features (ms_normalizer s1) book_state tape_state timestamp;
          (context, market_context) = context_update (ms_context s1) features book_state tape_state;
          direction = direction_hint features book_state;
          (flow, flow_state) = flow_update (ms_flow s1) features book_state tape_state direction;
          (timing, timing_state) = timing_update (ms_timing s1) features book_state tape_state
      in (s1\<lparr>ms_normalizer := normalizer, ms_context := context, ms_flow := flow, ms_timing := timing\<rparr>,
          \<lparr>mf_timestamp = timestamp, mf_trade = trade, mf_book = book_state, mf_tape = tape_state,
           mf_features = features, mf_regime = frame_regime features book_state,
           mf_context = market_context, mf_flow = flow_state, mf_timing = timing_state,
           mf_trigger = trigger_snapshot_default, mf_reversal = reversal_snapshot_default,
           mf_reversal_classifier = reversal_classifier_default, mf_entry_scoring = entry_scoring_default,
           mf_stale = (max_data_age_ms < data_age_ms clock timestamp)\<rparr>))"

section \<open>The running mean\<close>

text \<open>
  The mean moves towards the value by a fraction of at most one half of the distance. In exact
  arithmetic it cannot pass the value; the rounded computation cannot either, because the
  distance is a multiple of the least positive number.
\<close>

definition tiny :: rat where
  "tiny = 2 powi (- 1074)"

lemma tiny_pos: "0 < tiny"
  unfolding tiny_def by (rule powi2_pos)

lemma repr_multiple:
  assumes "repr r"
  obtains k where "r = of_int k * tiny"
proof -
  from assms obtain m e where r: "r = of_int m * 2 powi e" "- 1074 \<le> e" by (auto simp: repr_def)
  have "2 powi e = (2 powi (e + 1074) * tiny :: rat)"
    unfolding tiny_def powi2_add[symmetric] by (rule arg_cong[of _ _ "(powi) 2"]) linarith
  also have "\<dots> = of_int (2 ^ nat (e + 1074)) * tiny"
    using r(2) by (subst powi2_nonneg_int) simp_all
  finally have "r = of_int (m * 2 ^ nat (e + 1074)) * tiny" using r(1) by simp
  then show ?thesis by (rule that)
qed

lemma repr_powi: "- 1074 \<le> e \<Longrightarrow> repr (2 powi e)"
  unfolding repr_def by (intro exI[of _ 1] exI[of _ e]) simp

lemma rnd_fraction:
  assumes "0 < t" "t = of_int k * tiny" "0 \<le> a" "a \<le> 1 / 2"
  shows "rnd (a * rnd t) \<le> t"
proof -
  define e where "e = ilog2 t"
  have t: "2 powi e \<le> t" "t < 2 powi (e + 1)" using ilog2_bounds[OF assms(1)] by (simp_all add: e_def)
  have "0 < k" using assms(1,2) tiny_pos by (auto simp: zero_less_mult_iff)
  then have "(of_int 1 :: rat) \<le> of_int k" unfolding of_int_le_iff by simp
  then have "1 * tiny \<le> t" unfolding assms(2) by (intro mult_right_mono) (simp_all add: tiny_pos less_imp_le)
  then have "tiny < 2 powi (e + 1)" using t(2) by simp
  then have "- 1074 < e + 1" unfolding tiny_def by (rule powi2_less_D)
  then have e: "- 1074 \<le> e" by simp
  have "rnd t \<le> 2 powi (e + 1)" using t(2) e by (intro rnd_le repr_powi) auto
  moreover have "0 \<le> rnd t" using assms(1) by (intro rnd_nonneg) simp
  ultimately have "a * rnd t \<le> 1 / 2 * 2 powi (e + 1)" using assms(3,4) by (intro mult_mono) auto
  then have "a * rnd t \<le> 2 powi e" using powi2_add[of e 1] by simp
  then have "rnd (a * rnd t) \<le> 2 powi e" using e by (intro rnd_le repr_powi)
  then show ?thesis using t(1) by simp
qed

lemma ema_below:
  assumes "repr m" "repr v" "repr b" "m \<le> b" "v \<le> b" "0 \<le> a" "a \<le> 1 / 2"
  shows "rnd (m + rnd (a * rnd (v - m))) \<le> b"
proof (rule rnd_le[OF assms(3)], cases "m < v")
  case True
  from assms(1,2) obtain i j where "m = of_int i * tiny" "v = of_int j * tiny"
    by (metis repr_multiple)
  then have "v - m = of_int (j - i) * tiny" by (simp add: left_diff_distrib)
  then have "rnd (a * rnd (v - m)) \<le> v - m" using True assms(6,7) by (intro rnd_fraction[of _ "j - i"]) auto
  then show "m + rnd (a * rnd (v - m)) \<le> b" using assms(5) by simp
next
  case False
  then have "rnd (v - m) \<le> 0" by (intro rnd_le) auto
  then have "rnd (a * rnd (v - m)) \<le> 0" using assms(6) by (intro rnd_le) (auto simp: mult_le_0_iff)
  then show "m + rnd (a * rnd (v - m)) \<le> b" using assms(4) by simp
qed

lemma ema_between:
  assumes "repr m" "repr v" "repr b" "\<bar>m\<bar> \<le> b" "\<bar>v\<bar> \<le> b" "0 \<le> a" "a \<le> 1 / 2"
  shows "\<bar>rnd (m + rnd (a * rnd (v - m)))\<bar> \<le> b"
proof -
  have "rnd (m + rnd (a * rnd (v - m))) \<le> b" using assms by (intro ema_below) (auto simp: abs_le_iff)
  moreover have "rnd (- m + rnd (a * rnd (- v - - m))) \<le> b"
    using assms by (intro ema_below) (auto simp: abs_le_iff repr_minus)
  moreover have "- v - - m = - (v - m)" by simp
  then have "- m + rnd (a * rnd (- v - - m)) = - (m + rnd (a * rnd (v - m)))"
    by (simp only: rnd_minus mult_minus_right minus_add_distrib)
  ultimately show ?thesis by (simp only: rnd_minus abs_le_iff)
qed

lemma ema_mean_mag:
  assumes "mag k m" "double m" "mag k v" "double v" "fin a" "0 \<le> val a" "val a \<le> 1 / 2" "k \<le> 1000"
  shows "mag k (m + a * (v - m))" "mag (Suc k) (v - m)"
proof -
  have a: "mag 0 a" using assms by (simp add: mag_def)
  show d: "mag (Suc k) (v - m)" using assms by (intro mag_minus) auto
  then have p: "mag (Suc k) (a * (v - m))" using mag_times[OF a d] assms(8) by simp
  moreover have "mag (Suc k) m" using assms(1) by (rule mag_mono) simp
  ultimately have f: "fin (m + a * (v - m))" using assms(8) by (intro mag_fin[OF mag_plus]) auto
  have "val (m + a * (v - m)) = rnd (val m + rnd (val a * rnd (val v - val m)))"
    using assms d p f by (simp add: val_plus val_times val_minus mag_fin)
  then show "mag k (m + a * (v - m))"
    using assms f ema_between[of "val m" "val v" "2 ^ k" "val a"] repr_pow2[of k]
    by (auto simp: mag_def double_def bound_def)
qed

section \<open>Every normalised feature is in range\<close>

definition ema_ok :: "ema_stats \<Rightarrow> bool" where
  "ema_ok s \<longleftrightarrow> mag 500 (em_mean s) \<and> double (em_mean s) \<and> 0 \<le> em_var s"

definition sample_finite :: "f64 \<Rightarrow> bool" where
  "sample_finite v \<longleftrightarrow> double v \<and> mag 500 v"

lemma ema_normalize_ok:
  assumes "ema_ok s" "sample_finite v" "a = lit 0.035 \<or> a = lit 0.030"
  shows "ema_ok (fst (ema_normalize s v a)) \<and> rng (- 5) 5 (snd (ema_normalize s v a))"
proof (cases "em_initialized s")
  case True
  let ?m = "em_mean s + a * (v - em_mean s)" and ?d = "v - em_mean s"
  let ?v = "(1 - a) * (em_var s + a * ?d * ?d)"
  have a: "fin a" "0 < val a" "val a \<le> 1 / 2" "fin (1 - a)" "0 < val (1 - a)"
    using assms(3) by (auto simp: f64_eval)
  have m: "mag 500 ?m" "mag 501 ?d" using assms a ema_mean_mag[of 500 "em_mean s" v a]
    by (simp_all add: ema_ok_def sample_finite_def)
  have "0 \<le> a * ?d * ?d"
  proof -
    have "fin (a * ?d)" using mag_times[of 0 a 501 ?d] a m(2) by (auto simp: mag_def)
    moreover have "fin (a * ?d * ?d)"
      using mag_times[of 501 "a * ?d" 501 ?d] mag_times[of 0 a 501 ?d] a m(2) by (auto simp: mag_def)
    moreover have "val (a * ?d * ?d) = rnd (rnd (val a * val ?d) * val ?d)"
      using calculation a m(2) by (simp add: val_times mag_fin)
    moreover have "0 \<le> rnd (val a * val ?d) * val ?d"
    proof (cases "0 \<le> val ?d")
      case True
      then show ?thesis using a by (simp add: rnd_nonneg)
    next
      case False
      then have "rnd (val a * val ?d) \<le> 0" using a by (intro rnd_le) (auto simp: mult_le_0_iff)
      then show ?thesis using False by (simp add: mult_nonpos_nonpos)
    qed
    ultimately show ?thesis by (simp add: fin_le_iff zero_f64_def rnd_nonneg)
  qed
  then have var: "0 \<le> em_var s + a * ?d * ?d" using assms(1) by (intro plus_nonneg) (simp_all add: ema_ok_def)
  have v: "0 \<le> ?v" by (rule times_nonneg(1)[OF var a(4,5)])
  have "(0 :: f64) < lit (1 / 10 ^ 9)" by (simp add: f64_eval)
  then have "0 < f_max (f_sqrt ?v) (lit (1 / 10 ^ 9))"
    by (rule f64_less_le_trans[OF _ f_max_const]) simp
  moreover have "fin (v - ?m)" using assms(2) m(1) mag_minus[of 500 v ?m] by (auto simp: sample_finite_def mag_fin)
  ultimately have "(v - ?m) / f_max (f_sqrt ?v) (lit (1 / 10 ^ 9)) \<noteq> NaN" by (rule divide_pos_not_nan[rotated])
  then have "rng (- 5) 5 (f_clamp ((v - ?m) / f_max (f_sqrt ?v) (lit (1 / 10 ^ 9))) (lit (- 5)) (lit 5))"
    by (intro f_clamp_lit) auto
  then show ?thesis using True assms m v by (simp add: ema_normalize_def ema_ok_def Let_def rng_def)
next
  case False
  then show ?thesis using assms by (auto simp: ema_normalize_def ema_ok_def sample_finite_def mag_fin rng_def zero_f64_def one_f64_def)
qed

text \<open>What the book and the tape give to the features.\<close>

definition prices_ok :: "order_book_state \<Rightarrow> bool" where
  "prices_ok st \<longleftrightarrow> mag 63 (ob_best_bid st) \<and> mag 63 (ob_best_ask st) \<and> mag 117 (ob_spread st) \<and> state_ok st"

definition tape_values_ok :: "tape_state \<Rightarrow> bool" where
  "tape_values_ok st \<longleftrightarrow> mag 60 (ts_last_price st) \<and> mag 54 (ts_delta st) \<and> double (ts_delta st)
     \<and> mag 64 (ts_trade_frequency st) \<and> double (ts_trade_frequency st) \<and> double (ts_volume_burst st)
     \<and> tape_scores_ok st"

definition normalizer_ok :: "feature_normalizer \<Rightarrow> bool" where
  "normalizer_ok n \<longleftrightarrow> ema_ok (fn_velocity n) \<and> ema_ok (fn_volume n) \<and> ema_ok (fn_volatility n) \<and> ema_ok (fn_spread n)
     \<and> ema_ok (fn_spread_dynamics n) \<and> ema_ok (fn_trade_clustering n) \<and> ema_ok (fn_liquidity_shift n)
     \<and> ema_ok (fn_delta n) \<and> mag 64 (fn_previous_mid n) \<and> mag 117 (fn_previous_spread n) \<and> mag 46 (fn_previous_depth n)"

definition features_ok :: "features \<Rightarrow> bool" where
  "features_ok f \<longleftrightarrow> rng (- 5) 5 (ft_velocity f) \<and> rng (- 5) 5 (ft_vol_z f) \<and> rng 0 5 (ft_volatility f)
     \<and> rng 0 5 (ft_spread f) \<and> rng (- 5) 5 (ft_spread_dynamics f) \<and> rng (- 5) 5 (ft_micro_price_velocity f)
     \<and> rng (- 5) 5 (ft_trade_clustering f) \<and> rng (- 5) 5 (ft_liquidity_shift f) \<and> rng (- 5) 5 (ft_order_flow_delta f)
     \<and> rng (- 1) 1 (ft_imbalance f) \<and> rng (- 1) 1 (ft_weighted_imbalance f)
     \<and> rng 0 1 (ft_absorption f) \<and> rng 0 1 (ft_spoofing_risk f) \<and> rng 0 1 (ft_liquidity_pull f)"

lemma not_nan_rng [simp]: "\<not> rng a b NaN" and not_nan_mag [simp]: "\<not> mag k NaN"
  by (simp_all add: rng_def mag_def)

lemma mag_divide_eps:
  assumes "mag k x" "fin y" "k + 52 < 1024"
  shows "mag (k + 52) (x / f_max y f_epsilon)"
proof -
  let ?y = "f_max y f_epsilon"
  have y: "fin ?y" "1 / 2 ^ 52 \<le> val ?y" using assms(2) by (simp_all add: fin_f_max val_f_max)
  have "(0 :: rat) < 1 / 2 ^ 52" by simp
  then have p: "0 < val ?y" using y(2) by (rule less_le_trans)
  have "\<bar>val x\<bar> / val ?y \<le> 2 ^ k / (1 / 2 ^ 52)"
    using assms(1) y p by (intro frac_le) (auto simp: mag_def)
  then have "\<bar>val x / val ?y\<bar> \<le> 2 ^ (k + 52)" using p by (simp add: power_add)
  then show ?thesis using assms y p by (simp add: divide_fin mag_fin mag_mk)
qed

lemma relative_change_ok:
  assumes "mag k x" "mag k p" "k < 900"
  shows "mag (k + 53) (relative_change x p)" "double (relative_change x p)"
proof -
  have "mag (Suc k) (x - p)" using assms by (intro mag_minus) auto
  from mag_divide_eps[OF this, of p] show "mag (k + 53) (relative_change x p)"
    using assms by (simp add: relative_change_def mag_fin add.commute)
qed (simp add: relative_change_def)

lemma mag_lit: "\<bar>q\<bar> \<le> 2 ^ k \<Longrightarrow> k < 1024 \<Longrightarrow> mag k (lit q)"
  unfolding lit_def by (rule mag_mk)

lemma mag_times_lit: "mag j x \<Longrightarrow> \<bar>q\<bar> \<le> 2 ^ k \<Longrightarrow> j + k < 1024 \<Longrightarrow> mag (j + k) (x * lit q)"
  by (intro mag_times mag_lit) simp_all

lemma mag_scale: "mag k x \<Longrightarrow> mag 0 c \<Longrightarrow> k < 1024 \<Longrightarrow> mag k (x * c)"
  using mag_times[of k x 0 c] by simp

lemma rng_mag: "rng a b x \<Longrightarrow> - (2 ^ k) \<le> a \<Longrightarrow> b \<le> 2 ^ k \<Longrightarrow> mag k x"
  unfolding mag_rng by (rule rng_weaken)

lemma mag_f_abs: "mag k (f_abs x) = mag k x"
  by (simp add: mag_def)

lemma rng_f_abs_sym: "rng (- a) a x \<Longrightarrow> rng 0 a (f_abs x)"
  by (auto simp: rng_def abs_le_iff)

lemma frame_mid_ok: "prices_ok book \<Longrightarrow> tape_values_ok tape \<Longrightarrow> mag 64 (frame_mid book tape)"
proof -
  assume b: "prices_ok book" and t: "tape_values_ok tape"
  have "mag 64 (ob_best_bid book + ob_best_ask book)" using mag_plus[of 63] b by (simp add: prices_ok_def)
  then have "mag 64 ((ob_best_bid book + ob_best_ask book) * lit 0.5)"
    by (rule mag_scale) (simp_all add: mag_lit)
  moreover have "mag 64 (ts_last_price tape)" using t by - (rule mag_mono[of 60], simp_all add: tape_values_ok_def)
  ultimately show ?thesis unfolding frame_mid_def by presburger
qed

lemma depth_ok: "state_ok book \<Longrightarrow> rng 0 (2 ^ 46) (ob_bid_volume book + ob_ask_volume book)"
  using rng_plus[of 0 "2 ^ 45" _ 0 "2 ^ 45" _ 0 "2 ^ 46"] by (simp add: state_ok_def)

lemma normalize_features_ok:
  assumes "normalizer_ok n" "prices_ok book" "tape_values_ok tape"
  shows "normalizer_ok (fst (normalize_features n book tape timestamp))
    \<and> features_ok (snd (normalize_features n book tape timestamp))"
proof -
  define alpha where "alpha = ema_alpha timestamp"
  define mid where "mid = frame_mid book tape"
  define rv where "rv = relative_change mid (fn_previous_mid n)"
  have a: "alpha = lit 0.035 \<or> alpha = lit 0.030" by (simp add: alpha_def ema_alpha_def)
  note step = ema_normalize_ok[OF _ _ a]
  have mid: "mag 64 mid" unfolding mid_def by (rule frame_mid_ok[OF assms(2,3)])
  then have rv: "mag 117 rv" "double rv"
    unfolding rv_def using relative_change_ok[of 64] assms(1) by (simp_all add: normalizer_ok_def)
  have depth: "mag 46 (ob_bid_volume book + ob_ask_volume book)"
    using depth_ok assms(2) by (intro rng_mag[of 0 "2 ^ 46"]) (auto simp: prices_ok_def)
  have sp: "mag 117 (ob_spread book)" using assms(2) by (simp add: prices_ok_def)
  have fin: "sample_finite x" if "mag k x" "k \<le> 500" "double x" for x k
    using that mag_mono[of k x 500] by (simp add: sample_finite_def)
  have samples: "sample_finite (rv * lit 10000)" "sample_finite (f_abs rv * lit 10000)" "sample_finite (rv * lit 100000)"
    "sample_finite (ob_spread book * lit 10000)"
    "sample_finite (relative_change (ob_spread book) (fn_previous_spread n))"
    "sample_finite (relative_change (ob_bid_volume book + ob_ask_volume book) (fn_previous_depth n))"
    "sample_finite (ts_volume_burst tape)" "sample_finite (ts_trade_frequency tape)" "sample_finite (ts_delta tape)"
  proof -
    have "mag (117 + 14) (rv * lit 10000)" "mag (117 + 14) (f_abs rv * lit 10000)"
      "mag (117 + 17) (rv * lit 100000)" "mag (117 + 14) (ob_spread book * lit 10000)"
      using rv(1) sp by (intro mag_times_lit; simp add: mag_f_abs)+
    then show "sample_finite (rv * lit 10000)" "sample_finite (f_abs rv * lit 10000)" "sample_finite (rv * lit 100000)"
      "sample_finite (ob_spread book * lit 10000)" by (auto elim!: fin)
    show "sample_finite (relative_change (ob_spread book) (fn_previous_spread n))"
      using relative_change_ok[OF sp, of "fn_previous_spread n"] assms(1) by (auto simp: normalizer_ok_def elim!: fin)
    show "sample_finite (relative_change (ob_bid_volume book + ob_ask_volume book) (fn_previous_depth n))"
      using relative_change_ok[OF depth, of "fn_previous_depth n"] assms(1) by (auto simp: normalizer_ok_def elim!: fin)
    have "mag 4 (ts_volume_burst tape)" using assms(3) by (auto simp: tape_values_ok_def tape_scores_ok_def intro: rng_mag)
    then show "sample_finite (ts_volume_burst tape)" "sample_finite (ts_trade_frequency tape)" "sample_finite (ts_delta tape)"
      using assms(3) by (auto simp: tape_values_ok_def elim!: fin)
  qed
  have n: "ema_ok (fn_velocity n)" "ema_ok (fn_volume n)" "ema_ok (fn_volatility n)" "ema_ok (fn_spread n)"
    "ema_ok (fn_spread_dynamics n)" "ema_ok (fn_trade_clustering n)" "ema_ok (fn_liquidity_shift n)" "ema_ok (fn_delta n)"
    using assms(1) by (auto simp: normalizer_ok_def)
  note velocity = step[OF n(1) samples(1)]
  note results = velocity step[OF conjunct1[OF velocity] samples(3)] step[OF n(2) samples(7)] step[OF n(3) samples(2)]
    step[OF n(4) samples(4)] step[OF n(5) samples(5)] step[OF n(6) samples(8)] step[OF n(7) samples(6)] step[OF n(8) samples(9)]
  have unit: "rng 0 1 (f_clamp x 0 1)" if "rng 0 1 x" for x using that by (intro f_clamp_unit rngD(4))
  have absorb: "rng 0 1 (f_max (ob_absorption book) (ts_exhaustion tape))"
    using rng_f_max[of 0 1 "ob_absorption book" 0 1] assms(2,3)
    by (simp add: prices_ok_def state_ok_def tape_values_ok_def tape_scores_ok_def)
  have pos: "rng 0 5 (f_max x 0)" if "rng (- 5) 5 x" for x
    using rng_f_max[OF that, of 0 0 0] by (simp add: rng_def)
  show ?thesis
    unfolding normalize_features_def Let_def case_prod_unfold alpha_def[symmetric] mid_def[symmetric] rv_def[symmetric]
      normalizer_ok_def features_ok_def
    using results mid sp depth unit[OF absorb] assms(2)
    by (auto simp: prices_ok_def state_ok_def intro: unit pos rng_f_abs_sym)
qed

section \<open>Context, flow and timing\<close>

text \<open>Weighted sums of scores, as the engines build them.\<close>

lemma unit_term: "rng 0 1 x \<Longrightarrow> 0 \<le> q \<Longrightarrow> q \<le> 1 \<Longrightarrow> rng 0 1 (lit q * x)"
  by (rule rng_times_nonneg[of 0 1 _ 0 1]) (auto intro: rng_lit)

lemma sum3_rng: "rng 0 1 a \<Longrightarrow> rng 0 1 b \<Longrightarrow> rng 0 1 c \<Longrightarrow> rng 0 3 (a + b + c)"
  by (rule rng_plus[of 0 2 _ 0 1], rule rng_plus[of 0 1 _ 0 1]) simp_all

lemma sum5_rng: "rng 0 1 a \<Longrightarrow> rng 0 1 b \<Longrightarrow> rng 0 1 c \<Longrightarrow> rng 0 1 d \<Longrightarrow> rng 0 1 e \<Longrightarrow> rng 0 5 (a + b + c + d + e)"
  by (rule rng_plus[of 0 4 _ 0 1], rule rng_plus[of 0 3 _ 0 1], rule sum3_rng) simp_all

lemma fifth_unit: "rng 0 5 x \<Longrightarrow> rng 0 1 (x / lit 5)"
  by (rule rng_divide_nonneg[of 0 5 _ 5 5]) (simp_all add: lit_exact rng_def)

lemma clamp_five: "x \<noteq> NaN \<Longrightarrow> rng 0 5 (f_clamp x 0 (lit 5))"
  using f_clamp_rng[of x 0 "lit 5"] by (simp add: lit_exact)

lemma one_minus_unit: "rng 0 1 x \<Longrightarrow> rng 0 1 (1 - x)"
  by (rule rng_minus[of 1 1 _ 0 1]) (simp_all add: rng_def)

lemma clamp_max_unit: "x \<noteq> NaN \<Longrightarrow> rng 0 1 (f_clamp (f_max x 0) 0 (lit 5) / lit 5)"
  by (intro fifth_unit clamp_five f_max_not_nan) simp

lemma divide_lit_not_nan: "x \<noteq> NaN \<Longrightarrow> 0 < q \<Longrightarrow> bound q \<Longrightarrow> x / lit q \<noteq> NaN"
  by (rule divide_not_nan') (simp_all add: lit_exact)

definition context_engine_ok :: "context_engine \<Rightarrow> bool" where
  "context_engine_ok c \<longleftrightarrow> rng 0 (2 ^ 46) (cx_baseline_depth c) \<and> rng (- 1) 1 (cx_previous_imbalance c)"

definition market_context_ok :: "market_context \<Rightarrow> bool" where
  "market_context_ok m \<longleftrightarrow> rng 0 5 (mc_volatility m) \<and> rng 0 1 (mc_liquidity_score m) \<and> rng 0 1 (mc_stability_score m)"

lemma instability_unit:
  assumes "v \<noteq> NaN" "rng 0 1 w" "rng 0 1 d" "rng 0 1 b" "i \<noteq> NaN"
  shows "rng 0 1 (instability v w d b i)"
  unfolding instability_def using assms
  by (intro f_clamp_unit rngD(4)[OF sum5_rng] unit_term f_clamp_unit divide_lit_not_nan) auto

lemma liquidity_score_unit:
  assumes "rng 0 2 r" "state_ok book"
  shows "rng 0 1 (liquidity_score r book)"
proof -
  have "rng 0 1 (f_min r 1)" using assms(1) rng_f_min[of 0 2 r 0 1 1] by (auto simp: rng_def fin_f_max val_f_min)
  moreover have "ob_spread book * lit 10000 / lit 20 \<noteq> NaN"
    using assms(2) times_not_nan'[of "ob_spread book" "lit 10000"]
    by (intro divide_lit_not_nan) (auto simp: state_ok_def lit_exact dest: f64_le_not_nan)
  ultimately show ?thesis unfolding liquidity_score_def using assms(2)
    by (intro f_clamp_unit rngD(4)[OF sum3_rng] unit_term one_minus_unit) (auto simp: state_ok_def intro: f_clamp_unit)
qed

lemma baseline_rng:
  assumes "rng 0 (2 ^ 46) b" "rng 0 (2 ^ 46) d"
  shows "rng 0 (2 ^ 46) (lit 0.985 * b + lit 0.015 * d)"
  unfolding times_commute_f64[of "lit _"] using assms by (rule rng_mix) (simp_all add: f64_eval)

lemma context_update_ok:
  assumes "context_engine_ok c" "features_ok features" "state_ok book" "tape_values_ok tape"
  shows "context_engine_ok (fst (context_update c features book tape))
    \<and> market_context_ok (snd (context_update c features book tape))"
proof -
  define depth where "depth = f_max (ob_bid_volume book + ob_ask_volume book) 0"
  define c1 where "c1 = (if cx_initialized c then c
    else \<lparr>cx_baseline_depth = f_max depth 1, cx_previous_imbalance = ob_weighted_imbalance book, cx_initialized = True\<rparr>)"
  define baseline where "baseline = lit 0.985 * cx_baseline_depth c1 + lit 0.015 * f_max depth 1"
  define ratio where "ratio = f_clamp (depth / f_max baseline 1) 0 (lit 2)"
  define shift where "shift = f_abs (ob_weighted_imbalance book - cx_previous_imbalance c1)"
  define vol where "vol = f_max (f_abs (ft_volatility features)) (f_abs (ft_micro_price_velocity features) * lit 0.25)"
  have w: "rng (- 1) 1 (ob_weighted_imbalance book)" using assms(3) by (simp add: state_ok_def)
  have depth: "rng 0 (2 ^ 46) depth" using depth_ok[OF assms(3)] by (auto simp: depth_def rng_def fin_f_max val_f_max)
  then have depth1: "rng 0 (2 ^ 46) (f_max depth 1)" by (auto simp: rng_def fin_f_max val_f_max)
  have c1: "rng 0 (2 ^ 46) (cx_baseline_depth c1)" "rng (- 1) 1 (cx_previous_imbalance c1)"
    using assms(1) depth1 w by (auto simp: c1_def context_engine_ok_def)
  have base: "rng 0 (2 ^ 46) baseline" unfolding baseline_def by (rule baseline_rng[OF c1(1) depth1])
  then have "fin (f_max baseline 1)" "0 < val (f_max baseline 1)" by (auto simp: rng_def fin_f_max val_f_max)
  then have "depth / f_max baseline 1 \<noteq> NaN" using depth by (intro divide_not_nan) (auto simp: rngD)
  then have ratio: "rng 0 2 ratio" using f_clamp_rng[of "depth / f_max baseline 1" 0 "lit 2"] by (simp add: ratio_def lit_exact)
  then have collapse: "rng 0 1 (f_clamp (1 - ratio) 0 1)" by (intro f_clamp_unit minus_not_nan) (auto dest: rngD)
  have shift: "shift \<noteq> NaN" using w c1(2) by (simp add: shift_def minus_not_nan rngD)
  have "rng 0 5 (f_abs (ft_volatility features))" "rng 0 5 (f_abs (ft_micro_price_velocity features))"
    using assms(2) by (auto simp: features_ok_def rng_def)
  moreover from this(2) have "rng 0 5 (f_abs (ft_micro_price_velocity features) * lit 0.25)"
    by (rule rng_times_nonneg[of 0 5 _ 0 1]) (auto intro: rng_lit)
  ultimately have vol: "rng 0 5 vol" using rng_f_max[of 0 5 _ 0 5] by (simp add: vol_def)
  have burst: "rng 0 1 (f_clamp (ts_trade_frequency tape / lit 80) 0 1)"
    using assms(4) by (intro f_clamp_unit divide_lit_not_nan) (auto simp: tape_values_ok_def dest: mag_not_nan)
  have widen: "rng 0 1 (f_clamp (f_max (ft_spread_dynamics features) 0) 0 (lit 5) / lit 5)"
    using assms(2) by (intro clamp_max_unit) (auto simp: features_ok_def)
  note inst = instability_unit[OF rngD(4)[OF vol] widen collapse burst shift]
  show ?thesis
    using base w vol liquidity_score_unit[OF ratio assms(3)] one_minus_unit[OF inst]
    unfolding context_update_def Let_def depth_def[symmetric] c1_def[symmetric] baseline_def[symmetric]
      ratio_def[symmetric] shift_def[symmetric] vol_def[symmetric]
    by (simp add: context_engine_ok_def market_context_ok_def)
qed

definition flow_intelligence_ok :: "flow_intelligence \<Rightarrow> bool" where
  "flow_intelligence_ok f \<longleftrightarrow> mag 54 (fi_previous_delta f)"

definition flow_state_ok :: "flow_state \<Rightarrow> bool" where
  "flow_state_ok f \<longleftrightarrow> rng 0 1 (fs_aggressive_ratio f) \<and> rng 0 1 (fs_absorption f)
     \<and> rng 0 1 (fs_exhaustion f) \<and> rng 0 1 (fs_continuation_strength f)"

definition timing_state_ok :: "micro_timing_state \<Rightarrow> bool" where
  "timing_state_ok m \<longleftrightarrow> rng 0 1 (mt_spread_compression m) \<and> rng 0 1 (mt_liquidity_pull m) \<and> rng 0 1 (mt_trade_burst m)
     \<and> rng 0 1 (mt_micro_pullback m) \<and> rng 0 1 (mt_timing_score m)"

lemma flow_side_unit: "ts_delta tape \<noteq> NaN \<Longrightarrow> mag 0 (flow_side direction tape)"
  using f_signum_cases[of "ts_delta tape"] by (cases direction) (auto simp: flow_side_def mag_def)

lemma flow_update_ok:
  assumes "flow_intelligence_ok f" "features_ok features" "state_ok book" "tape_values_ok tape"
  shows "flow_intelligence_ok (fst (flow_update f features book tape direction))
    \<and> flow_state_ok (snd (flow_update f features book tape direction))"
proof -
  define ratio where "ratio = f_clamp (f_abs (ts_delta tape) / f_max (ts_buy_volume tape + ts_sell_volume tape) f_epsilon) 0 1"
  define side where "side = flow_side direction tape"
  define decay where "decay = f_max (f_abs (fi_previous_delta f) - f_abs (ts_delta tape)) 0 / f_max (f_abs (fi_previous_delta f)) 1"
  have d: "mag 54 (ts_delta tape)" using assms(4) by (simp add: tape_values_ok_def)
  have side: "mag 0 side" unfolding side_def using d by (intro flow_side_unit mag_not_nan)
  have v: "rng 0 (2 ^ 53) (ts_buy_volume tape)" "rng 0 (2 ^ 53) (ts_sell_volume tape)"
    using assms(4) by (simp_all add: tape_values_ok_def tape_scores_ok_def)
  have "rng 0 (2 ^ 54) (ts_buy_volume tape + ts_sell_volume tape)"
    using bound_pow2(1)[of 54] by (intro rng_plus[OF v]) simp_all
  then have "fin (ts_buy_volume tape + ts_sell_volume tape)" by (rule rngD)
  then have ratio: "rng 0 1 ratio" unfolding ratio_def using d f_max_eps[of "ts_buy_volume tape + ts_sell_volume tape"]
    by (intro f_clamp_unit divide_not_nan') (auto dest: mag_not_nan)
  have "mag (3 + 0) (ft_order_flow_delta features * side)"
    using assms(2) side by (intro mag_times) (auto simp: features_ok_def intro: rng_mag)
  then have flow: "rng 0 1 (f_clamp (f_max (ft_order_flow_delta features * side) 0) 0 (lit 5) / lit 5)"
    by (intro clamp_max_unit mag_not_nan)
  have "mag (0 + 0) (ob_weighted_imbalance book * side)"
    using assms(3) side by (intro mag_times) (auto simp: state_ok_def intro: rng_mag)
  then have book: "rng 0 1 (f_clamp (f_max (ob_weighted_imbalance book * side) 0) 0 1)"
    by (intro f_clamp_unit f_max_not_nan) (auto dest: mag_not_nan)
  have p: "mag 54 (fi_previous_delta f)" using assms(1) by (simp add: flow_intelligence_ok_def)
  then have "mag 55 (f_abs (fi_previous_delta f) - f_abs (ts_delta tape))"
    using d mag_minus[of 54] by (simp add: mag_f_abs)
  then have "mag 55 (f_max (f_abs (fi_previous_delta f) - f_abs (ts_delta tape)) 0)" by (intro mag_select) simp_all
  then have "mag 55 decay" unfolding decay_def
    using p by (intro mag_divide) (auto simp: mag_def fin_f_max val_f_max)
  moreover have "mag 55 (ts_exhaustion tape)"
    using assms(4) by (auto simp: tape_values_ok_def tape_scores_ok_def intro: rng_mag)
  ultimately have e: "mag 55 (f_max (ts_exhaustion tape) decay)" by (intro mag_select)
  have "rng 0 1 (ob_absorption book * lit 0.35)"
    using assms(3) by (intro rng_times_nonneg[of 0 1 _ 0 1]) (auto simp: state_ok_def intro: rng_lit)
  then have "mag 55 (ob_absorption book * lit 0.35)" by (rule rng_mag) simp_all
  then have exh: "rng 0 1 (f_clamp (f_max (ts_exhaustion tape) decay + ob_absorption book * lit 0.35) 0 1)"
    using mag_plus[OF e] by (intro f_clamp_unit mag_not_nan) simp
  note cont = f_clamp_unit[OF rngD(4)[OF sum3_rng[OF unit_term[OF ratio] unit_term[OF flow] unit_term[OF book]]],
      of "0.42" "0.32" "0.26"]
  show ?thesis using ratio exh cont d assms(3)
    unfolding flow_update_def Let_def ratio_def[symmetric] side_def[symmetric] decay_def[symmetric]
    by (simp add: flow_intelligence_ok_def flow_state_ok_def state_ok_def)
qed

lemma timing_update_ok:
  assumes "features_ok features" "state_ok book" "tape_values_ok tape"
  shows "timing_state_ok (snd (timing_update t features book tape))"
proof -
  have f: "rng (- 5) 5 (ft_spread_dynamics features)" "rng (- 5) 5 (ft_micro_price_velocity features)" "rng 0 1 (ft_liquidity_pull features)"
    using assms(1) by (auto simp: features_ok_def)
  have compression: "rng 0 1 (f_clamp (f_max (- ft_spread_dynamics features) 0) 0 (lit 5) / lit 5)"
    using f by (intro clamp_max_unit) (auto simp: rngD)
  have pull: "rng 0 1 (f_clamp (ft_liquidity_pull features) 0 1)" using f by (intro f_clamp_unit) (auto simp: rngD)
  have burst: "rng 0 1 (f_clamp (ts_volume_burst tape / lit 4) 0 1)"
    using assms(3) by (intro f_clamp_unit divide_lit_not_nan) (auto simp: tape_values_ok_def tape_scores_ok_def dest: rngD)
  have nn: "f_abs (ft_micro_price_velocity features) / lit 5 \<noteq> NaN"
    using rngD(4)[OF f(2)] by (intro divide_lit_not_nan) auto
  have pullback: "rng 0 1 (micro_pullback t (ft_micro_price_velocity features))"
    by (simp add: micro_pullback_def rng_0_1 f_clamp_unit[OF nn])
  have depth: "rng 0 1 (f_clamp ((ob_bid_volume book + ob_ask_volume book) / lit 10) 0 1)"
    using depth_ok[OF assms(2)] by (intro f_clamp_unit divide_lit_not_nan) (auto dest: rngD)
  note score = f_clamp_unit[OF rngD(4)[OF sum5_rng[OF unit_term[OF compression] unit_term[OF burst] unit_term[OF pullback]
      unit_term[OF depth] unit_term[OF one_minus_unit[OF pull]]]], of "0.30" "0.22" "0.18" "0.18" "0.12"]
  show ?thesis using compression pull burst pullback score
    by (simp add: timing_update_def Let_def timing_state_ok_def)
qed

section \<open>The frames of a valid feed\<close>

text \<open>A valid feed: bounded quantities and trade volumes, prices that are finite and at most \<open>2 ^ 60\<close>.\<close>

definition feed_ok :: "market_update \<Rightarrow> bool" where
  "feed_ok u \<longleftrightarrow> update_valid u \<and> (case u of BookUpdate d \<Rightarrow> True | TradeUpdate t \<Rightarrow> trade_ok t \<and> mag 60 (te_price t))"

definition frame_body_ok :: "microstructure_frame \<Rightarrow> bool" where
  "frame_body_ok f \<longleftrightarrow> prices_ok (mf_book f) \<and> tape_values_ok (mf_tape f) \<and> features_ok (mf_features f)
     \<and> rng 0 5 (mr_volatility (mf_regime f)) \<and> rng 0 100 (mr_spread (mf_regime f)) \<and> rng 0 5 (mr_trend_strength (mf_regime f))
     \<and> market_context_ok (mf_context f) \<and> flow_state_ok (mf_flow f) \<and> timing_state_ok (mf_timing f)"

definition frame_ok :: "microstructure_frame \<Rightarrow> bool" where
  "frame_ok f \<longleftrightarrow> frame_body_ok f
     \<and> mf_trigger f = trigger_snapshot_default \<and> mf_reversal f = reversal_snapshot_default
     \<and> mf_reversal_classifier f = reversal_classifier_default \<and> mf_entry_scoring f = entry_scoring_default"

definition micro_task_ok :: "micro_task \<Rightarrow> bool" where
  "micro_task_ok s \<longleftrightarrow> book_ok (ms_book s) \<and> list_all (\<lambda>t. trade_ok t \<and> mag 60 (te_price t)) (tp_trades (ms_tape s))
     \<and> tape_values_ok (tp_last_state (ms_tape s))
     \<and> normalizer_ok (ms_normalizer s) \<and> context_engine_ok (ms_context s) \<and> flow_intelligence_ok (ms_flow s)"

lemma book_prices:
  assumes "book_ok b"
  shows "prices_ok (compute_state b now)"
proof -
  have t: "\<bar>best_bid_tick b\<bar> \<le> 2 ^ 63" "\<bar>best_ask_tick b\<bar> \<le> 2 ^ 63"
    using assms last_in_set[of "bk_bids b"] hd_in_set[of "bk_asks b"]
    by (auto simp: best_bid_tick_def best_ask_tick_def entries_ok_def book_ok_def case_prod_unfold)
  have m: "mag 63 (from_tick (best_bid_tick b))" "mag 63 (from_tick (best_ask_tick b))"
    unfolding mag_rng by (intro from_tick_rng t)+
  then have "mag 64 (from_tick (best_bid_tick b) + from_tick (best_ask_tick b))" using mag_plus[of 63] by simp
  then have "fin ((from_tick (best_bid_tick b) + from_tick (best_ask_tick b)) * lit 0.5)"
    by (intro mag_fin[of 64] mag_scale) (simp_all add: mag_lit)
  then have mid: "fin (midpoint (from_tick (best_bid_tick b)) (from_tick (best_ask_tick b)))"
    using m by (auto simp: midpoint_def fin_f_max mag_fin)
  have "mag 64 (from_tick (best_ask_tick b) - from_tick (best_bid_tick b))" using mag_minus[of 63] m by simp
  from mag_divide_eps[OF this mid]
  have "mag 116 (book_spread (from_tick (best_bid_tick b)) (from_tick (best_ask_tick b)))"
    by (simp add: book_spread_def)
  then have "mag 117 (book_spread (from_tick (best_bid_tick b)) (from_tick (best_ask_tick b)))"
    by (rule mag_mono) simp
  moreover have "ob_best_bid (compute_state b now) = from_tick (best_bid_tick b)"
    "ob_best_ask (compute_state b now) = from_tick (best_ask_tick b)"
    "ob_spread (compute_state b now) = book_spread (from_tick (best_bid_tick b)) (from_tick (best_ask_tick b))"
    by (simp_all add: compute_state_def Let_def)
  ultimately show ?thesis using m compute_state_ok[OF assms, of now] by (simp add: prices_ok_def)
qed

lemma prices_absorption: "prices_ok st \<Longrightarrow> rng 0 1 a \<Longrightarrow> prices_ok (st\<lparr>ob_absorption := a\<rparr>)"
  by (simp add: prices_ok_def state_ok_def)

lemma apply_delta_prices:
  assumes "book_ok b" "update_valid (BookUpdate d)"
  shows "prices_ok (snd (apply_delta b d))"
proof -
  have "book_ok (trim_changes (apply_levels b d) (bd_timestamp d) 750)"
    using assms by (intro trim_changes_ok apply_levels_ok) (auto simp: update_valid_def)
  then show ?thesis by (simp add: apply_delta_def Let_def book_prices)
qed

lemma book_trade_prices:
  assumes "book_ok b" "te_volume t \<noteq> NaN"
  shows "prices_ok (snd (observe_book_trade b t))"
proof -
  let ?b = "b\<lparr>bk_last_trade_price := te_price t, bk_last_trade_volume := te_volume t\<rparr>"
  have b: "book_ok ?b" using assms(1) by (simp add: book_ok_def sides_ok_def)
  then have q: "qty_ok (best_ask_qty ?b)" "qty_ok (best_bid_qty ?b)" by (intro best_qty_ok; simp add: book_ok_def)+
  show ?thesis using book_prices[OF b] q assms(2)
    by (cases "te_side t") (simp_all add: observe_book_trade_def Let_def prices_absorption trade_absorption_rng)
qed

lemma side_volume_double: "list_all trade_ok ts \<Longrightarrow> length ts \<le> 2 ^ 19 \<Longrightarrow> mag 51 (side_volume sd ts)"
  using side_volume_rng[of ts sd] by (intro rng_mag) auto

lemma compute_tape_values:
  assumes "list_all (\<lambda>t. trade_ok t \<and> mag 60 (te_price t)) (tp_trades tp)" "length (tp_trades tp) \<le> 2 ^ 19"
  shows "tape_values_ok (compute_tape tp)"
proof (cases "tp_trades tp = []")
  case True
  then show ?thesis
    by (simp add: compute_tape_def tape_values_ok_def tape_state_default_def tape_scores_ok_def rng_def)
next
  case False
  have ts: "list_all trade_ok (tp_trades tp)" using assms(1) by (simp add: list_all_iff)
  have scores: "tape_scores_ok (compute_tape tp)" by (rule compute_tape_ok[OF ts assms(2)])
  have "mag 60 (te_price (List.last (tp_trades tp)))" using False assms(1) by (simp add: list_all_iff)
  moreover have "mag 52 (side_volume Buy (tp_trades tp) - side_volume Sell (tp_trades tp))"
    using mag_minus[OF side_volume_double[OF ts assms(2)] side_volume_double[OF ts assms(2)]] by simp
  then have "mag 54 (side_volume Buy (tp_trades tp) - side_volume Sell (tp_trades tp))" by (rule mag_mono) simp
  moreover have "mag 64 (f_of_nat (length (tp_trades tp)) / f_of_word (max w 1) * lit 1000)" for w :: u64
  proof -
    have "mag 19 (f_of_nat (length (tp_trades tp)))" using assms(2) by (intro f_of_nat_mag) simp_all
    then have "mag 19 (f_of_nat (length (tp_trades tp)) / f_of_word (max w 1))"
      using f_of_word_pos[of w] by (intro mag_divide) (auto simp: rng_def)
    then have "mag (19 + 10) (f_of_nat (length (tp_trades tp)) / f_of_word (max w 1) * lit 1000)"
      by (intro mag_times_lit) simp_all
    then show ?thesis by (rule mag_mono) simp
  qed
  ultimately show ?thesis using False scores
    by (simp add: tape_values_ok_def compute_tape_def Let_def)
qed

text \<open>
  One step of the task. The number of trades of the window enters through the sum of the
  volumes, so the step is stated for a window of at most \<open>2 ^ 19\<close> trades.
\<close>

lemma observe_update_ok:
  assumes "micro_task_ok s" "feed_ok u" "length (tp_trades (ms_tape s)) < 2 ^ 19"
    "observe_update s u = (s', trade, book, tape)"
  shows "micro_task_ok s' \<and> prices_ok book \<and> tape_values_ok tape
    \<and> length (tp_trades (ms_tape s')) \<le> length (tp_trades (ms_tape s)) + 1
    \<and> ms_normalizer s' = ms_normalizer s \<and> ms_context s' = ms_context s \<and> ms_flow s' = ms_flow s"
proof (cases u)
  case (BookUpdate d)
  have "book_ok (fst (apply_delta (ms_book s) d))"
    using book_step_ok[of "ms_book s" u] assms(1,2) BookUpdate by (simp add: micro_task_ok_def feed_ok_def book_step_def)
  moreover have "prices_ok (snd (apply_delta (ms_book s) d))"
    using assms(1,2) BookUpdate by (intro apply_delta_prices) (simp_all add: micro_task_ok_def feed_ok_def)
  ultimately show ?thesis using assms BookUpdate
    by (auto simp: observe_update_def micro_task_ok_def case_prod_unfold Let_def)
next
  case (TradeUpdate t)
  let ?tp = "fst (observe_tape (ms_tape s) t)"
  have t: "trade_ok t" "mag 60 (te_price t)" "te_volume t \<noteq> NaN"
    using assms(2) TradeUpdate by (auto simp: feed_ok_def update_valid_def)
  have "book_ok (fst (observe_book_trade (ms_book s) t))"
    using book_step_ok[of "ms_book s" u] assms(1,2) TradeUpdate by (simp add: micro_task_ok_def feed_ok_def book_step_def)
  moreover have "prices_ok (snd (observe_book_trade (ms_book s) t))"
    using assms(1) t by (intro book_trade_prices) (simp_all add: micro_task_ok_def)
  moreover have tp: "list_all (\<lambda>t. trade_ok t \<and> mag 60 (te_price t)) (tp_trades ?tp)"
    "length (tp_trades ?tp) \<le> length (tp_trades (ms_tape s)) + 1"
    using assms(1) t tape.trim_subset[of "ms_tape s" "te_timestamp t"]
    by (auto simp: micro_task_ok_def list_all_iff trim_tape_def length_dropWhile_le)
  moreover have "tape_values_ok (compute_tape ?tp)" using tp assms(3) by (intro compute_tape_values) auto
  moreover have "tp_last_state ?tp = compute_tape ?tp"
    by (simp add: observe_tape_def compute_tape_def Let_def)
  ultimately show ?thesis using assms TradeUpdate
    by (auto simp: observe_update_def micro_task_ok_def case_prod_unfold Let_def)
qed

lemma trend_rng:
  assumes "rng (- 5) 5 a" "rng (- 5) 5 b" "rng (- 5) 5 c"
  shows "rng 0 5 ((f_abs a + f_abs b + f_abs c) / lit 3)"
proof -
  have "rng 0 15 (f_abs a + f_abs b + f_abs c)"
    using assms by (intro rng_plus[of 0 10 _ 0 5] rng_plus[of 0 5 _ 0 5] rng_f_abs_sym) simp_all
  then show ?thesis by (rule rng_divide_nonneg[of 0 15 _ 3 3]) (simp_all add: lit_exact rng_def)
qed

lemma frame_regime_ok:
  assumes "features_ok features" "prices_ok book"
  shows "rng 0 5 (mr_volatility (frame_regime features book))" "rng 0 100 (mr_spread (frame_regime features book))"
    "rng 0 5 (mr_trend_strength (frame_regime features book))"
proof -
  show "rng 0 5 (mr_volatility (frame_regime features book))"
    using assms by (auto simp: frame_regime_def features_ok_def intro!: clamp_five)
  have "ob_spread book * lit 10000 \<noteq> NaN"
    using assms(2) by (intro mag_not_nan[OF mag_times_lit[of 117 _ _ 14]]) (simp_all add: prices_ok_def)
  from f_clamp_rng[OF this, of 0 "lit 100"] show "rng 0 100 (mr_spread (frame_regime features book))"
    by (simp add: frame_regime_def lit_exact)
  show "rng 0 5 (mr_trend_strength (frame_regime features book))"
    using assms(1) by (simp add: frame_regime_def features_ok_def trend_rng)
qed

lemma micro_step_ok:
  assumes "micro_task_ok s" "feed_ok (fst x)" "length (tp_trades (ms_tape s)) < 2 ^ 19"
  shows "micro_task_ok (fst (micro_step w s x)) \<and> frame_ok (snd (micro_step w s x))
    \<and> length (tp_trades (ms_tape (fst (micro_step w s x)))) \<le> length (tp_trades (ms_tape s)) + 1"
proof -
  obtain u clock where x: "x = (u, clock)" by (cases x)
  obtain s1 trade book tape where o: "observe_update s u = (s1, trade, book, tape)" by (metis prod_cases4)
  from observe_update_ok[OF assms(1) _ assms(3) o] assms(2) x
  have s1: "micro_task_ok s1" "prices_ok book" "tape_values_ok tape"
    "length (tp_trades (ms_tape s1)) \<le> length (tp_trades (ms_tape s)) + 1" by auto
  have st: "state_ok book" using s1(2) by (simp add: prices_ok_def)
  have n: "normalizer_ok (ms_normalizer s1)" "context_engine_ok (ms_context s1)" "flow_intelligence_ok (ms_flow s1)"
    using s1(1) by (auto simp: micro_task_ok_def)
  note f = normalize_features_ok[OF n(1) s1(2,3), of "update_timestamp u"]
  note c = context_update_ok[OF n(2) conjunct2[OF f] st s1(3)]
  note fl = flow_update_ok[OF n(3) conjunct2[OF f] st s1(3)]
  note ti = timing_update_ok[OF conjunct2[OF f] st s1(3)]
  show ?thesis using s1 f c fl ti frame_regime_ok[OF conjunct2[OF f] s1(2)]
    by (simp add: micro_step_def x o Let_def case_prod_unfold micro_task_ok_def frame_ok_def frame_body_ok_def)
qed

lemma micro_run_ok:
  assumes "micro_task_ok s" "list_all (\<lambda>x. feed_ok (fst x)) xs" "length (tp_trades (ms_tape s)) + length xs \<le> 2 ^ 19"
  shows "micro_task_ok (fst (run_task (micro_step w) s xs)) \<and> list_all frame_ok (snd (run_task (micro_step w) s xs))"
  using assms
proof (induction xs arbitrary: s)
  case (Cons x xs)
  from micro_step_ok[OF Cons.prems(1), of x w] Cons.prems
  have "micro_task_ok (fst (micro_step w s x))" "frame_ok (snd (micro_step w s x))"
    "length (tp_trades (ms_tape (fst (micro_step w s x)))) + length xs \<le> 2 ^ 19" by auto
  then show ?case using Cons.IH[of "fst (micro_step w s x)"] Cons.prems by (simp add: run_task_Cons del: run_task.simps)
qed simp

lemma ema_default_ok [simp]: "ema_ok ema_default"
proof -
  have "0 \<le> (0 :: f64)" by (simp add: zero_f64_def)
  then show ?thesis by (simp add: ema_ok_def ema_default_def)
qed

lemma micro_task_init_ok: "micro_task_ok (micro_task_init w)"
  by (simp add: micro_task_ok_def micro_task_init_def tape_new_def book_ok_default tape_values_ok_def tape_state_default_def
      tape_scores_ok_def normalizer_ok_def feature_normalizer_default_def context_engine_ok_def context_engine_default_def
      flow_intelligence_ok_def flow_intelligence_default_def rng_def)

section \<open>Properties\<close>

text \<open>C27: Every frame the micro structure task emits is well formed: for any interleaving of valid
  deltas and trades (at most \<open>2 ^ 19\<close> of them) every normalised feature lies in [-5, 5], every
  score of the book, the tape, the context, the flow and the timing in its range, none of them
  is NaN or infinite, and the trigger, reversal and entry parts hold their defaults.\<close>
theorem frames_well_formed:
  assumes "list_all (\<lambda>x. feed_ok (fst x)) xs" "length xs \<le> 2 ^ 19"
  shows "list_all frame_ok (snd (run_task (micro_step max_age) (micro_task_init window_ms) xs))"
proof -
  have "length (tp_trades (ms_tape (micro_task_init window_ms))) + length xs \<le> 2 ^ 19"
    using assms(2) by (simp add: micro_task_init_def tape_new_def)
  from micro_run_ok[OF micro_task_init_ok assms(1) this] show ?thesis by simp
qed

definition ex_feed :: "(market_update \<times> u64 option) list" where
  "ex_feed = [(BookUpdate ex_delta, Some 1001), (TradeUpdate ex_trade, None)]"

theorem frames_well_formed_witness:
  "list_all frame_ok (snd (run_task (micro_step 500) (micro_task_init 1000) ex_feed))"
proof (rule frames_well_formed)
  show "list_all (\<lambda>x. feed_ok (fst x)) ex_feed"
    using ex_delta_valid
    by (simp add: ex_feed_def feed_ok_def ex_trade_def update_valid_def trade_ok_def mag_def rng_def)
qed (simp add: ex_feed_def)

end
