(* ===== verification/Trigger.thy ===== *)
theory Trigger
  imports Microstructure
begin

text \<open>
  The percent trigger (\<open>trigger_engine.rs\<close>): it follows the local high of the price, observes a
  drop that passes a threshold, confirms a reversal during the observation and forgets the high
  when the drop goes on. The lemmas bound the observation and show which parts have no effect.
\<close>

section \<open>Data and operations\<close>

record trigger_engine =
  tg_local_high :: f64
  tg_drop_pct :: f64
  tg_in_observation :: bool
  tg_previous_sell_pressure :: f64
  tg_decay_high_alpha :: f64
  tg_drop_threshold :: f64
  tg_reset_threshold :: f64

definition trigger_engine_new :: "f64 \<Rightarrow> f64 \<Rightarrow> trigger_engine" where
  "trigger_engine_new drop_threshold reset_threshold =
     \<lparr>tg_local_high = 0, tg_drop_pct = 0, tg_in_observation = False, tg_previous_sell_pressure = 0,
      tg_decay_high_alpha = lit 0.003,
      tg_drop_threshold = f_clamp drop_threshold (lit 0.001) (lit 0.10),
      tg_reset_threshold = f_clamp reset_threshold (lit 0.002) (lit 0.20)\<rparr>"

definition trigger_mid_price :: "microstructure_frame \<Rightarrow> f64" where
  "trigger_mid_price frame =
     (if 0 < ob_best_bid (mf_book frame) \<and> 0 < ob_best_ask (mf_book frame)
      then (ob_best_bid (mf_book frame) + ob_best_ask (mf_book frame)) * lit 0.5
      else ts_last_price (mf_tape frame))"

definition trigger_price :: "microstructure_frame \<Rightarrow> f64" where
  "trigger_price frame = (case mf_trade frame of Some trade \<Rightarrow> te_price trade | None \<Rightarrow> trigger_mid_price frame)"

definition sell_pressure :: "microstructure_frame \<Rightarrow> f64" where
  "sell_pressure frame =
     f_max (f_max (- ts_delta (mf_tape frame)) 0
       + f_max (- ft_order_flow_delta (mf_features frame)) 0 * lit 0.65
       + f_max (- ob_top_pressure (mf_book frame)) 0 * lit 2.5) 0"

definition weak_flow :: "flow_signal \<Rightarrow> bool" where
  "weak_flow signal \<longleftrightarrow> signal = Exhaustion \<or> signal = WeakContinuation"

definition confirm_reversal :: "microstructure_frame \<Rightarrow> f64 \<Rightarrow> bool" where
  "confirm_reversal frame previous_sell_pressure \<longleftrightarrow>
     weak_flow (fs_signal (mf_flow frame))
     \<and> (sell_pressure frame < previous_sell_pressure * lit 0.82 \<or> lit 0.42 < ts_exhaustion (mf_tape frame))
     \<and> (lit 0.28 < ob_absorption (mf_book frame)
        \<or> ob_liquidity_pull (mf_book frame) < lit 0.28 \<and> lit (- 0.12) < ob_top_pressure (mf_book frame)
          \<and> lit 0.45 < mc_stability_score (mf_context frame))
     \<and> mt_signal (mf_timing frame) = Optimal"

definition should_exit :: "microstructure_frame \<Rightarrow> position \<Rightarrow> bool" where
  "should_exit frame position =
     (if \<not> is_open position then tr_should_exit (mf_trigger frame)
      else (ft_micro_price_velocity (mf_features frame) < lit (- 0.85)
            \<and> fs_continuation_strength (mf_flow frame) < lit 0.38
            \<and> ft_order_flow_delta (mf_features frame) < lit (- 0.45))
         \<or> ((fs_signal (mf_flow frame) = ReversalRisk \<or> fs_signal (mf_flow frame) = Exhaustion)
            \<and> ob_weighted_imbalance (mf_book frame) < lit (- 0.20))
         \<or> (lit 0.48 < ft_liquidity_pull (mf_features frame) \<or> lit 0.42 < ob_spoofing_score (mf_book frame))
         \<or> (mt_signal (mf_timing frame) = Missed \<or> mt_signal (mf_timing frame) = TimingWait)
         \<or> pos_unrealized_pnl position < lit (- 0.004) * f_abs (pos_avg_price position) * f_abs (pos_size position))"

definition derive_expected_edge :: "microstructure_frame \<Rightarrow> f64" where
  "derive_expected_edge frame =
     f_max (fs_exhaustion (mf_flow frame) * lit 1.6 + ob_absorption (mf_book frame) * lit 1.2
       + mt_timing_score (mf_timing frame) + mc_stability_score (mf_context frame) * lit 0.6
       - ft_liquidity_pull (mf_features frame) * lit 0.9 - mr_spread (mf_regime frame) * lit 0.04) 0"

definition decayed_high :: "trigger_engine \<Rightarrow> f64 \<Rightarrow> f64" where
  "decayed_high e price =
     (if tg_local_high e \<le> 0 then price
      else f_max (f_max (tg_local_high e) price) (tg_local_high e * (1 - tg_decay_high_alpha e)))"

definition price_drop :: "f64 \<Rightarrow> f64 \<Rightarrow> f64" where
  "price_drop high price = f_clamp ((high - price) / f_max high f_epsilon) 0 1"

text \<open>The end of an observation: confirmed, recovered, or the drop went on and the high is reset.\<close>

definition settle_observation :: "trigger_engine \<Rightarrow> bool \<Rightarrow> f64 \<Rightarrow> trigger_engine" where
  "settle_observation e confirmed price =
     (if confirmed \<or> tg_drop_pct e < tg_drop_threshold e * lit 0.35 then e\<lparr>tg_in_observation := False\<rparr>
      else if tg_in_observation e \<and> tg_reset_threshold e \<le> tg_drop_pct e
        then e\<lparr>tg_in_observation := False, tg_local_high := price, tg_drop_pct := 0\<rparr>
      else e)"

definition observe_trigger :: "trigger_engine \<Rightarrow> microstructure_frame \<Rightarrow> trigger_engine \<times> trigger_snapshot" where
  "observe_trigger e frame =
     (let price = trigger_price frame
      in if \<not> fin price \<or> price \<le> 0 then (e, trigger_snapshot_default)
         else let high = decayed_high e price;
                  dropped = price_drop high price;
                  e1 = e\<lparr>tg_local_high := high, tg_drop_pct := dropped,
                         tg_in_observation := (tg_in_observation e \<or> tg_drop_threshold e \<le> dropped)\<rparr>;
                  confirmed = (tg_in_observation e1 \<and> confirm_reversal frame (tg_previous_sell_pressure e));
                  exit = should_exit frame position_default;
                  expected_edge = (if confirmed then derive_expected_edge frame else 0);
                  e2 = (settle_observation e1 confirmed price)\<lparr>tg_previous_sell_pressure := sell_pressure frame\<rparr>
              in (e2, \<lparr>tr_local_high = tg_local_high e2, tr_drop_pct = tg_drop_pct e2,
                       tr_in_observation = tg_in_observation e2, tr_confirmed = confirmed,
                       tr_expected_edge = expected_edge, tr_should_exit = exit\<rparr>))"

definition trigger_step :: "trigger_engine \<Rightarrow> microstructure_frame \<Rightarrow> trigger_engine \<times> microstructure_frame" where
  "trigger_step e frame = (let (e', snapshot) = observe_trigger e frame in (e', frame\<lparr>mf_trigger := snapshot\<rparr>))"

definition trigger_task_init :: "config \<Rightarrow> trigger_engine" where
  "trigger_task_init cfg = trigger_engine_new (cf_trigger_drop_pct cfg) (cf_trigger_reset_pct cfg)"

section \<open>The observation\<close>

text \<open>
  The local high is a finite positive price (or zero before the first one), the drop is a
  fraction, and an observation lasts only while the drop is between 35 percent of the threshold
  and the reset threshold.
\<close>

definition trigger_ok :: "trigger_engine \<Rightarrow> bool" where
  "trigger_ok e \<longleftrightarrow> fin (tg_local_high e) \<and> 0 \<le> val (tg_local_high e) \<and> double (tg_local_high e)
     \<and> rng 0 1 (tg_drop_pct e) \<and> tg_decay_high_alpha e = lit 0.003
     \<and> (tg_in_observation e \<longrightarrow> \<not> tg_drop_pct e < tg_drop_threshold e * lit 0.35 \<and> \<not> tg_reset_threshold e \<le> tg_drop_pct e)"

definition snapshot_in_range :: "trigger_engine \<Rightarrow> trigger_snapshot \<Rightarrow> bool" where
  "snapshot_in_range e t \<longleftrightarrow> rng 0 1 (tr_drop_pct t) \<and> (tr_confirmed t \<longrightarrow> \<not> tr_in_observation t)
     \<and> (tr_in_observation t \<longrightarrow> \<not> tr_drop_pct t < tg_drop_threshold e * lit 0.35 \<and> \<not> tg_reset_threshold e \<le> tr_drop_pct t)
     \<and> (\<not> tr_confirmed t \<longrightarrow> tr_expected_edge t = 0)"

lemma price_drop_rng:
  assumes "fin high" "fin price" "0 < val price" "val price \<le> val high"
  shows "rng 0 1 (price_drop high price)"
proof -
  have "0 \<le> high - price" using assms by (intro minus_nonneg)
  then have "high - price \<noteq> NaN" by (auto dest: f64_le_not_nan)
  then show ?thesis unfolding price_drop_def
    using f_max_eps[OF assms(1)] by (intro f_clamp_unit divide_not_nan') auto
qed

lemma f_max_absorb: "y \<le> x \<Longrightarrow> f_max x y = x"
  by (auto simp: f_max_def less_f64_def dest: f64_le_not_nan)

text \<open>A decayed high is below the high, so the decay never lowers it.\<close>

lemma decay_below:
  assumes "fin h" "0 \<le> val h" "double h"
  shows "h * (1 - lit 0.003) \<le> h"
proof -
  have "rng 0 1 (1 - lit 0.003)" by (simp add: f64_eval rng_def)
  then show ?thesis using assms by (intro f64_times_le_self) (auto simp: double_def bound_def)
qed

lemma decayed_high_max:
  assumes "trigger_ok e" "fin price" "0 < val price"
  shows "decayed_high e price = f_max (tg_local_high e) price"
    "fin (decayed_high e price)" "val price \<le> val (decayed_high e price)"
proof -
  let ?h = "tg_local_high e"
  have h: "fin ?h" "0 \<le> val ?h" "double ?h" "tg_decay_high_alpha e = lit 0.003"
    using assms(1) by (auto simp: trigger_ok_def)
  have d: "?h * (1 - lit 0.003) \<le> ?h" by (rule decay_below[OF h(1-3)])
  show e: "decayed_high e price = f_max ?h price"
  proof (cases "?h \<le> 0")
    case True
    then have "val ?h = 0" using h by (auto simp: fin_le_iff)
    then have "?h < price" using h(1) assms(2,3) by (simp add: fin_less_iff)
    then show ?thesis using True h assms(2) by (auto simp: decayed_high_def f_max_def)
  next
    case False
    have "?h \<le> f_max ?h price" using h by (intro f_max_ge) auto
    then have "f_max (f_max ?h price) (?h * (1 - lit 0.003)) = f_max ?h price"
      by (rule f_max_absorb[OF f64_le_trans[OF d]])
    then show ?thesis using False h by (simp add: decayed_high_def)
  qed
  then show "fin (decayed_high e price)" "val price \<le> val (decayed_high e price)"
    using h assms by (simp_all add: fin_f_max val_f_max)
qed

lemma trigger_price_valid: "\<not> (\<not> fin p \<or> p \<le> 0) \<Longrightarrow> fin p \<and> 0 < val p"
  by (auto simp: fin_le_iff not_le)

lemma observe_trigger_ok:
  assumes "trigger_ok e" "double (trigger_price frame)"
  shows "trigger_ok (fst (observe_trigger e frame))
    \<and> snapshot_in_range (fst (observe_trigger e frame)) (snd (observe_trigger e frame))"
proof (cases "\<not> fin (trigger_price frame) \<or> trigger_price frame \<le> 0")
  case True
  then show ?thesis using assms
    by (auto simp: observe_trigger_def snapshot_in_range_def trigger_snapshot_default_def rng_0_1)
next
  case False
  then have p: "fin (trigger_price frame)" "0 < val (trigger_price frame)" using trigger_price_valid by blast+
  note h = decayed_high_max[OF assms(1) p]
  have d: "double (decayed_high e (trigger_price frame))"
    using assms by (simp add: h(1) trigger_ok_def)
  have drop: "rng 0 1 (price_drop (decayed_high e (trigger_price frame)) (trigger_price frame))"
    using h p by (intro price_drop_rng) auto
  have v: "0 \<le> val (decayed_high e (trigger_price frame))" using h(3) p by simp
  have "trigger_ok (fst (observe_trigger e frame))"
    using False assms p h(2) v d drop
    by (auto simp: observe_trigger_def Let_def settle_observation_def trigger_ok_def rng_0_1)
  moreover have "snapshot_in_range (fst (observe_trigger e frame)) (snd (observe_trigger e frame))"
    using False drop
    by (auto simp: observe_trigger_def Let_def settle_observation_def snapshot_in_range_def rng_0_1)
  ultimately show ?thesis ..
qed

interpretation trigger: guarded_handler "\<lambda>e f. fst (trigger_step e f)" trigger_ok "\<lambda>f. double (trigger_price f)"
  using observe_trigger_ok by unfold_locales (simp add: trigger_step_def case_prod_unfold Let_def)

lemma trigger_new_ok: "trigger_ok (trigger_engine_new a b)"
  by (simp add: trigger_ok_def trigger_engine_new_def rng_0_1)

lemma observe_trigger_thresholds [simp]:
  "tg_drop_threshold (fst (observe_trigger e f)) = tg_drop_threshold e"
  "tg_reset_threshold (fst (observe_trigger e f)) = tg_reset_threshold e"
  by (simp_all add: observe_trigger_def Let_def settle_observation_def)

lemma trigger_step_simps [simp]:
  "fst (trigger_step e f) = fst (observe_trigger e f)"
  "snd (trigger_step e f) = f\<lparr>mf_trigger := snd (observe_trigger e f)\<rparr>"
  by (simp_all add: trigger_step_def case_prod_unfold Let_def)

lemma trigger_run_ok:
  assumes "trigger_ok e" "list_all (\<lambda>f. double (trigger_price f)) fs"
  shows "trigger_ok (fst (run_task trigger_step e fs))
    \<and> list_all (\<lambda>f. snapshot_in_range e (mf_trigger f)) (snd (run_task trigger_step e fs))"
  using assms
proof (induction fs arbitrary: e)
  case (Cons f fs)
  from observe_trigger_ok[OF Cons.prems(1), of f] Cons.prems(2)
  have f: "trigger_ok (fst (observe_trigger e f))" "snapshot_in_range (fst (observe_trigger e f)) (snd (observe_trigger e f))"
    by auto
  have "snapshot_in_range (fst (observe_trigger e f)) = snapshot_in_range e"
    by (rule ext) (simp add: snapshot_in_range_def)
  then show ?case using f Cons.IH[OF f(1)] Cons.prems(2) by (simp add: run_task_Cons del: run_task.simps)
qed simp

text \<open>The exit flag of a frame is handed on unchanged, because the position asked is always closed.\<close>

lemma trigger_exit_handed_on:
  "tr_should_exit (snd (observe_trigger e f)) \<longrightarrow> tr_should_exit (mf_trigger f)"
  by (simp add: observe_trigger_def Let_def should_exit_def trigger_snapshot_default_def)

lemma micro_step_trigger: "mf_trigger (snd (micro_step w s x)) = trigger_snapshot_default"
  by (simp add: micro_step_def case_prod_unfold Let_def)

lemma run_task_outputs: "(\<And>s e. P (snd (step s e))) \<Longrightarrow> list_all P (snd (run_task step s es))"
  by (induction es arbitrary: s) (simp_all add: run_task_Cons del: run_task.simps(2))

lemma trigger_run_exit:
  "list_all (\<lambda>f. \<not> tr_should_exit (mf_trigger f)) fs
    \<Longrightarrow> list_all (\<lambda>f. \<not> tr_should_exit (mf_trigger f)) (snd (run_task trigger_step e fs))"
  using trigger_exit_handed_on
  by (induction fs arbitrary: e) (auto simp: run_task_Cons simp del: run_task.simps(2))

section \<open>Properties\<close>

text \<open>Whatever frames arrive, the trigger keeps a finite local high and a drop between 0 and 1;
  it reports an observation only while the drop lies between 35 percent of the drop threshold
  and the reset threshold, a confirmation always ends the observation, and only a confirmed
  trigger carries an expected edge.\<close>
theorem trigger_invariant:
  assumes "list_all (\<lambda>f. double (trigger_price f)) fs"
  shows "let (e, outs) = run_task trigger_step (trigger_engine_new a b) fs
    in trigger_ok e \<and> list_all (\<lambda>f. snapshot_in_range (trigger_engine_new a b) (mf_trigger f)) outs"
  using trigger_run_ok[OF trigger_new_ok assms, of a b] by (simp add: case_prod_unfold)

text \<open>The decay of the local high has no effect. For a valid price the high becomes exactly the
  maximum of the old high and the price, whatever the decay factor is; it falls only when a
  drop beyond the reset threshold ends an observation, and then to the price itself.\<close>
theorem local_high_never_decays:
  assumes "trigger_ok e" "fin (trigger_price f)" "0 < val (trigger_price f)"
  shows "let e' = fst (observe_trigger e f); high = f_max (tg_local_high e) (trigger_price f)
    in tg_local_high e' = high
       \<or> tg_local_high e' = trigger_price f \<and> tg_reset_threshold e \<le> price_drop high (trigger_price f)
         \<and> \<not> tg_in_observation e' \<and> tg_drop_pct e' = 0"
proof -
  have "\<not> trigger_price f \<le> 0" using assms(2,3) by (simp add: fin_le_iff)
  then show ?thesis using assms(2) decayed_high_max(1)[OF assms]
    by (simp add: observe_trigger_def Let_def settle_observation_def)
qed

text \<open>C28: The trigger never asks for an exit: in every frame that leaves it, for every feed and every
  sequence of steps of the micro structure task, the exit flag is false, because the flag is
  taken from the frame itself, where it is always the default.\<close>
theorem trigger_never_exits:
  "list_all (\<lambda>f. \<not> tr_should_exit (mf_trigger f))
     (snd (run_task trigger_step e (snd (run_task (micro_step max_age) s xs))))"
proof (rule trigger_run_exit, rule run_task_outputs)
  show "\<not> tr_should_exit (mf_trigger (snd (micro_step max_age s x)))" for s x
    by (simp add: micro_step_trigger trigger_snapshot_default_def)
qed

definition ex_frame :: microstructure_frame where
  "ex_frame = \<lparr>mf_timestamp = 1000, mf_trade = Some \<lparr>te_timestamp = 1000, te_price = Fin 100, te_volume = 1, te_side = Sell\<rparr>,
     mf_book = order_book_state_default, mf_tape = tape_state_default, mf_features = features_default,
     mf_regime = market_regime_default, mf_context = market_context_default,
     mf_flow = \<lparr>fs_signal = Exhaustion, fs_aggressive_ratio = 0, fs_absorption = 0, fs_exhaustion = 0,
       fs_continuation_strength = 0\<rparr>,
     mf_timing = \<lparr>mt_signal = Optimal, mt_spread_compression = 0, mt_liquidity_pull = 0, mt_trade_burst = 0,
       mt_micro_pullback = 0, mt_timing_score = 0\<rparr>,
     mf_trigger = trigger_snapshot_default, mf_reversal = reversal_snapshot_default,
     mf_reversal_classifier = reversal_classifier_default, mf_entry_scoring = entry_scoring_default, mf_stale = False\<rparr>"

lemma ex_frame_price [simp]: "trigger_price ex_frame = Fin 100"
  by (simp add: ex_frame_def trigger_price_def)

theorem trigger_invariant_witness:
  "list_all (\<lambda>f. snapshot_in_range (trigger_engine_new (lit 0.015) (lit 0.025)) (mf_trigger f))
     (snd (run_task trigger_step (trigger_engine_new (lit 0.015) (lit 0.025)) [ex_frame, ex_frame]))"
proof -
  have "list_all (\<lambda>f. double (trigger_price f)) [ex_frame, ex_frame]" by (simp add: double_def)
  from trigger_invariant[OF this, of "lit 0.015" "lit 0.025"] show ?thesis by (simp add: case_prod_unfold)
qed

theorem local_high_never_decays_witness:
  "tg_local_high (fst (observe_trigger (trigger_engine_new (lit 0.015) (lit 0.025)) ex_frame)) = Fin 100"
proof -
  have "f_max 0 (Fin 100) = Fin 100" by (simp add: f64_eval zero_f64_def f_max_def less_f64_def)
  then show ?thesis using local_high_never_decays[OF trigger_new_ok, of ex_frame "lit 0.015" "lit 0.025"]
    by (auto simp: Let_def trigger_engine_new_def)
qed

end
