(* ===== verification/Classifier.thy ===== *)
theory Classifier
  imports Trigger EdgeFacts
begin

text \<open>
  The model weights (\<open>model_weights.rs\<close>), the reversal classifier
  (\<open>reversal_classifier.rs\<close>) and the entry scoring (\<open>entry_scoring.rs\<close>). The weights that
  the process holds behind a lock are an argument; reading and parsing the weight file is a
  parameter.
\<close>

section \<open>Weights\<close>

record classifier_weights =
  cw_movement_drop_pct :: f64
  cw_movement_velocity :: f64
  cw_movement_volume_burst :: f64
  cw_intent_exhaustion :: f64
  cw_intent_weak_signal :: f64
  cw_intent_absorption :: f64
  cw_intent_timing :: f64
  cw_intent_liquidity_ok :: f64
  cw_trigger_observation_bonus :: f64
  cw_continuation_directionality :: f64
  cw_continuation_momentum :: f64
  cw_continuation_imbalance :: f64
  cw_continuation_aggression :: f64
  cw_ready_bias_threshold :: f64

record entry_weights =
  ew_reversal_probability :: f64
  ew_intent_score :: f64
  ew_trigger_edge :: f64
  ew_reversal_edge :: f64
  ew_edge_reliability :: f64
  ew_min_enter_score :: f64
  ew_min_enter_confidence :: f64
  ew_min_wait_probability :: f64

record model_weights =
  mw_version :: u32
  mw_generated_at :: string
  mw_source :: string
  mw_reversal_classifier :: classifier_weights
  mw_entry_scoring :: entry_weights

definition model_weights_default :: model_weights where
  "model_weights_default =
     \<lparr>mw_version = 1, mw_generated_at = ''static-default'', mw_source = ''rtts-default'',
      mw_reversal_classifier =
        \<lparr>cw_movement_drop_pct = lit 0.45, cw_movement_velocity = lit 0.35, cw_movement_volume_burst = lit 0.20,
         cw_intent_exhaustion = lit 0.25, cw_intent_weak_signal = lit 0.20, cw_intent_absorption = lit 0.20,
         cw_intent_timing = lit 0.20, cw_intent_liquidity_ok = lit 0.15, cw_trigger_observation_bonus = lit 0.15,
         cw_continuation_directionality = lit 0.35, cw_continuation_momentum = lit 0.25,
         cw_continuation_imbalance = lit 0.20, cw_continuation_aggression = lit 0.20,
         cw_ready_bias_threshold = lit 0.55\<rparr>,
      mw_entry_scoring =
        \<lparr>ew_reversal_probability = lit 0.40, ew_intent_score = lit 0.20, ew_trigger_edge = lit 0.15,
         ew_reversal_edge = lit 0.10, ew_edge_reliability = lit 0.15, ew_min_enter_score = lit 0.58,
         ew_min_enter_confidence = lit 0.52, ew_min_wait_probability = lit 0.45\<rparr>\<rparr>"

definition classifier_values :: "classifier_weights \<Rightarrow> f64 list" where
  "classifier_values c =
     [cw_movement_drop_pct c, cw_movement_velocity c, cw_movement_volume_burst c, cw_intent_exhaustion c,
      cw_intent_weak_signal c, cw_intent_absorption c, cw_intent_timing c, cw_intent_liquidity_ok c,
      cw_trigger_observation_bonus c, cw_continuation_directionality c, cw_continuation_momentum c,
      cw_continuation_imbalance c, cw_continuation_aggression c]"

definition entry_values :: "entry_weights \<Rightarrow> f64 list" where
  "entry_values e =
     [ew_reversal_probability e, ew_intent_score e, ew_trigger_edge e, ew_reversal_edge e,
      ew_edge_reliability e, ew_min_enter_score e, ew_min_enter_confidence e, ew_min_wait_probability e]"

definition validate_weights :: "model_weights \<Rightarrow> string + unit" where
  "validate_weights w =
     (if mw_version w = 0 then Inl ''version must be >= 1''
      else if list_ex (\<lambda>v. \<not> fin v \<or> v < 0) (classifier_values (mw_reversal_classifier w))
        then Inl ''classifier weights must be finite and non-negative''
      else if list_ex (\<lambda>v. \<not> fin v \<or> v < 0) (entry_values (mw_entry_scoring w))
        then Inl ''entry scoring weights must be finite and non-negative''
      else Inr ())"

text \<open>Reading the file and parsing its JSON is the parameter \<open>read_weights\<close>.\<close>

definition load_weights :: "(string \<Rightarrow> string + model_weights) \<Rightarrow> string \<Rightarrow> string + model_weights" where
  "load_weights read_weights path =
     (case read_weights path of
        Inl e \<Rightarrow> Inl e
      | Inr w \<Rightarrow> (case validate_weights w of Inl e \<Rightarrow> Inl e | Inr _ \<Rightarrow> Inr w))"

section \<open>Classifier\<close>

definition movement_score :: "microstructure_frame \<Rightarrow> classifier_weights \<Rightarrow> f64" where
  "movement_score frame w =
     (let dropped = f_clamp (tr_drop_pct (mf_trigger frame)) 0 (lit 0.04) / lit 0.04;
          velocity = f_clamp (f_abs (ft_micro_price_velocity (mf_features frame))) 0 (lit 2) / lit 2;
          volume = f_clamp (ts_volume_burst (mf_tape frame)) 0 (lit 4) / lit 4
      in f_clamp (cw_movement_drop_pct w * dropped + cw_movement_velocity w * velocity
           + cw_movement_volume_burst w * volume) 0 1)"

definition signal_weight :: "flow_signal \<Rightarrow> f64" where
  "signal_weight signal = (if signal = Exhaustion \<or> signal = WeakContinuation then 1 else 0)"

definition intent_score :: "microstructure_frame \<Rightarrow> classifier_weights \<Rightarrow> f64" where
  "intent_score frame w =
     (let exhaustion = f_clamp (fs_exhaustion (mf_flow frame)) 0 1;
          weak_or_exhausted = signal_weight (fs_signal (mf_flow frame));
          absorption = f_clamp (ob_absorption (mf_book frame)) 0 1;
          timing = (if mt_signal (mf_timing frame) = Optimal then f_clamp (mt_timing_score (mf_timing frame)) 0 1 else 0);
          liquidity_ok = (1 - f_clamp (ft_liquidity_pull (mf_features frame)) 0 1)
            * f_clamp (mc_stability_score (mf_context frame)) 0 1
      in f_clamp (cw_intent_exhaustion w * exhaustion + cw_intent_weak_signal w * weak_or_exhausted
           + cw_intent_absorption w * absorption + cw_intent_timing w * timing
           + cw_intent_liquidity_ok w * liquidity_ok) 0 1)"

definition continuation_score :: "microstructure_frame \<Rightarrow> classifier_weights \<Rightarrow> f64" where
  "continuation_score frame w =
     (let directionality = f_clamp (fs_continuation_strength (mf_flow frame)) 0 1;
          momentum = f_clamp (f_abs (ft_micro_price_velocity (mf_features frame))) 0 (lit 2) / lit 2;
          imbalance = f_clamp (f_abs (ob_weighted_imbalance (mf_book frame))) 0 1;
          aggression = f_clamp (fs_aggressive_ratio (mf_flow frame)) 0 1
      in f_clamp (cw_continuation_directionality w * directionality + cw_continuation_momentum w * momentum
           + cw_continuation_imbalance w * imbalance + cw_continuation_aggression w * aggression) 0 1)"

definition trigger_bias :: "trigger_snapshot \<Rightarrow> f64" where
  "trigger_bias t = (if tr_in_observation t then f_clamp (tr_drop_pct t) 0 (lit 0.04) / lit 0.04 else 0)"

definition classify_frame :: "model_weights \<Rightarrow> microstructure_frame \<Rightarrow> reversal_classifier_snapshot" where
  "classify_frame weights frame =
     (let w = mw_reversal_classifier weights;
          movement = movement_score frame w;
          intent = intent_score frame w;
          reversal = f_clamp (lit 0.30 * movement + lit 0.55 * intent
            + cw_trigger_observation_bonus w * trigger_bias (mf_trigger frame)) 0 1;
          continuation = continuation_score frame w;
          chop = f_clamp (1 - f_max reversal continuation) 0 1;
          velocity = ft_micro_price_velocity (mf_features frame);
          delta = ts_delta (mf_tape frame);
          biased = (continuation < reversal \<and> chop < reversal \<and> cw_ready_bias_threshold w < reversal)
      in \<lparr>rc_reversal_probability = reversal, rc_continuation_probability = continuation,
          rc_chop_probability = chop, rc_intent_score = intent, rc_movement_score = movement,
          rc_ready_long = (biased \<and> velocity \<le> lit 0.25 \<and> delta \<le> 0),
          rc_ready_short = (biased \<and> lit (- 0.25) \<le> velocity \<and> 0 \<le> delta)\<rparr>)"

definition classifier_step :: "model_weights \<Rightarrow> microstructure_frame \<Rightarrow> microstructure_frame" where
  "classifier_step weights frame = frame\<lparr>mf_reversal_classifier := classify_frame weights frame\<rparr>"

section \<open>Entry scoring\<close>

definition directional_gate :: "reversal_state \<Rightarrow> reversal_classifier_snapshot \<Rightarrow> bool" where
  "directional_gate state classifier = (case state of
     ObserveLongToShort \<Rightarrow> rc_ready_short classifier
   | ObserveShortToLong \<Rightarrow> rc_ready_long classifier
   | Idle \<Rightarrow> rc_ready_long classifier)"

definition entry_score :: "entry_weights \<Rightarrow> microstructure_frame \<Rightarrow> edge_snapshot \<Rightarrow> f64" where
  "entry_score w frame edge =
     f_clamp (ew_reversal_probability w * rc_reversal_probability (mf_reversal_classifier frame)
       + ew_intent_score w * rc_intent_score (mf_reversal_classifier frame)
       + ew_trigger_edge w * f_min (tr_expected_edge (mf_trigger frame)) 1
       + ew_reversal_edge w * f_min (rs_expected_edge (mf_reversal frame)) 1
       + ew_edge_reliability w * vs_reliability edge) 0 1"

definition entry_confidence :: "microstructure_frame \<Rightarrow> edge_snapshot \<Rightarrow> f64" where
  "entry_confidence frame edge =
     f_clamp (lit 0.55 * rc_intent_score (mf_reversal_classifier frame) + lit 0.25 * vs_reliability edge
       + lit 0.20 * (1 - vs_competition_score edge)) 0 1"

definition entry_edge :: "microstructure_frame \<Rightarrow> edge_snapshot \<Rightarrow> f64" where
  "entry_edge frame edge =
     f_max (f_max (tr_expected_edge (mf_trigger frame)) (rs_expected_edge (mf_reversal frame))
       * rc_reversal_probability (mf_reversal_classifier frame) * f_max (vs_reliability edge) (lit 0.1)) 0"

definition evaluate_entry :: "model_weights \<Rightarrow> microstructure_frame \<Rightarrow> edge_snapshot \<Rightarrow> entry_scoring_snapshot" where
  "evaluate_entry weights frame edge =
     (let w = mw_entry_scoring weights;
          classifier = mf_reversal_classifier frame;
          edge_gate = (vs_edge_state edge \<noteq> Invalid \<and> vs_trading_enabled edge);
          competition_gate = (vs_competition_state edge \<noteq> Saturated);
          context_gate = (mc_regime (mf_context frame) \<noteq> TrendExpansion);
          score = entry_score w frame edge;
          confidence = entry_confidence frame edge;
          enter = (directional_gate (rs_state (mf_reversal frame)) classifier \<and> edge_gate \<and> competition_gate \<and> context_gate
            \<and> rc_continuation_probability classifier < rc_reversal_probability classifier
            \<and> ew_min_enter_score w < score \<and> ew_min_enter_confidence w < confidence)
      in \<lparr>es_enter_long = (enter \<and> rc_ready_long classifier),
          es_enter_short = (enter \<and> rc_ready_short classifier),
          es_wait = (\<not> enter \<and> ew_min_wait_probability w < rc_reversal_probability classifier
            \<and> edge_gate \<and> competition_gate),
          es_score = score, es_confidence = confidence, es_expected_edge = entry_edge frame edge\<rparr>)"

section \<open>Ranges\<close>

text \<open>Weights that were validated may be large, but a sum of their products with scores is never NaN.\<close>

lemma weight_times: "fin w \<Longrightarrow> \<not> w < 0 \<Longrightarrow> rng 0 1 x \<Longrightarrow> 0 \<le> w * x"
proof -
  assume a: "fin w" "\<not> w < 0" "rng 0 1 x"
  then have "0 \<le> val w * val x" by (auto simp: fin_less_iff rng_def not_less)
  then show ?thesis using a by (simp add: times_fin rngD mk_nonneg)
qed

definition weights_ok :: "model_weights \<Rightarrow> bool" where
  "weights_ok w \<longleftrightarrow> validate_weights w = Inr ()"

lemma weights_okD:
  assumes "weights_ok w"
  shows "v \<in> set (classifier_values (mw_reversal_classifier w)) \<Longrightarrow> fin v \<and> \<not> v < 0"
    "v \<in> set (entry_values (mw_entry_scoring w)) \<Longrightarrow> fin v \<and> \<not> v < 0"
  using assms by (auto simp: weights_ok_def validate_weights_def list_ex_iff split: if_splits)

lemma load_weights_ok: "load_weights read path = Inr w \<Longrightarrow> weights_ok w"
  by (auto simp: load_weights_def weights_ok_def split: sum.splits)

lemma default_weights_ok: "weights_ok model_weights_default"
  by (simp add: weights_ok_def validate_weights_def classifier_values_def entry_values_def model_weights_default_def
      f64_eval zero_f64_def less_f64_def)

lemma clamp_part: "x \<noteq> NaN \<Longrightarrow> c = 2 \<or> c = 4 \<Longrightarrow> rng 0 1 (f_clamp x 0 (lit c) / lit c)"
proof -
  assume a: "x \<noteq> NaN" "c = 2 \<or> c = 4"
  then have c: "lit c = Fin c" "0 < c" by (auto simp: lit_exact)
  then have "rng 0 c (f_clamp x 0 (lit c))" using f_clamp_rng[OF a(1), of 0 "lit c"] by simp
  then show ?thesis using c by (intro rng_divide_nonneg[of 0 c _ c c]) (auto simp: rng_def)
qed

lemma clamp_drop: "x \<noteq> NaN \<Longrightarrow> rng 0 1 (f_clamp x 0 (lit 0.04) / lit 0.04)"
proof -
  assume a: "x \<noteq> NaN"
  have c: "fin (lit 0.04)" "0 < val (lit 0.04)" by (simp_all add: f64_eval)
  then have "rng 0 (val (lit 0.04)) (f_clamp x 0 (lit 0.04))" using f_clamp_rng[OF a, of 0 "lit 0.04"] by simp
  then show ?thesis using c by (intro rng_ratio) (auto simp: rng_def)
qed

lemmas clamped_scores = f_clamp_unit clamp_part clamp_drop rng_0_1

lemma classifier_term:
  "weights_ok w \<Longrightarrow> v \<in> set (classifier_values (mw_reversal_classifier w)) \<Longrightarrow> rng 0 1 x \<Longrightarrow> 0 \<le> v * x"
  using weights_okD(1) weight_times by blast

lemma weighted_clamp: "0 \<le> a + b \<Longrightarrow> rng 0 1 (f_clamp (a + b) 0 1)"
  by (rule f_clamp_unit_nonneg)

lemma movement_unit:
  assumes "weights_ok w" "frame_body_ok f" "rng 0 1 (tr_drop_pct (mf_trigger f))"
  shows "rng 0 1 (movement_score f (mw_reversal_classifier w))"
proof -
  have "rng 0 1 (f_clamp (tr_drop_pct (mf_trigger f)) 0 (lit 0.04) / lit 0.04)" using assms(3) by (intro clamp_drop rngD(4))
  moreover have "rng 0 1 (f_clamp (f_abs (ft_micro_price_velocity (mf_features f))) 0 (lit 2) / lit 2)"
    using assms(2) by (intro clamp_part) (auto simp: frame_body_ok_def features_ok_def)
  moreover have "rng 0 1 (f_clamp (ts_volume_burst (mf_tape f)) 0 (lit 4) / lit 4)"
    using assms(2) by (intro clamp_part) (auto simp: frame_body_ok_def tape_values_ok_def tape_scores_ok_def)
  ultimately show ?thesis unfolding movement_score_def Let_def
    by (intro weighted_clamp plus_nonneg classifier_term[OF assms(1)]) (simp_all add: classifier_values_def)
qed

lemma intent_unit:
  assumes "weights_ok w" "frame_body_ok f"
  shows "rng 0 1 (intent_score f (mw_reversal_classifier w))"
proof -
  have e: "rng 0 1 (f_clamp (fs_exhaustion (mf_flow f)) 0 1)" "rng 0 1 (f_clamp (ob_absorption (mf_book f)) 0 1)"
    "rng 0 1 (f_clamp (mt_timing_score (mf_timing f)) 0 1)" "rng 0 1 (f_clamp (ft_liquidity_pull (mf_features f)) 0 1)"
    "rng 0 1 (f_clamp (mc_stability_score (mf_context f)) 0 1)" "rng 0 1 (signal_weight (fs_signal (mf_flow f)))"
    using assms(2)
    by (auto simp: frame_body_ok_def flow_state_ok_def prices_ok_def state_ok_def timing_state_ok_def features_ok_def
        market_context_ok_def signal_weight_def rng_0_1 intro!: f_clamp_unit)
  have "rng 0 1 ((1 - f_clamp (ft_liquidity_pull (mf_features f)) 0 1) * f_clamp (mc_stability_score (mf_context f)) 0 1)"
    using one_minus_unit[OF e(4)] e(5) by (intro rng_times_nonneg[of 0 1 _ 0 1]) simp_all
  moreover have "rng 0 1 (if mt_signal (mf_timing f) = Optimal then f_clamp (mt_timing_score (mf_timing f)) 0 1 else 0)"
    using e(3) by (simp add: rng_0_1)
  ultimately show ?thesis unfolding intent_score_def Let_def using e
    by (intro weighted_clamp plus_nonneg classifier_term[OF assms(1)]) (simp_all add: classifier_values_def)
qed

lemma continuation_unit:
  assumes "weights_ok w" "frame_body_ok f"
  shows "rng 0 1 (continuation_score f (mw_reversal_classifier w))"
proof -
  have e: "rng 0 1 (f_clamp (fs_continuation_strength (mf_flow f)) 0 1)" "rng 0 1 (f_clamp (fs_aggressive_ratio (mf_flow f)) 0 1)"
    "rng 0 1 (f_clamp (f_abs (ob_weighted_imbalance (mf_book f))) 0 1)"
    "rng 0 1 (f_clamp (f_abs (ft_micro_price_velocity (mf_features f))) 0 (lit 2) / lit 2)"
    using assms(2)
    by (auto simp: frame_body_ok_def flow_state_ok_def prices_ok_def state_ok_def features_ok_def intro!: f_clamp_unit clamp_part)
  then show ?thesis unfolding continuation_score_def Let_def
    by (intro weighted_clamp plus_nonneg classifier_term[OF assms(1)]) (simp_all add: classifier_values_def)
qed

definition classifier_ok :: "reversal_classifier_snapshot \<Rightarrow> bool" where
  "classifier_ok c \<longleftrightarrow> rng 0 1 (rc_reversal_probability c) \<and> rng 0 1 (rc_continuation_probability c)
     \<and> rng 0 1 (rc_chop_probability c) \<and> rng 0 1 (rc_intent_score c) \<and> rng 0 1 (rc_movement_score c)
     \<and> rc_chop_probability c = 1 - f_max (rc_reversal_probability c) (rc_continuation_probability c)
     \<and> (rc_ready_long c \<or> rc_ready_short c \<longrightarrow>
          rc_continuation_probability c < rc_reversal_probability c \<and> rc_chop_probability c < rc_reversal_probability c)"

lemma classify_frame_ok:
  assumes "weights_ok w" "frame_body_ok f" "rng 0 1 (tr_drop_pct (mf_trigger f))"
  shows "classifier_ok (classify_frame w f)"
proof -
  define m where "m = movement_score f (mw_reversal_classifier w)"
  define i where "i = intent_score f (mw_reversal_classifier w)"
  define c where "c = continuation_score f (mw_reversal_classifier w)"
  define r where "r = f_clamp (lit 0.30 * m + lit 0.55 * i
    + cw_trigger_observation_bonus (mw_reversal_classifier w) * trigger_bias (mf_trigger f)) 0 1"
  have units: "rng 0 1 m" "rng 0 1 i" "rng 0 1 c"
    unfolding m_def i_def c_def using movement_unit[OF assms] intent_unit[OF assms(1,2)] continuation_unit[OF assms(1,2)] .
  have "rng 0 1 (trigger_bias (mf_trigger f))"
    using assms(3) clamp_drop[of "tr_drop_pct (mf_trigger f)"] by (auto simp: trigger_bias_def rng_0_1 dest: rngD(4))
  then have b: "0 \<le> cw_trigger_observation_bonus (mw_reversal_classifier w) * trigger_bias (mf_trigger f)"
    using weights_okD(1)[OF assms(1)] by (intro weight_times) (auto simp: classifier_values_def)
  have t: "0 \<le> lit 0.30 * m" "0 \<le> lit 0.55 * i"
    using unit_term[OF units(1), of "0.30"] unit_term[OF units(2), of "0.55"] by (simp_all add: rng_iff_le zero_f64_def)
  have r: "rng 0 1 r" unfolding r_def by (intro f_clamp_unit_nonneg plus_nonneg t b)
  have "rng 0 1 (f_max r c)" using rng_f_max[OF r units(3)] by simp
  then have k: "rng 0 1 (1 - f_max r c)" by (rule one_minus_unit)
  then have "f_clamp (1 - f_max r c) 0 1 = 1 - f_max r c" by (rule f_clamp_id) simp_all
  then show ?thesis using units r k
    unfolding classifier_ok_def classify_frame_def Let_def m_def[symmetric] i_def[symmetric] c_def[symmetric] r_def[symmetric]
    by simp
qed

text \<open>What a frame carries when the trigger and the reversal engine have seen it.\<close>

definition signals_ok :: "microstructure_frame \<Rightarrow> bool" where
  "signals_ok f \<longleftrightarrow> frame_body_ok f \<and> rng 0 1 (tr_drop_pct (mf_trigger f)) \<and> 0 \<le> tr_expected_edge (mf_trigger f)
     \<and> 0 \<le> rs_expected_edge (mf_reversal f) \<and> rng 0 1 (rs_confidence (mf_reversal f))"

definition entry_ok :: "entry_scoring_snapshot \<Rightarrow> bool" where
  "entry_ok s \<longleftrightarrow> rng 0 1 (es_score s) \<and> rng 0 1 (es_confidence s) \<and> 0 \<le> es_expected_edge s"

lemma min_one_unit: "0 \<le> x \<Longrightarrow> rng 0 1 (f_min x 1)"
  by (cases x) (auto simp: f_min_def rng_def fin_less_iff fin_le_iff zero_f64_def one_f64_def less_f64_def)

lemma f_max_zero_nonneg: "0 \<le> f_max x 0"
  by (cases x) (auto simp: f_max_def zero_f64_def less_f64_def)

lemma evaluate_entry_ok:
  assumes "weights_ok w" "signals_ok f" "classifier_ok (mf_reversal_classifier f)" "snapshot_ok edge"
  shows "entry_ok (evaluate_entry w f edge)"
proof -
  have w: "0 \<le> v * x" if "v \<in> set (entry_values (mw_entry_scoring w))" "rng 0 1 x" for v x
    using that weights_okD(2)[OF assms(1)] weight_times by blast
  have "rng 0 1 (entry_score (mw_entry_scoring w) f edge)" unfolding entry_score_def
    using assms(2-4)
    by (intro weighted_clamp plus_nonneg w)
      (simp_all add: entry_values_def classifier_ok_def signals_ok_def snapshot_ok_def min_one_unit)
  moreover have "rng 0 1 (entry_confidence f edge)" unfolding entry_confidence_def
    using assms(3,4) by (intro f_clamp_unit rngD(4)[OF sum3_rng] unit_term one_minus_unit)
      (simp_all add: classifier_ok_def snapshot_ok_def)
  moreover have "0 \<le> entry_edge f edge" unfolding entry_edge_def by (rule f_max_zero_nonneg)
  ultimately show ?thesis by (simp add: entry_ok_def evaluate_entry_def Let_def)
qed

section \<open>Properties\<close>

text \<open>With weights that passed the validation of the weight file, and a frame in range, all five
  scores of the classifier lie in [0, 1], the chop probability is one minus the larger of the
  other two, a ready flag means that reversal is the most probable of the three, and both flags
  together mean that the tape has no net volume.\<close>
theorem classifier_scores:
  assumes "load_weights read_weights path = Inr w" "frame_body_ok f" "rng 0 1 (tr_drop_pct (mf_trigger f))"
  shows "classifier_ok (classify_frame w f)
    \<and> (rc_ready_long (classify_frame w f) \<and> rc_ready_short (classify_frame w f) \<longrightarrow> feq (ts_delta (mf_tape f)) 0)"
  using classify_frame_ok[OF load_weights_ok[OF assms(1)] assms(2,3)]
  by (simp add: classify_frame_def Let_def feq_def)

lemma ex_frame_body: "frame_body_ok ex_frame"
  by (simp add: frame_body_ok_def ex_frame_def prices_ok_def state_ok_def order_book_state_default_def tape_values_ok_def
      tape_state_default_def tape_scores_ok_def features_ok_def features_default_def market_regime_default_def
      market_context_ok_def market_context_default_def flow_state_ok_def timing_state_ok_def rng_def)

theorem classifier_scores_witness:
  "classifier_ok (classify_frame model_weights_default ex_frame)"
proof -
  have "load_weights (\<lambda>_. Inr model_weights_default) ''weights.json'' = Inr model_weights_default"
    using default_weights_ok by (simp add: load_weights_def weights_ok_def)
  moreover have "rng 0 1 (tr_drop_pct (mf_trigger ex_frame))"
    by (simp add: ex_frame_def trigger_snapshot_default_def rng_0_1)
  ultimately show ?thesis using classifier_scores[OF _ ex_frame_body] by blast
qed

text \<open>The directional gate of an idle reversal engine is the long one: without an observed reversal
  no short entry is possible unless the long entry is possible too.\<close>

lemma idle_never_enters_short_alone:
  assumes "rs_state (mf_reversal f) = Idle" "es_enter_short (evaluate_entry w f edge)"
  shows "es_enter_long (evaluate_entry w f edge)"
  using assms by (simp add: evaluate_entry_def Let_def directional_gate_def)

end
