(* ===== verification/Reversal.thy ===== *)
theory Reversal
  imports Trigger EdgeFacts
begin

text \<open>
  The reversal engine (\<open>reversal_engine.rs\<close>): a profitable quick trade opens an observation for
  a flip of the direction; the observation ends by a confirmation, a timeout, a price move or a
  new trend. The engine refines a transition relation on its three states, and what it confirms
  is traced back to the trade that caused it.
\<close>

section \<open>Data and operations\<close>

definition SHORT_THRESHOLD_MS :: u64 where
  "SHORT_THRESHOLD_MS = 10000"

definition MAX_MOVE_PCT :: f64 where
  "MAX_MOVE_PCT = lit 0.0035"

record reversal_context =
  rx_state :: reversal_state
  rx_activation_time :: u64
  rx_last_exit_price :: f64
  rx_last_direction :: side

definition reversal_context_default :: reversal_context where
  "reversal_context_default = \<lparr>rx_state = Idle, rx_activation_time = 0, rx_last_exit_price = 0, rx_last_direction = Buy\<rparr>"

record reversal_engine =
  rv_context :: reversal_context
  rv_observation_timeout_ms :: u64
  rv_max_price_move_pct :: f64
  rv_previous_buy_pressure :: f64
  rv_previous_sell_pressure :: f64
  rv_last_market_price :: f64
  rv_last_market_ts :: u64

definition reversal_engine_new :: "u64 \<Rightarrow> reversal_engine" where
  "reversal_engine_new observation_timeout_ms =
     \<lparr>rv_context = reversal_context_default, rv_observation_timeout_ms = observation_timeout_ms,
      rv_max_price_move_pct = MAX_MOVE_PCT, rv_previous_buy_pressure = 0, rv_previous_sell_pressure = 0,
      rv_last_market_price = 0, rv_last_market_ts = 0\<rparr>"

definition reversal_engine_default :: reversal_engine where
  "reversal_engine_default = reversal_engine_new SHORT_THRESHOLD_MS"

definition market_price :: "microstructure_frame \<Rightarrow> f64" where
  "market_price frame =
     (case mf_trade frame of
        Some trade \<Rightarrow> te_price trade
      | None \<Rightarrow>
          if 0 < ob_best_bid (mf_book frame) \<and> 0 < ob_best_ask (mf_book frame)
          then (ob_best_bid (mf_book frame) + ob_best_ask (mf_book frame)) * lit 0.5
          else ts_last_price (mf_tape frame))"

definition buy_pressure :: "microstructure_frame \<Rightarrow> f64" where
  "buy_pressure frame =
     f_max (f_max (ts_delta (mf_tape frame)) 0 + f_max (ft_order_flow_delta (mf_features frame)) 0 * lit 0.65
       + f_max (ob_top_pressure (mf_book frame)) 0 * lit 2.5) 0"

definition reversal_sell_pressure :: "microstructure_frame \<Rightarrow> f64" where
  "reversal_sell_pressure frame =
     f_max (f_max (- ts_delta (mf_tape frame)) 0 + f_max (- ft_order_flow_delta (mf_features frame)) 0 * lit 0.65
       + f_max (- ob_top_pressure (mf_book frame)) 0 * lit 2.5) 0"

text \<open>The price at which the observation starts: of the frame when positive, else the last one seen.\<close>

definition exit_price :: "reversal_engine \<Rightarrow> microstructure_frame option \<Rightarrow> f64 option" where
  "exit_price e frame =
     (let current = (case frame of None \<Rightarrow> None
        | Some f \<Rightarrow> if 0 < market_price f then Some (market_price f) else None);
          previous = (if 0 < rv_last_market_price e then Some (rv_last_market_price e) else None)
      in case current of Some p \<Rightarrow> Some p | None \<Rightarrow> previous)"

definition observe_state :: "side \<Rightarrow> reversal_state" where
  "observe_state last_direction = (case last_direction of Buy \<Rightarrow> ObserveLongToShort | Sell \<Rightarrow> ObserveShortToLong)"

definition in_trend :: "microstructure_frame option \<Rightarrow> bool" where
  "in_trend frame = (case frame of None \<Rightarrow> False | Some f \<Rightarrow> mc_regime (mf_context f) = TrendExpansion)"

definition observe_learning :: "reversal_engine \<Rightarrow> learning_sample \<Rightarrow> microstructure_frame option \<Rightarrow> reversal_engine" where
  "observe_learning e sample frame =
     (if ls_pnl sample \<le> 0 \<or> SHORT_THRESHOLD_MS \<le> ls_duration_ms sample \<or> in_trend frame then e
      else case direction_side (ls_direction sample) of
        None \<Rightarrow> e
      | Some last_direction \<Rightarrow>
          (case exit_price e frame of
             None \<Rightarrow> e
           | Some price \<Rightarrow> e\<lparr>rv_context :=
               \<lparr>rx_state = observe_state last_direction,
                rx_activation_time = (case frame of Some f \<Rightarrow> mf_timestamp f | None \<Rightarrow> ls_timestamp sample),
                rx_last_exit_price = price, rx_last_direction = last_direction\<rparr>\<rparr>))"

definition price_moved :: "reversal_engine \<Rightarrow> microstructure_frame \<Rightarrow> bool" where
  "price_moved e frame \<longleftrightarrow>
     rv_max_price_move_pct e <
       f_clamp (f_abs (market_price frame - rx_last_exit_price (rv_context e))
         / f_max (rx_last_exit_price (rv_context e)) f_epsilon) 0 1"

definition expired :: "reversal_engine \<Rightarrow> microstructure_frame \<Rightarrow> bool" where
  "expired e frame \<longleftrightarrow> rx_state (rv_context e) \<noteq> Idle
     \<and> (rv_observation_timeout_ms e < sat_sub (mf_timestamp frame) (rx_activation_time (rv_context e))
        \<or> price_moved e frame)"

definition allow_flip :: "market_context \<Rightarrow> bool" where
  "allow_flip c \<longleftrightarrow> mc_regime c \<noteq> TrendExpansion \<and> mc_regime c \<noteq> HighVolatility
     \<and> lit 0.42 < mc_stability_score c \<and> lit 0.38 < mc_liquidity_score c"

definition new_dominant_trend :: "microstructure_frame \<Rightarrow> direction \<Rightarrow> bool" where
  "new_dominant_trend frame blocked = (case blocked of
     Long \<Rightarrow> lit 1.2 < mr_trend_strength (mf_regime frame)
       \<and> lit 0.8 < ft_micro_price_velocity (mf_features frame) \<and> lit 0.4 < ft_order_flow_delta (mf_features frame)
   | Short \<Rightarrow> lit 1.2 < mr_trend_strength (mf_regime frame)
       \<and> ft_micro_price_velocity (mf_features frame) < lit (- 0.8) \<and> ft_order_flow_delta (mf_features frame) < lit (- 0.4)
   | Flat \<Rightarrow> False)"

definition reversal_confidence :: "microstructure_frame \<Rightarrow> bool \<Rightarrow> f64" where
  "reversal_confidence frame confirmed =
     (if \<not> confirmed then 0
      else f_clamp (lit 0.35 * fs_exhaustion (mf_flow frame) + lit 0.30 * ob_absorption (mf_book frame)
        + lit 0.20 * mt_timing_score (mf_timing frame) + lit 0.15 * mc_stability_score (mf_context frame)) 0 1)"

definition reversal_edge :: "microstructure_frame \<Rightarrow> f64" where
  "reversal_edge frame =
     f_max (fs_exhaustion (mf_flow frame) * lit 1.4 + ob_absorption (mf_book frame) + mt_timing_score (mf_timing frame) * lit 0.8
       - mr_spread (mf_regime frame) * lit 0.05 - ft_liquidity_pull (mf_features frame) * lit 0.75) 0"

definition reset_context :: "reversal_engine \<Rightarrow> reversal_engine" where
  "reset_context e = e\<lparr>rv_context := (rv_context e)\<lparr>rx_state := Idle, rx_activation_time := 0, rx_last_exit_price := 0\<rparr>\<rparr>"

text \<open>The conditions both observations share.\<close>

definition calm_market :: "microstructure_frame \<Rightarrow> bool" where
  "calm_market frame \<longleftrightarrow> mt_signal (mf_timing frame) = Optimal \<and> mc_regime (mf_context frame) \<noteq> TrendExpansion
     \<and> ft_spread_dynamics (mf_features frame) \<le> lit 0.65 \<and> mr_volatility (mf_regime frame) < lit 3"

definition observation_result :: "reversal_engine \<Rightarrow> microstructure_frame \<Rightarrow> direction \<Rightarrow> bool \<Rightarrow> reversal_engine \<times> reversal_snapshot" where
  "observation_result e frame direction confirmed =
     (if confirmed then reset_context e else e,
      \<lparr>rs_state = rx_state (rv_context e), rs_active = True, rs_confirmed = confirmed, rs_direction = direction,
       rs_confidence = reversal_confidence frame confirmed,
       rs_expected_edge = (if confirmed then reversal_edge frame else 0)\<rparr>)"

definition observe_long_to_short :: "reversal_engine \<Rightarrow> microstructure_frame \<Rightarrow> reversal_engine \<times> reversal_snapshot" where
  "observe_long_to_short e frame =
     (if expired e frame \<or> \<not> allow_flip (mf_context frame) \<or> new_dominant_trend frame Long
      then (reset_context e, reversal_snapshot_default)
      else observation_result e frame Short
        (weak_flow (fs_signal (mf_flow frame))
         \<and> buy_pressure frame < rv_previous_buy_pressure e * lit 0.82
         \<and> (lit 0.30 < ob_absorption (mf_book frame) \<or> ob_top_pressure (mf_book frame) < 0)
         \<and> calm_market frame))"

definition observe_short_to_long :: "reversal_engine \<Rightarrow> microstructure_frame \<Rightarrow> reversal_engine \<times> reversal_snapshot" where
  "observe_short_to_long e frame =
     (if expired e frame \<or> \<not> allow_flip (mf_context frame) \<or> new_dominant_trend frame Short
      then (reset_context e, reversal_snapshot_default)
      else observation_result e frame Long
        (weak_flow (fs_signal (mf_flow frame))
         \<and> reversal_sell_pressure frame < rv_previous_sell_pressure e * lit 0.82
         \<and> (lit 0.30 < ob_absorption (mf_book frame) \<or> 0 < ob_top_pressure (mf_book frame))
         \<and> calm_market frame))"

definition observe_frame :: "reversal_engine \<Rightarrow> microstructure_frame \<Rightarrow> reversal_engine \<times> reversal_snapshot" where
  "observe_frame e frame =
     (let e1 = e\<lparr>rv_last_market_price := market_price frame, rv_last_market_ts := mf_timestamp frame\<rparr>;
          (e2, snapshot) = (case rx_state (rv_context e1) of
             Idle \<Rightarrow> (e1, reversal_snapshot_default)
           | ObserveLongToShort \<Rightarrow> observe_long_to_short e1 frame
           | ObserveShortToLong \<Rightarrow> observe_short_to_long e1 frame)
      in (e2\<lparr>rv_previous_buy_pressure := buy_pressure frame,
             rv_previous_sell_pressure := reversal_sell_pressure frame\<rparr>, snapshot))"

text \<open>The task: the engine and the latest frame, driven by samples and frames.\<close>

record reversal_task =
  rt_engine :: reversal_engine
  rt_latest_frame :: "microstructure_frame option"

definition reversal_task_init :: reversal_task where
  "reversal_task_init = \<lparr>rt_engine = reversal_engine_default, rt_latest_frame = None\<rparr>"

datatype reversal_input = SampleIn learning_sample | FrameIn microstructure_frame

definition reversal_step :: "reversal_task \<Rightarrow> reversal_input \<Rightarrow> reversal_task \<times> microstructure_frame option" where
  "reversal_step s input = (case input of
     SampleIn sample \<Rightarrow> (s\<lparr>rt_engine := observe_learning (rt_engine s) sample (rt_latest_frame s)\<rparr>, None)
   | FrameIn frame \<Rightarrow>
       (let (engine, snapshot) = observe_frame (rt_engine s) frame;
            out = frame\<lparr>mf_reversal := snapshot\<rparr>
        in (\<lparr>rt_engine = engine, rt_latest_frame = Some out\<rparr>, Some out)))"

section \<open>The state machine\<close>

text \<open>
  What the engine promises, on its states alone: an observation is opened by a trade on the
  given side, kept, confirmed in the opposite direction, or cancelled.
\<close>

datatype reversal_label = Activate side | Hold | Confirm direction | Cancel

inductive reversal_trans :: "reversal_state \<Rightarrow> reversal_label \<Rightarrow> reversal_state \<Rightarrow> bool" where
  activate: "reversal_trans s (Activate d) (observe_state d)"
| hold: "reversal_trans s Hold s"
| confirm_short: "reversal_trans ObserveLongToShort (Confirm Short) Idle"
| confirm_long: "reversal_trans ObserveShortToLong (Confirm Long) Idle"
| cancel: "s \<noteq> Idle \<Longrightarrow> reversal_trans s Cancel Idle"

inductive_simps reversal_trans_simps [simp]:
  "reversal_trans s (Activate d) s'" "reversal_trans s Hold s'" "reversal_trans s Cancel s'"

inductive_cases reversal_confirmE: "reversal_trans s (Confirm d) s'"

inductive reversal_path :: "reversal_state \<Rightarrow> reversal_label list \<Rightarrow> reversal_state \<Rightarrow> bool" where
  path_nil: "reversal_path s [] s"
| path_snoc: "reversal_path s ls s' \<Longrightarrow> reversal_trans s' l s'' \<Longrightarrow> reversal_path s (ls @ [l]) s''"

inductive_cases reversal_path_snocE: "reversal_path s (ls @ [l]) s''"

text \<open>Every observation that is reached from the idle state was opened by a trade on the matching
  side, and since then nothing but holding has happened.\<close>

lemma observation_opened:
  assumes "reversal_path Idle ls s" "s \<noteq> Idle"
  shows "\<exists>pre d post. ls = pre @ Activate d # post \<and> observe_state d = s \<and> set post \<subseteq> {Hold}"
proof -
  have "s0 = Idle \<longrightarrow> s \<noteq> Idle \<longrightarrow> (\<exists>pre d post. ls = pre @ Activate d # post \<and> observe_state d = s \<and> set post \<subseteq> {Hold})"
    if "reversal_path s0 ls s" for s0
    using that
  proof (induction rule: reversal_path.induct)
    case (path_snoc s0 ls s' l s'')
    show ?case
    proof (intro impI)
      assume a: "s0 = Idle" "s'' \<noteq> Idle"
      from path_snoc.hyps(2) a(2) consider d where "l = Activate d" "s'' = observe_state d" | "l = Hold" "s'' = s'"
        by (cases rule: reversal_trans.cases) auto
      then show "\<exists>pre d post. ls @ [l] = pre @ Activate d # post \<and> observe_state d = s'' \<and> set post \<subseteq> {Hold}"
      proof cases
        case 1
        then have "ls @ [l] = ls @ Activate d # [] \<and> observe_state d = s'' \<and> set [] \<subseteq> {Hold}" by simp
        then show ?thesis by blast
      next
        case 2
        with path_snoc.IH a obtain pre d post where "ls = pre @ Activate d # post" "observe_state d = s'" "set post \<subseteq> {Hold}"
          by auto
        then have "ls @ [l] = pre @ Activate d # (post @ [l]) \<and> observe_state d = s'' \<and> set (post @ [l]) \<subseteq> {Hold}"
          using 2 by simp
        then show ?thesis by blast
      qed
    qed
  qed simp
  then show ?thesis using assms by simp
qed

section \<open>Refinement\<close>

definition qualifies :: "reversal_engine \<Rightarrow> learning_sample \<Rightarrow> microstructure_frame option \<Rightarrow> bool" where
  "qualifies e sample frame \<longleftrightarrow> \<not> ls_pnl sample \<le> 0 \<and> \<not> SHORT_THRESHOLD_MS \<le> ls_duration_ms sample
     \<and> \<not> in_trend frame \<and> direction_side (ls_direction sample) \<noteq> None \<and> exit_price e frame \<noteq> None"

abbreviation machine_state :: "reversal_engine \<Rightarrow> reversal_state" where
  "machine_state e \<equiv> rx_state (rv_context e)"

definition reversal_label_of :: "reversal_task \<Rightarrow> reversal_input \<Rightarrow> reversal_label" where
  "reversal_label_of s input = (case input of
     SampleIn sample \<Rightarrow>
       if qualifies (rt_engine s) sample (rt_latest_frame s) then Activate (the (direction_side (ls_direction sample))) else Hold
   | FrameIn frame \<Rightarrow>
       (let (engine, snapshot) = observe_frame (rt_engine s) frame
        in if rs_confirmed snapshot then Confirm (rs_direction snapshot)
           else if machine_state (rt_engine s) \<noteq> Idle \<and> machine_state engine = Idle then Cancel else Hold))"

lemma observe_learning_qualifies:
  "observe_learning e sample frame =
     (if qualifies e sample frame
      then e\<lparr>rv_context := \<lparr>rx_state = observe_state (the (direction_side (ls_direction sample))),
             rx_activation_time = (case frame of Some f \<Rightarrow> mf_timestamp f | None \<Rightarrow> ls_timestamp sample),
             rx_last_exit_price = the (exit_price e frame),
             rx_last_direction = the (direction_side (ls_direction sample))\<rparr>\<rparr>
      else e)"
  by (auto simp: observe_learning_def qualifies_def split: option.splits)

text \<open>The snapshot of one frame, by the state of the engine.\<close>

lemmas observe_frame_defs = observe_frame_def observe_long_to_short_def observe_short_to_long_def
  observation_result_def reset_context_def reversal_snapshot_default_def Let_def

lemma observe_frame_idle:
  "machine_state e = Idle \<Longrightarrow> snd (observe_frame e f) = reversal_snapshot_default \<and> machine_state (fst (observe_frame e f)) = Idle"
  by (simp add: observe_frame_def Let_def)

lemma observe_frame_context:
  "rv_context (fst (observe_frame e f)) = rv_context e
   \<or> machine_state (fst (observe_frame e f)) = Idle"
  by (cases "machine_state e") (auto simp: observe_frame_defs)

lemma observe_frame_confirmed:
  assumes "rs_confirmed (snd (observe_frame e f))"
  shows "machine_state (fst (observe_frame e f)) = Idle" "calm_market f" "weak_flow (fs_signal (mf_flow f))" "allow_flip (mf_context f)"
    "\<not> expired e f" "rs_state (snd (observe_frame e f)) = machine_state e"
    "machine_state e = ObserveLongToShort \<and> rs_direction (snd (observe_frame e f)) = Short
      \<or> machine_state e = ObserveShortToLong \<and> rs_direction (snd (observe_frame e f)) = Long"
  using assms
  by (cases "machine_state e"; auto simp: observe_frame_defs expired_def price_moved_def split: if_splits)+

lemma reversal_step_simps [simp]:
  "rt_engine (fst (reversal_step s (SampleIn x))) = observe_learning (rt_engine s) x (rt_latest_frame s)"
  "rt_engine (fst (reversal_step s (FrameIn f))) = fst (observe_frame (rt_engine s) f)"
  "snd (reversal_step s (FrameIn f)) = Some (f\<lparr>mf_reversal := snd (observe_frame (rt_engine s) f)\<rparr>)"
  by (simp_all add: reversal_step_def case_prod_unfold Let_def)

lemma reversal_step_trans:
  "reversal_trans (machine_state (rt_engine s)) (reversal_label_of s i) (machine_state (rt_engine (fst (reversal_step s i))))"
proof (cases i)
  case (SampleIn x)
  then show ?thesis by (simp add: reversal_label_of_def observe_learning_qualifies)
next
  case (FrameIn f)
  let ?r = "observe_frame (rt_engine s) f"
  show ?thesis
  proof (cases "rs_confirmed (snd ?r)")
    case True
    from observe_frame_confirmed(1,7)[OF this] True show ?thesis using FrameIn
      by (auto simp: reversal_label_of_def case_prod_unfold Let_def intro: reversal_trans.intros)
  next
    case False
    then show ?thesis using FrameIn observe_frame_context[of "rt_engine s" f] observe_frame_idle[of "rt_engine s" f]
      by (auto simp: reversal_label_of_def case_prod_unfold Let_def)
  qed
qed

lemma hold_context:
  assumes "reversal_label_of s i = Hold" "machine_state (rt_engine s) \<noteq> Idle"
  shows "rv_context (rt_engine (fst (reversal_step s i))) = rv_context (rt_engine s)"
proof (cases i)
  case (SampleIn x)
  then show ?thesis using assms by (simp add: reversal_label_of_def observe_learning_qualifies split: if_splits)
next
  case (FrameIn f)
  then show ?thesis using assms observe_frame_context[of "rt_engine s" f]
    by (auto simp: reversal_label_of_def case_prod_unfold Let_def split: if_splits)
qed

text \<open>The labels of a run.\<close>

fun reversal_labels :: "reversal_task \<Rightarrow> reversal_input list \<Rightarrow> reversal_label list" where
  "reversal_labels s [] = []"
| "reversal_labels s (i # is) = reversal_label_of s i # reversal_labels (fst (reversal_step s i)) is"

abbreviation reversal_run :: "reversal_task \<Rightarrow> reversal_input list \<Rightarrow> reversal_task" where
  "reversal_run s is \<equiv> foldl (\<lambda>s i. fst (reversal_step s i)) s is"

lemma reversal_labels_append [simp]:
  "reversal_labels s (xs @ ys) = reversal_labels s xs @ reversal_labels (reversal_run s xs) ys"
  by (induction xs arbitrary: s) simp_all

lemma length_reversal_labels [simp]: "length (reversal_labels s xs) = length xs"
  by (induction xs arbitrary: s) simp_all

lemma reversal_run_path:
  "reversal_path (machine_state (rt_engine s)) (reversal_labels s xs) (machine_state (rt_engine (reversal_run s xs)))"
proof (induction xs rule: rev_induct)
  case Nil
  show ?case by (simp add: path_nil)
next
  case (snoc i xs)
  then show ?case using path_snoc[OF snoc reversal_step_trans[of "reversal_run s xs" i]] by simp
qed

lemma held_context:
  assumes "set (reversal_labels s xs) \<subseteq> {Hold}" "machine_state (rt_engine s) \<noteq> Idle"
  shows "rv_context (rt_engine (reversal_run s xs)) = rv_context (rt_engine s)"
  using assms
proof (induction xs arbitrary: s)
  case (Cons i xs)
  then have "rv_context (rt_engine (fst (reversal_step s i))) = rv_context (rt_engine s)" by (intro hold_context) auto
  then show ?case using Cons.IH[of "fst (reversal_step s i)"] Cons.prems by simp
qed simp

text \<open>An open observation goes back to one sample of the input.\<close>

definition opening_time :: "reversal_task \<Rightarrow> learning_sample \<Rightarrow> u64" where
  "opening_time s sample = (case rt_latest_frame s of Some f \<Rightarrow> mf_timestamp f | None \<Rightarrow> ls_timestamp sample)"

lemma observation_cause:
  assumes "machine_state (rt_engine (reversal_run reversal_task_init xs)) \<noteq> Idle"
  shows "\<exists>pre sample post d. xs = pre @ SampleIn sample # post
    \<and> qualifies (rt_engine (reversal_run reversal_task_init pre)) sample (rt_latest_frame (reversal_run reversal_task_init pre))
    \<and> direction_side (ls_direction sample) = Some d
    \<and> set (reversal_labels (reversal_run reversal_task_init (pre @ [SampleIn sample])) post) \<subseteq> {Hold}
    \<and> machine_state (rt_engine (reversal_run reversal_task_init xs)) = observe_state d
    \<and> rx_activation_time (rv_context (rt_engine (reversal_run reversal_task_init xs)))
        = opening_time (reversal_run reversal_task_init pre) sample"
proof -
  let ?run = "reversal_run reversal_task_init"
  have "machine_state (rt_engine reversal_task_init) = Idle"
    by (simp add: reversal_task_init_def reversal_engine_default_def reversal_engine_new_def reversal_context_default_def)
  then have "reversal_path Idle (reversal_labels reversal_task_init xs) (machine_state (rt_engine (?run xs)))"
    using reversal_run_path[of reversal_task_init xs] by simp
  from observation_opened[OF this assms] obtain lpre d lpost
    where l: "reversal_labels reversal_task_init xs = lpre @ Activate d # lpost" "observe_state d = machine_state (rt_engine (?run xs))"
      "set lpost \<subseteq> {Hold}" by blast
  define pre where "pre = take (length lpre) xs"
  define x where "x = xs ! length lpre"
  define post where "post = drop (Suc (length lpre)) xs"
  have "length lpre < length xs" using arg_cong[OF l(1), of length] by simp
  then have xs: "xs = pre @ x # post" "length pre = length lpre"
    by (simp_all add: pre_def x_def post_def id_take_nth_drop[symmetric])
  have "reversal_labels reversal_task_init pre = lpre \<and> reversal_label_of (?run pre) x = Activate d
      \<and> reversal_labels (?run (pre @ [x])) post = lpost"
    using l(1) xs(2) by (simp add: xs(1))
  then have x: "reversal_label_of (?run pre) x = Activate d" "set (reversal_labels (?run (pre @ [x])) post) \<subseteq> {Hold}"
    using l(3) by simp_all
  then obtain sample where s: "x = SampleIn sample" "qualifies (rt_engine (?run pre)) sample (rt_latest_frame (?run pre))"
      "the (direction_side (ls_direction sample)) = d"
    by (auto simp: reversal_label_of_def case_prod_unfold Let_def split: reversal_input.splits if_splits)
  then have d: "direction_side (ls_direction sample) = Some d" by (auto simp: qualifies_def)
  have c: "rv_context (rt_engine (?run (pre @ [x]))) = \<lparr>rx_state = observe_state d,
      rx_activation_time = opening_time (?run pre) sample,
      rx_last_exit_price = the (exit_price (rt_engine (?run pre)) (rt_latest_frame (?run pre))), rx_last_direction = d\<rparr>"
    using s by (simp add: observe_learning_qualifies opening_time_def)
  have "machine_state (rt_engine (?run (pre @ [x]))) \<noteq> Idle" unfolding c by (cases d) (simp_all add: observe_state_def)
  from held_context[OF x(2) this] have "rv_context (rt_engine (?run xs)) = rv_context (rt_engine (?run (pre @ [x])))"
    by (simp add: xs(1))
  then have "rx_activation_time (rv_context (rt_engine (?run xs))) = opening_time (?run pre) sample" unfolding c by simp
  then show ?thesis using xs(1) s(2) d x(2) l(2)[symmetric] unfolding s(1) by blast
qed

lemma timeout_constant: "rv_observation_timeout_ms (rt_engine (reversal_run reversal_task_init xs)) = 10000"
proof -
  have "rv_observation_timeout_ms (rt_engine (fst (reversal_step s i))) = rv_observation_timeout_ms (rt_engine s)" for s i
  proof (cases i)
    case (SampleIn x)
    then show ?thesis by (simp add: observe_learning_qualifies)
  next
    case (FrameIn f)
    then show ?thesis by (cases "machine_state (rt_engine s)") (auto simp: observe_frame_defs)
  qed
  then have "rv_observation_timeout_ms (rt_engine (reversal_run s xs)) = rv_observation_timeout_ms (rt_engine s)" for s
    by (induction xs arbitrary: s) simp_all
  then show ?thesis
    by (simp add: reversal_task_init_def reversal_engine_default_def reversal_engine_new_def SHORT_THRESHOLD_MS_def)
qed

lemma run_task_reversal: "fst (run_task reversal_step s xs) = reversal_run s xs"
  by (rule run_task_fst)

section \<open>Properties\<close>

text \<open>C29: The reversal engine refines its three state machine: for any interleaving of samples and
  frames the labels of the steps form a path of the transition relation from the idle state to
  the state of the engine, so an observation is only opened by a qualifying sample, ends only by
  a confirmation in the opposite direction or a cancellation, and idle frames change nothing.\<close>
theorem reversal_refines_machine:
  "reversal_path Idle (reversal_labels reversal_task_init xs)
     (machine_state (rt_engine (fst (run_task reversal_step reversal_task_init xs))))"
  unfolding run_task_reversal using reversal_run_path[of reversal_task_init xs]
  by (simp add: reversal_task_init_def reversal_engine_default_def reversal_engine_new_def reversal_context_default_def)

text \<open>C30: A confirmed reversal has a cause: the input before the confirming frame holds a sample of a
  quick trade (under ten seconds, its profit not at most zero) in the opposite direction, since which the observation
  was neither replaced nor ended; the frame comes at most ten seconds after its opening, has weak
  or exhausted flow, optimal timing and a calm context that allows a flip, and leaves the engine
  idle, so one sample confirms at most once.\<close>
theorem confirmed_reversal_caused:
  assumes "s = fst (run_task reversal_step reversal_task_init xs)"
    "snd (reversal_step s (FrameIn f)) = Some out" "rs_confirmed (mf_reversal out)"
  shows "\<exists>pre sample post d. xs = pre @ SampleIn sample # post
    \<and> \<not> ls_pnl sample \<le> 0 \<and> ls_duration_ms sample < 10000
    \<and> direction_side (ls_direction sample) = Some d
    \<and> rs_direction (mf_reversal out) = (case d of Buy \<Rightarrow> Short | Sell \<Rightarrow> Long)
    \<and> set (reversal_labels (reversal_run reversal_task_init (pre @ [SampleIn sample])) post) \<subseteq> {Hold}
    \<and> unat (mf_timestamp f) \<le> unat (opening_time (reversal_run reversal_task_init pre) sample) + 10000
    \<and> weak_flow (fs_signal (mf_flow f)) \<and> calm_market f \<and> allow_flip (mf_context f)
    \<and> machine_state (rt_engine (fst (reversal_step s (FrameIn f)))) = Idle"
proof -
  have out: "mf_reversal out = snd (observe_frame (rt_engine s) f)" using assms(2) by auto
  note c = observe_frame_confirmed[OF assms(3)[unfolded out]]
  have run: "s = reversal_run reversal_task_init xs" using assms(1) by (simp add: run_task_reversal)
  have "machine_state (rt_engine s) \<noteq> Idle" using c(7) by auto
  from observation_cause[OF this[unfolded run]] obtain pre sample post d where o: "xs = pre @ SampleIn sample # post"
    "qualifies (rt_engine (reversal_run reversal_task_init pre)) sample (rt_latest_frame (reversal_run reversal_task_init pre))"
    "direction_side (ls_direction sample) = Some d"
    "set (reversal_labels (reversal_run reversal_task_init (pre @ [SampleIn sample])) post) \<subseteq> {Hold}"
    "machine_state (rt_engine s) = observe_state d"
    "rx_activation_time (rv_context (rt_engine s)) = opening_time (reversal_run reversal_task_init pre) sample"
    unfolding run by blast
  have timeout: "rv_observation_timeout_ms (rt_engine s) = 10000" unfolding run by (rule timeout_constant)
  have "\<not> 10000 < sat_sub (mf_timestamp f) (opening_time (reversal_run reversal_task_init pre) sample)"
    using c(5,7) o(6) timeout by (auto simp: expired_def)
  then have "unat (mf_timestamp f) \<le> unat (opening_time (reversal_run reversal_task_init pre) sample) + 10000"
    by (simp add: word_less_nat_alt unat_sat_sub not_less)
  moreover have "rs_direction (mf_reversal out) = (case d of Buy \<Rightarrow> Short | Sell \<Rightarrow> Long)"
    using c(7) o(5) by (cases d) (auto simp: observe_state_def out)
  moreover have "\<not> ls_pnl sample \<le> 0" "ls_duration_ms sample < 10000"
    using o(2) by (auto simp: qualifies_def SHORT_THRESHOLD_MS_def)
  ultimately show ?thesis using o(1,3,4) c(1-4) by auto
qed

definition ex_bought_frame :: microstructure_frame where
  "ex_bought_frame = ex_frame\<lparr>mf_tape := tape_state_default\<lparr>ts_delta := Fin 6\<rparr>\<rparr>"

definition ex_calm_frame :: microstructure_frame where
  "ex_calm_frame = ex_frame\<lparr>mf_book := order_book_state_default\<lparr>ob_absorption := Fin (1 / 2)\<rparr>\<rparr>"

definition ex_reversal_inputs :: "reversal_input list" where
  "ex_reversal_inputs = [FrameIn ex_bought_frame, SampleIn (ex_sample\<lparr>ls_pnl := 1, ls_duration_ms := 500, ls_direction := Long\<rparr>)]"

lemmas ex_reversal_defs = ex_reversal_inputs_def ex_bought_frame_def ex_calm_frame_def ex_frame_def ex_sample_def
  reversal_task_init_def reversal_engine_default_def reversal_engine_new_def reversal_context_default_def
  order_book_state_default_def tape_state_default_def features_default_def market_context_default_def market_regime_default_def

lemma ex_reversal_opened:
  "rt_engine (fst (run_task reversal_step reversal_task_init ex_reversal_inputs)) =
     \<lparr>rv_context = \<lparr>rx_state = ObserveLongToShort, rx_activation_time = 1000, rx_last_exit_price = Fin 100, rx_last_direction = Buy\<rparr>,
      rv_observation_timeout_ms = 10000, rv_max_price_move_pct = MAX_MOVE_PCT,
      rv_previous_buy_pressure = Fin 6, rv_previous_sell_pressure = 0, rv_last_market_price = Fin 100, rv_last_market_ts = 1000\<rparr>"
  by (simp add: ex_reversal_defs reversal_step_def observe_frame_def observe_learning_def Let_def in_trend_def exit_price_def
      market_price_def buy_pressure_def reversal_sell_pressure_def observe_state_def SHORT_THRESHOLD_MS_def
      reversal_snapshot_default_def f64_eval f_max_def less_f64_def zero_f64_def one_f64_def)

lemma ex_reversal_confirmed:
  "rs_confirmed (snd (observe_frame (rt_engine (fst (run_task reversal_step reversal_task_init ex_reversal_inputs))) ex_calm_frame))"
  unfolding ex_reversal_opened
  by (simp add: observe_frame_defs expired_def price_moved_def market_price_def ex_reversal_defs allow_flip_def new_dominant_trend_def
      weak_flow_def buy_pressure_def calm_market_def MAX_MOVE_PCT_def sat_sub_def zero_f64_def one_f64_def f64_eval f_epsilon_def)

theorem confirmed_reversal_caused_witness:
  "\<exists>out pre sample post. snd (reversal_step (fst (run_task reversal_step reversal_task_init ex_reversal_inputs)) (FrameIn ex_calm_frame)) = Some out
     \<and> rs_direction (mf_reversal out) = Short \<and> ex_reversal_inputs = pre @ SampleIn sample # post
     \<and> direction_side (ls_direction sample) = Some Buy"
proof -
  let ?s = "fst (run_task reversal_step reversal_task_init ex_reversal_inputs)"
  let ?out = "ex_calm_frame\<lparr>mf_reversal := snd (observe_frame (rt_engine ?s) ex_calm_frame)\<rparr>"
  have o: "snd (reversal_step ?s (FrameIn ex_calm_frame)) = Some ?out" by simp
  have c: "rs_confirmed (mf_reversal ?out)" using ex_reversal_confirmed by simp
  have "machine_state (rt_engine ?s) = ObserveLongToShort" unfolding ex_reversal_opened by simp
  then have d: "rs_direction (mf_reversal ?out) = Short" using observe_frame_confirmed(7)[OF ex_reversal_confirmed] by simp
  from confirmed_reversal_caused[OF refl o c] obtain pre sample post d
    where "ex_reversal_inputs = pre @ SampleIn sample # post" "direction_side (ls_direction sample) = Some d"
      "rs_direction (mf_reversal ?out) = (case d of Buy \<Rightarrow> Short | Sell \<Rightarrow> Long)" by blast
  moreover from this(3) have "d = Buy" using d by (cases d) simp_all
  ultimately show ?thesis using o d by blast
qed

end
