(* ===== verification/Learning.thy ===== *)
theory Learning
  imports EdgeFacts
begin

text \<open>
  The online learning state of the decision stage (\<open>learning.rs\<close>): weights, threshold and
  running averages that every closed trade adjusts. The lemmas bound all of them and count the
  consecutive losses.
\<close>

section \<open>Data and operations\<close>

record adaptive_weights =
  aw_velocity :: f64
  aw_orderflow :: f64
  aw_imbalance :: f64
  aw_liquidity :: f64
  aw_spread :: f64
  aw_adversarial :: f64

definition adaptive_weights_default :: adaptive_weights where
  "adaptive_weights_default = \<lparr>aw_velocity = lit 1.10, aw_orderflow = lit 0.95, aw_imbalance = lit 0.85,
     aw_liquidity = lit 0.65, aw_spread = lit 0.75, aw_adversarial = lit 1.15\<rparr>"

record learning_state =
  ln_weights :: adaptive_weights
  ln_hit_rate :: f64
  ln_slippage_error_bps :: f64
  ln_entry_quality_ema :: f64
  ln_duration_ema_ms :: f64
  ln_scaling_aggressiveness :: f64
  ln_threshold :: f64
  ln_consecutive_losses :: u32
  ln_samples :: u64

definition learning_state_default :: learning_state where
  "learning_state_default = \<lparr>ln_weights = adaptive_weights_default, ln_hit_rate = lit 0.50, ln_slippage_error_bps = 0,
     ln_entry_quality_ema = lit 0.55, ln_duration_ema_ms = lit 250, ln_scaling_aggressiveness = 1,
     ln_threshold = lit 0.70, ln_consecutive_losses = 0, ln_samples = 0\<rparr>"

definition adjust :: "f64 \<Rightarrow> f64 \<Rightarrow> f64" where
  "adjust v delta = f_clamp (v + delta) (lit 0.25) (lit 2.50)"

definition regime_weights :: "learning_state \<Rightarrow> market_regime \<Rightarrow> adaptive_weights" where
  "regime_weights s regime =
     (let w = ln_weights s;
          w1 = (if lit 2 < mr_volatility regime
                then w\<lparr>aw_velocity := aw_velocity w * lit 0.85, aw_liquidity := aw_liquidity w * lit 1.20,
                       aw_adversarial := aw_adversarial w * lit 1.25\<rparr> else w);
          w2 = (if lit 8 < mr_spread regime
                then w1\<lparr>aw_spread := aw_spread w1 * lit 1.50, aw_orderflow := aw_orderflow w1 * lit 0.85\<rparr> else w1)
      in if ln_hit_rate s < lit 0.48
         then w2\<lparr>aw_adversarial := aw_adversarial w2 * lit 1.20, aw_spread := aw_spread w2 * lit 1.15\<rparr> else w2)"

definition learning_threshold :: "learning_state \<Rightarrow> market_regime \<Rightarrow> f64" where
  "learning_threshold s regime =
     (let regime_penalty = (if lit 10 < mr_spread regime \<or> lit 3 < mr_volatility regime then lit 0.05 else 0)
      in f_clamp (ln_threshold s + regime_penalty + f_max (ln_slippage_error_bps s) 0 * lit 0.002) (lit 0.62) (lit 0.86))"

text \<open>The running average of the learning rate 0.04.\<close>

definition learn_ema :: "f64 \<Rightarrow> f64 \<Rightarrow> f64" where
  "learn_ema mean v = (1 - lit 0.04) * mean + lit 0.04 * v"

definition sample_won :: "learning_sample \<Rightarrow> bool" where
  "sample_won x \<longleftrightarrow> 0 < ls_pnl x"

definition learn_outcome :: "learning_state \<Rightarrow> learning_sample \<Rightarrow> learning_state" where
  "learn_outcome s x =
     (if sample_won x
      then s\<lparr>ln_consecutive_losses := 0, ln_threshold := f_max (ln_threshold s - lit 0.003) (lit 0.66),
             ln_scaling_aggressiveness :=
               (if lit 0.70 < ls_entry_quality x \<and> ls_duration_ms x < 750
                then adjust (ln_scaling_aggressiveness s) (lit 0.01) else ln_scaling_aggressiveness s)\<rparr>
      else s\<lparr>ln_consecutive_losses := sat_add (ln_consecutive_losses s) 1,
             ln_threshold := f_min (ln_threshold s + lit 0.012) (lit 0.86),
             ln_scaling_aggressiveness := adjust (ln_scaling_aggressiveness s) (lit (- 0.025))\<rparr>)"

definition learn_weights :: "learning_state \<Rightarrow> learning_sample \<Rightarrow> learning_state" where
  "learn_weights s x =
     (let reward = (if sample_won x then 1 else - 1);
          step = lit 0.015 * reward * f_clamp (ls_confidence x) (lit 0.1) 1;
          w = ln_weights s;
          w1 = w\<lparr>aw_velocity := adjust (aw_velocity w) step,
                 aw_orderflow := adjust (aw_orderflow w) (step * lit 0.8),
                 aw_imbalance := adjust (aw_imbalance w) (step * lit 0.6)\<rparr>;
          slipped = (ls_expected_slippage_bps x + lit 2 < ls_actual_slippage_bps x);
          w2 = (if slipped then w1\<lparr>aw_spread := adjust (aw_spread w1) (lit 0.02),
                  aw_liquidity := adjust (aw_liquidity w1) (lit 0.015)\<rparr> else w1);
          w3 = (if lit 3 < mr_volatility (ls_regime x) \<and> \<not> sample_won x
                then w2\<lparr>aw_adversarial := adjust (aw_adversarial w2) (lit 0.025)\<rparr> else w2)
      in s\<lparr>ln_weights := w3,
           ln_scaling_aggressiveness :=
             (if slipped then adjust (ln_scaling_aggressiveness s) (lit (- 0.015)) else ln_scaling_aggressiveness s)\<rparr>)"

definition apply_sample :: "learning_state \<Rightarrow> learning_sample \<Rightarrow> learning_state" where
  "apply_sample s x =
     (let s1 = s\<lparr>ln_samples := sat_add (ln_samples s) 1,
                 ln_hit_rate := learn_ema (ln_hit_rate s) (if sample_won x then 1 else 0),
                 ln_slippage_error_bps := learn_ema (ln_slippage_error_bps s)
                   (ls_actual_slippage_bps x - ls_expected_slippage_bps x),
                 ln_entry_quality_ema := learn_ema (ln_entry_quality_ema s) (ls_entry_quality x),
                 ln_duration_ema_ms := learn_ema (ln_duration_ema_ms s) (f_of_word (ls_duration_ms x))\<rparr>
      in learn_weights (learn_outcome s1 x) x)"

section \<open>Bounds\<close>

definition weight_rng :: "f64 \<Rightarrow> bool" where
  "weight_rng w \<longleftrightarrow> rng (1 / 4) (5 / 2) w"

definition adaptive_weights_ok :: "adaptive_weights \<Rightarrow> bool" where
  "adaptive_weights_ok w \<longleftrightarrow> weight_rng (aw_velocity w) \<and> weight_rng (aw_orderflow w) \<and> weight_rng (aw_imbalance w)
     \<and> weight_rng (aw_liquidity w) \<and> weight_rng (aw_spread w) \<and> weight_rng (aw_adversarial w)"

definition threshold_rng :: "f64 \<Rightarrow> bool" where
  "threshold_rng t \<longleftrightarrow> double t \<and> rng (val (lit 0.66)) (val (lit 0.86)) t"

definition learning_ok :: "learning_state \<Rightarrow> bool" where
  "learning_ok s \<longleftrightarrow> adaptive_weights_ok (ln_weights s) \<and> rng 0 1 (ln_hit_rate s) \<and> mag 41 (ln_slippage_error_bps s)
     \<and> rng 0 1 (ln_entry_quality_ema s) \<and> rng 0 (2 ^ 64) (ln_duration_ema_ms s) \<and> weight_rng (ln_scaling_aggressiveness s)
     \<and> threshold_rng (ln_threshold s)"

definition learning_sample_ok :: "learning_sample \<Rightarrow> bool" where
  "learning_sample_ok x \<longleftrightarrow> ls_confidence x \<noteq> NaN \<and> rng 0 1 (ls_entry_quality x)
     \<and> mag 40 (ls_actual_slippage_bps x) \<and> mag 40 (ls_expected_slippage_bps x)"

lemma adjust_rng: "weight_rng v \<Longrightarrow> d \<noteq> NaN \<Longrightarrow> weight_rng (adjust v d)"
proof -
  assume a: "weight_rng v" "d \<noteq> NaN"
  then have "v + d \<noteq> NaN" by (intro plus_not_nan) (auto simp: weight_rng_def rngD)
  then show ?thesis using f_clamp_rng[of "v + d" "lit 0.25" "lit 2.50"]
    by (simp add: adjust_def weight_rng_def f64_eval)
qed

lemma learn_ema_rng:
  "rng 0 1 m \<Longrightarrow> rng 0 1 v \<Longrightarrow> rng 0 1 (learn_ema m v)"
  "rng 0 (2 ^ 64) m \<Longrightarrow> rng 0 (2 ^ 64) v \<Longrightarrow> rng 0 (2 ^ 64) (learn_ema m v)"
  "mag 41 m \<Longrightarrow> mag 41 v \<Longrightarrow> mag 41 (learn_ema m v)"
  unfolding learn_ema_def times_commute_f64[of "lit _"] times_commute_f64[of "1 - lit _"] mag_rng
  by (rule rng_mix; simp add: f64_eval)+

lemma step_not_nan: "ls_confidence x \<noteq> NaN \<Longrightarrow>
  lit 0.015 * (if sample_won x then 1 else - 1) * f_clamp (ls_confidence x) (lit 0.1) 1 \<noteq> NaN
  \<and> fin (lit 0.015 * (if sample_won x then 1 else - 1) * f_clamp (ls_confidence x) (lit 0.1) 1)"
proof -
  assume a: "ls_confidence x \<noteq> NaN"
  have "rng (val (lit 0.1)) 1 (f_clamp (ls_confidence x) (lit 0.1) 1)"
    using f_clamp_rng[OF a, of "lit 0.1" 1] by (simp add: f64_eval)
  then have c: "mag 0 (f_clamp (ls_confidence x) (lit 0.1) 1)" by (auto simp: mag_def rng_def f64_eval)
  have "mag 0 (lit 0.015 * (if sample_won x then 1 else - 1))"
    using mag_times[of 0 "lit 0.015" 0] by (simp add: mag_def f64_eval)
  from mag_times[OF this c] show ?thesis by (auto simp: mag_def)
qed

lemma threshold_down: "threshold_rng t \<Longrightarrow> threshold_rng (f_max (t - lit 0.003) (lit 0.66))"
proof -
  assume t: "threshold_rng t"
  have l: "fin (lit 0.66)" "fin (lit 0.86)" "val (lit 0.66) \<le> val (lit 0.86)" "fin (lit 0.003)" "0 \<le> val (lit 0.003)"
    by (simp_all add: f64_eval)
  have "t - lit 0.003 \<le> t" using t l by (intro minus_nonneg_le) (auto simp: threshold_rng_def rngD)
  moreover have "mag 1 (t - lit 0.003)"
    using mag_minus[of 0 t "lit 0.003"] t by (simp add: threshold_rng_def mag_def rng_def f64_eval)
  ultimately show ?thesis using t l
    by (auto simp: threshold_rng_def rng_def fin_f_max val_f_max fin_le_iff mag_fin)
qed

lemma threshold_up: "threshold_rng t \<Longrightarrow> threshold_rng (f_min (t + lit 0.012) (lit 0.86))"
proof -
  assume t: "threshold_rng t"
  have l: "fin (lit 0.66)" "fin (lit 0.86)" "val (lit 0.66) \<le> val (lit 0.86)" "fin (lit 0.012)" "0 \<le> val (lit 0.012)"
    by (simp_all add: f64_eval)
  have "t \<le> t + lit 0.012" using t l by (intro plus_nonneg_ge) (auto simp: threshold_rng_def rngD)
  moreover have "mag 1 (t + lit 0.012)"
    using mag_plus[of 0 t "lit 0.012"] t by (simp add: threshold_rng_def mag_def rng_def f64_eval)
  ultimately show ?thesis using t l
    by (auto simp: threshold_rng_def rng_def fin_f_max val_f_min fin_le_iff mag_fin)
qed

lemma learn_outcome_ok:
  assumes "learning_ok s"
  shows "learning_ok (learn_outcome s x)"
  using assms threshold_down threshold_up adjust_rng[of "ln_scaling_aggressiveness s"]
  by (auto simp: learning_ok_def learn_outcome_def)

lemma learn_weights_ok:
  assumes "learning_ok s" "ls_confidence x \<noteq> NaN"
  shows "learning_ok (learn_weights s x)"
proof -
  define d where "d = lit 0.015 * (if sample_won x then 1 else - 1) * f_clamp (ls_confidence x) (lit 0.1) 1"
  have d: "d \<noteq> NaN" "fin d" using step_not_nan[OF assms(2)] by (simp_all add: d_def)
  have d': "d * lit 0.8 \<noteq> NaN" "d * lit 0.6 \<noteq> NaN"
    by (rule times_not_nan[OF d(2)], simp add: f64_eval)+
  show ?thesis using assms(1) d d' adjust_rng
    unfolding learn_weights_def Let_def d_def[symmetric]
    by (simp add: learning_ok_def adaptive_weights_ok_def)
qed

lemma apply_sample_ok:
  assumes "learning_ok s" "learning_sample_ok x"
  shows "learning_ok (apply_sample s x)"
proof -
  have "mag 41 (ls_actual_slippage_bps x - ls_expected_slippage_bps x)"
    using assms(2) mag_minus[of 40] by (simp add: learning_sample_ok_def)
  moreover have "rng 0 (2 ^ 64) (learn_ema (ln_duration_ema_ms s) (f_of_word (ls_duration_ms x)))"
    using assms(1) f_of_word_rng[of "ls_duration_ms x"] unfolding learning_ok_def by (intro learn_ema_rng) blast+
  moreover have "rng 0 1 (if sample_won x then 1 else 0)" by (simp add: rng_0_1)
  ultimately have "learning_ok (s\<lparr>ln_samples := sat_add (ln_samples s) 1,
      ln_hit_rate := learn_ema (ln_hit_rate s) (if sample_won x then 1 else 0),
      ln_slippage_error_bps := learn_ema (ln_slippage_error_bps s) (ls_actual_slippage_bps x - ls_expected_slippage_bps x),
      ln_entry_quality_ema := learn_ema (ln_entry_quality_ema s) (ls_entry_quality x),
      ln_duration_ema_ms := learn_ema (ln_duration_ema_ms s) (f_of_word (ls_duration_ms x))\<rparr>)"
    using assms by (simp add: learning_ok_def learning_sample_ok_def learn_ema_rng)
  then show ?thesis unfolding apply_sample_def Let_def
    using assms(2) by (intro learn_weights_ok learn_outcome_ok) (simp_all add: learning_sample_ok_def)
qed

interpretation learning: guarded_handler apply_sample learning_ok learning_sample_ok
  by unfold_locales (rule apply_sample_ok)

lemma learning_default_ok: "learning_ok learning_state_default"
proof -
  have t: "threshold_rng (lit 0.70)" unfolding threshold_rng_def
    by (rule conjI, simp) (simp add: rng_def f64_eval)
  show ?thesis unfolding learning_ok_def
  proof (intro conjI)
    show "threshold_rng (ln_threshold learning_state_default)"
      unfolding learning_state_default_def learning_state.simps by (rule t)
  qed (simp_all add: learning_state_default_def adaptive_weights_ok_def adaptive_weights_default_def weight_rng_def
      rng_def mag_def f64_eval one_f64_def zero_f64_def)
qed

section \<open>Consecutive losses\<close>

lemma losses_step: "ln_consecutive_losses (apply_sample s x) =
    (if sample_won x then 0 else sat_add (ln_consecutive_losses s) 1)"
  by (simp add: apply_sample_def Let_def learn_weights_def learn_outcome_def)

lemma losses_run:
  "length xs < 2 ^ 32 \<Longrightarrow>
    unat (ln_consecutive_losses (foldl apply_sample learning_state_default xs)) = length (takeWhile (\<lambda>x. \<not> sample_won x) (rev xs))"
proof (induction xs rule: rev_induct)
  case Nil
  show ?case by (simp add: learning_state_default_def)
next
  case (snoc x xs)
  let ?n = "ln_consecutive_losses (foldl apply_sample learning_state_default xs)"
  have IH: "unat ?n = length (takeWhile (\<lambda>x. \<not> sample_won x) (rev xs))" using snoc by simp
  also have "\<dots> \<le> length xs" by (metis length_rev length_takeWhile_le)
  finally have "unat ?n < 2 ^ 32 - 1" using snoc.prems by simp
  then have "?n < - 1" by (simp add: word_less_nat_alt unsigned_minus_1_eq_mask mask_eq_exp_minus_1)
  then have "unat (sat_add ?n 1) = unat ?n + 1" by (rule unat_sat_add_1)
  then show ?case using IH by (simp add: losses_step)
qed

section \<open>Properties\<close>

text \<open>Whatever trades are learned from, the state stays bounded: every weight and the scaling
  in [0.25, 2.5], the threshold between 0.66 and 0.86, the hit rate and the entry quality in
  [0, 1], the average slippage error and duration finite; and the number of consecutive losses
  is exactly the number of trades since the last one with a profit.\<close>
theorem learning_invariant:
  assumes "list_all learning_sample_ok xs" "length xs < 2 ^ 32"
  shows "let s = foldl apply_sample learning_state_default xs
    in learning_ok s \<and> unat (ln_consecutive_losses s) = length (takeWhile (\<lambda>x. \<not> 0 < ls_pnl x) (rev xs))"
  using learning.run_valid[OF learning_default_ok assms(1)] losses_run[OF assms(2)]
  by (simp add: sample_won_def Let_def)

lemma ex_learning_sample: "learning_sample_ok ex_sample"
  by (simp add: learning_sample_ok_def ex_sample_def rng_def mag_def)

theorem learning_invariant_witness:
  "learning_ok (foldl apply_sample learning_state_default [ex_sample, ex_sample])
   \<and> unat (ln_consecutive_losses (foldl apply_sample learning_state_default [ex_sample, ex_sample])) = 2"
proof -
  have "list_all learning_sample_ok [ex_sample, ex_sample]" using ex_learning_sample by simp
  from learning_invariant[OF this] show ?thesis by (simp add: ex_sample_def zero_f64_def less_f64_def Let_def)
qed

end
