(* ===== verification/Adaptive.thy ===== *)
theory Adaptive
  imports Classifier Reversal Learning Controller
begin

text \<open>
  The decision stage (\<open>adaptive_engine.rs\<close>): it scores each frame with the learned weights,
  the entry scoring and the snapshot of the edge validation, decides, and locks trading out
  after losses or a failed edge. The exponential function and the clock are parameters.
\<close>

section \<open>Scoring\<close>

fun flow_penalty :: "flow_signal \<Rightarrow> f64" where
  "flow_penalty StrongContinuation = 0"
| "flow_penalty WeakContinuation = lit 0.18"
| "flow_penalty Exhaustion = lit 0.55"
| "flow_penalty ReversalRisk = lit 1.05"

fun timing_penalty :: "timing_signal \<Rightarrow> f64" where
  "timing_penalty Optimal = 0"
| "timing_penalty TimingNeutral = lit 0.16"
| "timing_penalty TimingWait = lit 0.42"
| "timing_penalty Missed = lit 0.95"

definition infer_direction :: "microstructure_frame \<Rightarrow> direction" where
  "infer_direction frame =
     (let flow = ft_order_flow_delta (mf_features frame) + ft_micro_price_velocity (mf_features frame);
          book = ft_weighted_imbalance (mf_features frame) + ob_top_pressure (mf_book frame);
          combined = lit 0.60 * flow + lit 0.40 * book
      in if lit 0.20 < combined then Long else if combined < lit (- 0.20) then Short else Flat)"

definition market_from_frame :: "microstructure_frame \<Rightarrow> direction \<Rightarrow> market_event" where
  "market_from_frame frame direction =
     \<lparr>me_timestamp = mf_timestamp frame,
      me_price = (case mf_trade frame of Some trade \<Rightarrow> te_price trade
        | None \<Rightarrow> midpoint (ob_best_bid (mf_book frame)) (ob_best_ask (mf_book frame))),
      me_volume = (case mf_trade frame of Some trade \<Rightarrow> te_volume trade | None \<Rightarrow> 0),
      me_side = (case direction_side direction of Some s \<Rightarrow> s | None \<Rightarrow> Buy),
      me_bid_ask_imbalance = ob_imbalance (mf_book frame), me_spread = ob_spread (mf_book frame)\<rparr>"

definition event_from_direction :: "direction \<Rightarrow> f64 \<Rightarrow> f64 \<Rightarrow> event" where
  "event_from_direction direction score threshold =
     (if direction = Long \<and> threshold < score then PumpDetected
      else if direction = Short \<and> threshold < score then DumpDetected else EventNeutral)"

definition expected_duration :: "market_regime \<Rightarrow> f64 \<Rightarrow> f64 \<Rightarrow> u64" where
  "expected_duration regime confidence trade_frequency =
     (let base = (if lit 2.5 < mr_volatility regime then lit 180 else lit 450);
          speed = f_clamp (trade_frequency / lit 40) (lit 0.5) (lit 2.5)
      in f_as_u64 (f_clamp (base / speed * (lit 1.15 - confidence * lit 0.45)) (lit 80) (lit 1500)))"

definition estimate_slippage :: "microstructure_frame \<Rightarrow> direction \<Rightarrow> f64" where
  "estimate_slippage frame direction =
     (let top_qty = (case direction of
            Long \<Rightarrow> ob_ask_volume (mf_book frame)
          | Short \<Rightarrow> ob_bid_volume (mf_book frame)
          | Flat \<Rightarrow> f_min (ob_bid_volume (mf_book frame)) (ob_ask_volume (mf_book frame)));
          spread_bps = ob_spread (mf_book frame) * lit 10000;
          depth_penalty = f_min (1 / f_max top_qty (lit 0.1)) (lit 8)
      in f_clamp (spread_bps * lit 0.55 + depth_penalty + ft_liquidity_pull (mf_features frame) * lit 4)
           (lit 0.1) (lit 50))"

definition urgency_of :: "f64 \<Rightarrow> f64 \<Rightarrow> u64 \<Rightarrow> f64 \<Rightarrow> f64 \<Rightarrow> f64" where
  "urgency_of score threshold duration_ms burst adversarial =
     (let edge = f_max (score - threshold) 0
      in f_clamp (edge * lit 2 + f_min burst (lit 4) * lit 0.12 + lit 500 / f_of_word duration_ms * lit 0.20
           - adversarial * lit 0.35) 0 1)"

definition sigmoid :: "(f64 \<Rightarrow> f64) \<Rightarrow> f64 \<Rightarrow> f64" where
  "sigmoid exp_fn x =
     (if 0 \<le> x then 1 / (1 + exp_fn (- x)) else let z = exp_fn x in z / (1 + z))"

definition side_factor :: "direction \<Rightarrow> f64" where
  "side_factor direction = (case direction of Long \<Rightarrow> 1 | Short \<Rightarrow> - 1 | Flat \<Rightarrow> 0)"

definition adversarial_of :: "microstructure_frame \<Rightarrow> f64" where
  "adversarial_of frame =
     f_clamp (ft_spoofing_risk (mf_features frame) * lit 0.45 + ft_liquidity_pull (mf_features frame) * lit 0.35
       + ft_absorption (mf_features frame) * lit 0.20) 0 1"

definition liquidity_support :: "microstructure_frame \<Rightarrow> direction \<Rightarrow> f64" where
  "liquidity_support frame direction =
     f_clamp (ob_weighted_imbalance (mf_book frame) * side_factor direction
       - f_abs (f_min (ft_liquidity_shift (mf_features frame)) 0) * lit 0.35) (lit (- 1)) 1"

definition raw_score :: "adaptive_weights \<Rightarrow> microstructure_frame \<Rightarrow> direction \<Rightarrow> f64" where
  "raw_score w frame direction =
     aw_velocity w * ft_micro_price_velocity (mf_features frame) * side_factor direction
     + aw_orderflow w * ft_order_flow_delta (mf_features frame) * side_factor direction
     + aw_imbalance w * ft_weighted_imbalance (mf_features frame) * side_factor direction
     + aw_liquidity w * liquidity_support frame direction
     + lit 0.35 * ts_continuation (mf_tape frame)
     + lit 0.42 * fs_continuation_strength (mf_flow frame)
     + lit 0.28 * mt_timing_score (mf_timing frame)
     - aw_spread w * (mr_spread (mf_regime frame) / lit 10)
     - aw_adversarial w * adversarial_of frame
     - flow_penalty (fs_signal (mf_flow frame))
     - timing_penalty (mt_signal (mf_timing frame))"

fun edge_factor :: "edge_state \<Rightarrow> f64" where
  "edge_factor Valid = 1"
| "edge_factor Uncertain = lit 0.65"
| "edge_factor Invalid = 0"

fun crowd_factor :: "competition_state \<Rightarrow> f64" where
  "crowd_factor CompetitionNormal = 1"
| "crowd_factor Competitive = lit 0.75"
| "crowd_factor Saturated = 0"

definition edge_degrade :: "edge_snapshot \<Rightarrow> f64" where
  "edge_degrade edge = edge_factor (vs_edge_state edge) * crowd_factor (vs_competition_state edge)"

fun edge_surcharge :: "edge_state \<Rightarrow> f64" where
  "edge_surcharge Valid = 0"
| "edge_surcharge Uncertain = lit 0.05"
| "edge_surcharge Invalid = lit 0.18"

fun crowd_surcharge :: "competition_state \<Rightarrow> f64" where
  "crowd_surcharge CompetitionNormal = 0"
| "crowd_surcharge Competitive = lit 0.05"
| "crowd_surcharge Saturated = lit 0.18"

definition decision_threshold :: "learning_state \<Rightarrow> market_regime \<Rightarrow> edge_snapshot \<Rightarrow> f64" where
  "decision_threshold learning regime edge =
     f_clamp (learning_threshold learning regime + edge_surcharge (vs_edge_state edge)
       + crowd_surcharge (vs_competition_state edge)) (lit 0.62) (lit 0.94)"

text \<open>A classification that carries no probability is computed again.\<close>

definition frame_classifier :: "model_weights \<Rightarrow> microstructure_frame \<Rightarrow> reversal_classifier_snapshot" where
  "frame_classifier weights frame =
     (let c = mf_reversal_classifier frame
      in if 0 < rc_reversal_probability c \<or> 0 < rc_continuation_probability c \<or> 0 < rc_chop_probability c
         then c else classify_frame weights frame)"

section \<open>The decision\<close>

record decision_inputs =
  di_trading_disabled :: bool
  di_stale :: bool
  di_reversal_ready :: bool
  di_trigger_long_ready :: bool
  di_direction :: direction
  di_adversarial_risk :: f64
  di_score :: f64
  di_previous_score :: f64
  di_threshold :: f64
  di_confidence :: f64

definition decide :: "microstructure_frame \<Rightarrow> edge_snapshot \<Rightarrow> decision_inputs \<Rightarrow> decision" where
  "decide frame edge d =
     (if di_trading_disabled d \<or> vs_edge_state edge = Invalid \<or> vs_competition_state edge = Saturated then Ignore
      else if di_stale d then Ignore
      else if tr_should_exit (mf_trigger frame) then ExitD
      else if di_reversal_ready d then EnterSmall
      else if di_trigger_long_ready d \<and> di_direction d \<noteq> Short then EnterSmall
      else if mt_signal (mf_timing frame) = Missed then Ignore
      else if fs_signal (mf_flow frame) = ReversalRisk then ExitD
      else if mt_signal (mf_timing frame) \<noteq> Optimal \<and> fs_signal (mf_flow frame) \<noteq> StrongContinuation then Ignore
      else if lit 0.82 < di_adversarial_risk d then ExitD
      else if di_score d < lit 0.38 \<or> lit 0.18 < di_previous_score d - di_score d then ExitD
      else if di_threshold d < di_score d \<and> di_previous_score d + lit 0.025 < di_score d \<and> lit 0.40 < di_confidence d
        then ScaleIn
      else if di_threshold d < di_score d \<and> lit 0.35 < di_confidence d then EnterSmall
      else Ignore)"

definition market_direction :: "microstructure_frame \<Rightarrow> entry_scoring_snapshot \<Rightarrow> bool \<Rightarrow> direction \<Rightarrow> direction" where
  "market_direction frame entry trigger_long_ready direction =
     (if es_enter_short entry then Short
      else if es_enter_long entry \<and> rs_state (mf_reversal frame) \<noteq> Idle then rs_direction (mf_reversal frame)
      else if trigger_long_ready then Long else direction)"

definition final_direction :: "microstructure_frame \<Rightarrow> entry_scoring_snapshot \<Rightarrow> bool \<Rightarrow> direction \<Rightarrow> direction" where
  "final_direction frame entry trigger_long_ready direction =
     (if es_enter_short entry then Short
      else if es_enter_long entry \<and> rs_state (mf_reversal frame) \<noteq> Idle then rs_direction (mf_reversal frame)
      else if es_enter_long entry then Long
      else if trigger_long_ready then Long else direction)"

definition score_frame ::
  "(f64 \<Rightarrow> f64) \<Rightarrow> model_weights \<Rightarrow> config \<Rightarrow> learning_state \<Rightarrow> microstructure_frame \<Rightarrow> f64 \<Rightarrow> bool \<Rightarrow> edge_snapshot
    \<Rightarrow> u64 option \<Rightarrow> scored_decision" where
  "score_frame exp_fn mw cfg learning frame previous_score trading_disabled edge clock =
     (let classifier = frame_classifier mw frame;
          entry = evaluate_entry mw frame edge;
          direction = infer_direction frame;
          adversarial = adversarial_of frame;
          score = f_clamp (sigmoid exp_fn (raw_score (regime_weights learning (mf_regime frame)) frame direction)) 0 1;
          confidence = f_clamp (f_abs (score - lit 0.5) * lit 2 * (1 - adversarial) * edge_degrade edge) 0 1;
          threshold = decision_threshold learning (mf_regime frame) edge;
          data_latency_ms = data_age_ms clock (mf_timestamp frame);
          stale_or_slow = (mf_stale frame \<or> cf_max_data_age_ms cfg < data_latency_ms);
          duration_ms = expected_duration (mf_regime frame) confidence (ts_trade_frequency (mf_tape frame));
          urgency = urgency_of score threshold duration_ms (ts_volume_burst (mf_tape frame)) adversarial
            * edge_degrade edge * (1 - vs_competition_score edge * lit 0.35);
          trigger_long_ready = (es_enter_long entry \<and> rs_state (mf_reversal frame) = Idle \<and> rc_ready_long classifier);
          reversal_ready = (es_enter_long entry \<or> es_enter_short entry);
          decision = decide frame edge
            \<lparr>di_trading_disabled = trading_disabled, di_stale = stale_or_slow, di_reversal_ready = reversal_ready,
             di_trigger_long_ready = trigger_long_ready, di_direction = direction, di_adversarial_risk = adversarial,
             di_score = score, di_previous_score = previous_score, di_threshold = threshold, di_confidence = confidence\<rparr>
      in \<lparr>sd_market = market_from_frame frame (market_direction frame entry trigger_long_ready direction),
          sd_event = event_from_direction direction score threshold,
          sd_features = mf_features frame, sd_regime = mf_regime frame, sd_context = mf_context frame,
          sd_flow = mf_flow frame, sd_timing = mf_timing frame,
          sd_direction = final_direction frame entry trigger_long_ready direction,
          sd_confidence =
            (if reversal_ready
             then f_max confidence (f_max (f_max (es_confidence entry) (rs_confidence (mf_reversal frame))) (lit 0.68))
             else if trigger_long_ready then f_max confidence (f_max (es_confidence entry) (lit 0.72))
             else confidence),
          sd_continuation_prob = score,
          sd_reversal_prob = f_max (rc_reversal_probability classifier) ((1 - score) * (lit 0.5 + adversarial * lit 0.5)),
          sd_score =
            (if reversal_ready then f_clamp (score + es_score entry * lit 0.18 + es_expected_edge entry * lit 0.10) 0 1
             else if trigger_long_ready
               then f_clamp (score + es_score entry * lit 0.12 + tr_expected_edge (mf_trigger frame) * lit 0.08) 0 1
             else score),
          sd_decision = decision,
          sd_expected_duration_ms = duration_ms,
          sd_urgency =
            (if reversal_ready then f_max urgency (lit 0.62 + es_score entry * lit 0.10)
             else if trigger_long_ready then f_max urgency (lit 0.60 + es_score entry * lit 0.08)
             else urgency),
          sd_expected_slippage_bps = estimate_slippage frame direction,
          sd_data_latency_ms = data_latency_ms, sd_adversarial_risk = adversarial,
          sd_edge_state = vs_edge_state edge, sd_edge_regime = vs_edge_regime edge,
          sd_edge_reliability_score = vs_reliability edge, sd_edge_half_life_samples = vs_half_life_samples edge,
          sd_edge_capture_mean = vs_capture_mean edge, sd_negative_capture_streak = vs_negative_capture_streak edge,
          sd_execution_alpha_mean = vs_execution_alpha_mean edge,
          sd_markout_degradation_score = vs_adverse_selection_loss_mean edge + f_min (vs_execution_loss_mean edge) 1 * lit 0.25,
          sd_dynamic_size_multiplier = vs_position_size_multiplier edge,
          sd_competition_state = vs_competition_state edge, sd_competition_score = vs_competition_score edge,
          sd_trading_enabled = vs_trading_enabled edge, sd_fill_probability = LowFill\<rparr>)"

section \<open>The task\<close>

record adaptive_state =
  ad_learning :: learning_state
  ad_edge :: edge_engine
  ad_previous_score :: f64
  ad_trading_disabled :: bool
  ad_drawdown_pct :: f64
  ad_cumulative_pnl :: f64

definition adaptive_init :: adaptive_state where
  "adaptive_init = \<lparr>ad_learning = learning_state_default, ad_edge = edge_engine_default, ad_previous_score = lit 0.5,
     ad_trading_disabled = False, ad_drawdown_pct = 0, ad_cumulative_pnl = 0\<rparr>"

datatype adaptive_input =
    AdaptiveSample learning_sample
  | AdaptiveFeedback execution_control_feedback
  | AdaptiveFrame microstructure_frame "u64 option"

definition projected_drawdown :: "config \<Rightarrow> f64 \<Rightarrow> f64" where
  "projected_drawdown cfg pnl = f_clamp (f_max (- pnl) 0 / cf_capital cfg) 0 1"

text \<open>The lockout: what a sample does to the flag that disables trading.\<close>

definition lockout :: "config \<Rightarrow> bool \<Rightarrow> learning_state \<Rightarrow> edge_snapshot \<Rightarrow> bool" where
  "lockout cfg disabled learning snapshot =
     (if cf_max_consecutive_losses cfg \<le> ln_consecutive_losses learning \<or> vs_edge_state snapshot = Invalid
         \<or> \<not> vs_trading_enabled snapshot then True
      else if vs_edge_state snapshot = Valid then False else disabled)"

definition learn_trade :: "config \<Rightarrow> adaptive_state \<Rightarrow> learning_sample \<Rightarrow> adaptive_state option" where
  "learn_trade cfg s sample =
     (let pnl = ad_cumulative_pnl s + ls_pnl sample; drawdown = projected_drawdown cfg pnl
      in map_option (\<lambda>(edge, snapshot).
           let learning = apply_sample (ad_learning s) sample
           in s\<lparr>ad_edge := edge, ad_learning := learning, ad_cumulative_pnl := pnl, ad_drawdown_pct := drawdown,
                ad_trading_disabled := lockout cfg (ad_trading_disabled s) learning snapshot\<rparr>)
         (edge_observe (ad_edge s) sample drawdown))"

text \<open>
  One message of the task. \<open>None\<close> is the endless loop of the edge validation on NaN. The code
  takes samples before feedback before frames when several are ready; the order is that of the
  input.
\<close>

definition adaptive_step ::
  "(f64 \<Rightarrow> f64) \<Rightarrow> ((string \<rightharpoonup> regime_memory) \<Rightarrow> string list) \<Rightarrow> model_weights \<Rightarrow> config \<Rightarrow> adaptive_state
    \<Rightarrow> adaptive_input \<Rightarrow> (adaptive_state \<times> scored_decision option) option" where
  "adaptive_step exp_fn iter mw cfg s input = (case input of
     AdaptiveSample sample \<Rightarrow> map_option (\<lambda>s'. (s', None)) (learn_trade cfg s sample)
   | AdaptiveFeedback feedback \<Rightarrow>
       Some (s\<lparr>ad_edge := observe_failure (ad_edge s) (cb_reason feedback),
               ad_trading_disabled := (ad_trading_disabled s \<or> cb_aborted_due_to_decay feedback)\<rparr>, None)
   | AdaptiveFrame frame clock \<Rightarrow>
       map_option (\<lambda>snapshot.
           let decision = score_frame exp_fn mw cfg (ad_learning s) frame (ad_previous_score s) (ad_trading_disabled s)
                 snapshot clock
           in (s\<lparr>ad_previous_score := sd_score decision\<rparr>, Some decision))
         (edge_snapshot_of iter (ad_edge s) (ad_drawdown_pct s)))"

end
