(* ===== verification/AdaptiveFacts.thy ===== *)
theory AdaptiveFacts
  imports Adaptive
begin

text \<open>
  Properties of the decision stage: every decision on a frame in range is in range, and the
  lockout of trading.
\<close>

section \<open>What the exponential function promises\<close>

definition exp_like :: "(f64 \<Rightarrow> f64) \<Rightarrow> bool" where
  "exp_like exp_fn \<longleftrightarrow> (\<forall>x. x \<noteq> NaN \<longrightarrow> 0 \<le> exp_fn x) \<and> (\<forall>x. x < 0 \<longrightarrow> exp_fn x \<le> 1)"

lemma zero_le_zero [simp]: "0 \<le> (0 :: f64)"
  by (simp add: zero_f64_def)

lemma one_plus_pos:
  fixes e :: f64
  assumes "0 \<le> e"
  shows "0 < 1 + e"
proof (cases "fin e")
  case True
  then have "0 \<le> val e" using assms by (simp add: fin_le_iff)
  with True have "1 \<le> 1 + e" by (intro plus_nonneg_ge) simp_all
  moreover have "(0 :: f64) < 1" by (simp add: fin_less_iff)
  ultimately show ?thesis using f64_less_le_trans by blast
next
  case False
  then have "e = PInf" using assms by (cases e) (auto simp: zero_f64_def)
  then show ?thesis by (simp add: plus_f64_def one_f64_def zero_f64_def less_f64_def)
qed

lemma sigmoid_not_nan:
  assumes "exp_like exp_fn" "x \<noteq> NaN"
  shows "sigmoid exp_fn x \<noteq> NaN"
proof (cases "0 \<le> x")
  case True
  have "0 \<le> exp_fn (- x)" using assms by (simp add: exp_like_def)
  then show ?thesis using True by (simp add: sigmoid_def divide_pos_not_nan one_plus_pos)
next
  case False
  then have "x < 0" using assms(2) by (simp add: f64_less_iff_not_le)
  then have z: "0 \<le> exp_fn x" "exp_fn x \<le> 1" using assms by (auto simp: exp_like_def)
  then have "fin (exp_fn x)" by (cases "exp_fn x") (auto simp: zero_f64_def one_f64_def)
  then show ?thesis using False z by (simp add: sigmoid_def Let_def divide_pos_not_nan one_plus_pos)
qed

section \<open>The raw score is a number\<close>

definition weights_mag :: "adaptive_weights \<Rightarrow> bool" where
  "weights_mag w \<longleftrightarrow> mag 4 (aw_velocity w) \<and> mag 4 (aw_orderflow w) \<and> mag 4 (aw_imbalance w)
     \<and> mag 4 (aw_liquidity w) \<and> mag 4 (aw_spread w) \<and> mag 4 (aw_adversarial w)"

lemma regime_weights_mag:
  assumes "learning_ok s"
  shows "weights_mag (regime_weights s regime)"
proof -
  have a: "mag 4 x" "\<bar>q\<bar> \<le> 2 \<Longrightarrow> mag 4 (x * lit q)" "\<bar>q\<bar> \<le> 2 \<Longrightarrow> \<bar>r\<bar> \<le> 2 \<Longrightarrow> mag 4 (x * lit q * lit r)"
    if "weight_rng x" for x q r
  proof -
    have m: "mag 2 x" using that by (auto simp: weight_rng_def rng_def mag_def abs_le_iff)
    then show "mag 4 x" by (rule mag_mono) simp
    assume q: "\<bar>q\<bar> \<le> 2"
    have m3: "mag 3 (x * lit q)" using mag_times_lit[OF m, of q 1] q by simp
    then show "mag 4 (x * lit q)" by (rule mag_mono) simp
    assume "\<bar>r\<bar> \<le> 2"
    then show "mag 4 (x * lit q * lit r)" using mag_times_lit[OF m3, of r 1] by simp
  qed
  have w: "weight_rng (aw_velocity (ln_weights s))" "weight_rng (aw_orderflow (ln_weights s))" "weight_rng (aw_imbalance (ln_weights s))"
    "weight_rng (aw_liquidity (ln_weights s))" "weight_rng (aw_spread (ln_weights s))" "weight_rng (aw_adversarial (ln_weights s))"
    using assms by (auto simp: learning_ok_def adaptive_weights_ok_def)
  show ?thesis using a[OF w(1)] a[OF w(2)] a[OF w(3)] a[OF w(4)] a[OF w(5)] a[OF w(6)]
    by (simp add: weights_mag_def regime_weights_def Let_def)
qed

lemma adversarial_unit: "features_ok (mf_features f) \<Longrightarrow> rng 0 1 (adversarial_of f)"
  unfolding adversarial_of_def times_commute_f64[of _ "lit _"] features_ok_def
  by (intro f_clamp_unit rngD(4)[OF sum3_rng] unit_term) auto

lemma side_factor_mag [simp]: "mag 0 (side_factor d)"
  by (cases d) (simp_all add: side_factor_def)

lemma support_mag:
  assumes "frame_body_ok f"
  shows "mag 0 (liquidity_support f d)"
proof -
  have "mag (0 + 0) (ob_weighted_imbalance (mf_book f) * side_factor d)"
    using assms by (intro mag_times side_factor_mag) (auto simp: frame_body_ok_def prices_ok_def state_ok_def intro: rng_mag)
  moreover have "mag 3 (f_abs (f_min (ft_liquidity_shift (mf_features f)) 0))"
    using assms unfolding mag_f_abs by (intro mag_select) (auto simp: frame_body_ok_def features_ok_def intro: rng_mag)
  then have "mag (3 + 0) (f_abs (f_min (ft_liquidity_shift (mf_features f)) 0) * lit 0.35)" by (intro mag_times_lit) simp_all
  ultimately have "ob_weighted_imbalance (mf_book f) * side_factor d - f_abs (f_min (ft_liquidity_shift (mf_features f)) 0) * lit 0.35 \<noteq> NaN"
    by (intro minus_not_nan) (auto dest: mag_fin mag_not_nan)
  from f_clamp_rng[OF this, of "lit (- 1)" 1] show ?thesis
    by (simp add: liquidity_support_def lit_exact mag_rng)
qed

text \<open>A sum of eleven terms of bounded magnitude.\<close>

lemma mag_add11:
  "mag k x \<Longrightarrow> mag 11 y \<Longrightarrow> 11 \<le> k \<Longrightarrow> k < 1023 \<Longrightarrow> mag (Suc k) (x + y)"
  "mag k x \<Longrightarrow> mag 11 y \<Longrightarrow> 11 \<le> k \<Longrightarrow> k < 1023 \<Longrightarrow> mag (Suc k) (x - y)"
  using mag_plus[of k x y] mag_minus[of k x y] mag_mono[of 11 y k] by auto

lemma raw_score_mag:
  assumes "weights_mag w" "frame_body_ok f"
  shows "mag 21 (raw_score w f d)"
proof -
  have b: "rng (- 5) 5 (ft_micro_price_velocity (mf_features f))" "rng (- 5) 5 (ft_order_flow_delta (mf_features f))"
    "rng (- 1) 1 (ft_weighted_imbalance (mf_features f))" "rng 0 1 (ts_continuation (mf_tape f))"
    "rng 0 1 (fs_continuation_strength (mf_flow f))" "rng 0 1 (mt_timing_score (mf_timing f))" "rng 0 100 (mr_spread (mf_regime f))"
    "features_ok (mf_features f)"
    using assms(2) by (auto simp: frame_body_ok_def features_ok_def tape_values_ok_def tape_scores_ok_def flow_state_ok_def timing_state_ok_def)
  have w: "mag 4 (aw_velocity w)" "mag 4 (aw_orderflow w)" "mag 4 (aw_imbalance w)" "mag 4 (aw_liquidity w)" "mag 4 (aw_spread w)"
    "mag 4 (aw_adversarial w)" using assms(1) by (auto simp: weights_mag_def)
  have v: "mag 3 (ft_micro_price_velocity (mf_features f))" "mag 3 (ft_order_flow_delta (mf_features f))"
    "mag 3 (ft_weighted_imbalance (mf_features f))" using b(1-3) by (auto intro: rng_mag)
  have t: "mag 7 (x * y * side_factor d)" if "mag 4 x" "mag 3 y" for x y
    using mag_times[OF mag_times[OF that] side_factor_mag[of d]] by simp
  have l: "mag 4 (aw_liquidity w * liquidity_support f d)" using mag_times[OF w(4) support_mag[OF assms(2)]] by simp
  have u: "mag 0 (lit q * x)" if "rng 0 1 x" "0 \<le> q" "q \<le> 1" for q x using unit_term[OF that] by (rule rng_mag) simp_all
  have "mag 7 (mr_spread (mf_regime f) / lit 10)"
    using rng_mag[OF b(7), of 7] by (intro mag_divide) (simp_all add: lit_exact)
  from mag_times[OF w(5) this] have s: "mag 11 (aw_spread w * (mr_spread (mf_regime f) / lit 10))" by simp
  have a: "mag 4 (aw_adversarial w * adversarial_of f)"
    using mag_times[OF w(6) rng_mag[OF adversarial_unit[OF b(8)], of 0]] by simp
  have p: "mag 1 (flow_penalty x)" "mag 1 (timing_penalty y)" for x y
    by (cases x; simp add: mag_lit) (cases y; simp add: mag_lit)
  have up: "mag 11 x" if "mag k x" "k \<le> 11" for k x using that by (rule mag_mono)
  note terms = up[OF t[OF w(1) v(1)]] up[OF t[OF w(2) v(2)]] up[OF t[OF w(3) v(3)]] up[OF l] up[OF u[OF b(4)]] up[OF u[OF b(5)]]
    up[OF u[OF b(6)]] s up[OF a] up[OF p(1)] up[OF p(2)]
  have "mag (Suc (Suc (Suc (Suc (Suc (Suc (Suc (Suc (Suc (Suc 11)))))))))) (raw_score w f d)"
    unfolding raw_score_def by (intro mag_add11 terms) simp_all
  then show ?thesis by simp
qed

section \<open>Every decision is in range\<close>

lemma surcharges:
  "rng 0 1 (edge_factor e)" "rng 0 1 (edge_surcharge e)" "rng 0 1 (crowd_factor c)" "rng 0 1 (crowd_surcharge c)"
  by (cases e; simp add: rng_0_1 rng_lit)+ (cases c; simp add: rng_0_1 rng_lit)+

lemma mag_ops_not_nan:
  "mag k x \<Longrightarrow> mag k y \<Longrightarrow> k < 1023 \<Longrightarrow> x + y \<noteq> NaN"
  "mag k x \<Longrightarrow> mag l y \<Longrightarrow> k + l \<le> 1023 \<Longrightarrow> x * y \<noteq> NaN"
  by (auto dest: mag_plus mag_times mag_not_nan)

lemma unit_times: "rng 0 1 x \<Longrightarrow> rng 0 1 y \<Longrightarrow> rng 0 1 (x * y)"
  by (rule rng_times_nonneg[of 0 1 _ 0 1]) simp_all

lemma edge_degrade_unit: "rng 0 1 (edge_degrade edge)"
  unfolding edge_degrade_def by (intro unit_times surcharges)

lemma learning_threshold_unit:
  assumes "learning_ok s"
  shows "rng 0 1 (learning_threshold s regime)"
proof -
  have "mag 0 (ln_threshold s)" using assms by (auto simp: learning_ok_def threshold_rng_def rng_def mag_def f64_eval)
  moreover have "mag 0 (if lit 10 < mr_spread regime \<or> lit 3 < mr_volatility regime then lit 0.05 else 0)"
    by (simp add: mag_lit)
  ultimately have "mag 1 (ln_threshold s + (if lit 10 < mr_spread regime \<or> lit 3 < mr_volatility regime then lit 0.05 else 0))"
    using mag_plus[of 0] by simp
  from mag_mono[OF this, of 41] have "mag 41 (ln_threshold s + (if lit 10 < mr_spread regime \<or> lit 3 < mr_volatility regime then lit 0.05 else 0))"
    by simp
  moreover have "mag (41 + 0) (f_max (ln_slippage_error_bps s) 0 * lit 0.002)"
    using assms by (intro mag_times_lit mag_select) (simp_all add: learning_ok_def)
  ultimately have "ln_threshold s + (if lit 10 < mr_spread regime \<or> lit 3 < mr_volatility regime then lit 0.05 else 0)
      + f_max (ln_slippage_error_bps s) 0 * lit 0.002 \<noteq> NaN"
    by (intro mag_ops_not_nan(1)[of 41]) simp_all
  then have "rng (val (lit 0.62)) (val (lit 0.86)) (learning_threshold s regime)"
    unfolding learning_threshold_def Let_def by (intro f_clamp_rng) (simp_all add: f64_eval)
  then show ?thesis by (rule rng_weaken) (simp_all add: f64_eval)
qed

lemma decision_threshold_unit:
  assumes "learning_ok s"
  shows "rng 0 1 (decision_threshold s regime edge)"
proof -
  have "rng 0 3 (learning_threshold s regime + edge_surcharge (vs_edge_state edge) + crowd_surcharge (vs_competition_state edge))"
    using learning_threshold_unit[OF assms] surcharges by (intro sum3_rng)
  then have "rng (val (lit 0.62)) (val (lit 0.94)) (decision_threshold s regime edge)"
    unfolding decision_threshold_def by (intro f_clamp_rng rngD(4)) (simp_all add: f64_eval)
  then show ?thesis by (rule rng_weaken) (simp_all add: f64_eval)
qed

lemma f_as_u64_rng:
  assumes "rng (of_nat a) (of_nat b) x" "b < 2 ^ 64"
  shows "a \<le> unat (f_as_u64 x) \<and> unat (f_as_u64 x) \<le> b"
proof -
  have t: "int a \<le> rat_trunc (val x)" "rat_trunc (val x) \<le> int b"
    using assms(1) by (auto simp: rng_def rat_trunc_def le_floor_iff floor_le_iff)
  have "sat_int 0 (2 ^ 64 - 1) x = rat_trunc (val x)"
    using assms t by (cases x) (auto simp: sat_int_def rng_def rat_trunc_def)
  moreover have "int (unat (word_of_int (rat_trunc (val x)) :: 64 word)) = rat_trunc (val x)"
    using t assms(2) by (simp add: unsigned_of_int take_bit_int_eq_self)
  ultimately have "int (unat (f_as_u64 x)) = rat_trunc (val x)" by (simp only: f_as_u64_def)
  with t show ?thesis by linarith
qed

lemma expected_duration_rng:
  assumes "rng 0 1 c" "mag 64 frequency"
  shows "80 \<le> unat (expected_duration regime c frequency) \<and> unat (expected_duration regime c frequency) \<le> 1500"
proof -
  define speed where "speed = f_clamp (frequency / lit 40) (lit 0.5) (lit 2.5)"
  define base where "base = (if lit 2.5 < mr_volatility regime then lit 180 else lit 450)"
  have "frequency / lit 40 \<noteq> NaN" using assms(2) by (intro divide_lit_not_nan) (auto dest: mag_not_nan)
  from f_clamp_rng[OF this, of "lit 0.5" "lit 2.5"] have s: "rng (1 / 2) (5 / 2) speed"
    by (simp add: speed_def f64_eval)
  have b: "rng 180 450 base" by (simp add: base_def lit_exact rng_def)
  have q: "rng 0 900 (base / speed)" by (rule rng_divide_nonneg[OF b s]) simp_all
  have c: "rng 0 1 (c * lit 0.45)" using assms(1) by (intro unit_times rng_lit) simp_all
  have "rng 0 2 (lit 1.15)" by (rule rng_lit) simp_all
  then have "rng (- 1) 2 (lit 1.15 - c * lit 0.45)" using c by (rule rng_minus) simp_all
  then have "mag 1 (lit 1.15 - c * lit 0.45)" by (rule rng_mag) simp_all
  moreover have "mag 10 (base / speed)" using q by (rule rng_mag) simp_all
  ultimately have "base / speed * (lit 1.15 - c * lit 0.45) \<noteq> NaN" by (intro mag_ops_not_nan(2)[of 10 _ 1]) simp_all
  from f_clamp_rng[OF this, of "lit 80" "lit 1500"]
  have "rng (of_nat 80) (of_nat 1500) (f_clamp (base / speed * (lit 1.15 - c * lit 0.45)) (lit 80) (lit 1500))"
    by (simp add: lit_exact)
  from f_as_u64_rng[OF this] show ?thesis
    unfolding expected_duration_def Let_def speed_def[symmetric] base_def[symmetric] by simp
qed

lemma f_of_word_small: "unat w \<le> 2 ^ 53 \<Longrightarrow> f_of_word (w :: u64) = Fin (of_nat (unat w))"
  by (simp add: f_of_word_def f_of_nat_exact)

lemma urgency_of_unit:
  assumes "rng 0 1 score" "rng 0 1 threshold" "80 \<le> unat d" "unat d \<le> 1500" "rng 0 10 burst" "rng 0 1 adversarial"
  shows "rng 0 1 (urgency_of score threshold d burst adversarial)"
proof -
  have "rng (- 1) 1 (score - threshold)" by (rule rng_minus[OF assms(1,2)]) simp_all
  from rng_mag[OF this, of 0] have "mag 0 (f_max (score - threshold) 0)" by (intro mag_select) simp_all
  then have e: "mag 4 (f_max (score - threshold) 0 * lit 2)" using mag_times_lit[of 0 _ 2 1] mag_mono[of 1 _ 4] by simp
  have "mag 4 (f_min burst (lit 4))" using rng_mag[OF assms(5), of 4] by (intro mag_select) (simp_all add: mag_lit)
  then have b: "mag 4 (f_min burst (lit 4) * lit 0.12)" by (intro mag_scale mag_lit) simp_all
  have "(of_nat 80 :: rat) \<le> of_nat (unat d)" using assms(3) by (simp only: of_nat_le_iff)
  then have "f_of_word d = Fin (of_nat (unat d))" "(80 :: rat) \<le> of_nat (unat d)"
    using assms(4) by (simp_all add: f_of_word_small)
  then have "rng 0 500 (lit 500 / f_of_word d)"
    by (intro rng_divide_nonneg[of 500 500 _ 1 "of_nat (unat d)"]) (simp_all add: lit_exact rng_def)
  then have "mag 9 (lit 500 / f_of_word d)" by (rule rng_mag) simp_all
  then have t: "mag 9 (lit 500 / f_of_word d * lit 0.20)" by (intro mag_scale mag_lit) simp_all
  have a: "mag 10 (adversarial * lit 0.35)"
    using unit_term[OF assms(6), of "0.35"] unfolding times_commute_f64[of "lit _"] by (intro rng_mag[of 0 1]) simp_all
  have "mag 9 (f_max (score - threshold) 0 * lit 2 + f_min burst (lit 4) * lit 0.12)"
    using mag_plus[OF e b] mag_mono[of 5 _ 9] by simp
  then have "mag 10 (f_max (score - threshold) 0 * lit 2 + f_min burst (lit 4) * lit 0.12 + lit 500 / f_of_word d * lit 0.20)"
    using mag_plus[of 9] t by simp
  from mag_minus[OF this a] show ?thesis unfolding urgency_of_def Let_def by (intro f_clamp_unit mag_not_nan) simp
qed

lemma slippage_rng:
  assumes "frame_body_ok f"
  shows "rng 0 50 (estimate_slippage f d)"
proof -
  define top where "top = (case d of Long \<Rightarrow> ob_ask_volume (mf_book f) | Short \<Rightarrow> ob_bid_volume (mf_book f)
    | Flat \<Rightarrow> f_min (ob_bid_volume (mf_book f)) (ob_ask_volume (mf_book f)))"
  have v: "fin (ob_ask_volume (mf_book f))" "fin (ob_bid_volume (mf_book f))"
    using assms by (auto simp: frame_body_ok_def prices_ok_def state_ok_def rngD)
  then have "fin top" by (cases d) (simp_all add: top_def fin_f_max)
  moreover have "fin (lit 0.1)" "0 < val (lit 0.1)" by (simp_all add: f64_eval)
  ultimately have m: "fin (f_max top (lit 0.1))" "0 < val (f_max top (lit 0.1))" using f_max_positive[of top "lit 0.1"] by auto
  have "0 \<le> 1 / f_max top (lit 0.1)" using m by (intro divide_nonneg) (simp_all add: fin_le_iff)
  then have "rng 0 8 (f_min (1 / f_max top (lit 0.1)) (lit 8))"
    by (cases "1 / f_max top (lit 0.1)") (auto simp: f_min_def rng_def lit_exact fin_less_iff fin_le_iff zero_f64_def less_f64_def)
  then have p: "mag 131 (f_min (1 / f_max top (lit 0.1)) (lit 8))" by (rule rng_mag) simp_all
  have "mag 117 (ob_spread (mf_book f))" using assms by (simp add: frame_body_ok_def prices_ok_def)
  from mag_times_lit[OF this, of 10000 14] have "mag 131 (ob_spread (mf_book f) * lit 10000)" by simp
  from mag_times_lit[OF this, of "0.55" 0] have s: "mag 131 (ob_spread (mf_book f) * lit 10000 * lit 0.55)" by simp
  have "mag 0 (ft_liquidity_pull (mf_features f))" using assms by (auto simp: frame_body_ok_def features_ok_def intro: rng_mag)
  from mag_mono[OF mag_times_lit[OF this, of 4 2], of 132] have "mag 132 (ft_liquidity_pull (mf_features f) * lit 4)" by simp
  then have n: "ob_spread (mf_book f) * lit 10000 * lit 0.55 + f_min (1 / f_max top (lit 0.1)) (lit 8)
      + ft_liquidity_pull (mf_features f) * lit 4 \<noteq> NaN"
    using mag_plus[OF s p] by (intro mag_ops_not_nan(1)[of 132]) simp_all
  have "rng (val (lit 0.1)) (val (lit 50)) (estimate_slippage f d)"
    unfolding estimate_slippage_def Let_def top_def[symmetric] by (rule f_clamp_rng[OF n]) (simp_all add: f64_eval)
  then show ?thesis by (rule rng_weaken) (simp_all add: f64_eval)
qed

end
