(* ===== verification/Decisions.thy ===== *)
theory Decisions
  imports AdaptiveFacts
begin

text \<open>
  What the decision stage promises: every decision on a frame in range is in range, the gates that
  keep the program out of the market, the lockout after losses, and the chain of tasks from a
  market update to its decision.
\<close>

section \<open>A decision in range\<close>

definition decision_ok :: "scored_decision \<Rightarrow> bool" where
  "decision_ok d \<longleftrightarrow> rng 0 1 (sd_score d) \<and> rng 0 1 (sd_confidence d) \<and> rng 0 1 (sd_urgency d)
     \<and> rng 0 1 (sd_continuation_prob d) \<and> rng 0 1 (sd_reversal_prob d) \<and> rng 0 1 (sd_adversarial_risk d)
     \<and> rng 0 50 (sd_expected_slippage_bps d)
     \<and> 80 \<le> unat (sd_expected_duration_ms d) \<and> unat (sd_expected_duration_ms d) \<le> 1500
     \<and> rng 0 1 (sd_edge_reliability_score d) \<and> rng 0 1 (sd_competition_score d)
     \<and> rng 0 (val (lit (11 / 10))) (sd_dynamic_size_multiplier d)
     \<and> sd_trading_enabled d = (sd_edge_state d \<noteq> Invalid \<and> sd_competition_state d \<noteq> Saturated)
     \<and> (\<not> sd_trading_enabled d \<longrightarrow> feq (sd_dynamic_size_multiplier d) 0 \<and> sd_decision d = Ignore)"

lemma rng_plus_unit: "rng 0 (3 / 4) x \<Longrightarrow> rng 0 (1 / 4) y \<Longrightarrow> rng 0 1 (x + y)"
  by (rule rng_plus[of 0 "3 / 4" _ 0 "1 / 4"]) simp_all

lemma unit_quarter: "rng 0 1 x \<Longrightarrow> 0 \<le> q \<Longrightarrow> q \<le> 1 / 4 \<Longrightarrow> rng 0 (1 / 4) (x * lit q)"
  using bound_dyadic[of 1 2] by (intro rng_times_nonneg[of 0 1 x 0 "1 / 4"] rng_lit) simp_all

lemma lit_half: "rng (1 / 2) (1 / 2) (lit 0.5)"
  using bound_dyadic[of 1 1] by (intro rng_lit) simp_all

lemma score_unit:
  assumes "exp_like exp_fn" "learning_ok s" "frame_body_ok f"
  shows "rng 0 1 (f_clamp (sigmoid exp_fn (raw_score (regime_weights s regime) f d)) 0 1)"
  by (intro f_clamp_unit sigmoid_not_nan assms(1) mag_not_nan[OF raw_score_mag[OF regime_weights_mag[OF assms(2)] assms(3)]])

lemma confidence_unit:
  assumes "rng 0 1 score" "rng 0 1 adversarial" "rng 0 1 degrade"
  shows "rng 0 1 (f_clamp (f_abs (score - lit 0.5) * lit 2 * (1 - adversarial) * degrade) 0 1)"
proof -
  have "rng (- 1) 1 (score - lit 0.5)" by (rule rng_minus[OF assms(1) lit_half]) simp_all
  from rng_mag[OF this, of 0] have "mag 0 (f_abs (score - lit 0.5))" by (simp add: mag_f_abs)
  from mag_times_lit[OF this, of 2 1] have m: "mag 1 (f_abs (score - lit 0.5) * lit 2)" by simp
  have "mag 0 (1 - adversarial)" "mag 0 degrade"
    using rng_mag[OF one_minus_unit[OF assms(2)], of 0] rng_mag[OF assms(3), of 0] by simp_all
  from mag_scale[OF mag_scale[OF m this(1)] this(2)] have "f_abs (score - lit 0.5) * lit 2 * (1 - adversarial) * degrade \<noteq> NaN"
    by (auto dest: mag_not_nan)
  then show ?thesis by (rule f_clamp_unit)
qed

lemma frame_classifier_ok:
  assumes "weights_ok mw" "signals_ok f" "classifier_ok (mf_reversal_classifier f)"
  shows "classifier_ok (frame_classifier mw f)"
  using assms classify_frame_ok[OF assms(1), of f] by (simp add: frame_classifier_def Let_def signals_ok_def)

lemma reversal_prob_unit:
  assumes "rng 0 1 p" "rng 0 1 score" "rng 0 1 adversarial"
  shows "rng 0 1 (f_max p ((1 - score) * (lit 0.5 + adversarial * lit 0.5)))"
proof -
  have "rng 0 (1 / 2) (adversarial * lit 0.5)"
    using bound_dyadic[of 1 1] by (intro rng_times_nonneg[OF assms(3) lit_half]) simp_all
  then have "rng 0 1 (lit 0.5 + adversarial * lit 0.5)" by (rule rng_plus[OF lit_half]) simp_all
  from rng_f_max[OF assms(1) unit_times[OF one_minus_unit[OF assms(2)] this]] show ?thesis by simp
qed

lemma boosted_unit:
  assumes "rng 0 1 score" "0 \<le> a" "0 \<le> b" "fin (lit p)" "fin (lit q)" "0 < val (lit p)" "0 < val (lit q)"
  shows "rng 0 1 (f_clamp (score + a * lit p + b * lit q) 0 1)"
  using assms by (intro f_clamp_unit_nonneg plus_nonneg times_nonneg(2)) (simp_all add: rng_iff_le zero_f64_def)

lemma decide_closed:
  "\<not> (vs_edge_state edge \<noteq> Invalid \<and> vs_competition_state edge \<noteq> Saturated) \<Longrightarrow> decide f edge d = Ignore"
  by (simp add: decide_def)

lemma urgency_unit:
  assumes "rng 0 1 u" "rng 0 1 degrade" "rng 0 1 c"
  shows "rng 0 1 (u * degrade * (1 - c * lit 0.35))"
  by (intro unit_times one_minus_unit assms rng_lit) simp_all

lemma score_frame_ok:
  assumes "exp_like exp_fn" "weights_ok mw" "learning_ok s" "signals_ok f" "classifier_ok (mf_reversal_classifier f)"
    "snapshot_ok edge"
  shows "decision_ok (score_frame exp_fn mw cfg s f p dis edge clock)"
proof -
  note b = assms(4)[unfolded signals_ok_def]
  have body: "frame_body_ok f" using b by simp
  have feats: "features_ok (mf_features f)" and freq: "mag 64 (ts_trade_frequency (mf_tape f))"
    and burst: "rng 0 10 (ts_volume_burst (mf_tape f))"
    using body by (auto simp: frame_body_ok_def tape_values_ok_def tape_scores_ok_def)
  note entry = evaluate_entry_ok[OF assms(2,4,5,6), unfolded entry_ok_def]
  note cl = frame_classifier_ok[OF assms(2,4,5), unfolded classifier_ok_def]
  note sn = assms(6)[unfolded snapshot_ok_def]
  define entry where "entry = evaluate_entry mw f edge"
  define a where "a = adversarial_of f"
  define sc where "sc = f_clamp (sigmoid exp_fn (raw_score (regime_weights s (mf_regime f)) f (infer_direction f))) 0 1"
  define g where "g = edge_degrade edge"
  define c where "c = f_clamp (f_abs (sc - lit 0.5) * lit 2 * (1 - a) * g) 0 1"
  define dur where "dur = expected_duration (mf_regime f) c (ts_trade_frequency (mf_tape f))"
  define u where "u = urgency_of sc (decision_threshold s (mf_regime f) edge) dur (ts_volume_burst (mf_tape f)) a * g
    * (1 - vs_competition_score edge * lit 0.35)"
  have a: "rng 0 1 a" unfolding a_def by (rule adversarial_unit[OF feats])
  have sc: "rng 0 1 sc" unfolding sc_def by (rule score_unit[OF assms(1,3) body])
  have g: "rng 0 1 g" unfolding g_def by (rule edge_degrade_unit)
  have c: "rng 0 1 c" unfolding c_def by (rule confidence_unit[OF sc a g])
  have dur: "80 \<le> unat dur" "unat dur \<le> 1500" using expected_duration_rng[OF c freq] by (simp_all add: dur_def)
  have u: "rng 0 1 u" unfolding u_def
    using urgency_of_unit[OF sc decision_threshold_unit[OF assms(3)] dur burst a] g sn by (intro urgency_unit) simp_all
  have e: "rng 0 1 (es_score entry)" "rng 0 1 (es_confidence entry)" "0 \<le> es_score entry" "0 \<le> es_expected_edge entry"
    using entry by (auto simp: entry_def rng_iff_le zero_f64_def)
  have l: "fin (lit 0.18)" "fin (lit 0.10)" "fin (lit 0.12)" "fin (lit 0.08)"
    "0 < val (lit 0.18)" "0 < val (lit 0.10)" "0 < val (lit 0.12)" "0 < val (lit 0.08)" by (simp_all add: f64_eval)
  have boost: "rng 0 1 (f_clamp (sc + es_score entry * lit 0.18 + es_expected_edge entry * lit 0.10) 0 1)"
    "rng 0 1 (f_clamp (sc + es_score entry * lit 0.12 + tr_expected_edge (mf_trigger f) * lit 0.08) 0 1)"
    using boosted_unit[OF sc e(3,4) l(1,2,5,6)] boosted_unit[OF sc e(3) _ l(3,4,7,8)] b by simp_all
  have m: "rng 0 1 (f_max x y)" if "rng 0 1 x" "rng 0 1 y" for x y using rng_f_max[OF that] by simp
  have ll: "rng 0 1 (lit 0.68)" "rng 0 1 (lit 0.72)" by (rule rng_lit; simp)+
  have conf: "rng 0 1 (f_max c (f_max (f_max (es_confidence entry) (rs_confidence (mf_reversal f))) (lit 0.68)))"
    "rng 0 1 (f_max c (f_max (es_confidence entry) (lit 0.72)))"
    using b by (intro m c e(2) ll; simp)+
  have urg: "rng 0 1 (f_max u (lit 0.62 + es_score entry * lit 0.10))" "rng 0 1 (f_max u (lit 0.60 + es_score entry * lit 0.08))"
    using bound_dyadic[of 3 2] by (intro m u rng_plus_unit unit_quarter e(1) rng_lit; simp)+
  have rev: "rng 0 1 (f_max (rc_reversal_probability (frame_classifier mw f)) ((1 - sc) * (lit 0.5 + a * lit 0.5)))"
    using cl by (intro reversal_prob_unit sc a) simp
  note facts = a sc c dur u boost conf urg rev slippage_rng[OF body]
  show ?thesis
    unfolding decision_ok_def score_frame_def Let_def entry_def[symmetric] a_def[symmetric] sc_def[symmetric] g_def[symmetric]
      c_def[symmetric] dur_def[symmetric] u_def[symmetric] scored_decision.select_convs
    using sn by (intro conjI impI; ((split if_split)+)?; simp only: facts if_True if_False simp_thms decide_closed)
qed

section \<open>The task\<close>

text \<open>The loop of the task: it answers every frame with a decision.\<close>

definition adaptive_run ::
  "(f64 \<Rightarrow> f64) \<Rightarrow> ((string \<rightharpoonup> regime_memory) \<Rightarrow> string list) \<Rightarrow> model_weights \<Rightarrow> config \<Rightarrow> adaptive_state
    \<Rightarrow> adaptive_input list \<Rightarrow> (adaptive_state \<times> scored_decision option list) option" where
  "adaptive_run exp_fn iter mw cfg = run_partial (adaptive_step exp_fn iter mw cfg)"

definition adaptive_ok :: "adaptive_state \<Rightarrow> bool" where
  "adaptive_ok s \<longleftrightarrow> learning_ok (ad_learning s) \<and> engine_ok (ad_edge s) \<and> ad_drawdown_pct s \<noteq> NaN"

definition adaptive_input_ok :: "adaptive_input \<Rightarrow> bool" where
  "adaptive_input_ok i = (case i of
     AdaptiveSample x \<Rightarrow> sample_ok x \<and> learning_sample_ok x
   | AdaptiveFeedback b \<Rightarrow> True
   | AdaptiveFrame f clock \<Rightarrow> signals_ok f \<and> classifier_ok (mf_reversal_classifier f))"

definition answer_ok :: "scored_decision option \<Rightarrow> bool" where
  "answer_ok d = (case d of None \<Rightarrow> True | Some d \<Rightarrow> decision_ok d)"

definition decision_setting :: "(f64 \<Rightarrow> f64) \<Rightarrow> ((string \<rightharpoonup> regime_memory) \<Rightarrow> string list) \<Rightarrow> model_weights \<Rightarrow> config \<Rightarrow> bool" where
  "decision_setting exp_fn iter mw cfg \<longleftrightarrow> exp_like exp_fn \<and> weights_ok mw \<and> fin (cf_capital cfg) \<and> 0 < val (cf_capital cfg)
     \<and> (\<forall>m. dom m \<subseteq> set regime_keys \<longrightarrow> lists_keys iter m)"

lemma projected_drawdown_unit: "fin (cf_capital cfg) \<Longrightarrow> 0 < val (cf_capital cfg) \<Longrightarrow> rng 0 1 (projected_drawdown cfg p)"
  unfolding projected_drawdown_def by (intro f_clamp_unit_nonneg divide_nonneg f_max_zero_nonneg)

lemma edge_observe_returns:
  assumes "engine_ok v" "sample_ok x" "d \<noteq> NaN"
  shows "\<exists>v' s. edge_observe v x d = Some (v', s) \<and> engine_ok v' \<and> snapshot_ok s"
proof -
  note o = observed_ok[OF assms(1,2)] and m = observed_memory_ok[OF assms(1,2)]
  obtain ks where k: "ks_statistic (vl_expected_edges (observed v x)) (vl_realized_markouts (observed v x)) = Some ks" "rng 0 1 ks"
    using engine_ks[OF o] by blast
  show ?thesis using engine_ok_memory[OF o regime_bucket_key m] build_snapshot_ok[OF o k(2) assms(3) m]
    by (simp add: edge_observe_eq k)
qed

lemma edge_snapshot_returns:
  assumes "engine_ok v" "d \<noteq> NaN" "lists_keys iter (vl_regime_memory v)"
  shows "\<exists>s. edge_snapshot_of iter v d = Some s \<and> snapshot_ok s"
proof -
  obtain ks where k: "ks_statistic (vl_expected_edges v) (vl_realized_markouts v) = Some ks" "rng 0 1 ks"
    using engine_ks[OF assms(1)] by blast
  show ?thesis using build_snapshot_ok[OF assms(1) k(2) assms(2) busiest_memory_ok[OF assms(1,3)]]
    by (simp add: edge_snapshot_of_def k)
qed

lemma adaptive_sample_step:
  assumes "decision_setting exp_fn iter mw cfg" "adaptive_ok s" "sample_ok x" "learning_sample_ok x"
  shows "\<exists>s'. learn_trade cfg s x = Some s' \<and> adaptive_ok s' \<and> ad_learning s' = apply_sample (ad_learning s) x
    \<and> (cf_max_consecutive_losses cfg \<le> ln_consecutive_losses (ad_learning s') \<longrightarrow> ad_trading_disabled s')"
proof -
  define d where "d = projected_drawdown cfg (ad_cumulative_pnl s + ls_pnl x)"
  have d: "d \<noteq> NaN" unfolding d_def
    using assms(1) by (intro rngD(4)[OF projected_drawdown_unit]) (simp_all add: decision_setting_def)
  obtain v' snap where o: "edge_observe (ad_edge s) x d = Some (v', snap)" "engine_ok v'"
    using edge_observe_returns[OF _ assms(3) d, of "ad_edge s"] assms(2) by (auto simp: adaptive_ok_def)
  then show ?thesis using assms(2,4) d
    by (simp add: learn_trade_def Let_def d_def[symmetric] adaptive_ok_def apply_sample_ok lockout_def)
qed

lemma adaptive_step_ok:
  assumes "decision_setting exp_fn iter mw cfg" "adaptive_ok s" "adaptive_input_ok i"
  shows "\<exists>s' out. adaptive_step exp_fn iter mw cfg s i = Some (s', out) \<and> adaptive_ok s' \<and> answer_ok out"
proof (cases i)
  case (AdaptiveSample x)
  then show ?thesis using adaptive_sample_step[OF assms(1,2), of x] assms(3)
    by (auto simp: adaptive_input_ok_def adaptive_step_def answer_ok_def)
next
  case (AdaptiveFeedback b)
  then show ?thesis using assms(2)
    by (simp add: adaptive_step_def answer_ok_def adaptive_ok_def observe_failure_ok)
next
  case (AdaptiveFrame f clock)
  have "lists_keys iter (vl_regime_memory (ad_edge s))"
    using assms(1,2) by (simp add: decision_setting_def adaptive_ok_def engine_ok_def)
  then obtain snap where k: "edge_snapshot_of iter (ad_edge s) (ad_drawdown_pct s) = Some snap" "snapshot_ok snap"
    using edge_snapshot_returns[of "ad_edge s" "ad_drawdown_pct s" iter] assms(2) by (auto simp: adaptive_ok_def)
  have "decision_ok (score_frame exp_fn mw cfg (ad_learning s) f p t snap clock)" for p t
    using assms AdaptiveFrame k(2) by (intro score_frame_ok) (auto simp: decision_setting_def adaptive_ok_def adaptive_input_ok_def)
  then show ?thesis using AdaptiveFrame k(1) assms(2)
    by (simp add: adaptive_step_def answer_ok_def adaptive_ok_def Let_def)
qed

lemma adaptive_init_ok: "adaptive_ok adaptive_init"
  using engine_ok_new[of 128] by (simp add: adaptive_ok_def adaptive_init_def learning_default_ok edge_engine_default_def)

interpretation adaptive: returning_handler "adaptive_step exp_fn iter mw cfg"
    "\<lambda>s. decision_setting exp_fn iter mw cfg \<and> adaptive_ok s" adaptive_input_ok answer_ok for exp_fn iter mw cfg
  using adaptive_step_ok by unfold_locales blast

section \<open>The lockout\<close>

definition is_sample :: "adaptive_input \<Rightarrow> bool" where
  "is_sample i = (case i of AdaptiveSample x \<Rightarrow> True | _ \<Rightarrow> False)"

definition ignored :: "scored_decision option \<Rightarrow> bool" where
  "ignored d = (case d of None \<Rightarrow> True | Some d \<Rightarrow> sd_decision d = Ignore)"

lemma decide_disabled: "di_trading_disabled d \<Longrightarrow> decide f edge d = Ignore"
  by (simp add: decide_def)

lemma disabled_step:
  assumes "adaptive_step exp_fn iter mw cfg s i = Some (s', out)" "ad_trading_disabled s" "\<not> is_sample i"
  shows "ad_trading_disabled s' \<and> ignored out"
  using assms by (cases i) (auto simp: adaptive_step_def is_sample_def ignored_def Let_def score_frame_def decide_disabled)

lemma disabled_run:
  "run_partial (adaptive_step exp_fn iter mw cfg) s is = Some (s', outs) \<Longrightarrow> ad_trading_disabled s \<Longrightarrow>
    list_all (\<lambda>i. \<not> is_sample i) is \<Longrightarrow> ad_trading_disabled s' \<and> list_all ignored outs"
proof (induction "is" arbitrary: s outs)
  case (Cons i "is")
  then obtain s1 out rest where a: "adaptive_step exp_fn iter mw cfg s i = Some (s1, out)"
    "run_partial (adaptive_step exp_fn iter mw cfg) s1 is = Some (s', rest)" "outs = out # rest"
    by (auto split: option.splits)
  then show ?case using disabled_step[OF a(1)] Cons.IH[OF a(2)] Cons.prems by auto
qed simp

fun samples_of :: "adaptive_input list \<Rightarrow> learning_sample list" where
  "samples_of [] = []"
| "samples_of (AdaptiveSample x # is) = x # samples_of is"
| "samples_of (_ # is) = samples_of is"

lemma samples_of_append [simp]: "samples_of (xs @ ys) = samples_of xs @ samples_of ys"
  by (induction xs rule: samples_of.induct) simp_all

text \<open>The learning state is the samples' alone, and the flag is on as long as the losses last.\<close>

definition locked_out :: "config \<Rightarrow> learning_sample list \<Rightarrow> adaptive_state \<Rightarrow> bool" where
  "locked_out cfg xs s \<longleftrightarrow> ad_learning s = foldl apply_sample learning_state_default xs
     \<and> (xs \<noteq> [] \<and> cf_max_consecutive_losses cfg \<le> ln_consecutive_losses (ad_learning s) \<longrightarrow> ad_trading_disabled s)"

lemma locked_out_step:
  assumes "decision_setting exp_fn iter mw cfg" "adaptive_ok s" "adaptive_input_ok i" "locked_out cfg xs s"
    "adaptive_step exp_fn iter mw cfg s i = Some (s', out)"
  shows "locked_out cfg (xs @ samples_of [i]) s'"
proof (cases i)
  case (AdaptiveSample x)
  then show ?thesis using adaptive_sample_step[OF assms(1,2), of x] assms(3-5)
    by (auto simp: adaptive_step_def locked_out_def adaptive_input_ok_def)
qed (use assms(4,5) in \<open>auto simp: adaptive_step_def locked_out_def Let_def\<close>)

lemma locked_out_run:
  assumes "decision_setting exp_fn iter mw cfg" "list_all adaptive_input_ok is" "adaptive_ok s" "locked_out cfg xs s"
    "run_partial (adaptive_step exp_fn iter mw cfg) s is = Some (s', outs)"
  shows "locked_out cfg (xs @ samples_of is) s'"
  using assms(2-)
proof (induction "is" arbitrary: s xs outs)
  case (Cons i "is")
  then obtain s1 out rest where a: "adaptive_step exp_fn iter mw cfg s i = Some (s1, out)"
    "run_partial (adaptive_step exp_fn iter mw cfg) s1 is = Some (s', rest)"
    by (auto split: option.splits)
  have i: "adaptive_input_ok i" "list_all adaptive_input_ok is" using Cons.prems by auto
  have "adaptive_ok s1" using adaptive_step_ok[OF assms(1) Cons.prems(2) i(1)] a(1) by auto
  from Cons.IH[OF i(2) this locked_out_step[OF assms(1) Cons.prems(2) i(1) Cons.prems(3) a(1)] a(2)]
  have "locked_out cfg (xs @ samples_of [i] @ samples_of is) s'" by simp
  then show ?case by (simp only: samples_of_append[symmetric] append.simps)
qed simp

text \<open>An entry that passes the gates is entered.\<close>

lemma entry_entered:
  assumes "es_enter_long (evaluate_entry mw f edge) \<or> es_enter_short (evaluate_entry mw f edge)"
    "\<not> dis" "vs_edge_state edge \<noteq> Invalid" "vs_competition_state edge \<noteq> Saturated" "\<not> mf_stale f"
    "data_age_ms clock (mf_timestamp f) \<le> cf_max_data_age_ms cfg" "\<not> tr_should_exit (mf_trigger f)"
  shows "sd_decision (score_frame exp_fn mw cfg s f p dis edge clock) = EnterSmall"
  using assms by (simp add: score_frame_def Let_def decide_def)

section \<open>Properties\<close>

text \<open>The decision stage always answers: from the start, on any sequence of samples, feedback and
  frames whose values are in range, no call hangs, the learning state and the edge engine keep
  their invariants, and every decision has all its scores in [0, 1], a slippage of at most 50
  basis points, a duration of 80 to 1500 milliseconds, and is Ignore with a size of zero when the
  edge is invalid or the market saturated.\<close>
theorem decision_stage_sound:
  assumes "decision_setting exp_fn iter mw cfg" "list_all adaptive_input_ok is"
  shows "\<exists>s outs. adaptive_run exp_fn iter mw cfg adaptive_init is = Some (s, outs)
    \<and> adaptive_ok s \<and> length outs = length is \<and> list_all answer_ok outs"
proof -
  obtain s outs where r: "run_partial (adaptive_step exp_fn iter mw cfg) adaptive_init is = Some (s, outs)"
    "adaptive_ok s" "list_all answer_ok outs"
    using adaptive.run_returns[of exp_fn iter mw cfg adaptive_init "is"] assms adaptive_init_ok by auto
  then show ?thesis by (auto simp: adaptive_run_def run_partial_length)
qed

text \<open>Losses lock trading out: if the last trades, as many as the configured maximum, all closed
  without a profit, then every later decision is Ignore until the next trade is learned from,
  whatever frames and feedback arrive in between. Not even an exit is decided, and since no
  decision opens a trade, only a trade opened earlier can lift the lockout.\<close>
theorem losses_lock_trading_out:
  assumes "decision_setting exp_fn iter mw cfg" "list_all adaptive_input_ok (before @ after)"
    "length before < 2 ^ 32" "samples_of before \<noteq> []"
    "unat (cf_max_consecutive_losses cfg) \<le> length (takeWhile (\<lambda>x. \<not> sample_won x) (rev (samples_of before)))"
    "list_all (\<lambda>i. \<not> is_sample i) after"
  shows "\<exists>s outs. adaptive_run exp_fn iter mw cfg adaptive_init (before @ after) = Some (s, outs)
    \<and> ad_trading_disabled s \<and> list_all ignored (drop (length before) outs)"
proof -
  have b: "list_all adaptive_input_ok before" "list_all adaptive_input_ok after" using assms(2) by auto
  obtain s1 outs1 where r1: "run_partial (adaptive_step exp_fn iter mw cfg) adaptive_init before = Some (s1, outs1)" "adaptive_ok s1"
    using adaptive.run_returns[of exp_fn iter mw cfg adaptive_init before] assms(1) b adaptive_init_ok by auto
  obtain s outs2 where r2: "run_partial (adaptive_step exp_fn iter mw cfg) s1 after = Some (s, outs2)"
    using adaptive.run_returns[of exp_fn iter mw cfg s1 after] assms(1) b r1(2) by auto
  have "locked_out cfg [] adaptive_init" by (simp add: locked_out_def adaptive_init_def)
  from locked_out_run[OF assms(1) b(1) adaptive_init_ok this r1(1)] have l: "locked_out cfg (samples_of before) s1" by simp
  have "length (samples_of before) \<le> length before" by (induction before rule: samples_of.induct) simp_all
  then have "length (samples_of before) < 2 ^ 32" using assms(3) by simp
  from losses_run[OF this] have "ad_trading_disabled s1"
    using l assms(4,5) by (simp add: locked_out_def word_le_nat_alt)
  from disabled_run[OF r2 this assms(6)] have d: "ad_trading_disabled s" "list_all ignored outs2" by auto
  have "length outs1 = length before" using r1(1) by (rule run_partial_length)
  then show ?thesis using d r1(1) r2 by (simp add: adaptive_run_def run_partial_append)
qed

text \<open>The gates of a decision: anything but Ignore means that trading is not locked out, the edge is
  not invalid, the market not saturated and the data neither stale nor older than the
  configured age; and a decision to enter or to add means moreover that no exit was asked for
  and that either the entry scoring found an entry, or the timing is not missed, the flow shows
  no reversal risk, the adversarial risk is at most 0.82, the score beats the threshold and the
  confidence 0.35.\<close>
theorem decision_gated:
  fixes clock :: "u64 option"
  assumes "sd_decision (score_frame exp_fn mw cfg s f p dis edge clock) \<noteq> Ignore"
  shows "let d = score_frame exp_fn mw cfg s f p dis edge clock; e = evaluate_entry mw f edge
    in \<not> dis \<and> vs_edge_state edge \<noteq> Invalid \<and> vs_competition_state edge \<noteq> Saturated
      \<and> \<not> mf_stale f \<and> sd_data_latency_ms d \<le> cf_max_data_age_ms cfg
      \<and> (sd_decision d \<in> {EnterSmall, ScaleIn} \<longrightarrow> \<not> tr_should_exit (mf_trigger f)
          \<and> (es_enter_long e \<or> es_enter_short e
             \<or> mt_signal (mf_timing f) \<noteq> Missed \<and> fs_signal (mf_flow f) \<noteq> ReversalRisk
               \<and> (mt_signal (mf_timing f) = Optimal \<or> fs_signal (mf_flow f) = StrongContinuation)
               \<and> \<not> lit 0.82 < sd_adversarial_risk d
               \<and> decision_threshold s (mf_regime f) edge < sd_continuation_prob d))"
  using assms by (auto simp: score_frame_def Let_def decide_def not_less split: if_splits)


section \<open>Concrete runs\<close>

definition ex_exp :: "f64 \<Rightarrow> f64" where
  "ex_exp x = (if x < 0 then 0 else PInf)"

lemma ex_exp_like: "exp_like ex_exp"
  by (auto simp: exp_like_def ex_exp_def zero_f64_def one_f64_def)

lemma ex_setting: "decision_setting ex_exp ex_regime_iter model_weights_default config_default"
  using ex_regime_iter by (simp add: decision_setting_def ex_exp_like default_weights_ok config_default_def f64_eval)

definition ex_scored_frame :: microstructure_frame where
  "ex_scored_frame = classifier_step model_weights_default ex_frame"

lemma ex_scored_frame_ok: "adaptive_input_ok (AdaptiveFrame ex_scored_frame clock)"
proof -
  have b: "rng 0 1 (tr_drop_pct (mf_trigger ex_frame))" "signals_ok ex_frame"
    using ex_frame_body by (simp_all add: signals_ok_def ex_frame_def trigger_snapshot_default_def reversal_snapshot_default_def rng_0_1)
  then have "signals_ok ex_scored_frame"
    by (simp add: ex_scored_frame_def classifier_step_def signals_ok_def frame_body_ok_def)
  moreover have "classifier_ok (mf_reversal_classifier ex_scored_frame)"
    using classify_frame_ok[OF default_weights_ok ex_frame_body b(1)] by (simp add: ex_scored_frame_def classifier_step_def)
  ultimately show ?thesis by (simp add: adaptive_input_ok_def)
qed

definition ex_losses :: "adaptive_input list" where
  "ex_losses = [AdaptiveSample ex_sample, AdaptiveSample ex_sample, AdaptiveSample ex_sample]"

lemma ex_losses_ok: "list_all adaptive_input_ok (ex_losses @ [AdaptiveFrame ex_scored_frame (Some 1001)])"
  using ex_scored_frame_ok ex_sample_ok ex_learning_sample by (simp add: ex_losses_def adaptive_input_ok_def)

theorem decision_stage_sound_witness:
  "\<exists>s outs. adaptive_run ex_exp ex_regime_iter model_weights_default config_default adaptive_init
      (ex_losses @ [AdaptiveFrame ex_scored_frame (Some 1001)]) = Some (s, outs)
    \<and> length outs = 4 \<and> list_all answer_ok outs"
  using decision_stage_sound[OF ex_setting ex_losses_ok] by (auto simp: ex_losses_def)

theorem losses_lock_trading_out_witness:
  "\<exists>s outs. adaptive_run ex_exp ex_regime_iter model_weights_default config_default adaptive_init
      (ex_losses @ [AdaptiveFrame ex_scored_frame (Some 1001)]) = Some (s, outs)
    \<and> ad_trading_disabled s \<and> list_all ignored (drop (length ex_losses) outs)"
  by (rule losses_lock_trading_out[OF ex_setting ex_losses_ok])
    (simp_all add: ex_losses_def is_sample_def config_default_def sample_won_def ex_sample_def zero_f64_def less_f64_def)

definition ex_edge_snapshot :: edge_snapshot where
  "ex_edge_snapshot = (build_snapshot edge_engine_default 0 0 regime_memory_default)
     \<lparr>vs_edge_state := Valid, vs_competition_state := CompetitionNormal, vs_reliability := 1, vs_competition_score := 0,
      vs_trading_enabled := True\<rparr>"

definition ex_flip_frame :: microstructure_frame where
  "ex_flip_frame = ex_frame
     \<lparr>mf_reversal := reversal_snapshot_default\<lparr>rs_state := ObserveShortToLong, rs_direction := Long, rs_expected_edge := 1\<rparr>,
      mf_trigger := trigger_snapshot_default\<lparr>tr_expected_edge := 1\<rparr>,
      mf_reversal_classifier := reversal_classifier_default\<lparr>rc_reversal_probability := 1, rc_intent_score := 1,
        rc_ready_long := True, rc_ready_short := True\<rparr>\<rparr>"

lemma ex_flip_entry: "es_enter_long (evaluate_entry model_weights_default ex_flip_frame ex_edge_snapshot)"
  by (simp add: evaluate_entry_def Let_def directional_gate_def ex_flip_frame_def ex_edge_snapshot_def
      model_weights_default_def ex_frame_def reversal_classifier_default_def reversal_snapshot_default_def
      trigger_snapshot_default_def market_context_default_def entry_score_def entry_confidence_def f64_eval)

lemma ex_flip_gates:
  "vs_edge_state ex_edge_snapshot \<noteq> Invalid" "vs_competition_state ex_edge_snapshot \<noteq> Saturated" "\<not> mf_stale ex_flip_frame"
  "data_age_ms (Some 1001) (mf_timestamp ex_flip_frame) \<le> cf_max_data_age_ms config_default"
  "\<not> tr_should_exit (mf_trigger ex_flip_frame)"
  by (simp_all add: ex_edge_snapshot_def ex_flip_frame_def ex_frame_def data_age_ms_def config_default_def
      trigger_snapshot_default_def sat_sub_def)

theorem decision_gated_witness:
  "\<not> mf_stale ex_flip_frame \<and> (es_enter_long (evaluate_entry model_weights_default ex_flip_frame ex_edge_snapshot)
     \<or> es_enter_short (evaluate_entry model_weights_default ex_flip_frame ex_edge_snapshot)
     \<or> fs_signal (mf_flow ex_flip_frame) \<noteq> ReversalRisk)"
proof -
  have d: "sd_decision (score_frame ex_exp model_weights_default config_default learning_state_default ex_flip_frame (lit 0.5)
      False ex_edge_snapshot (Some 1001)) = EnterSmall"
    using ex_flip_entry by (intro entry_entered ex_flip_gates disjI1) simp_all
  then have "sd_decision (score_frame ex_exp model_weights_default config_default learning_state_default ex_flip_frame (lit 0.5)
      False ex_edge_snapshot (Some 1001)) \<noteq> Ignore" by simp
  from decision_gated[OF this] d show ?thesis by (auto simp: Let_def)
qed


end
