(* ===== verification/Core.thy ===== *)
theory Core
  imports Decisions Pipeline
begin

text \<open>
  The trading loop: the tasks of \<open>pipeline.rs\<close> from a market update to the order that reaches the
  execution controller, one message after the other. It composes the micro structure, the
  trigger, the reversal engine, the classifier, the decision stage and the order path.
\<close>

section \<open>The tasks connected\<close>

record core_state =
  co_micro :: micro_task
  co_trigger :: trigger_engine
  co_reversal :: reversal_task
  co_adaptive :: adaptive_state
  co_path :: order_path

definition core_init :: "config \<Rightarrow> core_state" where
  "core_init cfg = \<lparr>co_micro = micro_task_init (cf_window_ms cfg), co_trigger = trigger_task_init cfg,
     co_reversal = reversal_task_init, co_adaptive = adaptive_init, co_path = order_path_init\<rparr>"

text \<open>
  The messages that enter: a market update with the clock at its arrival and at its decision, a
  trade that was measured, feedback of the controller, a fill.
\<close>

datatype core_input =
    MarketMsg market_update "u64 option" "u64 option"
  | LearnMsg learning_sample
  | FeedbackMsg execution_control_feedback
  | FillMsg fill_event

text \<open>A market update becomes a frame, the frame runs through the signal engines.\<close>

definition signal_frame ::
  "model_weights \<Rightarrow> config \<Rightarrow> core_state \<Rightarrow> market_update \<Rightarrow> u64 option \<Rightarrow> core_state \<times> microstructure_frame" where
  "signal_frame mw cfg s u arrival =
     (let (micro, f0) = micro_step (cf_max_data_age_ms cfg) (co_micro s) (u, arrival);
          (trigger, f1) = trigger_step (co_trigger s) f0;
          (reversal, f2) = reversal_step (co_reversal s) (FrameIn f1)
      in (s\<lparr>co_micro := micro, co_trigger := trigger, co_reversal := reversal\<rparr>,
          classifier_step mw (case f2 of Some f \<Rightarrow> f | None \<Rightarrow> f1)))"

definition core_step ::
  "(f64 \<Rightarrow> f64) \<Rightarrow> ((string \<rightharpoonup> regime_memory) \<Rightarrow> string list) \<Rightarrow> ((string \<rightharpoonup> f64) \<Rightarrow> string list) \<Rightarrow> model_weights \<Rightarrow> config
    \<Rightarrow> core_state \<Rightarrow> core_input \<Rightarrow> (core_state \<times> (scored_decision \<times> path_outcome) option) option" where
  "core_step exp_fn riter piter mw cfg s input = (case input of
     MarketMsg u arrival decided \<Rightarrow>
       (let (s1, frame) = signal_frame mw cfg s u arrival
        in case adaptive_step exp_fn riter mw cfg (co_adaptive s1) (AdaptiveFrame frame decided) of
             None \<Rightarrow> None
           | Some (adaptive, None) \<Rightarrow> Some (s1\<lparr>co_adaptive := adaptive\<rparr>, None)
           | Some (adaptive, Some decision) \<Rightarrow>
               (let (path, outcome) = path_signal piter cfg (co_path s1) decision
                in Some (s1\<lparr>co_adaptive := adaptive, co_path := path\<rparr>, Some (decision, outcome))))
   | LearnMsg x \<Rightarrow>
       map_option (\<lambda>(adaptive, _). (s\<lparr>co_reversal := fst (reversal_step (co_reversal s) (SampleIn x)), co_adaptive := adaptive\<rparr>, None))
         (adaptive_step exp_fn riter mw cfg (co_adaptive s) (AdaptiveSample x))
   | FeedbackMsg b \<Rightarrow>
       map_option (\<lambda>(adaptive, _). (s\<lparr>co_adaptive := adaptive\<rparr>, None))
         (adaptive_step exp_fn riter mw cfg (co_adaptive s) (AdaptiveFeedback b))
   | FillMsg fill \<Rightarrow> Some (s\<lparr>co_path := fst (path_step piter cfg (co_path s) (FillInput fill))\<rparr>, None))"

definition core_run ::
  "(f64 \<Rightarrow> f64) \<Rightarrow> ((string \<rightharpoonup> regime_memory) \<Rightarrow> string list) \<Rightarrow> ((string \<rightharpoonup> f64) \<Rightarrow> string list) \<Rightarrow> model_weights \<Rightarrow> config
    \<Rightarrow> core_state \<Rightarrow> core_input list \<Rightarrow> (core_state \<times> (scored_decision \<times> path_outcome) option list) option" where
  "core_run exp_fn riter piter mw cfg = run_partial (core_step exp_fn riter piter mw cfg)"

section \<open>The frame that is decided on\<close>

text \<open>A price that comes from the wire is a double, and so is every price the trigger reads.\<close>

definition core_input_ok :: "core_input \<Rightarrow> bool" where
  "core_input_ok i = (case i of
     MarketMsg u _ _ \<Rightarrow> feed_ok u \<and> (case u of BookUpdate d \<Rightarrow> True | TradeUpdate t \<Rightarrow> double (te_price t))
   | LearnMsg x \<Rightarrow> sample_ok x \<and> learning_sample_ok x
   | _ \<Rightarrow> True)"

definition signals_state_ok :: "core_state \<Rightarrow> bool" where
  "signals_state_ok s \<longleftrightarrow> micro_task_ok (co_micro s) \<and> double (ts_last_price (tp_last_state (ms_tape (co_micro s))))
     \<and> trigger_ok (co_trigger s)"

lemma tape_last_price: "tp_trades tp = ts @ [t] \<Longrightarrow> ts_last_price (compute_tape tp) = te_price t"
  by (simp add: compute_tape_def Let_def split: list.split)

lemma micro_step_prices:
  assumes "double (ts_last_price (tp_last_state (ms_tape s)))"
    "case u of BookUpdate d \<Rightarrow> True | TradeUpdate t \<Rightarrow> double (te_price t)"
  shows "double (ts_last_price (tp_last_state (ms_tape (fst (micro_step w s (u, c))))))
    \<and> double (trigger_price (snd (micro_step w s (u, c))))"
proof (cases u)
  case (BookUpdate d)
  then show ?thesis using assms
    by (simp add: micro_step_def observe_update_def case_prod_unfold Let_def trigger_price_def trigger_mid_price_def)
next
  case (TradeUpdate t)
  then show ?thesis using assms
    by (simp add: tape_last_price micro_step_def observe_update_def case_prod_unfold Let_def trigger_price_def observe_tape_def)
qed

lemma trigger_edge_nonneg: "0 \<le> tr_expected_edge (snd (observe_trigger e f))"
  by (simp add: observe_trigger_def Let_def trigger_snapshot_default_def derive_expected_edge_def f_max_zero_nonneg)

lemma reversal_confidence_unit: "frame_body_ok f \<Longrightarrow> rng 0 1 (reversal_confidence f c)"
proof -
  assume f: "frame_body_ok f"
  have u: "0 \<le> lit q * x" if "rng 0 1 x" "0 \<le> q" "q \<le> 1" for q x
    using unit_term[OF that] by (simp add: rng_iff_le zero_f64_def)
  show ?thesis using f unfolding reversal_confidence_def
    by (auto intro!: f_clamp_unit_nonneg plus_nonneg u simp: rng_0_1 frame_body_ok_def flow_state_ok_def prices_ok_def
        state_ok_def timing_state_ok_def market_context_ok_def)
qed

lemma reversal_snapshot_ok:
  "frame_body_ok f \<Longrightarrow> 0 \<le> rs_expected_edge (snd (observe_frame e f)) \<and> rng 0 1 (rs_confidence (snd (observe_frame e f)))"
  by (auto simp: observe_frame_def Let_def case_prod_unfold observe_long_to_short_def observe_short_to_long_def
      observation_result_def reversal_snapshot_default_def reversal_edge_def f_max_zero_nonneg reversal_confidence_unit rng_0_1
      split: reversal_state.split)

lemma signal_frame_ok:
  assumes "weights_ok mw" "signals_state_ok s" "core_input_ok (MarketMsg u a d)" "length (tp_trades (ms_tape (co_micro s))) < 2 ^ 19"
  shows "let (s', f) = signal_frame mw cfg s u a
    in signals_state_ok s' \<and> adaptive_input_ok (AdaptiveFrame f d) \<and> co_adaptive s' = co_adaptive s \<and> co_path s' = co_path s
      \<and> length (tp_trades (ms_tape (co_micro s'))) \<le> length (tp_trades (ms_tape (co_micro s))) + 1"
proof -
  let ?w = "cf_max_data_age_ms cfg"
  define m f0 where "m = fst (micro_step ?w (co_micro s) (u, a))" and "f0 = snd (micro_step ?w (co_micro s) (u, a))"
  define f1 where "f1 = f0\<lparr>mf_trigger := snd (observe_trigger (co_trigger s) f0)\<rparr>"
  define f2 where "f2 = f1\<lparr>mf_reversal := snd (observe_frame (rt_engine (co_reversal s)) f1)\<rparr>"
  have m: "micro_task_ok m" "frame_ok f0" "length (tp_trades (ms_tape m)) \<le> length (tp_trades (ms_tape (co_micro s))) + 1"
    using micro_step_ok[of "co_micro s" "(u, a)" ?w] assms(2-4) by (simp_all add: m_def f0_def signals_state_ok_def core_input_ok_def)
  have p: "double (ts_last_price (tp_last_state (ms_tape m)))" "double (trigger_price f0)"
    using micro_step_prices[of "co_micro s" u ?w a] assms(2,3) by (simp_all add: m_def f0_def signals_state_ok_def core_input_ok_def)
  have t: "trigger_ok (fst (observe_trigger (co_trigger s) f0))" "rng 0 1 (tr_drop_pct (mf_trigger f1))"
    using observe_trigger_ok[OF _ p(2), of "co_trigger s"] assms(2) by (auto simp: signals_state_ok_def snapshot_in_range_def f1_def)
  have b1: "frame_body_ok f1" using m(2) by (simp add: frame_ok_def frame_body_ok_def f1_def)
  then have b2: "frame_body_ok f2" by (simp add: frame_body_ok_def f2_def)
  have c: "classifier_ok (classify_frame mw f2)"
    using t(2) by (intro classify_frame_ok assms(1) b2) (simp add: f2_def)
  have sig: "signals_ok (classifier_step mw f2)"
    using b2 t(2) reversal_snapshot_ok[OF b1] trigger_edge_nonneg
    by (simp add: signals_ok_def classifier_step_def frame_body_ok_def f2_def) (simp add: f1_def)
  show ?thesis using m p t(1) c sig
    by (simp add: signal_frame_def case_prod_unfold Let_def m_def[symmetric] f0_def[symmetric] f1_def[symmetric] f2_def[symmetric]
        signals_state_ok_def adaptive_input_ok_def classifier_step_def)
qed

section \<open>Orders\<close>

text \<open>An order that is delivered reduces the position, or adds to it on a decision to enter or to
  add, with trading enabled; and its request passed the limits of the risk gate.\<close>

definition order_allowed :: "config \<Rightarrow> scored_decision \<Rightarrow> order_intent \<Rightarrow> bool" where
  "order_allowed cfg d k \<longleftrightarrow>
     (rq_reduce_only (oi_request k) \<or> sd_trading_enabled d \<and> sd_decision d \<in> {EnterSmall, ScaleIn})
     \<and> (\<exists>i. intent_safe cfg i \<and> oi_request i = oi_request k)"

lemma exit_reduce_only: "exit_intent cfg p d q = Some i \<Longrightarrow> rq_reduce_only (oi_request i)"
  by (auto simp: exit_intent_def make_intent_def Let_def split: option.splits)

lemma adding_decision:
  assumes "decide_order cfg p d ls dd = Some i" "\<not> rq_reduce_only (oi_request i)"
  shows "sd_decision d \<in> {EnterSmall, ScaleIn}"
  using assms exit_reduce_only by (auto simp: decide_order_def split: if_splits option.splits)

lemma delivered_allowed:
  assumes "limits_ok cfg" "snd (path_signal iter cfg s d) = Delivered k"
  shows "order_allowed cfg d k"
proof -
  obtain i where i: "snd (position_step iter cfg (op_position s) (SignalInput d)) = Some i"
    "snd (risk_step cfg (op_risk s) i) = Forwarded i" "snd (meta_step cfg (op_meta s) i) = MetaForward k"
    by (rule path_delivered[OF assms(2)])
  have "intent_safe cfg i" using forwarded_safe[OF assms(1) i(2)] by simp
  moreover have "rq_reduce_only (oi_request i) \<or> sd_trading_enabled d \<and> sd_decision d \<in> {EnterSmall, ScaleIn}"
    using position_intent_guarded[OF i(1)] i(1) adding_decision
    by (fastforce simp: adds_risk_def position_step_def on_position_signal_def Let_def split: if_splits)
  ultimately show ?thesis using meta_forward_facts(2)[OF i(3)] by (auto simp: order_allowed_def)
qed

definition core_answer_ok :: "config \<Rightarrow> (scored_decision \<times> path_outcome) option \<Rightarrow> bool" where
  "core_answer_ok cfg out = (case out of None \<Rightarrow> True
     | Some (d, outcome) \<Rightarrow> decision_ok d \<and> (\<forall>k. outcome = Delivered k \<longrightarrow> order_allowed cfg d k))"

definition core_ok :: "core_state \<Rightarrow> bool" where
  "core_ok s \<longleftrightarrow> signals_state_ok s \<and> adaptive_ok (co_adaptive s)"

abbreviation tape_load :: "core_state \<Rightarrow> nat" where
  "tape_load s \<equiv> length (tp_trades (ms_tape (co_micro s)))"

text \<open>What one message is to the decision stage.\<close>

definition adaptive_input_of :: "model_weights \<Rightarrow> config \<Rightarrow> core_state \<Rightarrow> core_input \<Rightarrow> adaptive_input option" where
  "adaptive_input_of mw cfg s i = (case i of
     MarketMsg u a d \<Rightarrow> Some (AdaptiveFrame (snd (signal_frame mw cfg s u a)) d)
   | LearnMsg x \<Rightarrow> Some (AdaptiveSample x)
   | FeedbackMsg b \<Rightarrow> Some (AdaptiveFeedback b)
   | FillMsg f \<Rightarrow> None)"

lemma core_adaptive:
  assumes "core_step exp_fn riter piter mw cfg s i = Some (s', out)"
  shows "case adaptive_input_of mw cfg s i of
      None \<Rightarrow> co_adaptive s' = co_adaptive s \<and> out = None
    | Some j \<Rightarrow> \<exists>d. adaptive_step exp_fn riter mw cfg (co_adaptive s) j = Some (co_adaptive s', d)
        \<and> (case out of None \<Rightarrow> True | Some (d', outcome) \<Rightarrow> d = Some d'
            \<and> (\<forall>k. outcome = Delivered k \<longrightarrow> (\<exists>t. snd (path_signal piter cfg t d') = Delivered k)))"
proof (cases i)
  case (MarketMsg u a c)
  obtain s1 f where f: "signal_frame mw cfg s u a = (s1, f)" by fastforce
  then have "co_adaptive s1 = co_adaptive s" by (auto simp: signal_frame_def Let_def case_prod_unfold)
  then show ?thesis using assms MarketMsg f
    by (fastforce simp: core_step_def adaptive_input_of_def case_prod_unfold Let_def split: option.splits)
qed (use assms in \<open>auto simp: core_step_def adaptive_input_of_def split: option.splits\<close>)

lemma core_step_ok:
  assumes "decision_setting exp_fn riter mw cfg" "limits_ok cfg" "core_ok s" "core_input_ok i" "tape_load s < 2 ^ 19"
  shows "\<exists>s' out. core_step exp_fn riter piter mw cfg s i = Some (s', out) \<and> core_ok s' \<and> core_answer_ok cfg out
    \<and> tape_load s' \<le> tape_load s + 1 \<and> (\<forall>j. adaptive_input_of mw cfg s i = Some j \<longrightarrow> adaptive_input_ok j)"
proof (cases i)
  case (MarketMsg u a c)
  obtain s1 f where f: "signal_frame mw cfg s u a = (s1, f)" by fastforce
  have w: "weights_ok mw" using assms(1) by (simp add: decision_setting_def)
  have s: "signals_state_ok s1" "adaptive_input_ok (AdaptiveFrame f c)" "co_adaptive s1 = co_adaptive s"
    "tape_load s1 \<le> tape_load s + 1"
    using signal_frame_ok[OF w _ assms(4)[unfolded MarketMsg] assms(5), of cfg] assms(3) f by (auto simp: core_ok_def)
  have "adaptive_ok (co_adaptive s1)" using assms(3) s(3) by (simp add: core_ok_def)
  from adaptive_step_ok[OF assms(1) this s(2)] obtain ad out where
    "adaptive_step exp_fn riter mw cfg (co_adaptive s1) (AdaptiveFrame f c) = Some (ad, out)" "adaptive_ok ad" "answer_ok out"
    by blast
  then show ?thesis using MarketMsg f s delivered_allowed[OF assms(2)]
    by (auto simp: core_step_def core_ok_def signals_state_ok_def core_answer_ok_def answer_ok_def adaptive_input_of_def
        case_prod_unfold Let_def split: option.split)
next
  case (LearnMsg x)
  have x: "adaptive_input_ok (AdaptiveSample x)" using assms(4) LearnMsg by (simp add: core_input_ok_def adaptive_input_ok_def)
  have "adaptive_ok (co_adaptive s)" using assms(3) by (simp add: core_ok_def)
  from adaptive_step_ok[OF assms(1) this x] show ?thesis using LearnMsg assms(3) x
    by (auto simp: core_step_def core_ok_def signals_state_ok_def core_answer_ok_def adaptive_input_of_def)
next
  case (FeedbackMsg b)
  have x: "adaptive_input_ok (AdaptiveFeedback b)" by (simp add: adaptive_input_ok_def)
  have "adaptive_ok (co_adaptive s)" using assms(3) by (simp add: core_ok_def)
  from adaptive_step_ok[OF assms(1) this x] show ?thesis using FeedbackMsg assms(3) x
    by (auto simp: core_step_def core_ok_def signals_state_ok_def core_answer_ok_def adaptive_input_of_def)
next
  case (FillMsg b)
  then show ?thesis using assms(3)
    by (auto simp: core_step_def core_ok_def signals_state_ok_def core_answer_ok_def adaptive_input_of_def)
qed

lemma core_run_ok:
  assumes "decision_setting exp_fn riter mw cfg" "limits_ok cfg"
  shows "core_ok s \<Longrightarrow> list_all core_input_ok is \<Longrightarrow> tape_load s + length is \<le> 2 ^ 19 \<Longrightarrow>
    \<exists>s' outs. run_partial (core_step exp_fn riter piter mw cfg) s is = Some (s', outs) \<and> core_ok s'
      \<and> list_all (core_answer_ok cfg) outs \<and> tape_load s' \<le> tape_load s + length is"
proof (induction "is" arbitrary: s)
  case (Cons i "is")
  then obtain s1 out where a: "core_step exp_fn riter piter mw cfg s i = Some (s1, out)" "core_ok s1" "core_answer_ok cfg out"
    "tape_load s1 \<le> tape_load s + 1"
    using core_step_ok[OF assms, of s i piter] by auto
  moreover have "tape_load s1 + length is \<le> 2 ^ 19" using a(4) Cons.prems(3) by simp
  ultimately show ?case using Cons.IH[of s1] Cons.prems(2) by fastforce
qed simp

section \<open>The lockout of the loop\<close>

fun learned :: "core_input list \<Rightarrow> learning_sample list" where
  "learned [] = []"
| "learned (LearnMsg x # is) = x # learned is"
| "learned (_ # is) = learned is"

lemma learned_Cons: "learned (i # is) = learned [i] @ learned is"
  by (cases i) simp_all

lemma learned_samples: "learned [i] = (case adaptive_input_of mw cfg s i of None \<Rightarrow> [] | Some j \<Rightarrow> samples_of [j])"
  by (cases i) (simp_all add: adaptive_input_of_def)

lemma learned_length: "length (learned is) \<le> length is"
  by (induction "is" rule: learned.induct) simp_all

lemma core_locked_step:
  assumes "decision_setting exp_fn riter mw cfg" "limits_ok cfg" "core_ok s" "core_input_ok i" "tape_load s < 2 ^ 19"
    "core_step exp_fn riter piter mw cfg s i = Some (s', out)" "locked_out cfg xs (co_adaptive s)"
  shows "locked_out cfg (xs @ learned [i]) (co_adaptive s')"
proof (cases "adaptive_input_of mw cfg s i")
  case None
  then show ?thesis using core_adaptive[OF assms(6)] assms(7) by (simp add: learned_samples[of i mw cfg s])
next
  case (Some j)
  then have "adaptive_input_ok j" using core_step_ok[OF assms(1-5)] by blast
  then show ?thesis using core_adaptive[OF assms(6)] assms(3,7) Some locked_out_step[OF assms(1), of "co_adaptive s" j xs]
    by (auto simp: learned_samples[of i mw cfg s] core_ok_def simp del: samples_of.simps)
qed

lemma core_locked_run:
  assumes "decision_setting exp_fn riter mw cfg" "limits_ok cfg"
  shows "core_ok s \<Longrightarrow> list_all core_input_ok is \<Longrightarrow> tape_load s + length is \<le> 2 ^ 19 \<Longrightarrow> locked_out cfg xs (co_adaptive s) \<Longrightarrow>
    run_partial (core_step exp_fn riter piter mw cfg) s is = Some (s', outs) \<Longrightarrow> locked_out cfg (xs @ learned is) (co_adaptive s')"
proof (induction "is" arbitrary: s xs outs)
  case (Cons i "is")
  then obtain s1 out rest where a: "core_step exp_fn riter piter mw cfg s i = Some (s1, out)"
    "run_partial (core_step exp_fn riter piter mw cfg) s1 is = Some (s', rest)"
    by (auto split: option.splits)
  have i: "core_input_ok i" "list_all core_input_ok is" "tape_load s < 2 ^ 19" using Cons.prems by auto
  have s1: "core_ok s1" "tape_load s1 \<le> tape_load s + 1"
    using core_step_ok[OF assms Cons.prems(1) i(1,3), of piter] a(1) by auto
  have "tape_load s1 + length is \<le> 2 ^ 19" using s1(2) Cons.prems(3) by simp
  from Cons.IH[OF s1(1) i(2) this core_locked_step[OF assms Cons.prems(1) i(1,3) a(1) Cons.prems(4)] a(2)]
  show ?case by (simp only: append_assoc learned_Cons[symmetric])
qed simp

text \<open>While the flag is on nothing is decided and nothing but a reduction is delivered.\<close>

definition only_reduces :: "(scored_decision \<times> path_outcome) option \<Rightarrow> bool" where
  "only_reduces out = (case out of None \<Rightarrow> True
     | Some (d, outcome) \<Rightarrow> sd_decision d = Ignore \<and> (\<forall>k. outcome = Delivered k \<longrightarrow> rq_reduce_only (oi_request k)))"

lemma core_disabled_step:
  assumes "limits_ok cfg" "core_step exp_fn riter piter mw cfg s i = Some (s', out)" "ad_trading_disabled (co_adaptive s)"
    "learned [i] = []"
  shows "ad_trading_disabled (co_adaptive s') \<and> only_reduces out"
proof (cases "adaptive_input_of mw cfg s i")
  case None
  then show ?thesis using core_adaptive[OF assms(2)] assms(3) by (simp add: only_reduces_def)
next
  case (Some j)
  then have "\<not> is_sample j" using assms(4) by (cases j) (simp_all add: learned_samples[of i mw cfg s] is_sample_def)
  moreover obtain d where d: "adaptive_step exp_fn riter mw cfg (co_adaptive s) j = Some (co_adaptive s', d)"
    and o: "case out of None \<Rightarrow> True | Some (d', outcome) \<Rightarrow> d = Some d'
      \<and> (\<forall>k. outcome = Delivered k \<longrightarrow> (\<exists>t. snd (path_signal piter cfg t d') = Delivered k))"
    using core_adaptive[OF assms(2)] Some by auto
  ultimately have f: "ad_trading_disabled (co_adaptive s')" "ignored d" using disabled_step[OF d assms(3)] by blast+
  have "only_reduces out"
  proof (cases out)
    case (Some e)
    obtain d' outcome where e: "e = (d', outcome)" by fastforce
    have i: "sd_decision d' = Ignore" using f(2) o Some e by (simp add: ignored_def)
    have "rq_reduce_only (oi_request k)" if k: "outcome = Delivered k" for k
    proof -
      obtain t where "snd (path_signal piter cfg t d') = Delivered k" using o Some e k by auto
      from delivered_allowed[OF assms(1) this] show ?thesis using i by (simp add: order_allowed_def)
    qed
    then show ?thesis using Some e i by (simp add: only_reduces_def)
  qed (simp add: only_reduces_def)
  with f(1) show ?thesis ..
qed

lemma core_disabled_run:
  assumes "limits_ok cfg"
  shows "run_partial (core_step exp_fn riter piter mw cfg) s is = Some (s', outs) \<Longrightarrow> ad_trading_disabled (co_adaptive s) \<Longrightarrow>
    learned is = [] \<Longrightarrow> ad_trading_disabled (co_adaptive s') \<and> list_all only_reduces outs"
proof (induction "is" arbitrary: s outs)
  case (Cons i "is")
  then obtain s1 out rest where a: "core_step exp_fn riter piter mw cfg s i = Some (s1, out)"
    "run_partial (core_step exp_fn riter piter mw cfg) s1 is = Some (s', rest)" "outs = out # rest"
    by (auto split: option.splits)
  have l: "learned [i] = []" "learned is = []" using Cons.prems(3) by (simp_all add: learned_Cons[of i "is"])
  from core_disabled_step[OF assms a(1) Cons.prems(2) l(1)] show ?case using Cons.IH[OF a(2) _ l(2)] a(3) by simp
qed simp

lemma core_init_ok: "core_ok (core_init cfg)" "tape_load (core_init cfg) = 0" "locked_out cfg' [] (co_adaptive (core_init cfg))"
  using micro_task_init_ok adaptive_init_ok trigger_new_ok
  by (simp_all add: core_ok_def core_init_def signals_state_ok_def trigger_task_init_def micro_task_init_def tape_new_def
      tape_state_default_def locked_out_def adaptive_init_def)

section \<open>Properties\<close>


text \<open>C3: Losses lock the whole loop out of the market: if the last measured trades, as many as the
  configured maximum, all closed without a profit, then until the next trade is measured every
  decision is Ignore and every order delivered to the controller only reduces the position,
  whatever market updates, feedback and fills arrive. Not even an exit is decided in that
  time: a reduction can come only from the forced exit of the position task.\<close>
theorem losses_lock_the_loop:
  assumes "decision_setting exp_fn riter mw cfg" "limits_ok cfg" "list_all core_input_ok (before @ after)"
    "length (before @ after) \<le> 2 ^ 19" "learned before \<noteq> []" "learned after = []"
    "unat (cf_max_consecutive_losses cfg) \<le> length (takeWhile (\<lambda>x. \<not> 0 < ls_pnl x) (rev (learned before)))"
  shows "\<exists>s outs. core_run exp_fn riter piter mw cfg (core_init cfg) (before @ after) = Some (s, outs)
    \<and> ad_trading_disabled (co_adaptive s) \<and> list_all only_reduces (drop (length before) outs)"
proof -
  have b: "list_all core_input_ok before" "list_all core_input_ok after" using assms(3) by auto
  have l: "tape_load (core_init cfg) + length before \<le> 2 ^ 19" using assms(4) core_init_ok(2) by simp
  obtain s1 outs1 where r1: "run_partial (core_step exp_fn riter piter mw cfg) (core_init cfg) before = Some (s1, outs1)" "core_ok s1"
    "tape_load s1 \<le> length before"
    using core_run_ok[OF assms(1,2) core_init_ok(1) b(1) l, of piter] core_init_ok(2)[of cfg] by auto
  have "tape_load s1 + length after \<le> 2 ^ 19" using r1(3) assms(4) by simp
  from core_run_ok[OF assms(1,2) r1(2) b(2) this, of piter] obtain s outs2 where
    r2: "run_partial (core_step exp_fn riter piter mw cfg) s1 after = Some (s, outs2)" by blast
  have k: "locked_out cfg (learned before) (co_adaptive s1)"
    using core_locked_run[OF assms(1,2) core_init_ok(1) b(1) l core_init_ok(3) r1(1)] by simp
  have "length (learned before) < 2 ^ 32" using learned_length[of before] assms(4) by simp
  from losses_run[OF this] have "ad_trading_disabled (co_adaptive s1)"
    using k assms(5,7) by (simp add: locked_out_def word_le_nat_alt sample_won_def)
  from core_disabled_run[OF assms(2) r2 this assms(6)]
  have d: "ad_trading_disabled (co_adaptive s)" "list_all only_reduces outs2" by auto
  have "length outs1 = length before" using r1(1) by (rule run_partial_length)
  then show ?thesis using d r1(1) r2 by (simp add: core_run_def run_partial_append)
qed

definition ex_loop :: "core_input list" where
  "ex_loop = [MarketMsg (BookUpdate ex_delta) (Some 1001) None, LearnMsg ex_sample, LearnMsg ex_sample, LearnMsg ex_sample]"

definition ex_loop_after :: "core_input list" where
  "ex_loop_after = [MarketMsg (TradeUpdate ex_trade) (Some 1001) (Some 1002)]"

lemma ex_loop_ok: "list_all core_input_ok (ex_loop @ ex_loop_after)"
  using ex_delta_valid ex_sample_ok ex_learning_sample
  by (simp add: ex_loop_def ex_loop_after_def core_input_ok_def feed_ok_def ex_trade_def update_valid_def trade_ok_def mag_def
      rng_def double_def)


theorem losses_lock_the_loop_witness:
  "\<exists>s outs. core_run ex_exp ex_regime_iter ex_iter model_weights_default config_default (core_init config_default)
      (ex_loop @ ex_loop_after) = Some (s, outs)
    \<and> ad_trading_disabled (co_adaptive s) \<and> list_all only_reduces (drop (length ex_loop) outs)"
  by (rule losses_lock_the_loop[OF ex_setting ex_limits(1) ex_loop_ok])
    (simp_all add: ex_loop_def ex_loop_after_def config_default_def ex_sample_def zero_f64_def less_f64_def)

end
