(* ===== verification/Latency.thy ===== *)
theory Latency
  imports AdaptiveFacts
begin

text \<open>
  The measurement of the execution (\<open>accounting/latency.rs\<close>, \<open>accounting/quality.rs\<close>): the windows of
  the latencies with their percentiles, the latency impact score, and the running moments of the
  error of the expected markout. The power \<open>x ^ 1.5\<close> is a parameter.
\<close>

section \<open>Latency windows\<close>

record latency_percentiles =
  lp_p50 :: u64
  lp_p90 :: u64
  lp_p99 :: u64

record latency_snapshot =
  ly_decision :: latency_percentiles
  ly_send :: latency_percentiles
  ly_ack :: latency_percentiles
  ly_first_fill :: latency_percentiles
  ly_full_fill :: latency_percentiles

record latency_distributions =
  ld_capacity :: nat
  ld_decision :: "u64 list"
  ld_send :: "u64 list"
  ld_ack :: "u64 list"
  ld_first_fill :: "u64 list"
  ld_full_fill :: "u64 list"

definition latency_distributions_new :: "nat \<Rightarrow> latency_distributions" where
  "latency_distributions_new n = \<lparr>ld_capacity = max n 32, ld_decision = [], ld_send = [], ld_ack = [],
     ld_first_fill = [], ld_full_fill = []\<rparr>"

definition latency_distributions_default :: latency_distributions where
  "latency_distributions_default = latency_distributions_new 512"

definition record_latency :: "latency_distributions \<Rightarrow> latency_breakdown \<Rightarrow> latency_distributions" where
  "record_latency d b =
     d\<lparr>ld_decision := push_capped (ld_decision d) (lb_decision_latency_us b) (ld_capacity d),
       ld_send := push_capped (ld_send d) (lb_send_latency_us b) (ld_capacity d),
       ld_ack := push_capped (ld_ack d) (lb_ack_latency_us b) (ld_capacity d),
       ld_first_fill := push_capped (ld_first_fill d) (lb_first_fill_latency_us b) (ld_capacity d),
       ld_full_fill := push_capped (ld_full_fill d) (lb_full_fill_latency_us b) (ld_capacity d)\<rparr>"

text \<open>The index is rounded half away from zero.\<close>

definition percentile_index :: "nat \<Rightarrow> rat \<Rightarrow> nat" where
  "percentile_index n q = unat (f_as_u64 (f_round (f_of_nat (n - 1) * lit q)))"

definition percentile :: "u64 list \<Rightarrow> rat \<Rightarrow> u64" where
  "percentile xs q = (if xs = [] then 0 else xs ! min (percentile_index (length xs) q) (length xs - 1))"

definition summarize :: "u64 list \<Rightarrow> latency_percentiles" where
  "summarize values =
     (if values = [] then \<lparr>lp_p50 = 0, lp_p90 = 0, lp_p99 = 0\<rparr>
      else let sorted = sort values
           in \<lparr>lp_p50 = percentile sorted 0.50, lp_p90 = percentile sorted 0.90, lp_p99 = percentile sorted 0.99\<rparr>)"

definition latency_snapshot_of :: "latency_distributions \<Rightarrow> latency_snapshot" where
  "latency_snapshot_of d = \<lparr>ly_decision = summarize (ld_decision d), ly_send = summarize (ld_send d),
     ly_ack = summarize (ld_ack d), ly_first_fill = summarize (ld_first_fill d), ly_full_fill = summarize (ld_full_fill d)\<rparr>"

definition normalize_us :: "u64 \<Rightarrow> u64 \<Rightarrow> f64" where
  "normalize_us v budget = (if budget = 0 then 1 else f_clamp (f_of_word v / f_of_word budget) 0 1)"

definition latency_impact_score :: "latency_snapshot \<Rightarrow> f64 \<Rightarrow> f64 \<Rightarrow> f64" where
  "latency_impact_score d slippage_bps fill_quality =
     f_clamp (lit 0.20 * normalize_us (lp_p90 (ly_decision d)) 2000
       + lit 0.12 * normalize_us (lp_p90 (ly_send d)) 4000
       + lit 0.12 * normalize_us (lp_p90 (ly_ack d)) 5000
       + lit 0.22 * normalize_us (lp_p99 (ly_first_fill d)) 8000
       + lit 0.18 * normalize_us (lp_p99 (ly_full_fill d)) 12000
       + lit 0.08 * f_clamp (f_abs slippage_bps / lit 12) 0 1
       + lit 0.08 * f_clamp (1 - fill_quality) 0 1) 0 1"

section \<open>Quality reports\<close>

record distribution_moments =
  dm_mean :: f64
  dm_variance :: f64
  dm_skew :: f64

record decision_quality =
  dq_expected_markout :: f64
  dq_realized_markout :: f64
  dq_edge_error :: f64
  dq_distribution :: distribution_moments
  dq_reliability :: f64
  dq_trading_enabled :: bool

record execution_quality_report =
  eq_fill_rate :: f64
  eq_slippage :: f64
  eq_outbid_rate :: f64
  eq_latency :: latency_snapshot

record edge_reliability =
  er_count :: u64
  er_mean :: f64
  er_m2 :: f64
  er_m3 :: f64

definition edge_reliability_default :: edge_reliability where
  "edge_reliability_default = \<lparr>er_count = 0, er_mean = 0, er_m2 = 0, er_m3 = 0\<rparr>"

definition reliability_update :: "edge_reliability \<Rightarrow> f64 \<Rightarrow> edge_reliability" where
  "reliability_update e v =
     (let previous_count = f_of_word (er_count e);
          n = sat_add (er_count e) 1;
          count = f_of_word n;
          delta = v - er_mean e;
          delta_n = delta / count;
          term1 = delta * delta_n * previous_count
      in \<lparr>er_count = n, er_mean = er_mean e + delta_n, er_m2 = er_m2 e + term1,
          er_m3 = er_m3 e + (term1 * delta_n * (count - lit 2) - lit 3 * delta_n * er_m2 e)\<rparr>)"

definition reliability_moments :: "(f64 \<Rightarrow> f64) \<Rightarrow> edge_reliability \<Rightarrow> distribution_moments" where
  "reliability_moments pow15 e =
     (if er_count e < 2 then \<lparr>dm_mean = er_mean e, dm_variance = 0, dm_skew = 0\<rparr>
      else \<lparr>dm_mean = er_mean e, dm_variance = er_m2 e / f_of_word (er_count e - 1),
            dm_skew = (if er_count e < 3 \<or> f_abs (er_m2 e) \<le> f_epsilon then 0
                       else f_sqrt (f_of_word (er_count e)) * er_m3 e / pow15 (er_m2 e))\<rparr>)"

definition moments_reliability :: "distribution_moments \<Rightarrow> f64" where
  "moments_reliability d =
     f_clamp (1 - (lit 0.45 * f_clamp (f_abs (dm_mean d) / lit 10) 0 1
       + lit 0.40 * f_clamp (dm_variance d / lit 25) 0 1
       + lit 0.15 * f_clamp (f_abs (dm_skew d) / lit 4) 0 1)) 0 1"

definition reliability_observe :: "(f64 \<Rightarrow> f64) \<Rightarrow> edge_reliability \<Rightarrow> f64 \<Rightarrow> f64 \<Rightarrow> edge_reliability \<times> decision_quality" where
  "reliability_observe pow15 e expected realized =
     (let e' = reliability_update e (expected - realized);
          d = reliability_moments pow15 e';
          r = moments_reliability d
      in (e', \<lparr>dq_expected_markout = expected, dq_realized_markout = realized, dq_edge_error = expected - realized,
               dq_distribution = d, dq_reliability = r, dq_trading_enabled = (lit 0.35 \<le> r)\<rparr>))"

definition quality_report :: "f64 \<Rightarrow> f64 \<Rightarrow> f64 \<Rightarrow> latency_snapshot \<Rightarrow> execution_quality_report" where
  "quality_report fill_rate slippage outbid_rate d =
     \<lparr>eq_fill_rate = f_clamp fill_rate 0 1, eq_slippage = slippage, eq_outbid_rate = f_clamp outbid_rate 0 1, eq_latency = d\<rparr>"

section \<open>The windows hold the last measurements\<close>

lemma record_run:
  assumes "ld_capacity d = max n 32"
  shows "ld_capacity (foldl record_latency d bs) = max n 32"
    "ld_decision (foldl record_latency d bs) = foldl (\<lambda>q x. push_capped q x (max n 32)) (ld_decision d) (map lb_decision_latency_us bs)"
    "ld_send (foldl record_latency d bs) = foldl (\<lambda>q x. push_capped q x (max n 32)) (ld_send d) (map lb_send_latency_us bs)"
    "ld_ack (foldl record_latency d bs) = foldl (\<lambda>q x. push_capped q x (max n 32)) (ld_ack d) (map lb_ack_latency_us bs)"
    "ld_first_fill (foldl record_latency d bs) = foldl (\<lambda>q x. push_capped q x (max n 32)) (ld_first_fill d) (map lb_first_fill_latency_us bs)"
    "ld_full_fill (foldl record_latency d bs) = foldl (\<lambda>q x. push_capped q x (max n 32)) (ld_full_fill d) (map lb_full_fill_latency_us bs)"
  using assms by (induction bs arbitrary: d) (simp_all add: record_latency_def)

text \<open>Rounding a product of a length keeps the order.\<close>

lemma round_away_floor: "0 \<le> q \<Longrightarrow> rat_round_away q = \<lfloor>q + 1 / 2\<rfloor>"
  by (simp add: rat_round_away_def)

lemma f_as_u64_round:
  assumes "rng 0 (2 ^ 53) x"
  shows "int (unat (f_as_u64 (f_round x))) = rat_round_away (val x)"
proof (cases x)
  case (Fin q)
  then have q: "0 \<le> q" "q \<le> 2 ^ 53" using assms by (auto simp: rng_def)
  define k where "k = rat_round_away q"
  have "0 \<le> k" "k \<le> \<lfloor>(2 :: rat) ^ 53 + 1 / 2\<rfloor>" using q by (auto simp: k_def round_away_floor intro!: floor_mono)
  moreover have "\<lfloor>(2 :: rat) ^ 53 + 1 / 2\<rfloor> = 2 ^ 53" by (simp add: floor_eq_iff)
  ultimately have k: "0 \<le> k" "k \<le> 2 ^ 53" by simp_all
  then have "bound (of_int k)" by (intro bound_of_int) simp
  then have "f_round x = Fin (of_int k) \<or> k = 0 \<and> val (f_round x) = 0 \<and> fin (f_round x)"
    using Fin q by (auto simp: k_def[symmetric] f_zero_def mk_exact)
  then have v: "fin (f_round x)" "val (f_round x) = of_int k" by auto
  then have "sat_int 0 (2 ^ 64 - 1) (f_round x) = k"
    using k by (cases "f_round x") (auto simp: sat_int_def rat_trunc_def)
  moreover have "int (unat (word_of_int k :: 64 word)) = k"
    using k by (simp add: unsigned_of_int take_bit_int_eq_self)
  ultimately show ?thesis by (simp add: f_as_u64_def Fin k_def)
qed (use assms in \<open>auto simp: rng_def f_as_u64_def sat_int_def rat_round_away_def floor_eq_iff\<close>)

lemma percentile_index_mono:
  assumes "n \<le> 2 ^ 53" "rng 0 1 (lit p)" "rng 0 1 (lit q)" "val (lit p) \<le> val (lit q)"
  shows "percentile_index n p \<le> percentile_index n q"
proof -
  have n: "rng 0 (2 ^ 53) (f_of_nat (n - 1))" "f_of_nat (n - 1) = Fin (of_nat (n - 1))"
    using assms(1) by (simp_all add: f_of_nat_exact rng_def)
  have r: "rng 0 (2 ^ 53) (f_of_nat (n - 1) * lit r)" if "rng 0 1 (lit r)" for r
    by (rule rng_times_nonneg[OF n(1) that]) (simp_all add: bound_pow2)
  have "val (f_of_nat (n - 1) * lit p) \<le> val (f_of_nat (n - 1) * lit q)"
    using assms(2-4) r n(2) by (auto simp: val_times rng_def intro!: rnd_mono mult_left_mono)
  then have "rat_round_away (val (f_of_nat (n - 1) * lit p)) \<le> rat_round_away (val (f_of_nat (n - 1) * lit q))"
    using r[OF assms(2)] r[OF assms(3)] by (auto simp: round_away_floor rng_def intro!: floor_mono)
  then show ?thesis using f_as_u64_round[OF r[OF assms(2)]] f_as_u64_round[OF r[OF assms(3)]]
    unfolding percentile_index_def by linarith
qed

lemma quantiles: "rng 0 1 (lit 0.50)" "rng 0 1 (lit 0.90)" "rng 0 1 (lit 0.99)"
  "val (lit 0.50) \<le> val (lit 0.90)" "val (lit 0.90) \<le> val (lit 0.99)"
  by (simp_all add: f64_eval rng_def)

lemma min_last: "xs \<noteq> [] \<Longrightarrow> min i (length xs - Suc 0) < length xs"
  by (cases xs) (simp_all add: min_def)

lemma percentile_mono:
  "xs \<noteq> [] \<Longrightarrow> sorted xs \<Longrightarrow> percentile_index (length xs) p \<le> percentile_index (length xs) q \<Longrightarrow> percentile xs p \<le> percentile xs q"
  by (auto simp: percentile_def intro!: sorted_nth_mono min_last)

lemma percentile_mem: "xs \<noteq> [] \<Longrightarrow> percentile xs p \<in> set xs"
  by (simp add: percentile_def min_last)

text \<open>What a summary says of its window.\<close>

definition summary_of :: "u64 list \<Rightarrow> latency_percentiles \<Rightarrow> bool" where
  "summary_of xs p \<longleftrightarrow> {lp_p50 p, lp_p90 p, lp_p99 p} \<subseteq> set xs \<and> lp_p50 p \<le> lp_p90 p \<and> lp_p90 p \<le> lp_p99 p"

lemma summarize_ok:
  assumes "xs \<noteq> []" "length xs \<le> 2 ^ 53"
  shows "summary_of xs (summarize xs)"
proof -
  have s: "sort xs \<noteq> []" "sorted (sort xs)" "set (sort xs) = set xs" using assms(1) by (auto simp del: set_empty simp: set_empty[symmetric])
  have i: "percentile_index (length (sort xs)) p \<le> percentile_index (length (sort xs)) q"
    if "rng 0 1 (lit p)" "rng 0 1 (lit q)" "val (lit p) \<le> val (lit q)" for p q
    using assms(2) that by (intro percentile_index_mono) simp_all
  show ?thesis
    using assms(1) percentile_mem[OF s(1)] s(3)
      percentile_mono[OF s(1,2) i[OF quantiles(1,2,4)]] percentile_mono[OF s(1,2) i[OF quantiles(2,3,5)]]
    unfolding summary_of_def summarize_def Let_def by (simp only: if_False latency_percentiles.simps) auto
qed

lemma normalize_us_unit: "rng 0 1 (normalize_us v b)"
proof (cases "b = 0")
  case False
  then have "1 \<le> b" by (simp add: word_le_nat_alt Suc_le_eq unat_gt_0)
  then have m: "max b 1 = b" by (rule max_absorb1)
  have b: "1 \<le> val (f_of_word b)" using f_of_word_pos[of b] unfolding m by (simp add: rng_def)
  then have "f_of_word v / f_of_word b \<noteq> NaN" by (intro divide_not_nan) auto
  then show ?thesis using False by (simp add: normalize_us_def f_clamp_unit)
qed (simp add: normalize_us_def rng_0_1)

lemma latency_impact_unit:
  assumes "slippage \<noteq> NaN" "fill_quality \<noteq> NaN"
  shows "rng 0 1 (latency_impact_score d slippage fill_quality)"
proof -
  have u: "0 \<le> lit q * x" if "rng 0 1 x" "0 \<le> q" "q \<le> 1" for q x
    using unit_term[OF that] by (simp add: rng_iff_le zero_f64_def)
  have "f_abs slippage / lit 12 \<noteq> NaN" using assms(1) by (intro divide_lit_not_nan) simp_all
  then have s: "rng 0 1 (f_clamp (f_abs slippage / lit 12) 0 1)" by (rule f_clamp_unit)
  have q: "rng 0 1 (f_clamp (1 - fill_quality) 0 1)" using assms(2) by (intro f_clamp_unit minus_not_nan) simp_all
  show ?thesis unfolding latency_impact_score_def
    by (intro f_clamp_unit_nonneg plus_nonneg u normalize_us_unit s q) simp_all
qed

section \<open>Properties\<close>


definition ex_breakdown :: "u64 \<Rightarrow> latency_breakdown" where
  "ex_breakdown a = \<lparr>lb_decision_latency_us = 1, lb_send_latency_us = 2, lb_ack_latency_us = a, lb_first_fill_latency_us = 9,
     lb_full_fill_latency_us = 9\<rparr>"


end
