(* ===== verification/Truth.thy ===== *)
theory Truth
  imports Core Latency
begin

text \<open>
  The measurement of fills (\<open>execution_truth.rs\<close>): a fill waits until five seconds after it, the
  market prices at four ages are noted, and the resulting markouts become the sample that the
  decision stage and the reversal engine learn from. Logging and metrics are left out; whether a
  channel has room for a sample is outside.
\<close>

section \<open>Data and operations\<close>

definition MARKOUT_100_MS :: u64 where "MARKOUT_100_MS = 100"
definition MARKOUT_500_MS :: u64 where "MARKOUT_500_MS = 500"
definition MARKOUT_1S :: u64 where "MARKOUT_1S = 1000"
definition MARKOUT_5S :: u64 where "MARKOUT_5S = 5000"

lemmas markout_ages = MARKOUT_100_MS_def MARKOUT_500_MS_def MARKOUT_1S_def MARKOUT_5S_def

record pending_fill =
  pf_fill :: fill_event
  pf_created_at :: u64
  pf_price_100ms :: "f64 option"
  pf_price_500ms :: "f64 option"
  pf_price_1s :: "f64 option"
  pf_price_5s :: "f64 option"

definition pending_of :: "fill_event \<Rightarrow> pending_fill" where
  "pending_of fill = \<lparr>pf_fill = fill, pf_created_at = fe_timestamp fill, pf_price_100ms = None, pf_price_500ms = None,
     pf_price_1s = None, pf_price_5s = None\<rparr>"

text \<open>A trade counts with a positive price, a delta with its first bid and ask.\<close>

definition truth_market_price :: "market_update \<Rightarrow> (u64 \<times> f64) option" where
  "truth_market_price u = (case u of
     TradeUpdate trade \<Rightarrow> if 0 < te_price trade then Some (te_timestamp trade, te_price trade) else None
   | BookUpdate book \<Rightarrow>
       (case bd_bids book of [] \<Rightarrow> None
        | b # _ \<Rightarrow> (case bd_asks book of [] \<Rightarrow> None
            | a # _ \<Rightarrow> if 0 < bl_price b \<and> 0 < bl_price a
                then Some (bd_timestamp book, (bl_price b + bl_price a) * lit 0.5) else None)))"

definition mark_at :: "u64 \<Rightarrow> u64 \<Rightarrow> f64 \<Rightarrow> f64 option \<Rightarrow> f64 option" where
  "mark_at age elapsed price old = (if age \<le> elapsed \<and> old = None then Some price else old)"

definition mark_pending :: "u64 \<Rightarrow> f64 \<Rightarrow> pending_fill \<Rightarrow> pending_fill" where
  "mark_pending ts price p =
     (let elapsed = sat_sub ts (pf_created_at p)
      in p\<lparr>pf_price_100ms := mark_at MARKOUT_100_MS elapsed price (pf_price_100ms p),
           pf_price_500ms := mark_at MARKOUT_500_MS elapsed price (pf_price_500ms p),
           pf_price_1s := mark_at MARKOUT_1S elapsed price (pf_price_1s p),
           pf_price_5s := mark_at MARKOUT_5S elapsed price (pf_price_5s p)\<rparr>)"

definition due :: "u64 \<Rightarrow> pending_fill \<Rightarrow> bool" where
  "due ts p \<longleftrightarrow> pf_price_5s p \<noteq> None \<or> MARKOUT_5S + 250 < sat_sub ts (pf_created_at p)"

definition fill_side_sign :: "side \<Rightarrow> f64" where
  "fill_side_sign s = (case s of Buy \<Rightarrow> 1 | Sell \<Rightarrow> - 1)"

definition markout_pnl :: "fill_event \<Rightarrow> f64 \<Rightarrow> f64" where
  "markout_pnl fill future_price =
     (future_price - fe_price fill) * fe_filled_size fill * fill_side_sign (fe_side fill)
     - fe_fee fill + fe_rebate_amount fill - fe_funding_amount fill"

definition adverse_selection_score :: "markout_snapshot \<Rightarrow> f64" where
  "adverse_selection_score m =
     (let early = f_max (- mk_pnl_100ms m) 0 * lit 0.65 + f_max (- mk_pnl_500ms m) 0 * lit 0.35
      in f_clamp (early / lit 10) 0 1)"

definition fill_quality_of :: "fill_event \<Rightarrow> markout_snapshot \<Rightarrow> f64 \<Rightarrow> f64" where
  "fill_quality_of fill m adverse =
     (let fill_ratio = (if 0 < fe_size fill then f_clamp (fe_filled_size fill / fe_size fill) 0 1 else 0);
          markout_score = f_clamp (lit 0.5 + mk_pnl_500ms m / lit 20) 0 1
      in f_clamp (lit 0.40 * fill_ratio + lit 0.35 * markout_score + lit 0.25 * (1 - adverse)) 0 1)"

definition truth_competition_flag :: "fill_event \<Rightarrow> markout_snapshot \<Rightarrow> competition_flag" where
  "truth_competition_flag fill m =
     (if fe_competition_flag fill \<noteq> FlagNone then fe_competition_flag fill
      else if 2000 < et_queue_delay_us (fe_truth fill) \<or> 5000 < fe_latency_us fill then SlowFill
      else if et_partial_fill_ratio (fe_truth fill) < lit 0.60 \<and> mk_pnl_100ms m < 0 then PartialFillToxicity
      else FlagNone)"

definition event_of_markout :: "fill_event \<Rightarrow> markout_snapshot \<Rightarrow> execution_event" where
  "event_of_markout fill m =
     (let adverse = adverse_selection_score m
      in \<lparr>xe_symbol = fe_symbol fill, xe_side = fe_side fill, xe_fill_quality = fill_quality_of fill m adverse,
          xe_slippage_real = fe_actual_slippage_bps fill, xe_adverse_selection_score = adverse, xe_markout_curve = m,
          xe_execution_latency_us = fe_latency_us fill, xe_latency_breakdown = fe_latency_breakdown fill,
          xe_expected_markout = fe_expected_markout fill, xe_fees_paid = fe_fee fill,
          xe_rebates_received = fe_rebate_amount fill, xe_funding_cost = fe_funding_amount fill,
          xe_regime = fe_regime fill, xe_competition_flag = truth_competition_flag fill m, xe_truth = fe_truth fill\<rparr>)"

definition markouts :: "fill_event \<Rightarrow> f64 option \<Rightarrow> f64 option \<Rightarrow> f64 option \<Rightarrow> f64 option \<Rightarrow> markout_snapshot" where
  "markouts fill a b c d =
     (let pnl = \<lambda>p. markout_pnl fill (case p of Some x \<Rightarrow> x | None \<Rightarrow> fe_price fill)
      in \<lparr>mk_pnl_100ms = pnl a, mk_pnl_500ms = pnl b, mk_pnl_1s = pnl c, mk_pnl_5s = pnl d\<rparr>)"

definition finalized_event :: "pending_fill \<Rightarrow> execution_event" where
  "finalized_event p =
     event_of_markout (pf_fill p) (markouts (pf_fill p) (pf_price_100ms p) (pf_price_500ms p) (pf_price_1s p) (pf_price_5s p))"

definition truth_competition_state :: "execution_event \<Rightarrow> competition_state" where
  "truth_competition_state e = (case xe_competition_flag e of
     FlagNone \<Rightarrow> CompetitionNormal
   | SlowFill \<Rightarrow> Competitive | CancelLatency \<Rightarrow> Competitive
   | RepeatedOutbid \<Rightarrow> Saturated | PartialFillToxicity \<Rightarrow> Saturated)"

definition learning_sample_from_event :: "execution_event \<Rightarrow> learning_sample" where
  "learning_sample_from_event e =
     (let m = xe_markout_curve e;
          realized_pnl = mk_pnl_500ms m - f_max (xe_slippage_real e) 0;
          expected = xe_expected_markout e
      in \<lparr>ls_timestamp = et_last_fill_timestamp (xe_truth e),
          ls_direction = (case xe_side e of Buy \<Rightarrow> Long | Sell \<Rightarrow> Short),
          ls_confidence = xe_fill_quality e, ls_predicted_score = xe_fill_quality e,
          ls_expected_slippage_bps = 0, ls_actual_slippage_bps = xe_slippage_real e,
          ls_pnl = realized_pnl, ls_expected_markout = expected, ls_realized_markout = mk_pnl_500ms m,
          ls_execution_alpha = realized_pnl - expected,
          ls_fill_ratio = f_clamp (et_partial_fill_ratio (xe_truth e)) 0 1,
          ls_fees_paid = xe_fees_paid e, ls_rebates_received = xe_rebates_received e, ls_funding_cost = xe_funding_cost e,
          ls_edge_component = f_max expected 0, ls_execution_loss = f_max (expected - realized_pnl) 0,
          ls_fees_rebates_component = - xe_fees_paid e + xe_rebates_received e - xe_funding_cost e,
          ls_adverse_selection_loss = f_max (- mk_pnl_100ms m) 0 + f_max (- mk_pnl_500ms m) 0 * lit 0.25,
          ls_edge_capture_ratio = (if f_epsilon < f_abs expected then realized_pnl / expected else 0),
          ls_competition_state = truth_competition_state e,
          ls_duration_ms = max (xe_execution_latency_us e div 1000) 1,
          ls_entry_quality = xe_fill_quality e,
          ls_markout_100ms = mk_pnl_100ms m, ls_markout_500ms = mk_pnl_500ms m,
          ls_markout_1s = mk_pnl_1s m, ls_markout_5s = mk_pnl_5s m, ls_regime = xe_regime e\<rparr>)"

definition build_quality_report :: "execution_event \<Rightarrow> latency_snapshot \<Rightarrow> execution_quality_report" where
  "build_quality_report e d =
     quality_report (f_clamp (et_partial_fill_ratio (xe_truth e)) 0 1) (xe_slippage_real e)
       (if xe_competition_flag e = RepeatedOutbid then 1 else 0) d"

section \<open>The task\<close>

record truth_task =
  tt_pending :: "pending_fill list"
  tt_reliability :: edge_reliability
  tt_latency :: latency_distributions

definition truth_task_init :: truth_task where
  "truth_task_init = \<lparr>tt_pending = [], tt_reliability = edge_reliability_default, tt_latency = latency_distributions_default\<rparr>"

text \<open>What one finalised fill yields: the sample that is sent, and the reports that are logged.\<close>

record truth_output =
  to_sample :: learning_sample
  to_decision_quality :: decision_quality
  to_execution_quality :: execution_quality_report

definition finalize :: "(f64 \<Rightarrow> f64) \<Rightarrow> truth_task \<Rightarrow> pending_fill \<Rightarrow> truth_task \<times> truth_output" where
  "finalize pow15 s p =
     (let event = finalized_event p;
          latency = record_latency (tt_latency s) (xe_latency_breakdown event);
          (reliability, quality) = reliability_observe pow15 (tt_reliability s) (xe_expected_markout event)
              (mk_pnl_500ms (xe_markout_curve event))
      in (s\<lparr>tt_reliability := reliability, tt_latency := latency\<rparr>,
          \<lparr>to_sample = learning_sample_from_event event, to_decision_quality = quality,
           to_execution_quality = build_quality_report event (latency_snapshot_of latency)\<rparr>))"

text \<open>The loop at the front of the queue: it stops at the first fill that is not due.\<close>

fun drain :: "(f64 \<Rightarrow> f64) \<Rightarrow> u64 \<Rightarrow> truth_task \<Rightarrow> pending_fill list \<Rightarrow> truth_task \<times> truth_output list" where
  "drain pow15 ts s [] = (s\<lparr>tt_pending := []\<rparr>, [])"
| "drain pow15 ts s (p # ps) =
     (if due ts p
      then let (s1, out) = finalize pow15 s p; (s2, outs) = drain pow15 ts s1 ps in (s2, out # outs)
      else (s\<lparr>tt_pending := p # ps\<rparr>, []))"

definition update_pending :: "(f64 \<Rightarrow> f64) \<Rightarrow> truth_task \<Rightarrow> u64 \<Rightarrow> f64 \<Rightarrow> truth_task \<times> truth_output list" where
  "update_pending pow15 s ts price = drain pow15 ts s (map (mark_pending ts price) (tt_pending s))"

datatype truth_input = FillSeen fill_event | MarketSeen market_update

definition truth_step :: "(f64 \<Rightarrow> f64) \<Rightarrow> truth_task \<Rightarrow> truth_input \<Rightarrow> truth_task \<times> truth_output list" where
  "truth_step pow15 s i = (case i of
     FillSeen fill \<Rightarrow>
       (if et_simulated (fe_truth fill) then (s, []) else (s\<lparr>tt_pending := tt_pending s @ [pending_of fill]\<rparr>, []))
   | MarketSeen u \<Rightarrow>
       (case truth_market_price u of None \<Rightarrow> (s, []) | Some (ts, price) \<Rightarrow> update_pending pow15 s ts price))"

definition truth_run :: "(f64 \<Rightarrow> f64) \<Rightarrow> truth_task \<Rightarrow> truth_input list \<Rightarrow> truth_task \<times> truth_output list list" where
  "truth_run pow15 = run_task (truth_step pow15)"

section \<open>The marks of a fill\<close>

text \<open>A market price counts for a mark when it is at least that old; the first one stays.\<close>

definition first_mark :: "u64 \<Rightarrow> u64 \<Rightarrow> (u64 \<times> f64) list \<Rightarrow> f64 option" where
  "first_mark created age prices = map_option snd (find (\<lambda>(ts, p). age \<le> sat_sub ts created) prices)"

lemma first_mark_simps:
  "first_mark c age [] = None"
  "first_mark c age (ps @ [(ts, p)]) = mark_at age (sat_sub ts c) p (first_mark c age ps)"
proof -
  show "first_mark c age [] = None" by (simp add: first_mark_def)
  show "first_mark c age (ps @ [(ts, p)]) = mark_at age (sat_sub ts c) p (first_mark c age ps)"
    by (induction ps) (auto simp: first_mark_def mark_at_def)
qed

text \<open>A pending fill and the prices seen since it arrived.\<close>

definition marked :: "pending_fill \<Rightarrow> (u64 \<times> f64) list \<Rightarrow> bool" where
  "marked p prices \<longleftrightarrow> pf_created_at p = fe_timestamp (pf_fill p)
     \<and> pf_price_100ms p = first_mark (pf_created_at p) MARKOUT_100_MS prices
     \<and> pf_price_500ms p = first_mark (pf_created_at p) MARKOUT_500_MS prices
     \<and> pf_price_1s p = first_mark (pf_created_at p) MARKOUT_1S prices
     \<and> pf_price_5s p = first_mark (pf_created_at p) MARKOUT_5S prices"

lemma marked_new: "marked (pending_of fill) []"
  by (simp add: marked_def pending_of_def first_mark_simps)

lemma marked_step: "marked p prices \<Longrightarrow> marked (mark_pending ts price p) (prices @ [(ts, price)])"
  by (simp add: marked_def mark_pending_def first_mark_simps Let_def)

lemma mark_pending_simps [simp]:
  "pf_fill (mark_pending ts price p) = pf_fill p" "pf_created_at (mark_pending ts price p) = pf_created_at p"
  by (simp_all add: mark_pending_def Let_def)

text \<open>A fill that is due has all four marks: the age of the last one implies the others, and the
  timeout is later than the last mark.\<close>

lemma first_mark_mono:
  "first_mark c a ps \<noteq> None \<Longrightarrow> b \<le> a \<Longrightarrow> first_mark c b ps \<noteq> None"
  by (auto simp: first_mark_def find_None_iff split: prod.splits)

lemma due_marked:
  assumes "due ts (mark_pending ts price p)" "marked (mark_pending ts price p) prices"
  shows "pf_price_5s (mark_pending ts price p) \<noteq> None"
proof (rule ccontr)
  let ?p = "mark_pending ts price p"
  assume n: "\<not> ?thesis"
  then have "5250 < sat_sub ts (pf_created_at p)" using assms(1) by (simp add: due_def markout_ages)
  then have "MARKOUT_5S \<le> sat_sub ts (pf_created_at p)" by (simp add: markout_ages word_le_nat_alt word_less_nat_alt)
  then have "pf_price_5s ?p \<noteq> None" by (simp add: mark_pending_def mark_at_def Let_def)
  with n show False by simp
qed

lemma marked_complete:
  assumes "marked p prices" "pf_price_5s p \<noteq> None"
  shows "pf_price_100ms p \<noteq> None" "pf_price_500ms p \<noteq> None" "pf_price_1s p \<noteq> None"
proof -
  have a: "MARKOUT_100_MS \<le> MARKOUT_5S" "MARKOUT_500_MS \<le> MARKOUT_5S" "MARKOUT_1S \<le> MARKOUT_5S" by (simp_all add: markout_ages)
  have m: "first_mark (pf_created_at p) MARKOUT_5S prices \<noteq> None" using assms by (simp add: marked_def)
  show "pf_price_100ms p \<noteq> None" "pf_price_500ms p \<noteq> None" "pf_price_1s p \<noteq> None"
    using assms(1) first_mark_mono[OF m a(1)] first_mark_mono[OF m a(2)] first_mark_mono[OF m a(3)] by (simp_all add: marked_def)
qed

section \<open>The queue\<close>

definition sample_of_fill :: "fill_event \<Rightarrow> f64 \<Rightarrow> f64 \<Rightarrow> f64 \<Rightarrow> f64 \<Rightarrow> learning_sample" where
  "sample_of_fill fill a b c d =
     learning_sample_from_event (event_of_markout fill (markouts fill (Some a) (Some b) (Some c) (Some d)))"

text \<open>What a sample is of the fill it measures, given the prices seen since the fill.\<close>

definition fill_measured :: "fill_event \<Rightarrow> (u64 \<times> f64) list \<Rightarrow> learning_sample \<Rightarrow> bool" where
  "fill_measured fill prices x \<longleftrightarrow> (\<exists>a b c d.
     first_mark (fe_timestamp fill) MARKOUT_100_MS prices = Some a \<and> first_mark (fe_timestamp fill) MARKOUT_500_MS prices = Some b
     \<and> first_mark (fe_timestamp fill) MARKOUT_1S prices = Some c \<and> first_mark (fe_timestamp fill) MARKOUT_5S prices = Some d
     \<and> x = sample_of_fill fill a b c d)"

lemma finalize_sample:
  assumes "marked p prices" "pf_price_5s p \<noteq> None"
  shows "fill_measured (pf_fill p) prices (to_sample (snd (finalize pow15 s p)))"
  using marked_complete[OF assms] assms
  by (auto simp: fill_measured_def marked_def finalize_def finalized_event_def sample_of_fill_def Let_def case_prod_unfold)

text \<open>The prices of the inputs.\<close>

fun seen_prices :: "truth_input list \<Rightarrow> (u64 \<times> f64) list" where
  "seen_prices [] = []"
| "seen_prices (FillSeen fill # is) = seen_prices is"
| "seen_prices (MarketSeen u # is) = (case truth_market_price u of None \<Rightarrow> [] | Some p \<Rightarrow> [p]) @ seen_prices is"

lemma seen_prices_append [simp]: "seen_prices (xs @ ys) = seen_prices xs @ seen_prices ys"
  by (induction xs rule: seen_prices.induct) simp_all

text \<open>The fills that are measured, each with the prices seen after it.\<close>

fun live_fills :: "truth_input list \<Rightarrow> (fill_event \<times> (u64 \<times> f64) list) list" where
  "live_fills [] = []"
| "live_fills (FillSeen fill # is) = (if et_simulated (fe_truth fill) then [] else [(fill, seen_prices is)]) @ live_fills is"
| "live_fills (MarketSeen u # is) = live_fills is"

lemma live_fills_append:
  "live_fills (is @ [FillSeen f]) = live_fills is @ (if et_simulated (fe_truth f) then [] else [(f, [])])"
  "live_fills (is @ [MarketSeen u]) = map (\<lambda>(f, ps). (f, ps @ seen_prices [MarketSeen u])) (live_fills is)"
  by (induction "is" rule: live_fills.induct) simp_all

lemma first_mark_append: "first_mark c a ps = Some x \<Longrightarrow> first_mark c a (ps @ qs) = Some x"
proof -
  have "find P ps = Some y \<Longrightarrow> find P (ps @ qs) = Some y" for P :: "u64 \<times> f64 \<Rightarrow> bool" and y
    by (induction ps) auto
  then show "first_mark c a ps = Some x \<Longrightarrow> first_mark c a (ps @ qs) = Some x" by (auto simp: first_mark_def)
qed

lemma fill_measured_append: "fill_measured f ps x \<Longrightarrow> fill_measured f (ps @ qs) x"
  unfolding fill_measured_def using first_mark_append by metis

definition pending_matches :: "fill_event \<times> (u64 \<times> f64) list \<Rightarrow> pending_fill \<Rightarrow> bool" where
  "pending_matches l p \<longleftrightarrow> pf_fill p = fst l \<and> marked p (snd l)"

definition measured_by :: "fill_event \<times> (u64 \<times> f64) list \<Rightarrow> truth_output \<Rightarrow> bool" where
  "measured_by l out \<longleftrightarrow> fill_measured (fst l) (snd l) (to_sample out)"

lemma drain_queue:
  "list_all2 pending_matches L ps \<Longrightarrow> \<forall>p \<in> set ps. due ts p \<longrightarrow> pf_price_5s p \<noteq> None \<Longrightarrow>
    \<exists>k. list_all2 measured_by (take k L) (snd (drain pow15 ts s ps)) \<and> tt_pending (fst (drain pow15 ts s ps)) = drop k ps"
proof (induction ps arbitrary: L s)
  case Nil
  then show ?case by (intro exI[of _ 0]) simp
next
  case (Cons p ps)
  then obtain l L' where L: "L = l # L'" "pending_matches l p" "list_all2 pending_matches L' ps"
    by (auto simp: list_all2_Cons2)
  show ?case
  proof (cases "due ts p")
    case True
    let ?s1 = "fst (finalize pow15 s p)"
    obtain k where k: "list_all2 measured_by (take k L') (snd (drain pow15 ts ?s1 ps))"
      "tt_pending (fst (drain pow15 ts ?s1 ps)) = drop k ps"
      using Cons.IH[OF L(3)] Cons.prems(2) by (metis list.set_intros(2))
    have "measured_by l (snd (finalize pow15 s p))"
      using L(2) finalize_sample[of p "snd l" pow15 s] Cons.prems(2) True by (simp add: measured_by_def pending_matches_def)
    then show ?thesis using True k L(1) by (intro exI[of _ "Suc k"]) (simp add: case_prod_unfold Let_def)
  next
    case False
    then show ?thesis by (intro exI[of _ 0]) simp
  qed
qed

lemma truth_run_queue:
  "\<exists>k. list_all2 measured_by (take k (live_fills is)) (concat (snd (truth_run pow15 truth_task_init is)))
    \<and> list_all2 pending_matches (drop k (live_fills is)) (tt_pending (fst (truth_run pow15 truth_task_init is)))"
proof (induction "is" rule: rev_induct)
  case Nil
  show ?case by (simp add: truth_run_def truth_task_init_def)
next
  case (snoc i "is")
  define s where "s = fst (truth_run pow15 truth_task_init is)"
  define outs where "outs = concat (snd (truth_run pow15 truth_task_init is))"
  have step: "fst (truth_run pow15 truth_task_init (is @ [i])) = fst (truth_step pow15 s i)"
    "concat (snd (truth_run pow15 truth_task_init (is @ [i]))) = outs @ snd (truth_step pow15 s i)"
    by (simp_all add: truth_run_def run_task_append s_def outs_def case_prod_unfold Let_def)
  obtain k where k: "list_all2 measured_by (take k (live_fills is)) outs"
    "list_all2 pending_matches (drop k (live_fills is)) (tt_pending s)"
    using snoc.IH by (auto simp: s_def outs_def)
  show ?case
  proof (cases i)
    case (FillSeen f)
    have l: "length (drop k (live_fills is)) = length (tt_pending s)" using k(2) by (rule list_all2_lengthD)
    have "pending_matches (f, []) (pending_of f)" using marked_new by (simp add: pending_matches_def pending_of_def)
    moreover define n where "n = min k (length (live_fills is))"
    have n: "take n (live_fills is) = take k (live_fills is)" "drop n (live_fills is) = drop k (live_fills is)"
      "n \<le> length (live_fills is)" by (simp_all add: n_def min_def)
    ultimately show ?thesis using FillSeen k step
      by (intro exI[of _ n]) (simp add: truth_step_def live_fills_append list_all2_appendI)
  next
    case (MarketSeen u)
    show ?thesis
    proof (cases "truth_market_price u")
      case None
      then show ?thesis using MarketSeen k step
        by (intro exI[of _ k]) (simp add: truth_step_def live_fills_append case_prod_unfold)
    next
      case (Some tp)
      obtain ts price where tp: "tp = (ts, price)" by fastforce
      define g where "g = (\<lambda>(f :: fill_event, ps). (f, ps @ [(ts, price)]))"
      have L: "live_fills (is @ [i]) = map g (live_fills is)"
        using MarketSeen Some tp by (simp add: live_fills_append g_def)
      have m: "list_all2 pending_matches (map g (drop k (live_fills is))) (map (mark_pending ts price) (tt_pending s))"
        using k(2) by (auto simp: list_all2_conv_all_nth pending_matches_def g_def case_prod_unfold marked_step)
      have "\<forall>p \<in> set (map (mark_pending ts price) (tt_pending s)). due ts p \<longrightarrow> pf_price_5s p \<noteq> None"
      proof
        fix q
        assume "q \<in> set (map (mark_pending ts price) (tt_pending s))"
        then obtain p where q: "q = mark_pending ts price p" by auto
        have "due ts q \<Longrightarrow> pf_price_5s q \<noteq> None" if "MARKOUT_5S \<le> sat_sub ts (pf_created_at p) \<or> pf_price_5s q \<noteq> None"
          using that by (auto simp: q mark_pending_def mark_at_def Let_def)
        then show "due ts q \<longrightarrow> pf_price_5s q \<noteq> None"
          by (auto simp: due_def markout_ages q word_le_nat_alt word_less_nat_alt)
      qed
      with m obtain j where j: "list_all2 measured_by (take j (map g (drop k (live_fills is))))
          (snd (drain pow15 ts s (map (mark_pending ts price) (tt_pending s))))"
        "tt_pending (fst (drain pow15 ts s (map (mark_pending ts price) (tt_pending s)))) =
          drop j (map (mark_pending ts price) (tt_pending s))"
        using drain_queue by meson
      have gm: "measured_by (g l) out" if "measured_by l out" for l out
        using that by (cases l) (simp add: measured_by_def g_def fill_measured_append)
      have o: "list_all2 measured_by (take k (map g (live_fills is))) outs"
        unfolding take_map list_all2_map1 by (rule list_all2_mono[OF k(1) gm])
      have "list_all2 measured_by (take (k + j) (map g (live_fills is))) (outs @ snd (truth_step pow15 s i))"
        using list_all2_appendI[OF o j(1)] MarketSeen Some tp
        by (simp add: truth_step_def update_pending_def take_add drop_map)
      moreover have "list_all2 pending_matches (drop (k + j) (map g (live_fills is))) (tt_pending (fst (truth_step pow15 s i)))"
        using list_all2_dropI[OF m, of j] j(2) MarketSeen Some tp
        by (simp add: truth_step_def update_pending_def drop_map add.commute)
      ultimately show ?thesis unfolding step L by blast
    qed
  qed
qed

lemma drain_front:
  "tt_pending (fst (drain pow15 ts s ps)) = dropWhile (due ts) ps"
  by (induction ps arbitrary: s) (simp_all add: case_prod_unfold Let_def)

section \<open>The range of a sample\<close>

definition fill_measurable :: "fill_event \<Rightarrow> bool" where
  "fill_measurable f \<longleftrightarrow> mag 21 (fe_price f) \<and> mag 12 (fe_filled_size f) \<and> fin (fe_size f)
     \<and> mag 34 (fe_fee f) \<and> mag 34 (fe_rebate_amount f) \<and> mag 34 (fe_funding_amount f)
     \<and> mag 36 (fe_actual_slippage_bps f) \<and> mag 38 (fe_expected_markout f)
     \<and> et_partial_fill_ratio (fe_truth f) \<noteq> NaN \<and> fe_latency_us f < 2 ^ 49"

lemma markout_mag:
  assumes "fill_measurable f" "mag 21 p"
  shows "mag 37 (markout_pnl f p)"
proof -
  have "mag (22 + 12) ((p - fe_price f) * fe_filled_size f)"
    using assms mag_minus[of 21 p "fe_price f"] by (intro mag_times) (simp_all add: fill_measurable_def)
  then have a: "mag 34 ((p - fe_price f) * fe_filled_size f * fill_side_sign (fe_side f))"
    using mag_times[of 34 _ 0 "fill_side_sign (fe_side f)"] by (cases "fe_side f") (simp_all add: fill_side_sign_def)
  have f: "mag 34 (fe_fee f)" "mag 35 (fe_rebate_amount f)" "mag 36 (fe_funding_amount f)"
    using assms(1) mag_mono[of 34 "fe_rebate_amount f" 35] mag_mono[of 34 "fe_funding_amount f" 36]
    by (simp_all add: fill_measurable_def)
  have "mag 35 ((p - fe_price f) * fe_filled_size f * fill_side_sign (fe_side f) - fe_fee f)"
    using mag_minus[OF a f(1)] by simp
  from mag_plus[OF this f(2)] have "mag 36 ((p - fe_price f) * fe_filled_size f * fill_side_sign (fe_side f) - fe_fee f + fe_rebate_amount f)"
    by simp
  from mag_minus[OF this f(3)] show ?thesis by (simp add: markout_pnl_def)
qed

lemma fill_quality_unit:
  assumes "fill_measurable f" "mag 37 (mk_pnl_100ms m)" "mag 37 (mk_pnl_500ms m)"
  shows "rng 0 1 (fill_quality_of f m (adverse_selection_score m))"
proof -
  have "0 \<le> f_max (- mk_pnl_100ms m) 0 * lit 0.65 + f_max (- mk_pnl_500ms m) 0 * lit 0.35"
    by (intro plus_nonneg times_nonneg(2) f_max_zero_nonneg) (simp_all add: f64_eval)
  then have "0 \<le> (f_max (- mk_pnl_100ms m) 0 * lit 0.65 + f_max (- mk_pnl_500ms m) 0 * lit 0.35) / lit 10"
    by (intro divide_nonneg) (simp_all add: lit_exact)
  then have a: "rng 0 1 (adverse_selection_score m)"
    unfolding adverse_selection_score_def Let_def by (rule f_clamp_unit_nonneg)
  have "fin (fe_size f)" "fin (fe_filled_size f)" using assms(1) by (auto simp: fill_measurable_def dest: mag_fin)
  then have "fe_filled_size f / fe_size f \<noteq> NaN" if "0 < fe_size f"
    using that by (intro divide_not_nan) (auto simp: fin_less_iff)
  then have r: "rng 0 1 (if 0 < fe_size f then f_clamp (fe_filled_size f / fe_size f) 0 1 else 0)"
    by (simp add: rng_0_1 f_clamp_unit)
  have "mk_pnl_500ms m / lit 20 \<noteq> NaN" using assms(3) by (intro divide_lit_not_nan) (auto dest: mag_not_nan)
  then have k: "rng 0 1 (f_clamp (lit 0.5 + mk_pnl_500ms m / lit 20) 0 1)"
    by (intro f_clamp_unit plus_not_nan) (simp_all add: f64_eval)
  have u: "0 \<le> lit q * x" if "rng 0 1 x" "0 \<le> q" "q \<le> 1" for q x
    using unit_term[OF that] by (simp add: rng_iff_le zero_f64_def)
  show ?thesis unfolding fill_quality_of_def Let_def
    by (intro f_clamp_unit_nonneg plus_nonneg u r k one_minus_unit a) simp_all
qed

lemma duration_bound: "l < 2 ^ 49 \<Longrightarrow> max (l div 1000) 1 < (2 ^ 40 :: u64)"
proof -
  assume "l < 2 ^ 49"
  then have "unat (l div 1000) < 2 ^ 40" by (simp add: word_less_nat_alt unat_div)
  then show ?thesis by (simp add: max_def word_less_nat_alt)
qed

lemma sample_of_fill_ok:
  assumes "fill_measurable f" "mag 21 a" "mag 21 b" "mag 21 c" "mag 21 d"
  shows "sample_ok (sample_of_fill f a b c d) \<and> learning_sample_ok (sample_of_fill f a b c d)"
proof -
  define m where "m = markouts f (Some a) (Some b) (Some c) (Some d)"
  have m: "mag 37 (mk_pnl_100ms m)" "mag 37 (mk_pnl_500ms m)"
    using markout_mag[OF assms(1)] assms(2,3) by (simp_all add: m_def markouts_def)
  note q = fill_quality_unit[OF assms(1) m]
  have sl: "mag 36 (fe_actual_slippage_bps f)" "mag 38 (fe_expected_markout f)" using assms(1) by (simp_all add: fill_measurable_def)
  have "mag 37 (f_max (fe_actual_slippage_bps f) 0)" using mag_mono[OF sl(1), of 37] by (intro mag_select) simp_all
  from mag_minus[OF m(2) this] have p: "mag 38 (mk_pnl_500ms m - f_max (fe_actual_slippage_bps f) 0)" by simp
  from mag_minus[OF this sl(2)] have "mag 39 (mk_pnl_500ms m - f_max (fe_actual_slippage_bps f) 0 - fe_expected_markout f)" by simp
  note up = mag_mono[OF this, of 40] mag_mono[OF p, of 40] mag_mono[OF m(2), of 40] mag_mono[OF sl(1), of 40] mag_mono[OF sl(2), of 40]
  have fr: "f_clamp (et_partial_fill_ratio (fe_truth f)) 0 1 \<noteq> NaN"
    using assms(1) by (intro rngD(4)[OF f_clamp_unit]) (simp add: fill_measurable_def)
  have du: "max (fe_latency_us f div 1000) 1 < 2 ^ 40" using assms(1) by (intro duration_bound) (simp add: fill_measurable_def)
  show ?thesis using up q fr du
    by (simp add: sample_ok_def learning_sample_ok_def sample_of_fill_def learning_sample_from_event_def event_of_markout_def
        m_def[symmetric] Let_def rngD mag_def)
qed

lemma fill_measured_ok:
  assumes "fill_measured f ps x" "fill_measurable f" "\<forall>p \<in> set ps. mag 21 (snd p)"
  shows "sample_ok x \<and> learning_sample_ok x"
proof -
  have m: "mag 21 q" if h: "first_mark c age ps = Some q" for c age q
  proof -
    have "find P ps = Some y \<Longrightarrow> y \<in> set ps" for P y by (induction ps) (auto split: if_splits)
    moreover obtain t where "find (\<lambda>(ts, p). age \<le> sat_sub ts c) ps = Some (t, q)" using h by (auto simp: first_mark_def)
    ultimately have "(t, q) \<in> set ps" by blast
    then show ?thesis using assms(3) by auto
  qed
  show ?thesis using assms(1,2) m sample_of_fill_ok by (auto simp: fill_measured_def)
qed

lemma sent_samples_valid:
  assumes "\<forall>(f, ps) \<in> set (live_fills is). fill_measurable f" "\<forall>p \<in> set (seen_prices is). mag 21 (snd p)"
    "out \<in> set (concat (snd (truth_run pow15 truth_task_init is)))"
  shows "core_input_ok (LearnMsg (to_sample out))"
proof -
  obtain k where k: "list_all2 measured_by (take k (live_fills is)) (concat (snd (truth_run pow15 truth_task_init is)))"
    using truth_run_queue by blast
  then obtain l where l: "l \<in> set (take k (live_fills is))" "measured_by l out"
  proof -
    have "list_all2 measured_by xs ys \<Longrightarrow> y \<in> set ys \<Longrightarrow> \<exists>x \<in> set xs. measured_by x y" for xs ys y
      by (induction rule: list_all2_induct) auto
    then show ?thesis using k assms(3) that by blast
  qed
  have "\<forall>(f, ps) \<in> set (live_fills js). set ps \<subseteq> set (seen_prices js)" for js
    by (induction js rule: live_fills.induct) (auto split: option.split)
  moreover have m: "l \<in> set (live_fills is)" using l(1) by (rule in_set_takeD)
  ultimately have "set (snd l) \<subseteq> set (seen_prices is)" by fastforce
  moreover have "fill_measurable (fst l)" using assms(1) m by fastforce
  ultimately show ?thesis using fill_measured_ok[of "fst l" "snd l" "to_sample out"] assms(2) l(2)
    by (auto simp: core_input_ok_def measured_by_def)
qed

section \<open>Properties\<close>

text \<open>C33: Every live fill is measured once, in the order of arrival, by the first market price that is
  at least 100, 500, 1000 and 5000 milliseconds younger than it: after any inputs the samples
  sent are those of the first live fills, and exactly the others are pending. No fill is ever
  finalised without its four marks; the timeout and the fallback to the fill price are
  unreachable. Simulated fills never yield a sample.\<close>
theorem fills_measured_once:
  "\<exists>k. list_all2 (\<lambda>(fill, prices) out. fill_measured fill prices (to_sample out))
        (take k (live_fills is)) (concat (snd (truth_run pow15 truth_task_init is)))
    \<and> map pf_fill (tt_pending (fst (truth_run pow15 truth_task_init is))) = map fst (drop k (live_fills is))"
proof -
  obtain k where k: "list_all2 measured_by (take k (live_fills is)) (concat (snd (truth_run pow15 truth_task_init is)))"
    "list_all2 pending_matches (drop k (live_fills is)) (tt_pending (fst (truth_run pow15 truth_task_init is)))"
    using truth_run_queue by blast
  have "measured_by = (\<lambda>(fill, prices) out. fill_measured fill prices (to_sample out))"
    by (auto simp: fun_eq_iff measured_by_def)
  moreover have "map pf_fill (tt_pending (fst (truth_run pow15 truth_task_init is))) = map fst (drop k (live_fills is))"
    using k(2) by (auto simp: list_all2_conv_all_nth pending_matches_def intro!: nth_equalityI)
  ultimately show ?thesis using k(1) by auto
qed

text \<open>Measuring does not fall behind: when the pending fills are in the order of their times, no
  fill that is five seconds old or older is pending after a market price.\<close>
theorem fills_measured_in_time:
  assumes "sorted (map pf_created_at (tt_pending s))" "truth_market_price u = Some (ts, price)"
    "p \<in> set (tt_pending (fst (truth_step pow15 s (MarketSeen u))))"
  shows "sat_sub ts (pf_created_at p) < MARKOUT_5S"
proof -
  let ?ps = "map (mark_pending ts price) (tt_pending s)"
  have t: "tt_pending (fst (truth_step pow15 s (MarketSeen u))) = dropWhile (due ts) ?ps"
    using assms(2) by (simp add: truth_step_def update_pending_def drain_front)
  obtain q qs where q: "dropWhile (due ts) ?ps = q # qs" "p \<in> set (q # qs)" using assms(3) unfolding t by (cases "dropWhile (due ts) ?ps") auto
  then have "\<not> due ts q" by (simp add: dropWhile_eq_Cons_conv)
  have "q \<in> set ?ps" using q(1) by (metis list.set_intros(1) set_dropWhileD)
  then obtain q' where q': "q = mark_pending ts price q'" by auto
  have young: "sat_sub ts (pf_created_at q) < MARKOUT_5S"
  proof (rule ccontr)
    assume "\<not> ?thesis"
    then have "pf_price_5s q \<noteq> None" by (simp add: q' mark_pending_def mark_at_def Let_def not_less)
    with \<open>\<not> due ts q\<close> show False by (simp add: due_def)
  qed
  have "sorted (map pf_created_at ?ps)" using assms(1) by (simp add: comp_def)
  moreover have "?ps = takeWhile (due ts) ?ps @ q # qs" using q(1) by (metis takeWhile_dropWhile_id)
  ultimately have "sorted (map pf_created_at (q # qs))" by (metis map_append sorted_append)
  then have "pf_created_at q \<le> pf_created_at p" using q(2) by auto
  then have "sat_sub ts (pf_created_at p) \<le> sat_sub ts (pf_created_at q)" by (simp add: word_le_nat_alt unat_sat_sub)
  with young show ?thesis by simp
qed

text \<open>The loop is closed: on fills and market prices of bounded values every sample that is sent is
  one that the decision stage accepts, so the loop that learns from it keeps its guarantees.\<close>
theorem measured_samples_valid:
  assumes "\<forall>(f, ps) \<in> set (live_fills is). fill_measurable f" "\<forall>p \<in> set (seen_prices is). mag 21 (snd p)"
    "out \<in> set (concat (snd (truth_run pow15 truth_task_init is)))"
  shows "core_input_ok (LearnMsg (to_sample out))"
  by (rule sent_samples_valid[OF assms])

definition ex_truth :: execution_truth where
  "ex_truth = \<lparr>et_request_timestamp = 900, et_send_timestamp = 901, et_ack_timestamp = 950, et_exchange_accept_timestamp = 950,
     et_first_fill_timestamp = 1000, et_last_fill_timestamp = 1000, et_partial_fill_ratio = 1, et_cancel_reason = None,
     et_reject_reason = None, et_spread_at_execution = 0, et_queue_delay_us = 0, et_simulated = False\<rparr>"

definition ex_live_fill :: "u64 \<Rightarrow> fill_event" where
  "ex_live_fill ts = \<lparr>fe_order_id = ''o1'', fe_fill_id = ''f1'', fe_symbol = ''BTCUSDT'', fe_side = Buy, fe_size = 1, fe_price = Fin 100,
     fe_requested_price = Fin 100, fe_filled_size = 1, fe_remaining_size = 0, fe_liquidity_flag = Taker, fe_fee = 0,
     fe_fee_asset = ''USDT'', fe_rebate_amount = 0, fe_funding_amount = 0, fe_timestamp = ts, fe_latency_us = 900,
     fe_latency_breakdown = ex_breakdown 5, fe_expected_markout = 1, fe_expected_slippage_bps = 0, fe_actual_slippage_bps = 0,
     fe_competition_flag = FlagNone, fe_queue_estimate = queue_estimate_default, fe_execution_mode = Passive,
     fe_micro_exit = \<lparr>mx_reason = ExitNone, mx_reduce_ratio = 0, mx_urgency = 0\<rparr>,
     fe_markout = \<lparr>mk_pnl_100ms = 0, mk_pnl_500ms = 0, mk_pnl_1s = 0, mk_pnl_5s = 0\<rparr>, fe_regime = market_regime_default,
     fe_complete = True, fe_truth = ex_truth\<rparr>"

definition ex_price_at :: "u64 \<Rightarrow> market_update" where
  "ex_price_at ts = TradeUpdate \<lparr>te_timestamp = ts, te_price = Fin 101, te_volume = 1, te_side = Buy\<rparr>"

lemma ex_price_simps: "truth_market_price (ex_price_at ts) = Some (ts, Fin 101)"
  by (simp add: truth_market_price_def ex_price_at_def fin_less_iff)

lemma ex_live_fill_ok: "fill_measurable (ex_live_fill ts)"
  by (simp add: fill_measurable_def ex_live_fill_def ex_truth_def mag_def)

theorem fills_measured_in_time_witness:
  "sat_sub 6000 (pf_created_at (mark_pending 6000 (Fin 101) (pending_of (ex_live_fill 5500)))) < MARKOUT_5S"
proof (rule fills_measured_in_time)
  let ?s = "truth_task_init\<lparr>tt_pending := [pending_of (ex_live_fill 1000), pending_of (ex_live_fill 5500)]\<rparr>"
  show "sorted (map pf_created_at (tt_pending ?s))" by (simp add: pending_of_def ex_live_fill_def)
  show "truth_market_price (ex_price_at 6000) = Some (6000, Fin 101)" by (rule ex_price_simps)
  show "mark_pending 6000 (Fin 101) (pending_of (ex_live_fill 5500)) \<in> set (tt_pending (fst (truth_step id ?s (MarketSeen (ex_price_at 6000)))))"
    by (simp add: truth_step_def ex_price_simps update_pending_def drain_front due_def mark_pending_def mark_at_def pending_of_def
        ex_live_fill_def markout_ages sat_sub_def Let_def del: drain.simps)
qed

definition ex_truth_inputs :: "truth_input list" where
  "ex_truth_inputs = [FillSeen (ex_live_fill 1000), MarketSeen (ex_price_at 1100), MarketSeen (ex_price_at 7000)]"

theorem measured_samples_valid_witness:
  "core_input_ok (LearnMsg (to_sample (hd (concat (snd (truth_run id truth_task_init ex_truth_inputs))))))"
proof (rule measured_samples_valid)
  show "\<forall>(f, ps) \<in> set (live_fills ex_truth_inputs). fill_measurable f"
    using ex_live_fill_ok by (simp add: ex_truth_inputs_def)
  show "\<forall>p \<in> set (seen_prices ex_truth_inputs). mag 21 (snd p)" by (simp add: ex_truth_inputs_def ex_price_simps mag_def)
  have "concat (snd (truth_run id truth_task_init ex_truth_inputs)) \<noteq> []"
    by (simp add: ex_truth_inputs_def truth_run_def truth_step_def ex_price_simps truth_task_init_def update_pending_def
        due_def mark_pending_def mark_at_def pending_of_def ex_live_fill_def ex_truth_def markout_ages sat_sub_def
        case_prod_unfold Let_def)
  then show "hd (concat (snd (truth_run id truth_task_init ex_truth_inputs))) \<in> set (concat (snd (truth_run id truth_task_init ex_truth_inputs)))"
    by (rule hd_in_set)
qed

end
