(* ===== verification/Dispatch.thy ===== *)
theory Dispatch
  imports Latency ControllerFacts Risk
begin

text \<open>
  The dispatch of instructions to the control plane (\<open>execution_smart.rs\<close>, with \<open>queue_position.rs\<close>,
  \<open>fill_probability.rs\<close>, \<open>execution_mode.rs\<close>, \<open>symbol_profile.rs\<close>): the last gate, the choice of the
  execution mode and the request that is posted. The clock and the formatting of times are
  parameters; whether the control plane answers is outside.
\<close>

section \<open>The symbol profile\<close>

definition profile_ema :: "f64 \<Rightarrow> f64 \<Rightarrow> f64 \<Rightarrow> f64" where
  "profile_ema previous v alpha = previous * (1 - alpha) + v * alpha"

definition symbol_profile_new :: "string \<Rightarrow> symbol_profile" where
  "symbol_profile_new symbol = symbol_profile_default\<lparr>sp_symbol := symbol\<rparr>"

definition observe_intent :: "symbol_profile \<Rightarrow> order_intent \<Rightarrow> symbol_profile" where
  "observe_intent p i =
     p\<lparr>sp_avg_spread_bps := profile_ema (sp_avg_spread_bps p) (f_max (mr_spread (oi_regime i)) (lit 0.1)) (lit 0.02),
       sp_volatility_ema := profile_ema (sp_volatility_ema p) (f_max (mr_volatility (oi_regime i)) (lit 0.01)) (lit 0.02),
       sp_avg_trade_size := profile_ema (sp_avg_trade_size p) (f_max (rq_size (oi_request i)) (lit 0.0001)) (lit 0.02)\<rparr>"

definition observe_profile_fill :: "symbol_profile \<Rightarrow> fill_event \<Rightarrow> symbol_profile" where
  "observe_profile_fill p fill =
     p\<lparr>sp_avg_fill_probability := profile_ema (sp_avg_fill_probability p) (if fe_complete fill then 1 else 0) (lit 0.06),
       sp_avg_trade_size := profile_ema (sp_avg_trade_size p) (f_max (fe_filled_size fill) (lit 0.0001)) (lit 0.03)\<rparr>"

section \<open>Queue position, fill probability and mode\<close>

definition spread_pressure :: "order_intent \<Rightarrow> symbol_profile \<Rightarrow> f64" where
  "spread_pressure i p = f_clamp (mr_spread (oi_regime i) / f_max (sp_avg_spread_bps p) (lit 0.1)) (lit 0.25) (lit 4)"

definition flow_discount :: "flow_signal \<Rightarrow> f64" where
  "flow_discount s = (case s of StrongContinuation \<Rightarrow> lit 0.72 | WeakContinuation \<Rightarrow> lit 1.00
     | Exhaustion \<Rightarrow> lit 1.35 | ReversalRisk \<Rightarrow> lit 1.80)"

definition estimated_volume_ahead :: "order_intent \<Rightarrow> symbol_profile \<Rightarrow> f64" where
  "estimated_volume_ahead i p =
     rq_size (oi_request i)
       * (1 + (if rq_order_type (oi_request i) = LimitOrder then 1 else 0) * spread_pressure i p)
       * flow_discount (fs_signal (oi_flow i))
       * (1 + f_clamp (1 - mt_timing_score (oi_timing i)) 0 1)"

definition estimate_queue_position :: "order_intent \<Rightarrow> symbol_profile \<Rightarrow> queue_estimate" where
  "estimate_queue_position i p =
     (let volume_ahead = estimated_volume_ahead i p;
          queue_position = volume_ahead / f_max (sp_avg_trade_size p) (lit 0.0001)
      in \<lparr>qe_queue_position = queue_position, qe_volume_ahead = volume_ahead,
          qe_fill_probability = f_clamp (sp_avg_fill_probability p * lit 0.35 + mt_timing_score (oi_timing i) * lit 0.30
            + fs_continuation_strength (oi_flow i) * lit 0.22 + f_min (1 / (1 + queue_position)) 1 * lit 0.13) (lit 0.02) (lit 0.98),
          qe_placement_depth_bps =
            (if rq_order_type (oi_request i) = LimitOrder
             then f_clamp (lit 0.15 + f_min (mr_spread (oi_regime i)) (lit 20) * lit 0.06 + f_min queue_position (lit 8) * lit 0.04)
               (lit 0.1) (lit 3)
             else 0)\<rparr>)"

definition fill_pressure :: "flow_signal \<Rightarrow> f64" where
  "fill_pressure s = (case s of StrongContinuation \<Rightarrow> lit 0.18 | WeakContinuation \<Rightarrow> 0
     | Exhaustion \<Rightarrow> lit (- 0.18) | ReversalRisk \<Rightarrow> lit (- 0.35))"

definition classify_fill :: "order_intent \<Rightarrow> queue_estimate \<Rightarrow> fill_probability_class" where
  "classify_fill i q =
     (if lit 0.58 < qe_fill_probability q + fill_pressure (fs_signal (oi_flow i)) + mt_trade_burst (oi_timing i) * lit 0.10
           - f_clamp (mr_spread (oi_regime i) / lit 25) 0 (lit 0.30) - f_clamp (qe_queue_position q / lit 12) 0 (lit 0.25)
      then HighFill else LowFill)"

definition choose_mode :: "order_intent \<Rightarrow> fill_probability_class \<Rightarrow> execution_mode" where
  "choose_mode i fill =
     (if rq_reduce_only (oi_request i) \<or> mc_regime (oi_context i) = NewsShock \<or> fs_signal (oi_flow i) = ReversalRisk
         \<or> mt_signal (oi_timing i) = Missed then Defensive
      else if lit 0.70 < oi_urgency i \<or> oi_expected_duration_ms i < 160
         \<or> (fill = LowFill \<and> fs_signal (oi_flow i) = StrongContinuation) then Aggressive
      else Passive)"

definition order_type_of_mode :: "execution_mode \<Rightarrow> order_type" where
  "order_type_of_mode m = (case m of Aggressive \<Rightarrow> MarketOrder | Defensive \<Rightarrow> MarketOrder | Passive \<Rightarrow> LimitOrder)"

definition inside_price :: "side \<Rightarrow> f64 \<Rightarrow> f64 \<Rightarrow> f64" where
  "inside_price s reference placement_depth_bps =
     (let depth = placement_depth_bps / lit 10000
      in case s of Buy \<Rightarrow> reference * (1 - depth) | Sell \<Rightarrow> reference * (1 + depth))"

definition prepare_execution :: "order_intent \<Rightarrow> symbol_profile \<Rightarrow> order_intent" where
  "prepare_execution i profile =
     (let queue = estimate_queue_position i profile;
          fill_class = classify_fill i queue;
          mode = choose_mode i fill_class;
          i1 = i\<lparr>oi_execution_mode := mode, oi_fill_probability := fill_class,
                 oi_request := (oi_request i)\<lparr>rq_order_type := order_type_of_mode mode, rq_post_only := (mode = Passive),
                   rq_reduce_only := (mode = Defensive \<or> rq_reduce_only (oi_request i))\<rparr>\<rparr>;
          estimate = estimate_queue_position i1 profile;
          i2 = i1\<lparr>oi_queue_estimate := estimate\<rparr>
      in if rq_order_type (oi_request i2) = LimitOrder
         then i2\<lparr>oi_request := (oi_request i2)\<lparr>rq_price := Some (inside_price (rq_side (oi_request i2))
                (case rq_price (oi_request i2) of Some p \<Rightarrow> p | None \<Rightarrow> oi_last_price i2) (qe_placement_depth_bps estimate))\<rparr>\<rparr>
         else i2)"

section \<open>The last gate\<close>

definition expected_bps :: "order_intent \<Rightarrow> f64" where
  "expected_bps i =
     f_max (fs_continuation_strength (oi_flow i) * lit 5 + mt_timing_score (oi_timing i) * lit 3
       - oi_expected_slippage_bps i - f_max (mr_spread (oi_regime i)) 0 * lit 0.25) (lit (- 10))"

definition expected_real_markout_after_cost :: "order_intent \<Rightarrow> latency_distributions \<Rightarrow> f64" where
  "expected_real_markout_after_cost i d =
     (let notional = rq_size (oi_request i) * oi_last_price i;
          fill_quality = (case oi_fill_probability i of HighFill \<Rightarrow> 1 | LowFill \<Rightarrow> lit 0.4);
          latency_penalty = latency_impact_score (latency_snapshot_of d) (oi_expected_slippage_bps i) fill_quality
      in notional * expected_bps i / lit 10000 - notional * (lit 0.0004 + latency_penalty * lit 0.00025))"

definition execution_threshold :: "config \<Rightarrow> f64" where
  "execution_threshold cfg = f_max (cf_base_order_usd cfg * lit 0.00005) (lit 0.001)"

section \<open>Requests\<close>

record control_request =
  cr_idempotency_key :: string
  cr_symbol :: string
  cr_side :: string
  cr_size :: f64
  cr_price :: "f64 option"
  cr_decision :: string
  cr_signal_time :: string
  cr_max_slippage_bps :: f64
  cr_reduce_only :: bool
  cr_request_timestamp :: string
  cr_expected_realized_markout :: f64
  cr_regime_kind :: string
  cr_regime_volatility :: f64
  cr_regime_spread :: f64
  cr_regime_trend_strength :: f64

text \<open>The body of a post: a request, or the reason of a cancel, a replace, a switch.\<close>

datatype control_body =
    RequestBody control_request
  | CancelBody string
  | ReplaceBody f64 string
  | SwitchBody string "f64 option" string

datatype dispatch_outcome = Posted string control_body | Refused string

definition side_name :: "side \<Rightarrow> string" where
  "side_name s = (case s of Buy \<Rightarrow> ''BUY'' | Sell \<Rightarrow> ''SELL'')"

fun regime_kind_name :: "regime_kind \<Rightarrow> string" where
  "regime_kind_name RegimeNormal = ''Normal''"
| "regime_kind_name HighVolatility = ''HighVolatility''"
| "regime_kind_name NewsShock = ''NewsShock''"
| "regime_kind_name LowLiquidity = ''LowLiquidity''"
| "regime_kind_name TrendExpansion = ''TrendExpansion''"

fun strategy_label :: "execution_strategy \<Rightarrow> string" where
  "strategy_label StratPassive = ''PASSIVE''"
| "strategy_label StratAggressive = ''AGGRESSIVE''"
| "strategy_label StratDefensive = ''DEFENSIVE''"

definition submit_request :: "(u64 \<Rightarrow> string) \<Rightarrow> u64 \<Rightarrow> order_intent \<Rightarrow> string \<Rightarrow> f64 \<Rightarrow> control_request" where
  "submit_request fmt_time now i key markout =
     \<lparr>cr_idempotency_key = key, cr_symbol = rq_symbol (oi_request i), cr_side = side_name (rq_side (oi_request i)),
      cr_size = rq_size (oi_request i), cr_price = rq_price (oi_request i), cr_decision = ''Execute'',
      cr_signal_time = fmt_time (oi_timestamp i), cr_max_slippage_bps = rq_max_slippage_bps (oi_request i),
      cr_reduce_only = rq_reduce_only (oi_request i), cr_request_timestamp = fmt_time now,
      cr_expected_realized_markout = markout, cr_regime_kind = regime_kind_name (mc_regime (oi_context i)),
      cr_regime_volatility = mr_volatility (oi_regime i), cr_regime_spread = mr_spread (oi_regime i),
      cr_regime_trend_strength = mr_trend_strength (oi_regime i)\<rparr>"

definition exit_request :: "(u64 \<Rightarrow> string) \<Rightarrow> u64 \<Rightarrow> string \<Rightarrow> string \<Rightarrow> side \<Rightarrow> f64 \<Rightarrow> f64 option \<Rightarrow> control_request" where
  "exit_request fmt_time now order_id symbol s quantity price =
     \<lparr>cr_idempotency_key = order_id @ ''-exit'', cr_symbol = symbol, cr_side = side_name s, cr_size = quantity, cr_price = price,
      cr_decision = ''Exit'', cr_signal_time = fmt_time now, cr_max_slippage_bps = lit 8, cr_reduce_only = True,
      cr_request_timestamp = fmt_time now, cr_expected_realized_markout = 0, cr_regime_kind = ''ExecutionExit'',
      cr_regime_volatility = 0, cr_regime_spread = 0, cr_regime_trend_strength = 0\<rparr>"

definition meta_not_execute :: "order_intent \<Rightarrow> bool" where
  "meta_not_execute i \<longleftrightarrow> (case oi_meta i of None \<Rightarrow> False | Some m \<Rightarrow> md_decision m \<noteq> Execute)"

definition trim_slashes :: "string \<Rightarrow> string" where
  "trim_slashes s = rev (dropWhile (\<lambda>c. c = CHR ''/'') (rev s))"

definition order_path_of :: "string \<Rightarrow> string \<Rightarrow> string \<Rightarrow> string" where
  "order_path_of base_url order_id action = base_url @ ''/execution/orders/'' @ order_id @ ''/'' @ action"

text \<open>One instruction: the state is the profile, the clock is read when the request is built. The
  latency windows of the task stay as they were created.\<close>

definition dispatch_step ::
  "(u64 \<Rightarrow> string) \<Rightarrow> config \<Rightarrow> symbol_profile \<Rightarrow> execution_instruction \<times> u64 \<Rightarrow> symbol_profile \<times> dispatch_outcome" where
  "dispatch_step fmt_time cfg profile input =
     (let (instruction, now) = input; base_url = trim_slashes (cf_control_plane_http cfg)
      in case instruction of
        SubmitI i key \<Rightarrow>
          (let markout = expected_real_markout_after_cost i latency_distributions_default
           in if cf_max_data_age_ms cfg < oi_data_latency_ms i then (profile, Refused ''stale_before_execute'')
              else if meta_not_execute i then (profile, Refused ''meta_not_execute'')
              else if markout \<le> execution_threshold cfg then (profile, Refused ''weak_expected_real_markout'')
              else let profile1 = observe_intent profile i; i1 = prepare_execution i profile1
                   in (profile1, Posted (base_url @ ''/execution/requests'') (RequestBody (submit_request fmt_time now i1 key markout))))
      | CancelI order_id symbol reason \<Rightarrow> (profile, Posted (order_path_of base_url order_id ''cancel'') (CancelBody reason))
      | ReplaceI order_id symbol new_price reason \<Rightarrow>
          (profile, Posted (order_path_of base_url order_id ''replace'') (ReplaceBody new_price reason))
      | SwitchI order_id symbol strategy price reason \<Rightarrow>
          (profile, Posted (order_path_of base_url order_id ''strategy'') (SwitchBody (strategy_label strategy) price reason))
      | AbortI order_id symbol reason \<Rightarrow> (profile, Posted (order_path_of base_url order_id ''cancel'') (CancelBody reason))
      | ExitI order_id symbol s quantity price reason \<Rightarrow>
          (profile, Posted (base_url @ ''/execution/requests'') (RequestBody (exit_request fmt_time now order_id symbol s quantity price))))"

definition dispatch_init :: "config \<Rightarrow> symbol_profile" where
  "dispatch_init cfg = symbol_profile_new (cf_symbol cfg)"

section \<open>Ranges\<close>

text \<open>What an intent of the order path carries.\<close>

definition dispatchable :: "order_intent \<Rightarrow> bool" where
  "dispatchable i \<longleftrightarrow> rng 0 128 (mr_spread (oi_regime i)) \<and> rng 0 8 (mr_volatility (oi_regime i))
     \<and> rng 0 (2 ^ 40) (rq_size (oi_request i)) \<and> rng 0 (2 ^ 60) (oi_last_price i) \<and> rng 0 1 (mt_timing_score (oi_timing i))
     \<and> rng 0 1 (fs_continuation_strength (oi_flow i))"

definition profile_ok :: "symbol_profile \<Rightarrow> bool" where
  "profile_ok p \<longleftrightarrow> rng 0 128 (sp_avg_spread_bps p) \<and> rng 0 8 (sp_volatility_ema p) \<and> rng 0 (2 ^ 40) (sp_avg_trade_size p)
     \<and> rng 0 1 (sp_avg_fill_probability p)"

lemma profile_ema_rng:
  "rng 0 128 x \<Longrightarrow> rng 0 128 y \<Longrightarrow> rng 0 128 (profile_ema x y (lit 0.02))"
  "rng 0 8 x \<Longrightarrow> rng 0 8 y \<Longrightarrow> rng 0 8 (profile_ema x y (lit 0.02))"
  "rng 0 (2 ^ 40) x \<Longrightarrow> rng 0 (2 ^ 40) y \<Longrightarrow> rng 0 (2 ^ 40) (profile_ema x y (lit 0.02))"
  "rng 0 (2 ^ 40) x \<Longrightarrow> rng 0 (2 ^ 40) y \<Longrightarrow> rng 0 (2 ^ 40) (profile_ema x y (lit 0.03))"
  "rng 0 1 x \<Longrightarrow> rng 0 1 y \<Longrightarrow> rng 0 1 (profile_ema x y (lit 0.06))"
  unfolding profile_ema_def by (rule rng_mix; simp add: f64_eval)+

lemma floor_rng: "rng 0 b x \<Longrightarrow> 0 \<le> q \<Longrightarrow> q \<le> 1 \<Longrightarrow> 1 \<le> b \<Longrightarrow> rng 0 b (f_max x (lit q))"
  using rng_f_max[of 0 b x 0 1 "lit q"] rng_lit[of 0 1 q] by simp

lemma profile_updates:
  "profile_ok (p\<lparr>sp_avg_spread_bps := a, sp_volatility_ema := b, sp_avg_trade_size := c\<rparr>)
     = (rng 0 128 a \<and> rng 0 8 b \<and> rng 0 (2 ^ 40) c \<and> rng 0 1 (sp_avg_fill_probability p))"
  "profile_ok (p\<lparr>sp_avg_fill_probability := d, sp_avg_trade_size := c\<rparr>)
     = (rng 0 128 (sp_avg_spread_bps p) \<and> rng 0 8 (sp_volatility_ema p) \<and> rng 0 (2 ^ 40) c \<and> rng 0 1 d)"
  by (simp_all add: profile_ok_def)

lemma observe_intent_ok: "profile_ok p \<Longrightarrow> dispatchable i \<Longrightarrow> profile_ok (observe_intent p i)"
  unfolding observe_intent_def profile_updates
  by (intro conjI profile_ema_rng floor_rng; simp add: profile_ok_def dispatchable_def)

lemma observe_profile_fill_ok: "profile_ok p \<Longrightarrow> rng 0 (2 ^ 40) (fe_filled_size f) \<Longrightarrow> profile_ok (observe_profile_fill p f)"
  unfolding observe_profile_fill_def profile_updates
  by (intro conjI profile_ema_rng floor_rng; simp add: profile_ok_def rng_0_1)

lemma profile_new_ok: "profile_ok (symbol_profile_new symbol)"
  by (simp add: profile_ok_def symbol_profile_new_def symbol_profile_default_def rng_def f64_eval)

text \<open>The estimate of the queue: a volume and a position that are not negative, a probability within
  [0.02, 0.98] and a depth within [0.1, 3] basis points for a limit order.\<close>

definition estimate_ok :: "order_intent \<Rightarrow> queue_estimate \<Rightarrow> bool" where
  "estimate_ok i q \<longleftrightarrow> 0 \<le> qe_volume_ahead q \<and> 0 \<le> qe_queue_position q
     \<and> rng (val (lit 0.02)) (val (lit 0.98)) (qe_fill_probability q)
     \<and> (if rq_order_type (oi_request i) = LimitOrder then rng (val (lit 0.1)) (val (lit 3)) (qe_placement_depth_bps q)
        else qe_placement_depth_bps q = 0)"

lemma volume_ahead_rng:
  assumes "dispatchable i" "profile_ok p"
  shows "rng 0 (2 ^ 50) (estimated_volume_ahead i p)"
proof -
  have "fin (sp_avg_spread_bps p)" using assms(2) by (auto simp: profile_ok_def dest: rngD)
  then have "fin (f_max (sp_avg_spread_bps p) (lit 0.1))" "0 < val (f_max (sp_avg_spread_bps p) (lit 0.1))"
    using f_max_positive[of "sp_avg_spread_bps p" "lit 0.1"] by (simp_all add: f64_eval)
  moreover have "fin (mr_spread (oi_regime i))" using assms(1) by (auto simp: dispatchable_def dest: rngD)
  ultimately have "mr_spread (oi_regime i) / f_max (sp_avg_spread_bps p) (lit 0.1) \<noteq> NaN" by (intro divide_not_nan) simp_all
  then have sp: "rng 0 4 (spread_pressure i p)" unfolding spread_pressure_def by (intro f_clamp_lit) simp_all
  have "rng 0 4 ((if rq_order_type (oi_request i) = LimitOrder then 1 else 0) * spread_pressure i p)"
    by (rule rng_times_nonneg[of 0 1 _ 0 4]) (simp_all add: sp rng_0_1)
  then have "rng 0 5 (1 + (if rq_order_type (oi_request i) = LimitOrder then 1 else 0) * spread_pressure i p)"
    by (intro rng_plus[of 0 1 _ 0 4]) (simp_all add: rng_0_1)
  then have a: "rng 0 (2 ^ 43) (rq_size (oi_request i) * (1 + (if rq_order_type (oi_request i) = LimitOrder then 1 else 0) * spread_pressure i p))"
    using assms(1) by (intro rng_times_nonneg[of 0 "2 ^ 40" _ 0 5]) (simp_all add: dispatchable_def bound_pow2)
  have "rng 0 2 (flow_discount s)" for s
    unfolding flow_discount_def by (cases s; simp only: flow_signal.case; rule rng_lit; simp)
  then have b: "rng 0 (2 ^ 44) (rq_size (oi_request i) * (1 + (if rq_order_type (oi_request i) = LimitOrder then 1 else 0) * spread_pressure i p)
      * flow_discount (fs_signal (oi_flow i)))"
    by (intro rng_times_nonneg[OF a, of 0 2]) (simp_all add: bound_pow2)
  have "1 - mt_timing_score (oi_timing i) \<noteq> NaN" using assms(1) by (intro minus_not_nan) (auto simp: dispatchable_def dest: rngD)
  then have "rng 0 2 (1 + f_clamp (1 - mt_timing_score (oi_timing i)) 0 1)"
    by (intro rng_plus[of 0 1 _ 0 1]) (simp_all add: rng_0_1 f_clamp_unit)
  then show ?thesis unfolding estimated_volume_ahead_def
    by (intro rng_times_nonneg[OF b, of 0 2]) (simp_all add: bound_pow2)
qed

lemma estimate_queue_ok:
  assumes "dispatchable i" "profile_ok p"
  shows "estimate_ok i (estimate_queue_position i p)"
proof -
  let ?v = "estimated_volume_ahead i p" and ?d = "f_max (sp_avg_trade_size p) (lit 0.0001)"
  have v: "rng 0 (2 ^ 50) ?v" by (rule volume_ahead_rng[OF assms])
  then have v0: "0 \<le> ?v" by (auto simp: rng_def fin_le_iff)
  have "fin (sp_avg_trade_size p)" using assms(2) by (auto simp: profile_ok_def dest: rngD)
  then have d: "fin ?d" "0 < val ?d" using f_max_positive[of "sp_avg_trade_size p" "lit 0.0001"] by (simp_all add: f64_eval)
  have q: "0 \<le> ?v / ?d" by (rule divide_nonneg[OF v0 d])
  then have nn: "?v / ?d \<noteq> NaN" by (auto dest: f64_le_not_nan)
  have r: "rng 0 1 (f_min (1 / (1 + ?v / ?d)) 1)"
  proof (rule min_one_unit)
    show "0 \<le> 1 / (1 + ?v / ?d)" using one_plus_pos[OF q]
      by (cases "1 + ?v / ?d") (auto simp: divide_f64_def Let_def f_inf_def f_zero_def zero_f64_def one_f64_def less_f64_def mk_nonneg[unfolded zero_f64_def])
  qed
  have u: "0 \<le> x * lit c" if "rng 0 1 x" "0 \<le> c" "c \<le> 1" for x c
    using unit_term[OF that] unfolding times_commute_f64[of x] by (simp add: rng_iff_le zero_f64_def)
  have "0 \<le> sp_avg_fill_probability p * lit 0.35 + mt_timing_score (oi_timing i) * lit 0.30
      + fs_continuation_strength (oi_flow i) * lit 0.22 + f_min (1 / (1 + ?v / ?d)) 1 * lit 0.13"
    using assms r by (intro plus_nonneg u) (simp_all add: profile_ok_def dispatchable_def)
  then have p: "rng (val (lit 0.02)) (val (lit 0.98)) (f_clamp (sp_avg_fill_probability p * lit 0.35 + mt_timing_score (oi_timing i) * lit 0.30
      + fs_continuation_strength (oi_flow i) * lit 0.22 + f_min (1 / (1 + ?v / ?d)) 1 * lit 0.13) (lit 0.02) (lit 0.98))"
    by (intro f_clamp_rng) (auto simp: f64_eval dest: f64_le_not_nan)
  have s: "0 \<le> f_min (mr_spread (oi_regime i)) (lit 20) * lit 0.06"
  proof (rule times_nonneg(2))
    have "rng 0 128 (mr_spread (oi_regime i))" using assms(1) by (simp add: dispatchable_def)
    then show "0 \<le> f_min (mr_spread (oi_regime i)) (lit 20)" by (auto simp: f_min_def rng_def fin_le_iff lit_exact)
  qed (simp_all add: f64_eval)
  have k: "0 \<le> f_min (?v / ?d) (lit 8) * lit 0.04"
  proof (rule times_nonneg(2))
    show "0 \<le> f_min (?v / ?d) (lit 8)" using q by (auto simp: f_min_def lit_exact fin_le_iff)
  qed (simp_all add: f64_eval)
  have "0 \<le> lit 0.15 + f_min (mr_spread (oi_regime i)) (lit 20) * lit 0.06 + f_min (?v / ?d) (lit 8) * lit 0.04"
    by (intro plus_nonneg s k) (simp add: f64_eval fin_le_iff)
  then have e: "rng (val (lit 0.1)) (val (lit 3)) (f_clamp (lit 0.15 + f_min (mr_spread (oi_regime i)) (lit 20) * lit 0.06
      + f_min (?v / ?d) (lit 8) * lit 0.04) (lit 0.1) (lit 3))"
    by (intro f_clamp_rng) (auto simp: f64_eval dest: f64_le_not_nan)
  show ?thesis using v0 q p e unfolding estimate_ok_def estimate_queue_position_def Let_def queue_estimate.select_convs
    by (cases "rq_order_type (oi_request i) = LimitOrder") (simp_all only: if_True if_False simp_thms)
qed

text \<open>The inside price stays within five basis points of the reference, on its side of it.\<close>

definition inside_of :: "side \<Rightarrow> f64 \<Rightarrow> f64 \<Rightarrow> bool" where
  "inside_of s reference price \<longleftrightarrow> (case s of
     Buy \<Rightarrow> reference * Fin (2047 / 2048) \<le> price \<and> price \<le> reference
   | Sell \<Rightarrow> reference \<le> price \<and> price \<le> reference * Fin (2049 / 2048))"

lemma inside_price_ok:
  assumes "fin reference" "0 \<le> val reference" "double reference" "rng (val (lit 0.1)) (val (lit 3)) d"
  shows "inside_of s reference (inside_price s reference d)"
proof -
  have b: "bound (1 / 2048 :: rat)" "bound (2047 / 2048 :: rat)" "bound (2049 / 2048 :: rat)"
    using bound_dyadic[of 1 11] bound_dyadic[of 2047 11] bound_dyadic[of 2049 11] by simp_all
  have "rng 0 3 d" using assms(4) by (rule rng_weaken) (simp_all add: f64_eval)
  moreover have "rng 10000 10000 (lit 10000)" by (simp add: lit_exact rng_def)
  ultimately have dp: "rng 0 (1 / 2048) (d / lit 10000)" by (rule rng_divide_nonneg) (simp_all add: b)
  have one: "rng 1 1 1" by (simp add: rng_def one_f64_def)
  have m: "rng (2047 / 2048) 1 (1 - d / lit 10000)" by (rule rng_minus[OF one dp]) (simp_all add: b)
  have p: "rng 1 (2049 / 2048) (1 + d / lit 10000)" by (rule rng_plus[OF one dp]) (simp_all add: b)
  have "reference * Fin (2047 / 2048) \<le> reference * (1 - d / lit 10000)" "reference * (1 + d / lit 10000) \<le> reference * Fin (2049 / 2048)"
    unfolding times_commute_f64[of reference] using m p assms(1,2) by (auto intro!: times_nonneg_mono simp: rng_def)
  moreover have "reference * (1 - d / lit 10000) \<le> reference"
    by (rule f64_times_le_self) (use m assms(1-3) in \<open>auto simp: double_def bound_def elim: rng_weaken\<close>)
  moreover have "reference \<le> reference * (1 + d / lit 10000)" using p assms(1-3) by (intro times_ge_self) (auto simp: rng_def)
  ultimately show ?thesis by (cases s) (simp_all add: inside_of_def inside_price_def)
qed

lemma prepare_fields:
  "rq_symbol (oi_request (prepare_execution i p)) = rq_symbol (oi_request i)"
  "rq_side (oi_request (prepare_execution i p)) = rq_side (oi_request i)"
  "rq_size (oi_request (prepare_execution i p)) = rq_size (oi_request i)"
  "rq_max_slippage_bps (oi_request (prepare_execution i p)) = rq_max_slippage_bps (oi_request i)"
  "rq_reduce_only (oi_request (prepare_execution i p)) \<longleftrightarrow> rq_reduce_only (oi_request i) \<or> mc_regime (oi_context i) = NewsShock
     \<or> fs_signal (oi_flow i) = ReversalRisk \<or> mt_signal (oi_timing i) = Missed"
  "rq_post_only (oi_request (prepare_execution i p)) \<longleftrightarrow> oi_execution_mode (prepare_execution i p) = Passive"
  by (auto simp: prepare_execution_def choose_mode_def Let_def)

lemma prepare_price:
  "oi_execution_mode (prepare_execution i p) \<noteq> Passive \<Longrightarrow> rq_price (oi_request (prepare_execution i p)) = rq_price (oi_request i)"
  "dispatchable i \<Longrightarrow> profile_ok p \<Longrightarrow> oi_execution_mode (prepare_execution i p) = Passive \<Longrightarrow>
    \<exists>d. rng (val (lit 0.1)) (val (lit 3)) d \<and> rq_price (oi_request (prepare_execution i p)) =
      Some (inside_price (rq_side (oi_request i)) (case rq_price (oi_request i) of Some x \<Rightarrow> x | None \<Rightarrow> oi_last_price i) d)"
proof -
  define fc where "fc = classify_fill i (estimate_queue_position i p)"
  define i1 where "i1 = i\<lparr>oi_execution_mode := choose_mode i fc, oi_fill_probability := fc,
      oi_request := (oi_request i)\<lparr>rq_order_type := order_type_of_mode (choose_mode i fc), rq_post_only := (choose_mode i fc = Passive),
      rq_reduce_only := (choose_mode i fc = Defensive \<or> rq_reduce_only (oi_request i))\<rparr>\<rparr>"
  define i2 where "i2 = i1\<lparr>oi_queue_estimate := estimate_queue_position i1 p\<rparr>"
  have e: "prepare_execution i p =
      (if rq_order_type (oi_request i2) = LimitOrder
       then i2\<lparr>oi_request := (oi_request i2)\<lparr>rq_price :=
              Some (inside_price (rq_side (oi_request i2)) (case rq_price (oi_request i2) of Some p \<Rightarrow> p | None \<Rightarrow> oi_last_price i2)
                (qe_placement_depth_bps (estimate_queue_position i1 p)))\<rparr>\<rparr>
       else i2)"
    unfolding prepare_execution_def Let_def i2_def i1_def fc_def by (rule refl)
  have m: "oi_execution_mode (prepare_execution i p) = choose_mode i fc" unfolding e by (simp add: i2_def i1_def)
  show "oi_execution_mode (prepare_execution i p) \<noteq> Passive \<Longrightarrow> rq_price (oi_request (prepare_execution i p)) = rq_price (oi_request i)"
    unfolding m e by (cases "choose_mode i fc") (simp_all add: i2_def i1_def order_type_of_mode_def)
  assume a: "dispatchable i" "profile_ok p" "oi_execution_mode (prepare_execution i p) = Passive"
  then have l: "rq_order_type (oi_request i1) = LimitOrder" unfolding m by (simp add: i1_def order_type_of_mode_def)
  have "dispatchable i1" using a(1) by (simp add: i1_def dispatchable_def)
  from estimate_queue_ok[OF this a(2)] l have d: "rng (val (lit 0.1)) (val (lit 3)) (qe_placement_depth_bps (estimate_queue_position i1 p))"
    unfolding estimate_ok_def by (simp only: if_True simp_thms)
  show "\<exists>d. rng (val (lit 0.1)) (val (lit 3)) d \<and> rq_price (oi_request (prepare_execution i p)) =
      Some (inside_price (rq_side (oi_request i)) (case rq_price (oi_request i) of Some x \<Rightarrow> x | None \<Rightarrow> oi_last_price i) d)"
    by (rule exI, rule conjI, rule d) (use l in \<open>simp add: e i2_def i1_def split: option.splits\<close>)
qed

definition dispatchable_instruction :: "execution_instruction \<Rightarrow> bool" where
  "dispatchable_instruction n = (case n of SubmitI i key \<Rightarrow> dispatchable i | _ \<Rightarrow> True)"

lemma dispatch_step_profile:
  "profile_ok p \<Longrightarrow> dispatchable_instruction (fst x) \<Longrightarrow> profile_ok (fst (dispatch_step fmt cfg p x))"
  by (cases x; cases "fst x") (simp_all add: dispatch_step_def dispatchable_instruction_def Let_def observe_intent_ok)

interpretation dispatch: guarded_handler "\<lambda>p x. fst (dispatch_step fmt cfg p x)" profile_ok "\<lambda>x. dispatchable_instruction (fst x)"
  for fmt cfg
  by unfold_locales (rule dispatch_step_profile)

text \<open>What a posted submission went through.\<close>

lemma posted_submission:
  assumes "snd (dispatch_step fmt cfg p (SubmitI i key, now)) = Posted path (RequestBody r)"
  shows "\<not> cf_max_data_age_ms cfg < oi_data_latency_ms i" "\<not> meta_not_execute i"
    "\<not> expected_real_markout_after_cost i latency_distributions_default \<le> execution_threshold cfg"
    "r = submit_request fmt now (prepare_execution i (observe_intent p i)) key
      (expected_real_markout_after_cost i latency_distributions_default)"
  using assms by (auto simp: dispatch_step_def Let_def split: if_splits)

text \<open>The expected markout is a number when the expected slippage is not negative.\<close>

lemma expected_bps_rng:
  assumes "dispatchable i" "0 \<le> oi_expected_slippage_bps i"
  shows "rng (- 10) 8 (expected_bps i)"
proof -
  let ?s = "oi_expected_slippage_bps i" and ?a = "fs_continuation_strength (oi_flow i) * lit 5 + mt_timing_score (oi_timing i) * lit 3"
  have l: "rng 5 5 (lit 5)" "rng 3 3 (lit 3)" by (rule rng_lit; simp)+
  have a: "rng 0 8 ?a" by (intro rng_plus[of 0 5 _ 0 3] rng_times_nonneg[OF _ l(1), of 0 1] rng_times_nonneg[OF _ l(2), of 0 1])
      (use assms(1) in \<open>simp_all add: dispatchable_def\<close>)
  have "rng 0 128 (f_max (mr_spread (oi_regime i)) 0)" using rng_f_max[of 0 128 "mr_spread (oi_regime i)" 0 0 0] assms(1)
    by (simp add: dispatchable_def rng_0_1)
  then have b: "rng 0 128 (f_max (mr_spread (oi_regime i)) 0 * lit 0.25)"
    by (rule rng_times_nonneg[of 0 128 _ 0 1]) (simp_all add: rng_lit)
  have s: "?a - ?s \<noteq> NaN" using a assms(2) by (intro minus_not_nan) (auto dest: rngD f64_le_not_nan)
  then have n: "?a - ?s - f_max (mr_spread (oi_regime i)) 0 * lit 0.25 \<noteq> NaN" by (rule minus_not_nan(2)) (use b in \<open>auto dest: rngD\<close>)
  have "?a - ?s \<le> Fin 8"
  proof (cases "fin ?s")
    case True
    then have "?a - ?s \<le> Fin 8 - 0" using assms(2) a by (intro minus_mono_fin) (simp_all add: rng_iff_le)
    then show ?thesis by (simp add: f64_eval)
  next
    case False
    then have "?s = PInf" using assms(2) by (cases ?s) (simp_all add: zero_f64_def f_zero_def)
    then show ?thesis using a by (cases ?a) (simp_all add: rng_def minus_f64_def plus_f64_def)
  qed
  then have "?a - ?s - f_max (mr_spread (oi_regime i)) 0 * lit 0.25 \<le> Fin 8 - 0"
    using b by (intro minus_mono_fin) (auto simp: rng_def fin_le_iff)
  then have "?a - ?s - f_max (mr_spread (oi_regime i)) 0 * lit 0.25 \<le> Fin 8" by (simp add: f64_eval)
  moreover have "lit (- 10) = Fin (- 10)" by (simp add: f64_eval)
  ultimately show ?thesis using n unfolding expected_bps_def rng_iff_le f_max_def
    by (auto simp: f64_less_iff_not_le)
qed

lemma notional_rng:
  assumes "dispatchable i"
  shows "rng 0 (2 ^ 100) (rq_size (oi_request i) * oi_last_price i)"
  using assms by (intro rng_times_nonneg[of 0 "2 ^ 40" _ 0 "2 ^ 60"] bound_pow2) (simp_all add: dispatchable_def)

lemma markout_number:
  assumes "dispatchable i" "0 \<le> oi_expected_slippage_bps i"
  shows "expected_real_markout_after_cost i d \<noteq> NaN"
proof -
  let ?n = "rq_size (oi_request i) * oi_last_price i"
  let ?q = "case oi_fill_probability i of HighFill \<Rightarrow> 1 | LowFill \<Rightarrow> lit 0.4"
  have q: "?q \<noteq> NaN" by (cases "oi_fill_probability i") simp_all
  have s: "oi_expected_slippage_bps i \<noteq> NaN" using assms(2) by (auto dest: f64_le_not_nan)
  have "rng 0 1 (latency_impact_score (latency_snapshot_of d) (oi_expected_slippage_bps i) ?q * lit 0.00025)"
    using latency_impact_unit[OF s q] by (rule rng_times_nonneg[of 0 1 _ 0 1]) (simp_all add: rng_lit)
  then have "rng 0 2 (lit 0.0004 + latency_impact_score (latency_snapshot_of d) (oi_expected_slippage_bps i) ?q * lit 0.00025)"
    by (intro rng_plus[of 0 1 _ 0 1]) (simp_all add: rng_lit)
  then have c: "rng 0 (2 ^ 101) (?n * (lit 0.0004 + latency_impact_score (latency_snapshot_of d) (oi_expected_slippage_bps i) ?q * lit 0.00025))"
    by (intro rng_times_nonneg[OF notional_rng[OF assms(1)], of 0 2] bound_pow2) simp_all
  have "?n * expected_bps i \<noteq> NaN" using notional_rng[OF assms(1)] expected_bps_rng[OF assms] by (intro times_not_nan) (auto dest: rngD)
  then have "?n * expected_bps i / lit 10000 \<noteq> NaN" by (rule divide_lit_not_nan) simp_all
  then show ?thesis unfolding expected_real_markout_after_cost_def Let_def
    by (intro minus_not_nan(2)) (use c in \<open>auto dest: rngD\<close>)
qed

section \<open>Properties\<close>

definition reference_of :: "order_intent \<Rightarrow> f64" where
  "reference_of i = (case rq_price (oi_request i) of Some p \<Rightarrow> p | None \<Rightarrow> oi_last_price i)"



section \<open>Instances\<close>

definition ex_good :: order_intent where
  "ex_good = ex_intent\<lparr>oi_flow := ex_flow\<lparr>fs_continuation_strength := 1\<rparr>, oi_timing := ex_timing\<lparr>mt_timing_score := 1\<rparr>\<rparr>"

lemmas latency_eval = latency_impact_score_def latency_snapshot_of_def latency_distributions_default_def
  latency_distributions_new_def summarize_def normalize_us_def

lemma ex_good_passes:
  "\<not> expected_real_markout_after_cost ex_good latency_distributions_default \<le> execution_threshold config_default"
  by (simp add: expected_real_markout_after_cost_def expected_bps_def execution_threshold_def latency_eval ex_good_def sample_defs
      Let_def f64_eval)

lemma ex_good_ok: "dispatchable ex_good" "oi_data_latency_ms ex_good \<le> cf_max_data_age_ms config_default" "oi_meta ex_good = None"
  by (simp_all add: ex_good_def dispatchable_def sample_defs rng_def f64_eval)



end
