(* ===== verification/Feed.thy ===== *)
theory Feed
  imports Truth Dispatch
begin

unbundle bit_operations_syntax

text \<open>
  The feed of the control plane (\<open>execution_external.rs\<close>): an update becomes an event of the execution
  controller and, when it reports a fill, a fill event for the position and for the measurement.
  The web socket and the reader of the JSON texts are outside: an update is its kind and, when its
  data has the expected shape, the decoded payload. Metrics are left out.
\<close>

section \<open>The payload\<close>

type_synonym i64 = "64 word"

record cp_latency =
  cl_decision_latency :: u64
  cl_send_latency :: u64
  cl_ack_latency :: u64
  cl_first_fill_latency :: u64
  cl_full_fill_latency :: u64

record cp_execution =
  cx_slippage_real :: f64
  cx_partial_fill_ratio :: f64
  cx_competition_flag :: "string option"
  cx_latency_breakdown :: cp_latency

record cp_ledger_entry =
  cg_order_id :: string
  cg_fill_id :: string
  cg_price :: f64
  cg_quantity :: f64
  cg_liquidity_flag :: string
  cg_fee_amount :: f64
  cg_fee_asset :: string
  cg_rebate_amount :: f64
  cg_funding_amount :: f64
  cg_event_time_unix_ms :: i64

record cp_order =
  co_id :: "string option"
  co_idempotency_key :: "string option"
  co_symbol :: string
  co_side :: string
  co_size :: f64
  co_price :: "f64 option"
  co_status :: "string option"
  co_filled :: "f64 option"

record cp_update =
  cu_order :: cp_order
  cu_ledger :: "cp_ledger_entry option"
  cu_execution :: "cp_execution option"
  cu_request_timestamp_ms :: i64
  cu_send_timestamp_ms :: i64
  cu_ack_timestamp_ms :: i64
  cu_first_fill_timestamp_ms :: i64
  cu_last_fill_timestamp_ms :: i64
  cu_expected_realized_markout :: "f64 option"
  cu_regime_kind :: "string option"
  cu_regime_volatility :: "f64 option"
  cu_regime_spread :: "f64 option"
  cu_regime_trend_strength :: "f64 option"

record ws_update =
  wu_kind :: string
  wu_data :: "cp_update option"

section \<open>Reading the fields\<close>

definition parse_side :: "string \<Rightarrow> side" where
  "parse_side raw = (if raw = ''SELL'' then Sell else Buy)"

definition parse_liquidity_flag :: "string \<Rightarrow> liquidity_flag" where
  "parse_liquidity_flag raw = (if raw = ''MAKER'' then Maker else Taker)"

definition or_default :: "'a \<Rightarrow> 'a option \<Rightarrow> 'a" where
  "or_default d x = (case x of Some v \<Rightarrow> v | None \<Rightarrow> d)"

definition parse_competition_flag :: "string option \<Rightarrow> competition_flag" where
  "parse_competition_flag raw =
     (let s = or_default [] raw
      in if s = ''RepeatedOutbid'' then RepeatedOutbid
         else if s = ''CancelLatency'' then CancelLatency
         else if s = ''PartialFillToxicity'' then PartialFillToxicity
         else if s = ''SlowFill'' then SlowFill
         else FlagNone)"

definition infer_execution_mode :: "f64 option \<Rightarrow> execution_mode" where
  "infer_execution_mode price = (if price \<noteq> None then Passive else Aggressive)"

definition parse_order_status :: "string option \<Rightarrow> order_lifecycle_state" where
  "parse_order_status raw =
     (let s = or_default ''NEW'' raw
      in if s = ''SENT'' then LcSent
         else if s = ''ACK'' then LcAck
         else if s = ''PARTIAL'' then LcPartial
         else if s = ''FILLED'' then LcFilled
         else if s = ''CANCELED'' then LcCanceled
         else if s = ''REJECTED'' then LcRejected
         else LcNew)"

definition i64_max :: "i64 \<Rightarrow> i64 \<Rightarrow> i64" where
  "i64_max a b = (if a <=s b then b else a)"

definition non_negative_ms :: "i64 \<Rightarrow> u64" where
  "non_negative_ms v = i64_max v 0"

section \<open>The handler\<close>

definition partial_ratio_of :: "cp_update \<Rightarrow> f64" where
  "partial_ratio_of p = (case cu_execution p of
     Some x \<Rightarrow> cx_partial_fill_ratio x
   | None \<Rightarrow> or_default 0 (co_filled (cu_order p)) / f_max (co_size (cu_order p)) (lit (1 / 10 ^ 9)))"

definition controller_event_of :: "cp_update \<Rightarrow> execution_controller_event" where
  "controller_event_of p =
     \<lparr>ce_order_id = or_default [] (co_id (cu_order p)),
      ce_idempotency_key = co_idempotency_key (cu_order p),
      ce_symbol = co_symbol (cu_order p),
      ce_status = parse_order_status (co_status (cu_order p)),
      ce_filled_qty_delta = (case cu_ledger p of Some l \<Rightarrow> cg_quantity l | None \<Rightarrow> 0),
      ce_cumulative_filled_qty = or_default 0 (co_filled (cu_order p)),
      ce_remaining_qty = f_max (co_size (cu_order p) - or_default 0 (co_filled (cu_order p))) 0,
      ce_partial_fill_ratio = partial_ratio_of p,
      ce_slippage_bps = (case cu_execution p of Some x \<Rightarrow> cx_slippage_real x | None \<Rightarrow> 0),
      ce_competition_flag = parse_competition_flag (case cu_execution p of Some x \<Rightarrow> cx_competition_flag x | None \<Rightarrow> None),
      ce_latency_us = (case cu_execution p of Some x \<Rightarrow> cl_full_fill_latency (cx_latency_breakdown x) div 1000 | None \<Rightarrow> 0),
      ce_event_ts = non_negative_ms (i64_max (cu_last_fill_timestamp_ms p) (cu_ack_timestamp_ms p))\<rparr>"

definition truth_of_update :: "cp_update \<Rightarrow> cp_execution \<Rightarrow> execution_truth" where
  "truth_of_update p x =
     \<lparr>et_request_timestamp = non_negative_ms (cu_request_timestamp_ms p),
      et_send_timestamp = non_negative_ms (cu_send_timestamp_ms p),
      et_ack_timestamp = non_negative_ms (cu_ack_timestamp_ms p),
      et_exchange_accept_timestamp = non_negative_ms (cu_ack_timestamp_ms p),
      et_first_fill_timestamp = non_negative_ms (cu_first_fill_timestamp_ms p),
      et_last_fill_timestamp = non_negative_ms (cu_last_fill_timestamp_ms p),
      et_partial_fill_ratio = cx_partial_fill_ratio x, et_cancel_reason = None, et_reject_reason = None,
      et_spread_at_execution = 0,
      et_queue_delay_us = cl_first_fill_latency (cx_latency_breakdown x) div 1000, et_simulated = False\<rparr>"

definition fill_of_update :: "cp_update \<Rightarrow> cp_ledger_entry \<Rightarrow> cp_execution \<Rightarrow> fill_event" where
  "fill_of_update p l x =
     \<lparr>fe_order_id = cg_order_id l, fe_fill_id = cg_fill_id l, fe_symbol = co_symbol (cu_order p),
      fe_side = parse_side (co_side (cu_order p)), fe_size = co_size (cu_order p), fe_price = cg_price l,
      fe_requested_price = or_default (cg_price l) (co_price (cu_order p)), fe_filled_size = cg_quantity l,
      fe_remaining_size = f_max (co_size (cu_order p) - cg_quantity l) 0,
      fe_liquidity_flag = parse_liquidity_flag (cg_liquidity_flag l), fe_fee = cg_fee_amount l, fe_fee_asset = cg_fee_asset l,
      fe_rebate_amount = cg_rebate_amount l, fe_funding_amount = cg_funding_amount l,
      fe_timestamp = non_negative_ms (cg_event_time_unix_ms l),
      fe_latency_us = cl_full_fill_latency (cx_latency_breakdown x) div 1000,
      fe_latency_breakdown =
        \<lparr>lb_decision_latency_us = cl_decision_latency (cx_latency_breakdown x) div 1000,
         lb_send_latency_us = cl_send_latency (cx_latency_breakdown x) div 1000,
         lb_ack_latency_us = cl_ack_latency (cx_latency_breakdown x) div 1000,
         lb_first_fill_latency_us = cl_first_fill_latency (cx_latency_breakdown x) div 1000,
         lb_full_fill_latency_us = cl_full_fill_latency (cx_latency_breakdown x) div 1000\<rparr>,
      fe_expected_markout = or_default 0 (cu_expected_realized_markout p), fe_expected_slippage_bps = 0,
      fe_actual_slippage_bps = cx_slippage_real x, fe_competition_flag = parse_competition_flag (cx_competition_flag x),
      fe_queue_estimate = queue_estimate_default, fe_execution_mode = infer_execution_mode (co_price (cu_order p)),
      fe_micro_exit = micro_exit_signal_default, fe_markout = markout_snapshot_default,
      fe_regime = \<lparr>mr_volatility = or_default 0 (cu_regime_volatility p), mr_spread = or_default 0 (cu_regime_spread p),
         mr_trend_strength = or_default 0 (cu_regime_trend_strength p)\<rparr>,
      fe_complete = (lit 0.999 \<le> cx_partial_fill_ratio x), fe_truth = truth_of_update p x\<rparr>"

text \<open>What is sent: the event to the controller, the fill to the measurement and to the position.\<close>

definition handle_update :: "ws_update \<Rightarrow> execution_controller_event option \<times> fill_event option" where
  "handle_update u =
     (if wu_kind u \<noteq> ''execution_update'' then (None, None)
      else case wu_data u of
        None \<Rightarrow> (None, None)
      | Some p \<Rightarrow>
          (Some (controller_event_of p),
           case (cu_ledger p, cu_execution p) of (Some l, Some x) \<Rightarrow> Some (fill_of_update p l x) | _ \<Rightarrow> None))"

section \<open>Reports\<close>

lemma non_negative_ms_bound: "non_negative_ms v < 2 ^ 63"
proof (cases "v <=s 0")
  case True
  then show ?thesis by (simp add: non_negative_ms_def i64_max_def)
next
  case False
  then have s: "0 < sint v" by (simp add: word_sle_eq)
  moreover have "sint v < 2 ^ 63" using sint_lt[of v] by simp
  moreover from s this have "uint v = sint v" unfolding uint_sint by (intro take_bit_int_eq_self) simp_all
  ultimately have "uint v < 2 ^ 63" by simp
  then show ?thesis using False by (simp add: non_negative_ms_def i64_max_def word_less_def)
qed

lemma f_max_0_nonneg: "0 \<le> f_max x 0"
  by (cases "x = NaN") (auto simp: f_max_def f64_less_iff_not_le f64_less_imp_le)

text \<open>A report within the limits of the measurement: amounts, prices and latencies of bounded size.\<close>

definition report_ok :: "ws_update \<Rightarrow> bool" where
  "report_ok u \<longleftrightarrow> (case wu_data u of None \<Rightarrow> True | Some p \<Rightarrow>
     fin (co_size (cu_order p)) \<and> (case cu_expected_realized_markout p of None \<Rightarrow> True | Some m \<Rightarrow> mag 38 m)
     \<and> (case cu_ledger p of None \<Rightarrow> True | Some l \<Rightarrow> mag 21 (cg_price l) \<and> mag 12 (cg_quantity l)
          \<and> mag 34 (cg_fee_amount l) \<and> mag 34 (cg_rebate_amount l) \<and> mag 34 (cg_funding_amount l))
     \<and> (case cu_execution p of None \<Rightarrow> True | Some x \<Rightarrow> mag 36 (cx_slippage_real x) \<and> cx_partial_fill_ratio x \<noteq> NaN
          \<and> cl_full_fill_latency (cx_latency_breakdown x) < 2 ^ 58))"

lemma report_fill_ok:
  assumes "report_ok u" "snd (handle_update u) = Some f"
  shows "fill_measurable f" "\<not> et_simulated (fe_truth f)"
proof -
  obtain p l x where d: "wu_data u = Some p" "cu_ledger p = Some l" "cu_execution p = Some x" "f = fill_of_update p l x"
    using assms(2) by (auto simp: handle_update_def split: if_splits option.splits)
  have "cl_full_fill_latency (cx_latency_breakdown x) < 2 ^ 58" using assms(1) d by (simp add: report_ok_def)
  then have "cl_full_fill_latency (cx_latency_breakdown x) div 1000 < 2 ^ 49"
    by (simp add: word_less_nat_alt unat_div)
  then show "fill_measurable f" using assms(1) d
    by (auto simp: report_ok_def fill_measurable_def fill_of_update_def truth_of_update_def or_default_def mag_def split: option.splits)
  show "\<not> et_simulated (fe_truth f)" using d(4) by (simp add: fill_of_update_def truth_of_update_def)
qed

section \<open>The feed and the measurement\<close>

datatype feed_input = Report ws_update | Market market_update

definition to_truth :: "feed_input \<Rightarrow> truth_input list" where
  "to_truth i = (case i of
     Report u \<Rightarrow> (case snd (handle_update u) of None \<Rightarrow> [] | Some f \<Rightarrow> [FillSeen f])
   | Market m \<Rightarrow> [MarketSeen m])"

definition reported_fills :: "feed_input list \<Rightarrow> fill_event list" where
  "reported_fills is = concat (map (\<lambda>i. case i of
     Report u \<Rightarrow> (case snd (handle_update u) of None \<Rightarrow> [] | Some f \<Rightarrow> [f]) | Market m \<Rightarrow> []) is)"

definition feed_input_ok :: "feed_input \<Rightarrow> bool" where
  "feed_input_ok i = (case i of Report u \<Rightarrow> report_ok u
     | Market m \<Rightarrow> (case truth_market_price m of None \<Rightarrow> True | Some p \<Rightarrow> mag 21 (snd p)))"

lemma reported_live:
  "list_all feed_input_ok is \<Longrightarrow> map fst (live_fills (concat (map to_truth is))) = reported_fills is"
  by (induction "is") (auto simp: reported_fills_def to_truth_def feed_input_ok_def report_fill_ok
      split: feed_input.splits option.splits)

lemma reported_measurable:
  "list_all feed_input_ok is \<Longrightarrow> \<forall>(f, ps) \<in> set (live_fills (concat (map to_truth is))). fill_measurable f"
proof -
  assume a: "list_all feed_input_ok is"
  then have "\<forall>f \<in> set (reported_fills is). fill_measurable f"
    by (auto simp: reported_fills_def list_all_iff feed_input_ok_def report_fill_ok split: feed_input.splits option.splits)
  then have "\<forall>f \<in> set (map fst (live_fills (concat (map to_truth is)))). fill_measurable f" unfolding reported_live[OF a] .
  then show ?thesis by auto
qed

lemma reported_prices:
  "list_all feed_input_ok is \<Longrightarrow> \<forall>p \<in> set (seen_prices (concat (map to_truth is))). mag 21 (snd p)"
  by (induction "is") (auto simp: to_truth_def feed_input_ok_def split: feed_input.splits option.splits)

section \<open>Properties\<close>

text \<open>The two messages of one report agree: a fill is sent only together with the event of its order;
  symbol, traded quantity, slippage, competition flag, latency and the completion of the order
  are the same in both, what remains is never negative, and no time exceeds the range of a signed
  clock. The side of the fill is that of the order as the dispatch wrote it.\<close>
theorem reports_agree:
  assumes "handle_update u = (event, Some fill)"
  shows "\<exists>p. wu_data u = Some p \<and> (\<exists>e. event = Some e \<and> ce_symbol e = fe_symbol fill \<and> ce_filled_qty_delta e = fe_filled_size fill
      \<and> ce_slippage_bps e = fe_actual_slippage_bps fill \<and> ce_competition_flag e = fe_competition_flag fill
      \<and> ce_latency_us e = fe_latency_us fill \<and> fe_complete fill = (lit 0.999 \<le> ce_partial_fill_ratio e)
      \<and> 0 \<le> ce_remaining_qty e \<and> ce_event_ts e < 2 ^ 63)
    \<and> 0 \<le> fe_remaining_size fill \<and> fe_timestamp fill < 2 ^ 63
    \<and> (\<forall>s. co_side (cu_order p) = side_name s \<longrightarrow> fe_side fill = s)"
proof -
  obtain p l x where d: "wu_data u = Some p" "cu_ledger p = Some l" "cu_execution p = Some x" "fill = fill_of_update p l x"
    "event = Some (controller_event_of p)"
    using assms by (auto simp: handle_update_def split: if_splits option.splits)
  have "parse_side (side_name s) = s" for s by (cases s) (simp_all add: parse_side_def side_name_def)
  then show ?thesis using d f_max_0_nonneg non_negative_ms_bound
    by (auto simp: fill_of_update_def controller_event_of_def partial_ratio_of_def)
qed


section \<open>Instances\<close>

definition ex_update :: cp_update where
  "ex_update = \<lparr>cu_order = \<lparr>co_id = Some ''o1'', co_idempotency_key = Some ''k1'', co_symbol = ''BTCUSDT'', co_side = ''SELL'', co_size = Fin 2,
       co_price = Some (Fin 100), co_status = Some ''PARTIAL'', co_filled = Some (Fin 2)\<rparr>,
     cu_ledger = Some \<lparr>cg_order_id = ''o1'', cg_fill_id = ''f2'', cg_price = Fin 100, cg_quantity = 1, cg_liquidity_flag = ''MAKER'',
       cg_fee_amount = 0, cg_fee_asset = ''USDT'', cg_rebate_amount = 0, cg_funding_amount = 0, cg_event_time_unix_ms = 1000\<rparr>,
     cu_execution = Some \<lparr>cx_slippage_real = 0, cx_partial_fill_ratio = 1, cx_competition_flag = None,
       cx_latency_breakdown = \<lparr>cl_decision_latency = 1000, cl_send_latency = 2000, cl_ack_latency = 3000,
         cl_first_fill_latency = 4000, cl_full_fill_latency = 5000\<rparr>\<rparr>,
     cu_request_timestamp_ms = 900, cu_send_timestamp_ms = 901, cu_ack_timestamp_ms = 950, cu_first_fill_timestamp_ms = 1000,
     cu_last_fill_timestamp_ms = 1000, cu_expected_realized_markout = Some 1, cu_regime_kind = None, cu_regime_volatility = None,
     cu_regime_spread = None, cu_regime_trend_strength = None\<rparr>"

definition ex_report :: ws_update where
  "ex_report = \<lparr>wu_kind = ''execution_update'', wu_data = Some ex_update\<rparr>"

theorem reports_agree_witness: "\<exists>f. snd (handle_update ex_report) = Some f \<and> 0 \<le> fe_remaining_size f \<and> fe_side f = Sell"
proof -
  obtain f where f: "snd (handle_update ex_report) = Some f" by (simp add: handle_update_def ex_report_def ex_update_def)
  have "side_name Sell = ''SELL''" by (simp add: side_name_def)
  then have "co_side (cu_order ex_update) = side_name Sell" by (simp add: ex_update_def)
  moreover have "wu_data ex_report = Some ex_update" by (simp add: ex_report_def)
  ultimately show ?thesis using f reports_agree[of ex_report "fst (handle_update ex_report)" f] by (auto simp: prod_eq_iff)
qed


end
