(* ===== verification/Filters.thy ===== *)
theory Filters
  imports Feed
begin

text \<open>
  The first generation of the decision path and of the execution (\<open>event_engine.rs\<close>, \<open>features.rs\<close>,
  \<open>model.rs\<close>, \<open>decision.rs\<close>, \<open>execution.rs\<close>) with the estimators beside it (\<open>adverse_selection.rs\<close>,
  \<open>markout.rs\<close>, \<open>micro_exit.rs\<close>). The crate exports these modules, its pipeline does not start them.
  The exponential function and the clock are parameters.
\<close>

section \<open>Windows and events\<close>

record detected_event =
  dv_market :: market_event
  dv_event :: event

record feature_frame =
  ff_market :: market_event
  ff_event :: event
  ff_features :: features

definition trim_window :: "market_event list \<Rightarrow> u64 \<Rightarrow> u64 \<Rightarrow> market_event list" where
  "trim_window w now window_ms = dropWhile (\<lambda>e. me_timestamp e < sat_sub now window_ms) w"

definition push_event :: "u64 \<Rightarrow> market_event list \<Rightarrow> market_event \<Rightarrow> market_event list" where
  "push_event window_ms w m = trim_window w (me_timestamp m) window_ms @ [m]"

definition price_velocity :: "market_event \<Rightarrow> market_event \<Rightarrow> f64" where
  "price_velocity first_event last_event =
     (me_price last_event - me_price first_event) / f_max (me_price first_event) f_epsilon
       / f_of_word (max (sat_sub (me_timestamp last_event) (me_timestamp first_event)) 1)"

definition event_side_volume :: "side \<Rightarrow> market_event list \<Rightarrow> f64" where
  "event_side_volume s w = foldl (\<lambda>v e. if me_side e = s then v + me_volume e else v) 0 w"

definition classify_window :: "market_event list \<Rightarrow> event" where
  "classify_window w =
     (if length w < 4 then EventNeutral
      else let a = hd w; b = last w;
               velocity = price_velocity a b;
               buy_volume = event_side_volume Buy w; sell_volume = event_side_volume Sell w;
               total_volume = f_max (buy_volume + sell_volume) f_epsilon;
               spread_tight = me_spread b < me_spread a * lit 0.85;
               liquidity_thin = (lit 0.55 < f_abs (me_bid_ask_imbalance b) \<or> me_spread a * lit 1.35 < me_spread b)
           in if lit 0.68 < sell_volume / total_volume \<and> velocity < lit (- 35 / 10 ^ 8) \<and> liquidity_thin then DumpDetected
              else if lit 0.68 < buy_volume / total_volume \<and> lit (35 / 10 ^ 8) < velocity \<and> spread_tight then PumpDetected
              else EventNeutral)"

definition event_step :: "u64 \<Rightarrow> market_event list \<Rightarrow> market_event \<Rightarrow> market_event list \<times> detected_event" where
  "event_step window_ms w m =
     (let w' = push_event window_ms w m in (w', \<lparr>dv_market = m, dv_event = classify_window w'\<rparr>))"

section \<open>Features\<close>

definition volume_score :: "market_event list \<Rightarrow> f64" where
  "volume_score w =
     (let n = f_of_nat (length w);
          mean_volume = f_sum (map me_volume w) / n;
          variance = f_sum (map (\<lambda>e. let diff = me_volume e - mean_volume in diff * diff) w) / f_max n 1
      in if f_epsilon < variance then (me_volume (last w) - mean_volume) / f_sqrt variance else 0)"

definition price_volatility :: "market_event list \<Rightarrow> f64" where
  "price_volatility w =
     (let mean_price = f_sum (map me_price w) / f_of_nat (length w)
      in f_sqrt (f_sum (map (\<lambda>e. let ret = (me_price e - mean_price) / f_max mean_price f_epsilon in ret * ret) w)))"

definition spread_change :: "market_event list \<Rightarrow> f64" where
  "spread_change w =
     (let prev_spread = me_spread (if 2 \<le> length w then w ! (length w - 2) else last w)
      in (me_spread (last w) - prev_spread) / f_max prev_spread f_epsilon)"

definition compute_features :: "market_event list \<Rightarrow> features" where
  "compute_features w =
     (if w = [] then features_default
      else let b = last w;
               velocity = price_velocity (hd w) b * lit 1000;
               change = spread_change w
           in \<lparr>ft_velocity = velocity, ft_vol_z = f_clamp (volume_score w) (lit (- 5)) (lit 5),
               ft_imbalance = f_clamp (me_bid_ask_imbalance b) (- 1) 1,
               ft_volatility = f_clamp (price_volatility w) 0 (lit 5),
               ft_spread = f_clamp (me_spread b + f_abs change) 0 (lit 5),
               ft_weighted_imbalance = f_clamp (me_bid_ask_imbalance b) (- 1) 1,
               ft_spread_dynamics = f_clamp change (lit (- 5)) (lit 5),
               ft_micro_price_velocity = velocity, ft_trade_clustering = 0, ft_liquidity_shift = 0,
               ft_order_flow_delta = 0, ft_absorption = 0, ft_spoofing_risk = 0, ft_liquidity_pull = 0\<rparr>)"

definition feature_step :: "u64 \<Rightarrow> market_event list \<Rightarrow> detected_event \<Rightarrow> market_event list \<times> feature_frame" where
  "feature_step window_ms w d =
     (let w' = push_event window_ms w (dv_market d)
      in (w', \<lparr>ff_market = dv_market d, ff_event = dv_event d, ff_features = compute_features w'\<rparr>))"

section \<open>The logistic model and the decision\<close>

record logistic_filter =
  lf_continuation_weights :: "f64 list"
  lf_reversal_weights :: "f64 list"

definition logistic_default :: logistic_filter where
  "logistic_default =
     \<lparr>lf_continuation_weights = [lit (- 0.15), lit 1.35, lit 0.45, lit 0.95, lit (- 0.30), lit (- 0.65)],
      lf_reversal_weights = [lit (- 0.25), lit (- 1.05), lit 0.35, lit (- 0.85), lit 0.55, lit 0.25]\<rparr>"

definition dot :: "f64 list \<Rightarrow> features \<Rightarrow> f64" where
  "dot w f = w ! 0 + w ! 1 * ft_velocity f + w ! 2 * ft_vol_z f + w ! 3 * ft_imbalance f
     + w ! 4 * ft_volatility f + w ! 5 * ft_spread f"

definition probabilities :: "(f64 \<Rightarrow> f64) \<Rightarrow> logistic_filter \<Rightarrow> features \<Rightarrow> f64 \<times> f64" where
  "probabilities exp_fn l f = (sigmoid exp_fn (dot (lf_continuation_weights l) f), sigmoid exp_fn (dot (lf_reversal_weights l) f))"

definition event_direction :: "feature_frame \<Rightarrow> f64" where
  "event_direction frame = (case ff_event frame of PumpDetected \<Rightarrow> 1 | DumpDetected \<Rightarrow> - 1
     | EventNeutral \<Rightarrow> (case me_side (ff_market frame) of Buy \<Rightarrow> 1 | Sell \<Rightarrow> - 1))"

definition raw_signal :: "feature_frame \<Rightarrow> f64" where
  "raw_signal frame =
     (let f = ff_features frame; direction = event_direction frame
      in lit 1.45 * ft_velocity f * direction + lit 0.55 * ft_vol_z f + lit 0.95 * ft_imbalance f * direction
         + lit 0.20 * ft_volatility f - lit 1.25 * ft_spread f)"

definition filtered_score :: "(f64 \<Rightarrow> f64) \<Rightarrow> feature_frame \<Rightarrow> f64" where
  "filtered_score exp_fn frame =
     f_clamp (lit 0.75 * sigmoid exp_fn (raw_signal frame)
       + lit 0.25 * fst (probabilities exp_fn logistic_default (ff_features frame))) 0 1"

definition threshold_decision :: "f64 \<Rightarrow> f64 \<Rightarrow> decision" where
  "threshold_decision previous score =
     (if score < lit 0.36 \<or> lit 0.18 < previous - score then ExitD
      else if lit 0.70 < score \<and> previous + lit 0.035 < score then ScaleIn
      else if lit 0.70 < score then EnterSmall
      else Ignore)"

definition decision_step :: "(f64 \<Rightarrow> f64) \<Rightarrow> f64 \<Rightarrow> feature_frame \<Rightarrow> f64 \<times> scored_decision" where
  "decision_step exp_fn previous frame =
     (let score = filtered_score exp_fn frame;
          (continuation, reversal) = probabilities exp_fn logistic_default (ff_features frame)
      in (score,
          \<lparr>sd_market = ff_market frame, sd_event = ff_event frame, sd_features = ff_features frame,
           sd_regime = market_regime_default, sd_context = market_context_default,
           sd_flow = \<lparr>fs_signal = WeakContinuation, fs_aggressive_ratio = 0, fs_absorption = 0, fs_exhaustion = 0,
             fs_continuation_strength = 0\<rparr>,
           sd_timing = \<lparr>mt_signal = TimingNeutral, mt_spread_compression = 0, mt_liquidity_pull = 0, mt_trade_burst = 0,
             mt_micro_pullback = 0, mt_timing_score = 0\<rparr>,
           sd_direction = (case ff_event frame of PumpDetected \<Rightarrow> Long | DumpDetected \<Rightarrow> Short | EventNeutral \<Rightarrow> Flat),
           sd_confidence = f_clamp (f_abs (score - lit 0.5) * lit 2) 0 1,
           sd_continuation_prob = continuation, sd_reversal_prob = reversal, sd_score = score,
           sd_decision = threshold_decision previous score, sd_expected_duration_ms = 500,
           sd_urgency = f_clamp (f_max (score - lit 0.65) 0) 0 1,
           sd_expected_slippage_bps = me_spread (ff_market frame) * lit 10000 * lit 0.5,
           sd_data_latency_ms = 0, sd_adversarial_risk = 0, sd_edge_state = Uncertain, sd_edge_regime = Stable,
           sd_edge_reliability_score = lit 0.5, sd_edge_half_life_samples = 0, sd_edge_capture_mean = 0,
           sd_negative_capture_streak = 0, sd_execution_alpha_mean = 0, sd_markout_degradation_score = 0,
           sd_dynamic_size_multiplier = dynamic_position_size_multiplier (lit 0.5) Uncertain Stable 0,
           sd_competition_state = CompetitionNormal, sd_competition_score = 0, sd_trading_enabled = True,
           sd_fill_probability = LowFill\<rparr>))"

text \<open>The three stages in a row, with their windows and the previous score.\<close>

record filter_state =
  ft_event_window :: "market_event list"
  ft_feature_window :: "market_event list"
  ft_previous_score :: f64

definition filter_init :: filter_state where
  "filter_init = \<lparr>ft_event_window = [], ft_feature_window = [], ft_previous_score = lit 0.5\<rparr>"

definition filter_step :: "(f64 \<Rightarrow> f64) \<Rightarrow> u64 \<Rightarrow> u64 \<Rightarrow> filter_state \<Rightarrow> market_event \<Rightarrow> filter_state \<times> scored_decision" where
  "filter_step exp_fn event_ms feature_ms s m =
     (let (we, d) = event_step event_ms (ft_event_window s) m;
          (wf, frame) = feature_step feature_ms (ft_feature_window s) d;
          (score, scored) = decision_step exp_fn (ft_previous_score s) frame
      in (\<lparr>ft_event_window = we, ft_feature_window = wf, ft_previous_score = score\<rparr>, scored))"

section \<open>Paper execution\<close>

definition sat_mul :: "u64 \<Rightarrow> u64 \<Rightarrow> u64" where
  "sat_mul a b = (if 2 ^ 64 \<le> unat a * unat b then - 1 else a * b)"

text \<open>The clock is read once per field that needs it; \<open>clock k\<close> is the \<open>k\<close>-th reading.\<close>

definition paper_submit :: "(nat \<Rightarrow> u64) \<Rightarrow> order_intent \<Rightarrow> unit + fill_event" where
  "paper_submit clock i =
     (let reference = (case rq_price (oi_request i) of Some p \<Rightarrow> p | None \<Rightarrow> oi_last_price i);
          slip_bps = (case rq_side (oi_request i) of Buy \<Rightarrow> lit 1.2 | Sell \<Rightarrow> lit (- 1.2));
          fill_price = reference * (1 + slip_bps / lit 10000)
      in Inr \<lparr>fe_order_id = ''ord-'' @ string_of_nat (unat (clock 0)), fe_fill_id = ''fill-'' @ string_of_nat (unat (clock 1)),
           fe_symbol = rq_symbol (oi_request i), fe_side = rq_side (oi_request i), fe_size = rq_size (oi_request i),
           fe_price = fill_price, fe_requested_price = reference, fe_filled_size = rq_size (oi_request i),
           fe_remaining_size = 0, fe_liquidity_flag = Taker, fe_fee = fill_price * rq_size (oi_request i) * lit 0.0004,
           fe_fee_asset = ''USDT'', fe_rebate_amount = 0, fe_funding_amount = 0, fe_timestamp = oi_timestamp i,
           fe_latency_us = 0,
           fe_latency_breakdown = \<lparr>lb_decision_latency_us = sat_mul (oi_data_latency_ms i) 1000, lb_send_latency_us = 0,
             lb_ack_latency_us = 0, lb_first_fill_latency_us = 0, lb_full_fill_latency_us = 0\<rparr>,
           fe_expected_markout = 0, fe_expected_slippage_bps = oi_expected_slippage_bps i,
           fe_actual_slippage_bps = f_abs slip_bps, fe_competition_flag = FlagNone,
           fe_queue_estimate = queue_estimate_default, fe_execution_mode = Aggressive,
           fe_micro_exit = micro_exit_signal_default, fe_markout = markout_snapshot_default,
           fe_regime = oi_regime i, fe_complete = True,
           fe_truth = \<lparr>et_request_timestamp = oi_timestamp i, et_send_timestamp = clock 2, et_ack_timestamp = clock 3,
             et_exchange_accept_timestamp = clock 4, et_first_fill_timestamp = clock 5, et_last_fill_timestamp = clock 6,
             et_partial_fill_ratio = 1, et_cancel_reason = None, et_reject_reason = None,
             et_spread_at_execution = mr_spread (oi_regime i), et_queue_delay_us = 0, et_simulated = True\<rparr>\<rparr>)"

text \<open>The retries of one intent: \<open>submit n\<close> is the outcome of attempt \<open>n\<close>.\<close>

function attempt_loop :: "(nat \<Rightarrow> unit + 'a) \<Rightarrow> nat \<Rightarrow> 'a option" where
  "attempt_loop submit attempts =
     (case submit (attempts + 1) of
        Inr fill \<Rightarrow> Some fill
      | Inl _ \<Rightarrow> (if attempts + 1 < 3 then attempt_loop submit (attempts + 1) else None))"
  by pat_completeness auto
termination by (relation "measure (\<lambda>(s, a). 3 - a)") auto

declare attempt_loop.simps [simp del]

definition paper_run :: "(nat \<Rightarrow> nat \<Rightarrow> nat \<Rightarrow> u64) \<Rightarrow> order_intent list \<Rightarrow> fill_event list" where
  "paper_run clock is =
     concat (map (\<lambda>(k, i). case attempt_loop (\<lambda>n. paper_submit (clock k n) i) 0 of Some f \<Rightarrow> [f] | None \<Rightarrow> [])
       (enumerate 0 is))"

section \<open>Estimators\<close>

definition flow_risk :: "flow_signal \<Rightarrow> f64" where
  "flow_risk s = (case s of ReversalRisk \<Rightarrow> 1 | Exhaustion \<Rightarrow> lit 0.72 | WeakContinuation \<Rightarrow> lit 0.35 | StrongContinuation \<Rightarrow> 0)"

definition timing_risk :: "timing_signal \<Rightarrow> f64" where
  "timing_risk s = (case s of Missed \<Rightarrow> 1 | TimingWait \<Rightarrow> lit 0.55 | TimingNeutral \<Rightarrow> lit 0.25 | Optimal \<Rightarrow> 0)"

definition pre_fill_score :: "order_intent \<Rightarrow> f64" where
  "pre_fill_score i =
     f_clamp (lit 0.42 * flow_risk (fs_signal (oi_flow i)) + lit 0.28 * timing_risk (mt_signal (oi_timing i))
       + lit 0.15 * oi_expected_slippage_bps i / f_max (rq_max_slippage_bps (oi_request i)) 1
       + lit 0.15 * (1 - mc_stability_score (oi_context i))) 0 1"

definition price_against :: "side \<Rightarrow> fill_event \<Rightarrow> f64" where
  "price_against s fill =
     f_max ((fe_price fill - fe_requested_price fill) * fill_side_sign s / f_max (fe_requested_price fill) f_epsilon * lit 10000) 0"

definition post_fill_score :: "order_intent \<Rightarrow> fill_event \<Rightarrow> f64" where
  "post_fill_score i fill =
     f_clamp (pre_fill_score i * lit 0.55
       + f_clamp (price_against (rq_side (oi_request i)) fill / f_max (rq_max_slippage_bps (oi_request i)) 1) 0 1 * lit 0.30
       + (1 - mc_liquidity_score (oi_context i)) * lit 0.15) 0 1"

definition markout_at :: "f64 \<Rightarrow> f64 \<Rightarrow> f64 \<Rightarrow> f64 \<Rightarrow> f64" where
  "markout_at price amount sign bps = (price * (1 + sign * bps / lit 10000) - price) * amount * sign"

definition estimate_markout :: "order_intent \<Rightarrow> f64 \<Rightarrow> f64 \<Rightarrow> markout_snapshot" where
  "estimate_markout i fill_price filled =
     (let sign = fill_side_sign (rq_side (oi_request i));
          quality = fs_continuation_strength (oi_flow i) * lit 0.45 + mt_timing_score (oi_timing i) * lit 0.35
            + mc_stability_score (oi_context i) * lit 0.20 - oi_expected_slippage_bps i / lit 50;
          bps_100 = (quality - lit 0.45) * lit 2; bps_500 = (quality - lit 0.42) * lit 4.5; bps_1s = (quality - lit 0.40) * lit 7
      in \<lparr>mk_pnl_100ms = markout_at fill_price filled sign bps_100, mk_pnl_500ms = markout_at fill_price filled sign bps_500,
          mk_pnl_1s = markout_at fill_price filled sign bps_1s, mk_pnl_5s = markout_at fill_price filled sign (bps_1s * lit 1.8)\<rparr>)"

definition micro_exit :: "order_intent \<Rightarrow> f64 \<Rightarrow> f64 \<Rightarrow> micro_exit_signal" where
  "micro_exit i fill_price adverse_score =
     (if mc_liquidity_score (oi_context i) < lit 0.28
      then \<lparr>mx_reason = LiquidityCollapse, mx_reduce_ratio = 1, mx_urgency = 1\<rparr>
      else if lit 0.74 < adverse_score \<or> fs_signal (oi_flow i) = ReversalRisk
      then \<lparr>mx_reason = AdverseFlow, mx_reduce_ratio = 1, mx_urgency = lit 0.95\<rparr>
      else if fs_signal (oi_flow i) = Exhaustion
      then \<lparr>mx_reason = MomentumFade, mx_reduce_ratio = lit 0.50, mx_urgency = lit 0.70\<rparr>
      else if oi_expected_slippage_bps i + lit 2 <
          (oi_last_price i - fill_price) * fill_side_sign (rq_side (oi_request i)) / f_max fill_price f_epsilon * lit 10000
      then \<lparr>mx_reason = TakeProfit, mx_reduce_ratio = lit 0.35, mx_urgency = lit 0.45\<rparr>
      else micro_exit_signal_default)"

section \<open>Ranges of the windows\<close>

definition market_ok :: "market_event \<Rightarrow> bool" where
  "market_ok m \<longleftrightarrow> mag 60 (me_price m) \<and> mag 40 (me_volume m) \<and> mag 40 (me_spread m) \<and> me_bid_ask_imbalance m \<noteq> NaN"

definition window_ok :: "market_event list \<Rightarrow> bool" where
  "window_ok w \<longleftrightarrow> list_all market_ok w"

lemma push_event_ok: "window_ok w \<Longrightarrow> market_ok m \<Longrightarrow> window_ok (push_event ms w m)"
  by (auto simp: window_ok_def push_event_def trim_window_def list_all_iff dest: set_dropWhileD)

lemma push_event_length: "length (push_event ms w m) \<le> Suc (length w)" "push_event ms w m \<noteq> []"
  by (simp_all add: push_event_def trim_window_def length_dropWhile_le)

lemma window_sums:
  assumes "window_ok w" "w \<noteq> []" "length w \<le> 2 ^ 20"
  shows "mag 80 (f_sum (map me_price w) / f_of_nat (length w))" "mag 60 (f_sum (map me_volume w) / f_of_nat (length w))"
proof -
  have "1 \<le> length w" using assms(2) by (cases w) simp_all
  moreover have "f_of_nat (length w) = Fin (of_nat (length w))" using assms(3) by (intro f_of_nat_exact) simp
  ultimately have n: "fin (f_of_nat (length w))" "1 \<le> val (f_of_nat (length w))" by simp_all
  have "\<forall>x \<in> set (map me_price w). mag 60 x" "\<forall>x \<in> set (map me_volume w). mag 40 x"
    using assms(1) by (auto simp: window_ok_def list_all_iff market_ok_def)
  then have "mag (60 + 20) (f_sum (map me_price w))" "mag (40 + 20) (f_sum (map me_volume w))"
    using assms(3) by (intro f_sum_mag; simp)+
  then show "mag 80 (f_sum (map me_price w) / f_of_nat (length w))" "mag 60 (f_sum (map me_volume w) / f_of_nat (length w))"
    using n by (intro mag_divide; simp)+
qed

lemma velocity_mag:
  assumes "market_ok a" "market_ok b"
  shows "mag 113 (price_velocity a b)"
proof -
  let ?dt = "max (sat_sub (me_timestamp b) (me_timestamp a)) 1"
  have dt: "fin (f_of_word ?dt)" "1 \<le> val (f_of_word ?dt)"
    using f_of_word_pos[of "sat_sub (me_timestamp b) (me_timestamp a)"] by (simp_all add: rng_def)
  have "mag 61 (me_price b - me_price a)" using mag_minus[of 60 "me_price b" "me_price a"] assms by (simp add: market_ok_def)
  then have q: "mag 113 ((me_price b - me_price a) / f_max (me_price a) f_epsilon)"
    using mag_divide_eps[of 61 "me_price b - me_price a" "me_price a"] assms(1) by (auto simp: market_ok_def dest: mag_fin)
  show ?thesis unfolding price_velocity_def by (rule mag_divide[OF q dt]) simp
qed

text \<open>What the decision reads: a bounded velocity and clamped scores.\<close>

definition filter_features_ok :: "features \<Rightarrow> bool" where
  "filter_features_ok f \<longleftrightarrow> mag 123 (ft_velocity f) \<and> rng (- 8) 8 (ft_vol_z f) \<and> rng (- 1) 1 (ft_imbalance f)
     \<and> rng 0 5 (ft_volatility f) \<and> rng 0 5 (ft_spread f)"

lemma volume_score_number:
  assumes "window_ok w" "w \<noteq> []" "length w \<le> 2 ^ 20"
  shows "volume_score w \<noteq> NaN"
proof -
  let ?n = "f_of_nat (length w)" and ?m = "f_sum (map me_volume w) / f_of_nat (length w)"
  let ?v = "f_sum (map (\<lambda>e. let diff = me_volume e - ?m in diff * diff) w) / f_max ?n 1"
  have m: "mag 60 ?m" by (rule window_sums(2)[OF assms])
  have d: "mag 61 (me_volume e - ?m)" if "e \<in> set w" for e
    using that assms(1) m mag_minus[of 60 "me_volume e" ?m] mag_mono[of 40 "me_volume e" 60]
    by (simp add: window_ok_def list_all_iff market_ok_def)
  have "\<forall>x \<in> set (map (\<lambda>e. let diff = me_volume e - ?m in diff * diff) w). mag 122 x"
    using mag_times[OF d d] by (auto simp: Let_def)
  then have "mag (122 + 20) (f_sum (map (\<lambda>e. let diff = me_volume e - ?m in diff * diff) w))"
    using assms(3) by (intro f_sum_mag) simp_all
  moreover have "f_of_nat (length w) = Fin (of_nat (length w))" using assms(3) by (intro f_of_nat_exact) simp
  then have "fin (f_max ?n 1)" "1 \<le> val (f_max ?n 1)" using assms(2) by (auto simp: f_max_def fin_less_iff Suc_le_eq)
  ultimately have v: "mag 142 ?v" by (intro mag_divide) simp_all
  have l: "mag 61 (me_volume (last w) - ?m)" using assms(2) by (intro d) simp
  have "(me_volume (last w) - ?m) / f_sqrt ?v \<noteq> NaN" if "f_epsilon < ?v"
  proof -
    have "0 \<le> ?v" using that by (rule f64_less_imp_le[OF f64_le_less_trans, rotated]) (simp add: fin_le_iff)
    with v have r: "rng 0 (2 ^ (2 * 71)) ?v" by (auto simp: mag_rng rng_def fin_le_iff)
    then have "fin (f_sqrt ?v)" using f_sqrt_fin[of 71 ?v] by (auto dest: rngD)
    moreover have "1 / 2 ^ 26 \<le> val (f_sqrt ?v)" using f_sqrt_positive[OF that r] by simp
    then have "val (f_sqrt ?v) \<noteq> 0" by (auto dest: less_le_trans[of 0 "1 / 2 ^ 26", rotated])
    ultimately show ?thesis using l by (intro divide_not_nan) (auto dest: mag_fin)
  qed
  then show ?thesis unfolding volume_score_def Let_def by simp
qed

lemma price_volatility_number:
  assumes "window_ok w" "w \<noteq> []" "length w \<le> 2 ^ 20"
  shows "price_volatility w \<noteq> NaN"
proof -
  let ?m = "f_sum (map me_price w) / f_of_nat (length w)"
  have m: "mag 80 ?m" by (rule window_sums(1)[OF assms])
  have r: "mag 133 ((me_price e - ?m) / f_max ?m f_epsilon)" if "e \<in> set w" for e
    using that assms(1) m mag_minus[of 80 "me_price e" ?m] mag_mono[of 60 "me_price e" 80] mag_divide_eps[of 81 "me_price e - ?m" ?m]
    by (simp add: window_ok_def list_all_iff market_ok_def mag_fin)
  have "0 \<le> f_sum (map (\<lambda>e. let ret = (me_price e - ?m) / f_max ?m f_epsilon in ret * ret) w)"
    using r by (intro f_sum_nonneg) (auto simp: Let_def dest!: mag_fin intro!: square_nonneg)
  then show ?thesis unfolding price_volatility_def Let_def by (rule f_sqrt_not_nan)
qed

lemma spread_change_mag:
  assumes "window_ok w" "w \<noteq> []"
  shows "mag 93 (spread_change w)"
proof -
  let ?p = "me_spread (if 2 \<le> length w then w ! (length w - 2) else last w)"
  have "mag 40 ?p" "mag 40 (me_spread (last w))"
    using assms by (auto simp: window_ok_def list_all_iff market_ok_def)
  then show ?thesis unfolding spread_change_def Let_def
    using mag_minus[of 40 "me_spread (last w)" ?p] mag_divide_eps[of 41 "me_spread (last w) - ?p" ?p] by (simp add: mag_fin)
qed

lemma compute_features_ok:
  assumes "window_ok w" "w \<noteq> []" "length w \<le> 2 ^ 20"
  shows "filter_features_ok (compute_features w)"
proof -
  have b: "market_ok (last w)" "market_ok (hd w)" using assms by (auto simp: window_ok_def list_all_iff)
  have "mag (113 + 10) (price_velocity (hd w) (last w) * lit 1000)"
    by (intro mag_times velocity_mag b) (simp_all add: mag_def lit_exact)
  moreover have "mag 94 (me_spread (last w) + f_abs (spread_change w))"
    using mag_plus[of 93 "me_spread (last w)" "f_abs (spread_change w)"] mag_mono[of 40 "me_spread (last w)" 93] b
      spread_change_mag[OF assms(1,2)] by (simp add: market_ok_def mag_f_abs)
  moreover have "rng (- 1) 1 (f_clamp x (- 1) 1)" if "x \<noteq> NaN" for x
    using f_clamp_rng[of x "- 1" 1] that by simp
  ultimately show ?thesis
    using volume_score_number[OF assms] price_volatility_number[OF assms] b assms(2)
    by (auto simp: compute_features_def Let_def filter_features_ok_def market_ok_def dest!: mag_not_nan
        intro!: f_clamp_mag3 clamp_five)
qed

section \<open>The chain\<close>

lemma inverse_one_plus: "0 \<le> e \<Longrightarrow> 0 \<le> 1 / (1 + e)" for e :: f64
  using one_plus_pos[of e]
  by (cases "1 + e") (auto simp: divide_f64_def Let_def f_inf_def f_zero_def zero_f64_def one_f64_def less_f64_def mk_nonneg[unfolded zero_f64_def])

lemma sigmoid_nonneg:
  assumes "exp_like exp_fn" "x \<noteq> NaN"
  shows "0 \<le> sigmoid exp_fn x"
proof (cases "0 \<le> x")
  case True
  then show ?thesis using assms by (simp add: sigmoid_def exp_like_def inverse_one_plus)
next
  case False
  then have "x < 0" using assms(2) by (simp add: f64_less_iff_not_le)
  then have z: "0 \<le> exp_fn x" "exp_fn x \<le> 1" using assms by (auto simp: exp_like_def)
  then have u: "rng 0 1 (exp_fn x)" by (simp add: rng_iff_le zero_f64_def one_f64_def)
  then have "rng 1 2 (1 + exp_fn x)" by (intro rng_plus[of 1 1 _ 0 1]) (simp_all add: rng_def one_f64_def)
  then have "0 \<le> exp_fn x / (1 + exp_fn x)" using z(1) by (intro divide_nonneg) (auto simp: rng_def)
  then show ?thesis using False by (simp add: sigmoid_def Let_def)
qed

text \<open>Sums of weighted features are numbers: every term is small against the range of a double.\<close>

lemma weighted_term:
  assumes "filter_features_ok f" "\<bar>q\<bar> \<le> 2"
  shows "mag 126 (lit q * ft_velocity f)" "mag 126 (lit q * ft_vol_z f)" "mag 126 (lit q * ft_imbalance f)"
    "mag 126 (lit q * ft_volatility f)" "mag 126 (lit q * ft_spread f)"
proof -
  have q: "mag 1 (lit q)" using assms(2) rng_lit[of "- 2" 2 q] by (simp add: mag_rng abs_le_iff)
  have "mag 3 (ft_vol_z f)" "mag 3 (ft_imbalance f)" "mag 3 (ft_volatility f)" "mag 3 (ft_spread f)"
    using assms(1) unfolding mag_rng filter_features_ok_def by (auto elim!: rng_weaken)
  then have m: "mag (1 + 3) (lit q * ft_vol_z f)" "mag (1 + 3) (lit q * ft_imbalance f)" "mag (1 + 3) (lit q * ft_volatility f)"
    "mag (1 + 3) (lit q * ft_spread f)" by (intro mag_times q; simp)+
  have "mag (1 + 123) (lit q * ft_velocity f)" using assms(1) q by (intro mag_times) (simp_all add: filter_features_ok_def)
  then show "mag 126 (lit q * ft_velocity f)" by (rule mag_mono) simp
  show "mag 126 (lit q * ft_vol_z f)" "mag 126 (lit q * ft_imbalance f)" "mag 126 (lit q * ft_volatility f)" "mag 126 (lit q * ft_spread f)"
    by (rule mag_mono[OF m(1)] mag_mono[OF m(2)] mag_mono[OF m(3)] mag_mono[OF m(4)]; simp)+
qed

lemma mag_sum5:
  assumes "mag 126 a" "mag 126 b" "mag 126 c" "mag 126 d" "mag 126 e"
  shows "mag 130 (a + b + c + d + e)" "mag 130 (a + b + c + d - e)"
proof -
  have s: "mag 127 (a + b)" using mag_plus[OF assms(1,2)] by simp
  then have "mag 128 (a + b + c)" using mag_plus[OF s, of c] mag_mono[OF assms(3), of 127] by simp
  then have t: "mag 129 (a + b + c + d)" using mag_plus[of 128 "a + b + c" d] mag_mono[OF assms(4), of 128] by simp
  show "mag 130 (a + b + c + d + e)" "mag 130 (a + b + c + d - e)"
    using mag_plus[OF t, of e] mag_minus[OF t, of e] mag_mono[OF assms(5), of 129] by simp_all
qed

lemma raw_signal_number:
  assumes "filter_features_ok (ff_features frame)"
  shows "raw_signal frame \<noteq> NaN"
proof -
  let ?f = "ff_features frame"
  have d: "mag 0 (event_direction frame)"
    by (auto simp: event_direction_def mag_def split: event.split side.split)
  have w: "mag 126 (lit 1.45 * ft_velocity ?f * event_direction frame)" "mag 126 (lit 0.95 * ft_imbalance ?f * event_direction frame)"
    using mag_times[OF weighted_term(1)[OF assms, of "1.45"] d] mag_times[OF weighted_term(3)[OF assms, of "0.95"] d] by simp_all
  show ?thesis unfolding raw_signal_def Let_def
    by (rule mag_not_nan, rule mag_sum5(2)) (intro w weighted_term assms; simp)+
qed

lemma dot_number:
  assumes "filter_features_ok f"
  shows "dot (lf_continuation_weights logistic_default) f \<noteq> NaN"
proof -
  have "mag 126 (lit (- 0.15))" using rng_lit[of "- 1" 1 "- 0.15"] by (simp add: mag_rng) (erule rng_weaken; simp)
  then have "mag 130 (lit (- 0.15) + lit 1.35 * ft_velocity f + lit 0.45 * ft_vol_z f + lit 0.95 * ft_imbalance f + lit (- 0.30) * ft_volatility f)"
    by (rule mag_sum5) (intro weighted_term assms; simp)+
  from mag_plus[OF this, of "lit (- 0.65) * ft_spread f"] mag_mono[OF weighted_term(5)[OF assms, of "- 0.65"], of 130]
  have "mag 131 (lit (- 0.15) + lit 1.35 * ft_velocity f + lit 0.45 * ft_vol_z f + lit 0.95 * ft_imbalance f + lit (- 0.30) * ft_volatility f
    + lit (- 0.65) * ft_spread f)" by simp
  then show ?thesis unfolding dot_def logistic_default_def by (auto dest: mag_not_nan)
qed

lemma filtered_score_unit:
  assumes "exp_like exp_fn" "filter_features_ok (ff_features frame)"
  shows "rng 0 1 (filtered_score exp_fn frame)"
proof -
  have "0 \<le> lit 0.75 * sigmoid exp_fn (raw_signal frame)" "0 \<le> lit 0.25 * fst (probabilities exp_fn logistic_default (ff_features frame))"
    using sigmoid_nonneg[OF assms(1) raw_signal_number[OF assms(2)]] sigmoid_nonneg[OF assms(1) dot_number[OF assms(2)]]
    by (intro times_nonneg(1); simp add: probabilities_def f64_eval)+
  then show ?thesis unfolding filtered_score_def by (intro f_clamp_unit_nonneg plus_nonneg)
qed

definition filter_ok :: "nat \<Rightarrow> filter_state \<Rightarrow> bool" where
  "filter_ok n s \<longleftrightarrow> window_ok (ft_feature_window s) \<and> length (ft_feature_window s) \<le> n"

definition scored_ok :: "scored_decision \<Rightarrow> bool" where
  "scored_ok d \<longleftrightarrow> rng 0 1 (sd_score d) \<and> rng 0 1 (sd_confidence d) \<and> rng 0 1 (sd_urgency d)"

lemma filter_step_ok:
  assumes "exp_like exp_fn" "filter_ok n s" "market_ok m" "n < 2 ^ 20"
  shows "filter_ok (Suc n) (fst (filter_step exp_fn ems fms s m))" "scored_ok (snd (filter_step exp_fn ems fms s m))"
    "ft_previous_score (fst (filter_step exp_fn ems fms s m)) = sd_score (snd (filter_step exp_fn ems fms s m))"
    "sd_decision (snd (filter_step exp_fn ems fms s m)) =
      threshold_decision (ft_previous_score s) (sd_score (snd (filter_step exp_fn ems fms s m)))"
proof -
  let ?w = "push_event fms (ft_feature_window s) m"
  let ?frame = "\<lparr>ff_market = m, ff_event = dv_event (snd (event_step ems (ft_event_window s) m)), ff_features = compute_features ?w\<rparr>"
  have w: "window_ok ?w" "?w \<noteq> []" "length ?w \<le> Suc n"
    using assms(2,3) push_event_ok push_event_length[of fms "ft_feature_window s" m] by (auto simp: filter_ok_def)
  then have l: "length ?w \<le> 2 ^ 20" using assms(4) by simp
  have r: "rng 0 1 (filtered_score exp_fn ?frame)"
    using filtered_score_unit[OF assms(1), of ?frame] compute_features_ok[OF w(1,2) l] by simp
  have f: "fin (filtered_score exp_fn ?frame)" using r by (rule rngD)
  have c: "f_abs (filtered_score exp_fn ?frame - lit 0.5) * lit 2 \<noteq> NaN"
  proof (rule times_not_nan)
    have "rng (- 1) 1 (filtered_score exp_fn ?frame - lit 0.5)"
      by (rule rng_minus[OF r, of 0 1]) (simp_all add: rng_lit)
    then show "fin (f_abs (filtered_score exp_fn ?frame - lit 0.5))" by (auto dest: rngD)
  qed (simp add: fin_lit_small)
  have u: "f_max (filtered_score exp_fn ?frame - lit 0.65) 0 \<noteq> NaN" by (simp add: f_max_not_nan)
  show "filter_ok (Suc n) (fst (filter_step exp_fn ems fms s m))"
    "ft_previous_score (fst (filter_step exp_fn ems fms s m)) = sd_score (snd (filter_step exp_fn ems fms s m))"
    "sd_decision (snd (filter_step exp_fn ems fms s m)) =
      threshold_decision (ft_previous_score s) (sd_score (snd (filter_step exp_fn ems fms s m)))"
    "scored_ok (snd (filter_step exp_fn ems fms s m))"
    using w r f_clamp_unit[OF c] f_clamp_unit[OF u]
    by (simp_all add: filter_step_def filter_ok_def event_step_def feature_step_def decision_step_def scored_ok_def case_prod_unfold Let_def)
qed

lemma filter_run_ok:
  assumes "exp_like exp_fn" "filter_ok n s" "list_all market_ok ms" "n + length ms \<le> 2 ^ 20"
  shows "list_all scored_ok (snd (run_task (filter_step exp_fn ems fms) s ms))
    \<and> list_all2 (\<lambda>previous d. sd_decision d = threshold_decision previous (sd_score d))
      (butlast (ft_previous_score s # map sd_score (snd (run_task (filter_step exp_fn ems fms) s ms))))
      (snd (run_task (filter_step exp_fn ems fms) s ms))"
  using assms(2-4)
proof (induction ms arbitrary: s n)
  case (Cons m ms)
  note st = filter_step_ok[OF assms(1) Cons.prems(1), of m ems fms]
  from Cons.IH[of "Suc n" "fst (filter_step exp_fn ems fms s m)"] st Cons.prems
  show ?case by (auto simp: run_task_Cons simp del: run_task.simps)
qed simp

section \<open>Properties\<close>

text \<open>On bounded market events the first decision path emits scores, confidences and urgencies in [0, 1],
  and every decision is that of the thresholds on its score and the score before it, which starts
  at one half. The windows it reads may hold up to 2^20 events.\<close>
theorem filter_chain_sound:
  assumes "exp_like exp_fn" "list_all market_ok ms" "length ms \<le> 2 ^ 20"
  shows "let ds = snd (run_task (filter_step exp_fn event_ms feature_ms) filter_init ms)
    in list_all scored_ok ds \<and> list_all2 (\<lambda>previous d. sd_decision d = threshold_decision previous (sd_score d))
      (butlast (lit 0.5 # map sd_score ds)) ds"
proof -
  have "filter_ok 0 filter_init" by (simp add: filter_ok_def filter_init_def window_ok_def)
  from filter_run_ok[OF assms(1) this assms(2)] assms(3)
  have "list_all scored_ok (snd (run_task (filter_step exp_fn event_ms feature_ms) filter_init ms))
    \<and> list_all2 (\<lambda>previous d. sd_decision d = threshold_decision previous (sd_score d))
      (butlast (ft_previous_score filter_init # map sd_score (snd (run_task (filter_step exp_fn event_ms feature_ms) filter_init ms))))
      (snd (run_task (filter_step exp_fn event_ms feature_ms) filter_init ms))" by simp
  moreover have "ft_previous_score filter_init = lit 0.5" unfolding filter_init_def by (simp only: filter_state.select_convs)
  ultimately show ?thesis unfolding Let_def by simp
qed

lemma paper_slippage:
  "rng 1 2 (1 + lit 1.2 / lit 10000)" "rng 0 1 (1 + lit (- 1.2) / lit 10000)"
  by (simp_all add: rng_def f64_eval)

lemma paper_run_map: "paper_run clock is = map (\<lambda>(k, i). projr (paper_submit (clock k 1) i)) (enumerate 0 is)"
proof -
  have a: "attempt_loop (\<lambda>n. paper_submit (c n) i) 0 = Some (projr (paper_submit (c 1) i))" for c i
    by (simp add: attempt_loop.simps paper_submit_def Let_def)
  have "(case attempt_loop (\<lambda>n. paper_submit (clock k n) i) 0 of Some f \<Rightarrow> [f] | None \<Rightarrow> []) = [projr (paper_submit (clock k 1) i)]" for k i
    unfolding a by simp
  then show ?thesis unfolding paper_run_def by (simp add: case_prod_unfold concat_map_singleton)
qed

text \<open>Paper execution fills every intent once, at the first attempt and in full, never at a better price
  than the reference; and no paper fill is ever measured: the measurement ignores it.\<close>
theorem paper_fills_are_structural:
  assumes "\<forall>i \<in> set is. fin (reference_of i) \<and> 0 \<le> val (reference_of i) \<and> double (reference_of i)"
  shows "list_all2 (\<lambda>i f. fe_symbol f = rq_symbol (oi_request i) \<and> fe_side f = rq_side (oi_request i)
      \<and> fe_filled_size f = rq_size (oi_request i) \<and> fe_remaining_size f = 0 \<and> fe_complete f
      \<and> (case rq_side (oi_request i) of Buy \<Rightarrow> reference_of i \<le> fe_price f | Sell \<Rightarrow> fe_price f \<le> reference_of i)
      \<and> (\<forall>s. truth_step pow15 s (FillSeen f) = (s, []))) is (paper_run clock is)"
proof -
  have buy: "r \<le> r * (1 + lit 1.2 / lit 10000)" if "fin r" "0 \<le> val r" "double r" for r
    using that paper_slippage(1) by (intro times_ge_self) (auto simp: rng_def)
  have sell: "r * (1 + lit (- 1.2) / lit 10000) \<le> r" if "fin r" "0 \<le> val r" "double r" for r
    by (rule f64_times_le_self) (use that paper_slippage(2) in \<open>auto simp: double_def bound_def\<close>)
  show ?thesis unfolding paper_run_map using assms buy sell
    by (simp add: list_all2_conv_all_nth nth_enumerate_eq paper_submit_def Let_def truth_step_def reference_of_def
        split: side.split option.split)
qed

section \<open>Estimators\<close>

text \<open>The scores of adverse selection are in [0, 1] for intents of the order path; an exit signal asks for at most
  the whole position, and none is given in a liquid, uncrowded market that has not moved in favour.\<close>

lemma pre_fill_unit:
  assumes "dispatchable i" "oi_expected_slippage_bps i \<noteq> NaN" "rng 0 1 (mc_stability_score (oi_context i))"
    "rq_max_slippage_bps (oi_request i) \<noteq> PInf"
  shows "rng 0 1 (pre_fill_score i)"
proof -
  have r: "rng 0 1 (flow_risk s)" for s
    unfolding flow_risk_def by (cases s; simp only: flow_signal.case; simp add: rng_0_1 rng_lit)
  have t: "rng 0 1 (timing_risk s)" for s
    unfolding timing_risk_def by (cases s; simp only: timing_signal.case; simp add: rng_0_1 rng_lit)
  let ?d = "f_max (rq_max_slippage_bps (oi_request i)) 1"
  have d: "fin ?d" "1 \<le> val ?d" using assms(4)
    by (cases "rq_max_slippage_bps (oi_request i)"; auto simp: f_max_def one_f64_def less_f64_def)+
  have "lit 0.15 * oi_expected_slippage_bps i \<noteq> NaN"
    using times_not_nan'[OF assms(2), of "lit 0.15"] by (simp add: f64_eval)
  then have q: "lit 0.15 * oi_expected_slippage_bps i / ?d \<noteq> NaN" using d by (intro divide_not_nan') auto
  have s: "rng 0 1 (lit 0.15 * (1 - mc_stability_score (oi_context i)))"
    by (intro unit_term one_minus_unit assms(3)) simp_all
  have "rng 0 2 (lit 0.42 * flow_risk (fs_signal (oi_flow i)) + lit 0.28 * timing_risk (mt_signal (oi_timing i)))"
    by (intro rng_plus[of 0 1 _ 0 1] unit_term r t) simp_all
  then have "lit 0.42 * flow_risk (fs_signal (oi_flow i)) + lit 0.28 * timing_risk (mt_signal (oi_timing i))
      + lit 0.15 * oi_expected_slippage_bps i / ?d \<noteq> NaN" using q by (intro plus_not_nan) (auto dest: rngD)
  then show ?thesis unfolding pre_fill_score_def by (rule f_clamp_unit[OF plus_not_nan(2)]) (rule rngD[OF s])
qed

text \<open>The exit signals: ratios and urgencies in [0, 1]; the whole position exactly on a collapse of
  liquidity or on adverse flow; no signal exactly in a liquid market without adverse flow, with flow that
  continues and a gain that does not exceed the expected slippage.\<close>
theorem micro_exit_graded:
  "let x = micro_exit i fill_price adverse; liquid = mc_liquidity_score (oi_context i);
       gain = (oi_last_price i - fill_price) * fill_side_sign (rq_side (oi_request i)) / f_max fill_price f_epsilon * lit 10000
   in rng 0 1 (mx_reduce_ratio x) \<and> rng 0 1 (mx_urgency x)
     \<and> (mx_reason x = ExitNone \<longleftrightarrow> \<not> liquid < lit 0.28 \<and> \<not> lit 0.74 < adverse
         \<and> fs_signal (oi_flow i) \<in> {StrongContinuation, WeakContinuation} \<and> \<not> oi_expected_slippage_bps i + lit 2 < gain)
     \<and> (mx_reduce_ratio x = 1 \<longleftrightarrow> mx_reason x \<in> {LiquidityCollapse, AdverseFlow})"
proof -
  have l: "rng 0 1 (lit 0.95)" "rng 0 1 (lit 0.50)" "rng 0 1 (lit 0.70)" "rng 0 1 (lit 0.35)" "rng 0 1 (lit 0.45)" by (rule rng_lit; simp)+
  have n: "lit 0.50 \<noteq> 1" "lit 0.35 \<noteq> 1" "(0 :: f64) \<noteq> 1" by (simp_all add: f64_eval one_f64_def zero_f64_def)
  show ?thesis using l n unfolding Let_def micro_exit_def micro_exit_signal_default_def
    by (cases "fs_signal (oi_flow i)") (auto simp: rng_0_1)
qed

section \<open>Instances\<close>

definition ex_market :: "u64 \<Rightarrow> market_event" where
  "ex_market ts = \<lparr>me_timestamp = ts, me_price = Fin 100, me_volume = 1, me_side = Buy, me_bid_ask_imbalance = 0, me_spread = 1\<rparr>"

theorem filter_chain_sound_witness:
  "list_all scored_ok (snd (run_task (filter_step ex_exp 500 1000) filter_init [ex_market 1000, ex_market 1100]))"
proof -
  have "list_all market_ok [ex_market 1000, ex_market 1100]"
    by (simp add: market_ok_def ex_market_def mag_def)
  from filter_chain_sound[OF ex_exp_like this] show ?thesis by (simp add: Let_def)
qed

theorem paper_fills_are_structural_witness:
  "list_all2 (\<lambda>i f. fe_filled_size f = rq_size (oi_request i)) [ex_intent, ex_intent] (paper_run (\<lambda>k n j. 7) [ex_intent, ex_intent])"
proof -
  have "\<forall>i \<in> set [ex_intent, ex_intent]. fin (reference_of i) \<and> 0 \<le> val (reference_of i) \<and> double (reference_of i)"
    by (simp add: reference_of_def sample_defs double_def)
  from paper_fills_are_structural[OF this, of id "\<lambda>k n j. 7"] show ?thesis by (rule list_all2_mono) simp
qed

end
