(* ===== verification/Validation.thy ===== *)
theory Validation
  imports Latency
begin

text \<open>
  The comparison of trading modes (\<open>accounting/validation.rs\<close>): Welch's t statistic and the
  Kolmogorov-Smirnov statistic of the results in shadow, paper and live mode. The sort is the stable
  insertion the standard library's sort computes on numbers; with a NaN the order it leaves is
  unspecified, so the properties are about series of numbers.
\<close>

section \<open>Statistics\<close>

datatype validation_mode = ShadowMode | PaperMode | LiveMode

record statistical_test_result =
  tr_t_statistic :: f64
  tr_ks_statistic :: f64
  tr_passed :: bool

record validation_report =
  vr_comparisons :: "validation_mode \<times> validation_mode \<rightharpoonup> statistical_test_result"
  vr_accepted :: bool

definition series_mean :: "f64 list \<Rightarrow> f64" where
  "series_mean values = f_sum values / f_of_nat (length values)"

definition sample_variance :: "f64 list \<Rightarrow> f64 \<Rightarrow> f64" where
  "sample_variance values mean =
     (if length values < 2 then 0
      else f_sum (map (\<lambda>v. let delta = v - mean in delta * delta) values) / f_of_nat (length values - 1))"

definition welch_t_statistic :: "f64 list \<Rightarrow> f64 list \<Rightarrow> f64" where
  "welch_t_statistic a b =
     (if length a < 2 \<or> length b < 2 then PInf
      else let mean_a = series_mean a; mean_b = series_mean b;
               denom = f_sqrt (sample_variance a mean_a / f_of_nat (length a) + sample_variance b mean_b / f_of_nat (length b))
           in if denom \<le> f_epsilon then 0 else (mean_a - mean_b) / denom)"

text \<open>The merge: it counts in \<open>i\<close> and \<open>j\<close> how much of either series is consumed.\<close>

fun merge_loop :: "nat \<Rightarrow> nat \<Rightarrow> nat \<Rightarrow> nat \<Rightarrow> f64 \<Rightarrow> f64 \<Rightarrow> f64 \<Rightarrow> f64 list \<Rightarrow> f64 list \<Rightarrow> f64" where
  "merge_loop n m i j cdf_a cdf_b best (x # xs) (y # ys) =
     (if x \<le> y
      then let cdf = f_of_nat (i + 1) / f_of_nat n
           in merge_loop n m (i + 1) j cdf cdf_b (f_max best (f_abs (cdf - cdf_b))) xs (y # ys)
      else let cdf = f_of_nat (j + 1) / f_of_nat m
           in merge_loop n m i (j + 1) cdf_a cdf (f_max best (f_abs (cdf_a - cdf))) (x # xs) ys)"
| "merge_loop n m i j cdf_a cdf_b best [] ys = best"
| "merge_loop n m i j cdf_a cdf_b best xs [] = best"

fun insert_value :: "f64 \<Rightarrow> f64 list \<Rightarrow> f64 list" where
  "insert_value x [] = [x]"
| "insert_value x (y # ys) = (if y < x then y # insert_value x ys else x # y # ys)"

definition sort_values :: "f64 list \<Rightarrow> f64 list" where
  "sort_values xs = foldr insert_value xs []"

definition validation_ks :: "f64 list \<Rightarrow> f64 list \<Rightarrow> f64" where
  "validation_ks a b =
     (if a = [] \<or> b = [] then 1 else merge_loop (length a) (length b) 0 0 0 0 0 (sort_values a) (sort_values b))"

definition mode_pairs :: "f64 list \<Rightarrow> f64 list \<Rightarrow> f64 list \<Rightarrow> ((validation_mode \<times> validation_mode) \<times> f64 list \<times> f64 list) list" where
  "mode_pairs shadow paper live =
     [((ShadowMode, PaperMode), shadow, paper), ((ShadowMode, LiveMode), shadow, live), ((PaperMode, LiveMode), paper, live)]"

definition compare_series :: "f64 \<Rightarrow> f64 \<Rightarrow> f64 list \<Rightarrow> f64 list \<Rightarrow> statistical_test_result" where
  "compare_series t_threshold ks_threshold a b =
     (let t = welch_t_statistic a b; ks = validation_ks a b
      in \<lparr>tr_t_statistic = t, tr_ks_statistic = ks, tr_passed = (f_abs t \<le> t_threshold \<and> ks \<le> ks_threshold)\<rparr>)"

definition validate_modes :: "f64 list \<Rightarrow> f64 list \<Rightarrow> f64 list \<Rightarrow> f64 \<Rightarrow> f64 \<Rightarrow> validation_report" where
  "validate_modes shadow paper live t_threshold ks_threshold =
     foldl (\<lambda>r (modes, a, b).
         let result = compare_series t_threshold ks_threshold a b
         in \<lparr>vr_comparisons = (vr_comparisons r)(modes \<mapsto> result), vr_accepted = (vr_accepted r \<and> tr_passed result)\<rparr>)
       \<lparr>vr_comparisons = Map.empty, vr_accepted = True\<rparr> (mode_pairs shadow paper live)"

section \<open>The merge\<close>

lemma length_insert_value [simp]: "length (insert_value x ys) = Suc (length ys)"
  by (induction ys) simp_all

lemma length_sort_values [simp]: "length (sort_values xs) = length xs"
  by (induction xs) (simp_all add: sort_values_def)

lemma set_insert_value [simp]: "set (insert_value x ys) = insert x (set ys)"
  by (induction ys) auto

lemma set_sort_values [simp]: "set (sort_values xs) = set xs"
  by (induction xs) (simp_all add: sort_values_def)

lemma sort_values_sorted: "NaN \<notin> set xs \<Longrightarrow> sorted_wrt (\<le>) (sort_values xs)"
proof (induction xs)
  case (Cons x xs)
  have "sorted_wrt (\<le>) ys \<Longrightarrow> NaN \<notin> set ys \<Longrightarrow> sorted_wrt (\<le>) (insert_value x ys)" if "x \<noteq> NaN" for ys
  proof (induction ys)
    case (Cons y ys)
    then show ?case using that
      by (auto simp: f64_less_imp_le f64_not_less intro: f64_le_trans)
  qed simp
  with Cons show ?case by (auto simp: sort_values_def set_sort_values[unfolded sort_values_def])
qed (simp add: sort_values_def)

lemma fraction_unit: "i \<le> n \<Longrightarrow> 0 < n \<Longrightarrow> n \<le> 2 ^ 53 \<Longrightarrow> rng 0 1 (f_of_nat i / f_of_nat n)"
proof -
  assume a: "i \<le> n" "0 < n" "n \<le> 2 ^ 53"
  then have e: "f_of_nat i = Fin (of_nat i)" "f_of_nat n = Fin (of_nat n)" by (simp_all add: f_of_nat_exact)
  have "0 \<le> (of_nat i / of_nat n :: rat)" "of_nat i / of_nat n \<le> (1 :: rat)" using a by (simp_all add: divide_le_eq_1)
  then show ?thesis using a unfolding e by (simp add: divide_fin rng_mk)
qed

lemma fraction_full: "0 < n \<Longrightarrow> n \<le> 2 ^ 53 \<Longrightarrow> f_of_nat n / f_of_nat n = 1"
  by (simp add: f_of_nat_exact divide_fin one_f64_def mk_exact)

lemma unit_distance_max: "rng 0 1 a \<Longrightarrow> rng 0 1 b \<Longrightarrow> rng 0 1 best \<Longrightarrow> rng 0 1 (f_max best (f_abs (a - b)))"
  using rng_abs[OF rng_minus[of 0 1 a 0 1 b "- 1" 1]] rng_f_max[of 0 1 best 0 1 "f_abs (a - b)"] by simp

lemma merge_loop_unit:
  "rng 0 1 cdf_a \<Longrightarrow> rng 0 1 cdf_b \<Longrightarrow> rng 0 1 best \<Longrightarrow> i + length xs \<le> n \<Longrightarrow> j + length ys \<le> m \<Longrightarrow> n \<le> 2 ^ 53 \<Longrightarrow> m \<le> 2 ^ 53
    \<Longrightarrow> rng 0 1 (merge_loop n m i j cdf_a cdf_b best xs ys)"
proof (induction n m i j cdf_a cdf_b best xs ys rule: merge_loop.induct)
  case (1 n m i j cdf_a cdf_b best x xs y ys)
  have "rng 0 1 (f_of_nat (i + 1) / f_of_nat n)" "rng 0 1 (f_of_nat (j + 1) / f_of_nat m)"
    using "1.prems" by (intro fraction_unit; simp)+
  then show ?case using 1 by (auto simp: Let_def unit_distance_max)
qed simp_all

lemma validation_ks_unit:
  "length a \<le> 2 ^ 53 \<Longrightarrow> length b \<le> 2 ^ 53 \<Longrightarrow> rng 0 1 (validation_ks a b)"
  unfolding validation_ks_def using merge_loop_unit[of 0 0 0 0 "sort_values a" "length a" 0 "sort_values b" "length b"]
  by (simp add: rng_0_1)

lemma validate_modes_result:
  "validate_modes shadow paper live t ks =
    \<lparr>vr_comparisons = [(ShadowMode, PaperMode) \<mapsto> compare_series t ks shadow paper,
        (ShadowMode, LiveMode) \<mapsto> compare_series t ks shadow live, (PaperMode, LiveMode) \<mapsto> compare_series t ks paper live],
     vr_accepted = (tr_passed (compare_series t ks shadow paper) \<and> tr_passed (compare_series t ks shadow live)
       \<and> tr_passed (compare_series t ks paper live))\<rparr>"
  by (simp add: validate_modes_def mode_pairs_def Let_def conj_assoc)

lemma short_series_fails: "length a < 2 \<or> length b < 2 \<Longrightarrow> t \<noteq> PInf \<Longrightarrow> \<not> tr_passed (compare_series t ks a b)"
  by (cases t) (auto simp: compare_series_def welch_t_statistic_def Let_def)

text \<open>Against a series whose first value is not smaller, the other series is consumed to its end first.\<close>

lemma f_max_1: "rng 0 1 x \<Longrightarrow> f_max x 1 = 1"
  by (cases x) (auto simp: rng_def f_max_def one_f64_def less_f64_def)

lemma merge_constant:
  "i + k = n \<Longrightarrow> 0 < k \<Longrightarrow> n \<le> 2 ^ 53 \<Longrightarrow> rng 0 1 best \<Longrightarrow> \<forall>x \<in> set xs. x \<le> y \<Longrightarrow> length xs = k
    \<Longrightarrow> merge_loop n m i 0 c 0 best xs (y # ys) = 1"
proof (induction k arbitrary: i c best xs)
  case (Suc k)
  then obtain x xs' where xs: "xs = x # xs'" by (cases xs) simp_all
  let ?cdf = "f_of_nat (i + 1) / f_of_nat n"
  have u: "rng 0 1 ?cdf" using Suc.prems by (intro fraction_unit) simp_all
  have b: "rng 0 1 (f_max best (f_abs (?cdf - 0)))" using u Suc.prems by (intro unit_distance_max) (simp_all add: rng_0_1)
  show ?case
  proof (cases "k = 0")
    case True
    then have "?cdf = 1" using Suc.prems fraction_full[of n] by simp
    moreover have "f_abs (1 - 0 :: f64) = 1" by (simp add: f64_eval)
    ultimately show ?thesis using True xs Suc.prems f_max_1 by simp
  next
    case False
    then show ?thesis using Suc.IH[of "i + 1" "f_max best (f_abs (?cdf - 0))" xs' ?cdf] Suc.prems xs b by (simp add: Let_def)
  qed
qed simp

section \<open>Properties\<close>

text \<open>The report compares the three pairs of modes, each with its own statistics, and accepts exactly when all
  three pass; the Kolmogorov-Smirnov statistic is a probability, whatever the series hold, and a
  series of fewer than two results is never accepted under a finite threshold.\<close>
theorem validation_report_sound:
  assumes "length shadow \<le> 2 ^ 53" "length paper \<le> 2 ^ 53" "length live \<le> 2 ^ 53"
  shows "let r = validate_modes shadow paper live t ks
    in dom (vr_comparisons r) = {(ShadowMode, PaperMode), (ShadowMode, LiveMode), (PaperMode, LiveMode)}
      \<and> (vr_accepted r \<longleftrightarrow> (\<forall>x \<in> ran (vr_comparisons r). f_abs (tr_t_statistic x) \<le> t \<and> tr_ks_statistic x \<le> ks))
      \<and> (\<forall>x \<in> ran (vr_comparisons r). rng 0 1 (tr_ks_statistic x))
      \<and> (t \<noteq> PInf \<and> (length shadow < 2 \<or> length paper < 2 \<or> length live < 2) \<longrightarrow> \<not> vr_accepted r)"
proof -
  have p: "tr_passed (compare_series t ks a b) \<longleftrightarrow> f_abs (tr_t_statistic (compare_series t ks a b)) \<le> t
      \<and> tr_ks_statistic (compare_series t ks a b) \<le> ks" for a b by (simp add: compare_series_def Let_def)
  have u: "rng 0 1 (tr_ks_statistic (compare_series t ks a b))" if "length a \<le> 2 ^ 53" "length b \<le> 2 ^ 53" for a b
    using validation_ks_unit[OF that] by (simp add: compare_series_def Let_def)
  have r: "ran (vr_comparisons (validate_modes shadow paper live t ks)) =
      {compare_series t ks shadow paper, compare_series t ks shadow live, compare_series t ks paper live}"
    by (auto simp: validate_modes_result ran_def split: if_splits)
  have q: "t \<noteq> PInf \<and> (length shadow < 2 \<or> length paper < 2 \<or> length live < 2) \<longrightarrow> \<not> vr_accepted (validate_modes shadow paper live t ks)"
    using short_series_fails by (auto simp: validate_modes_result)
  show ?thesis unfolding Let_def r
    by (intro conjI q; use u assms p in \<open>auto simp: validate_modes_result\<close>)
qed


section \<open>Instances\<close>

theorem validation_report_sound_witness:
  "\<not> vr_accepted (validate_modes [1, Fin 2] [1] [1, Fin 3] (Fin 2) (Fin (1 / 2)))"
proof -
  have l: "length [1, Fin 2] \<le> 2 ^ 53" "length [1 :: f64] \<le> 2 ^ 53" "length [1, Fin 3] \<le> 2 ^ 53" by simp_all
  from validation_report_sound[OF l, of "Fin 2" "Fin (1 / 2)"] show ?thesis
    unfolding Let_def by (elim conjE) (erule mp, simp)
qed


end
