(* ===== verification/Interfaces.thy ===== *)
theory Interfaces
  imports Core
begin

text \<open>
  The traits of the accounting (\<open>accounting/interfaces.rs\<close>). \<open>StrategyDecision\<close> is the interface
  \<open>strategy_decision\<close>, with the ranges its readers may expect, and the scored decisions of the
  decision stage implement it; the other two traits only give access to the fields of their
  implementations. Nothing in the crate calls the traits yet. A \<open>Duration\<close> is its number of milliseconds.
\<close>

section \<open>Implementations\<close>

definition expected_edge :: "scored_decision \<Rightarrow> f64" where
  "expected_edge d = f_clamp (sd_continuation_prob d - sd_reversal_prob d) (- 1) 1"

definition decision_confidence :: "scored_decision \<Rightarrow> f64" where
  "decision_confidence d = sd_confidence d"

definition decision_direction :: "scored_decision \<Rightarrow> direction" where
  "decision_direction d = sd_direction d"

definition decision_duration :: "scored_decision \<Rightarrow> nat" where
  "decision_duration d = unat (sd_expected_duration_ms d)"

record execution_summary =
  su_fills :: "fill_ledger_entry list"
  su_slippage :: f64
  su_latency :: latency_breakdown
  su_fill_ratio :: f64

definition report_fills :: "execution_summary \<Rightarrow> fill_ledger_entry list" where
  "report_fills s = su_fills s"

definition report_slippage :: "execution_summary \<Rightarrow> f64" where
  "report_slippage s = su_slippage s"

definition report_latency :: "execution_summary \<Rightarrow> latency_breakdown" where
  "report_latency s = su_latency s"

definition report_fill_ratio :: "execution_summary \<Rightarrow> f64" where
  "report_fill_ratio s = su_fill_ratio s"

definition update_entries :: "ledger_batch_update \<Rightarrow> fill_ledger_entry list" where
  "update_entries u = lu_ledger_entries u"

definition update_pnl_state :: "ledger_batch_update \<Rightarrow> account_state" where
  "update_pnl_state u = lu_pnl_state u"

section \<open>The interface of a decision\<close>

locale strategy_decision =
  fixes valid :: "'d \<Rightarrow> bool" and edge :: "'d \<Rightarrow> f64" and confidence :: "'d \<Rightarrow> f64"
    and direction :: "'d \<Rightarrow> direction" and duration :: "'d \<Rightarrow> nat"
  assumes edge_range: "valid d \<Longrightarrow> rng (- 1) 1 (edge d)"
    and confidence_range: "valid d \<Longrightarrow> rng 0 1 (confidence d)"
    and duration_range: "valid d \<Longrightarrow> 80 \<le> duration d \<and> duration d \<le> 1500"
begin

lemma edge_is_number: "valid d \<Longrightarrow> edge d \<noteq> NaN \<and> confidence d \<noteq> NaN"
  using edge_range[of d] confidence_range[of d] by auto

lemma discounted_edge_nonneg: "valid d \<Longrightarrow> 0 \<le> edge d \<Longrightarrow> rng 0 1 (edge d * confidence d)"
  using edge_range[of d] confidence_range[of d]
  by (intro rng_times_nonneg[of 0 1 _ 0 1]) (auto simp: rng_def fin_le_iff)

end

lemma expected_edge_range:
  assumes "rng 0 1 (sd_continuation_prob d)" "rng 0 1 (sd_reversal_prob d)"
  shows "rng (- 1) 1 (expected_edge d)"
proof -
  have "sd_continuation_prob d - sd_reversal_prob d \<noteq> NaN" using assms by (intro minus_not_nan) (simp_all add: rng_def)
  then show ?thesis using f_clamp_rng[of _ "- 1" 1] by (simp add: expected_edge_def)
qed

interpretation scored: strategy_decision decision_ok expected_edge decision_confidence decision_direction decision_duration
  by unfold_locales
    (simp_all add: decision_ok_def expected_edge_range decision_confidence_def decision_duration_def)

text \<open>Every decision of the trading loop has an edge and a confidence its readers can compute with.\<close>
lemma loop_decisions_have_edges:
  assumes "core_answer_ok cfg (Some (d, outcome))"
  shows "rng (- 1) 1 (expected_edge d) \<and> rng 0 1 (decision_confidence d) \<and> 80 \<le> decision_duration d \<and> decision_duration d \<le> 1500"
  using assms scored.edge_range[of d] scored.confidence_range[of d] scored.duration_range[of d] by (simp add: core_answer_ok_def)

end
