(* ===== verification/Ingestion.thy ===== *)
theory Ingestion
  imports OrderBook
begin

text \<open>
  The market feed (\<open>ingestion.rs\<close>): the messages of the exchange, whose numbers are texts, and the
  generator of mock data. The web socket, the reader of the JSON object and the random numbers are
  outside: a message is the object's fields, a step of the mock feed takes its random draws. The
  reading of a decimal text is the grammar of the standard library's \<open>str::parse::<f64>\<close>.
\<close>

section \<open>Reading a number\<close>

definition is_digit :: "char \<Rightarrow> bool" where
  "is_digit c \<longleftrightarrow> 48 \<le> (of_char c :: nat) \<and> (of_char c :: nat) \<le> 57"

definition digits_value :: "string \<Rightarrow> nat" where
  "digits_value ds = foldl (\<lambda>a c. 10 * a + digit_value c) 0 ds"

text \<open>The exponent part: nothing, or an \<open>e\<close> with an optional sign and at least one digit.\<close>

definition parse_exponent :: "string \<Rightarrow> int option" where
  "parse_exponent s = (case s of
     [] \<Rightarrow> Some 0
   | c # rest \<Rightarrow>
       (if c \<noteq> CHR ''e'' \<and> c \<noteq> CHR ''E'' then None
        else let (sign, ds) = (case rest of
                   [] \<Rightarrow> (1, [])
                 | d # ds \<Rightarrow> if d = CHR ''-'' then (- 1, ds) else if d = CHR ''+'' then (1, ds) else (1, rest))
             in if ds = [] \<or> \<not> list_all is_digit ds then None else Some (sign * int (digits_value ds))))"

text \<open>Digits with an optional point, at least one digit on either side of it.\<close>

definition parse_number :: "string \<Rightarrow> rat option" where
  "parse_number s =
     (let whole = takeWhile is_digit s; rest = dropWhile is_digit s;
          (fraction, rest1) = (case rest of
            [] \<Rightarrow> ([], [])
          | c # cs \<Rightarrow> if c = CHR ''.'' then (takeWhile is_digit cs, dropWhile is_digit cs) else ([], rest))
      in if whole = [] \<and> fraction = [] then None
         else case parse_exponent rest1 of
             None \<Rightarrow> None
           | Some e \<Rightarrow> Some (of_nat (digits_value (whole @ fraction)) * 10 powi (e - int (length fraction))))"

definition lower_char :: "char \<Rightarrow> char" where
  "lower_char c = (let n = of_char c :: nat in if 65 \<le> n \<and> n \<le> 90 then char_of (n + 32) else c)"

definition parse_unsigned :: "bool \<Rightarrow> string \<Rightarrow> f64 option" where
  "parse_unsigned negative s =
     (let low = map lower_char s
      in if low = ''inf'' \<or> low = ''infinity'' then Some (f_inf negative)
         else if low = ''nan'' then Some NaN
         else map_option (\<lambda>q. mk negative (if negative then - q else q)) (parse_number s))"

definition parse_f64 :: "string \<Rightarrow> f64 option" where
  "parse_f64 s = (case s of
     [] \<Rightarrow> None
   | c # rest \<Rightarrow> if c = CHR ''-'' then parse_unsigned True rest
       else if c = CHR ''+'' then parse_unsigned False rest else parse_unsigned False s)"

section \<open>Messages\<close>

record agg_trade =
  at_event_time :: u64
  at_price :: string
  at_quantity :: string
  at_buyer_is_maker :: bool

record depth_message =
  dm_event_time :: "u64 option"
  dm_bids :: "(string \<times> string) list"
  dm_asks :: "(string \<times> string) list"

datatype binance_payload = AggTradeP agg_trade | DepthP depth_message

fun parse_pairs :: "(string \<times> string) list \<Rightarrow> (f64 \<times> f64) list option" where
  "parse_pairs [] = Some []"
| "parse_pairs ((p, q) # rest) =
     (case parse_f64 p of None \<Rightarrow> None
      | Some price \<Rightarrow> (case parse_f64 q of None \<Rightarrow> None
         | Some qty \<Rightarrow> map_option ((#) (price, qty)) (parse_pairs rest)))"

definition levels_of :: "(f64 \<times> f64) list \<Rightarrow> book_level list" where
  "levels_of ps = map (\<lambda>(price, quantity). \<lparr>bl_price = price, bl_quantity = quantity\<rparr>) ps"

text \<open>The update of a payload; one whose texts are not numbers is not decoded and dropped.\<close>

definition update_of_payload :: "u64 \<Rightarrow> binance_payload \<Rightarrow> market_update option" where
  "update_of_payload now payload = (case payload of
     AggTradeP t \<Rightarrow>
       (case parse_f64 (at_price t) of None \<Rightarrow> None
        | Some price \<Rightarrow> (case parse_f64 (at_quantity t) of None \<Rightarrow> None
           | Some qty \<Rightarrow> Some (TradeUpdate \<lparr>te_timestamp = at_event_time t, te_price = price, te_volume = qty,
               te_side = (if at_buyer_is_maker t then Sell else Buy)\<rparr>)))
   | DepthP d \<Rightarrow>
       (case parse_pairs (dm_bids d) of None \<Rightarrow> None
        | Some bids \<Rightarrow> (case parse_pairs (dm_asks d) of None \<Rightarrow> None
           | Some asks \<Rightarrow> Some (BookUpdate \<lparr>bd_timestamp = (case dm_event_time d of Some t \<Rightarrow> t | None \<Rightarrow> now),
               bd_bids = levels_of bids, bd_asks = levels_of asks\<rparr>))))"

text \<open>The texts of one session: \<open>None\<close> is a text that is no envelope.\<close>

definition feed_updates :: "(u64 \<times> binance_payload option) list \<Rightarrow> market_update list" where
  "feed_updates ms = concat (map (\<lambda>(now, m). case m of None \<Rightarrow> [] | Some p \<Rightarrow>
     (case update_of_payload now p of None \<Rightarrow> [] | Some u \<Rightarrow> [u])) ms)"

section \<open>Mock data\<close>

record mock_draw =
  mo_impulse :: f64
  mo_volume :: f64
  mo_wall_side :: bool
  mo_wall :: bool
  mo_bid_quantities :: "f64 list"
  mo_ask_quantities :: "f64 list"

definition mock_levels :: "(f64 \<Rightarrow> f64 \<Rightarrow> f64) \<Rightarrow> f64 \<Rightarrow> bool \<Rightarrow> f64 \<Rightarrow> f64 list \<Rightarrow> book_level list" where
  "mock_levels shift price walled wall_size quantities =
     map (\<lambda>(level, quantity). \<lparr>bl_price = shift price (f_of_nat level * lit 0.5),
         bl_quantity = quantity * (if walled \<and> level = 3 then wall_size else 1)\<rparr>) (enumerate 1 quantities)"

definition mock_step :: "f64 \<Rightarrow> u64 \<Rightarrow> mock_draw \<Rightarrow> f64 \<times> market_update list" where
  "mock_step price now d =
     (let price1 = f_max (price + mo_impulse d) 1;
          wall_size = (if mo_wall d then lit 8 else 1);
          trade = \<lparr>te_timestamp = now, te_price = price1, te_volume = mo_volume d,
            te_side = (if 0 \<le> mo_impulse d then Buy else Sell)\<rparr>;
          delta = \<lparr>bd_timestamp = now,
            bd_bids = mock_levels (-) price1 (mo_wall_side d) wall_size (mo_bid_quantities d),
            bd_asks = mock_levels (+) price1 (\<not> mo_wall_side d) wall_size (mo_ask_quantities d)\<rparr>
      in (price1, [BookUpdate delta, TradeUpdate trade]))"

definition mock_init :: f64 where "mock_init = lit 67000"

section \<open>Decimal texts\<close>

lemma is_digit_string_of_nat: "list_all is_digit (string_of_nat n)"
proof (induction n rule: string_of_nat.induct)
  case (1 n)
  have d: "is_digit (char_of (48 + k))" if "k < 10" for k :: nat
    using that by (simp add: is_digit_def of_char_of)
  show ?case using 1 d[of n] d[of "n mod 10"] by (subst string_of_nat.simps) simp
qed

lemma digits_value_string_of_nat [simp]: "digits_value (string_of_nat n) = n"
  by (simp add: digits_value_def string_of_nat_parse)

lemma digits_fold: "foldl (\<lambda>a c. 10 * a + digit_value c) b ys = b * 10 ^ length ys + digits_value ys"
proof (induction ys arbitrary: b)
  case (Cons y ys)
  have "digits_value (y # ys) = digit_value y * 10 ^ length ys + digits_value ys"
    unfolding digits_value_def[of "y # ys"] foldl_Cons Cons by simp
  then show ?case unfolding foldl_Cons Cons by (simp add: algebra_simps)
qed (simp add: digits_value_def)

lemma digits_value_append: "digits_value (xs @ ys) = digits_value xs * 10 ^ length ys + digits_value ys"
  using digits_fold[of "foldl (\<lambda>a c. 10 * a + digit_value c) 0 xs" ys] by (simp add: digits_value_def)

lemma string_of_nat_nonempty: "string_of_nat n \<noteq> []"
  by (subst string_of_nat.simps) simp

lemma parse_number_decimal:
  assumes "list_all is_digit ws" "ws \<noteq> []" "list_all is_digit ds"
  shows "parse_number (ws @ CHR ''.'' # ds) = Some (of_nat (digits_value ws) + of_nat (digits_value ds) / 10 ^ length ds)"
    "parse_number ws = Some (of_nat (digits_value ws))"
proof -
  have t: "takeWhile is_digit xs = xs" "dropWhile is_digit xs = []" if "list_all is_digit xs" for xs
    using that by (auto simp: list_all_iff takeWhile_eq_all_conv)
  have p: "\<not> is_digit (CHR ''.'')" by (simp add: is_digit_def)
  have "takeWhile is_digit (ws @ CHR ''.'' # ds) = ws" "dropWhile is_digit (ws @ CHR ''.'' # ds) = CHR ''.'' # ds"
    using assms(1) p by (simp_all add: list_all_iff takeWhile_append2 dropWhile_append2)
  then show "parse_number (ws @ CHR ''.'' # ds) = Some (of_nat (digits_value ws) + of_nat (digits_value ds) / 10 ^ length ds)"
    using assms(2) unfolding parse_number_def Let_def
    by (simp add: t[OF assms(3)] parse_exponent_def digits_value_append power_int_minus field_simps)
  show "parse_number ws = Some (of_nat (digits_value ws))"
    using assms(2) unfolding parse_number_def Let_def by (simp add: t[OF assms(1)] parse_exponent_def)
qed

text \<open>A digit or a point is neither a sign nor a letter.\<close>

lemma digit_chars:
  "is_digit c \<Longrightarrow> c \<noteq> CHR ''-''" "is_digit c \<Longrightarrow> c \<noteq> CHR ''+''" "is_digit c \<Longrightarrow> lower_char c = c"
  "is_digit c \<Longrightarrow> c \<noteq> CHR ''i''" "is_digit c \<Longrightarrow> c \<noteq> CHR ''n''"
  by (auto simp: is_digit_def lower_char_def Let_def)

lemma parse_unsigned_digits:
  assumes "is_digit (hd s)" "s \<noteq> []"
  shows "parse_unsigned negative s = map_option (\<lambda>q. mk negative (if negative then - q else q)) (parse_number s)"
proof -
  obtain c cs where s: "s = c # cs" "is_digit c" using assms by (cases s) simp_all
  have "map lower_char s \<noteq> ''inf''" "map lower_char s \<noteq> ''infinity''" "map lower_char s \<noteq> ''nan''"
    using digit_chars(3-5)[OF s(2)] by (auto simp: s(1))
  then show ?thesis by (simp add: parse_unsigned_def Let_def)
qed

lemma parse_f64_digits:
  assumes "is_digit (hd s)" "s \<noteq> []"
  shows "parse_f64 s = map_option (mk False) (parse_number s)"
    "parse_f64 (CHR ''-'' # s) = map_option (\<lambda>q. mk True (- q)) (parse_number s)"
proof -
  obtain c cs where s: "s = c # cs" "is_digit c" using assms by (cases s) simp_all
  show "parse_f64 s = map_option (mk False) (parse_number s)"
    using parse_unsigned_digits[OF assms, of False] digit_chars(1,2)[OF s(2)] by (simp add: parse_f64_def s(1))
  show "parse_f64 (CHR ''-'' # s) = map_option (\<lambda>q. mk True (- q)) (parse_number s)"
    using parse_unsigned_digits[OF assms, of True] by (simp add: parse_f64_def)
qed

section \<open>Mock prices\<close>

definition draw_ok :: "mock_draw \<Rightarrow> bool" where
  "draw_ok d \<longleftrightarrow> rng (- 18) 18 (mo_impulse d) \<and> length (mo_bid_quantities d) = 10 \<and> length (mo_ask_quantities d) = 10"

definition mock_price_ok :: "nat \<Rightarrow> f64 \<Rightarrow> bool" where
  "mock_price_ok n p \<longleftrightarrow> rng 1 (67000 + 18 * of_nat n) p \<and> double p"

lemma bound_mock: "n \<le> 2 ^ 40 \<Longrightarrow> bound (67000 + 18 * of_nat n :: rat)"
proof -
  assume n: "n \<le> 2 ^ 40"
  have "bound (of_int (67000 + 18 * int n) :: rat)" using n by (intro bound_of_int) auto
  then show ?thesis by simp
qed

lemma mock_price_step:
  assumes "mock_price_ok n p" "draw_ok d" "n < 2 ^ 40"
  shows "mock_price_ok (Suc n) (fst (mock_step p now d))"
proof -
  have "rng (- 17) (67000 + 18 * of_nat (Suc n)) (p + mo_impulse d)"
    using assms(1,2) bound_mock[of "Suc n"] assms(3)
    by (intro rng_plus[of 1 "67000 + 18 * of_nat n" p "- 18" 18]) (simp_all add: mock_price_ok_def draw_ok_def)
  then have "rng 1 (67000 + 18 * of_nat (Suc n)) (f_max (p + mo_impulse d) 1)"
    using rng_f_max[of "- 17" "67000 + 18 * of_nat (Suc n)" "p + mo_impulse d" 1 1 1] by (simp add: rng_def)
  moreover have "double (f_max (p + mo_impulse d) 1)" by simp
  ultimately show ?thesis by (simp add: mock_price_ok_def mock_step_def Let_def)
qed

lemma length_mock_levels: "length (mock_levels f p w z qs) = length qs"
  by (simp add: mock_levels_def)

lemma mock_level_prices:
  assumes "mock_price_ok n p" "n \<le> 2 ^ 40" "length qs = 10"
  shows "l \<in> set (mock_levels (-) p w z qs) \<Longrightarrow> bl_price l \<le> p" "l \<in> set (mock_levels (+) p w z qs) \<Longrightarrow> p \<le> bl_price l"
proof -
  have x: "fin (f_of_nat k * lit 0.5)" "0 \<le> val (f_of_nat k * lit 0.5)" if "k < 11" for k
  proof -
    have "rng 0 16 (f_of_nat k * lit 0.5)"
    proof (rule rng_times_nonneg[of 0 16 _ 0 1])
      show "rng 0 16 (f_of_nat k)" using that by (simp add: f_of_nat_exact rng_def)
      show "rng 0 1 (lit 0.5)" by (rule rng_lit) simp_all
    qed simp_all
    then show "fin (f_of_nat k * lit 0.5)" "0 \<le> val (f_of_nat k * lit 0.5)" by (auto simp: rng_def)
  qed
  have p: "fin p" "double p" using assms(1) by (auto simp: mock_price_ok_def dest: rngD)
  have k: "k < 11" if "(k, q) \<in> set (enumerate 1 qs)" for k q using that assms(3) by (auto simp: in_set_enumerate_eq)
  show "l \<in> set (mock_levels (-) p w z qs) \<Longrightarrow> bl_price l \<le> p" "l \<in> set (mock_levels (+) p w z qs) \<Longrightarrow> p \<le> bl_price l"
    using minus_nonneg_le[OF p] plus_nonneg_ge[OF p] x k by (auto simp: mock_levels_def)
qed

definition mock_update_ok :: "market_update \<Rightarrow> bool" where
  "mock_update_ok u = (case u of
     TradeUpdate t \<Rightarrow> 1 \<le> te_price t
   | BookUpdate d \<Rightarrow> length (bd_bids d) = 10 \<and> length (bd_asks d) = 10 \<and> (\<forall>b \<in> set (bd_bids d). \<forall>a \<in> set (bd_asks d). bl_price b \<le> bl_price a))"

lemma mock_step_updates:
  assumes "mock_price_ok n p" "draw_ok d" "n < 2 ^ 40"
  shows "list_all mock_update_ok (snd (mock_step p now d))"
proof -
  let ?p = "fst (mock_step p now d)"
  have ok: "mock_price_ok (Suc n) ?p" by (rule mock_price_step[OF assms])
  have n: "Suc n \<le> 2 ^ 40" using assms(3) by simp
  have q: "length (mo_bid_quantities d) = 10" "length (mo_ask_quantities d) = 10" using assms(2) by (simp_all add: draw_ok_def)
  have e: "?p = f_max (p + mo_impulse d) 1" by (simp add: mock_step_def Let_def)
  have "1 \<le> ?p" using ok by (auto simp: mock_price_ok_def rng_def fin_le_iff)
  moreover have "bl_price b \<le> bl_price a"
    if "b \<in> set (mock_levels (-) ?p w z (mo_bid_quantities d))" "a \<in> set (mock_levels (+) ?p w' z (mo_ask_quantities d))" for a b w w' z
    using f64_le_trans[OF mock_level_prices(1)[OF ok n q(1) that(1)] mock_level_prices(2)[OF ok n q(2) that(2)]] .
  ultimately show ?thesis using q unfolding e
    by (simp add: mock_step_def mock_update_ok_def Let_def length_mock_levels)
qed

section \<open>Properties\<close>


text \<open>The levels of the book under the feed.\<close>

definition names_bid :: "int \<Rightarrow> market_update \<Rightarrow> bool" where
  "names_bid t u = (case u of TradeUpdate _ \<Rightarrow> False | BookUpdate d \<Rightarrow> \<exists>l \<in> set (bd_bids d). to_tick (bl_price l) = t)"

text \<open>C37: The depth messages are snapshots of the best five levels, but they reach the book as changes: a bid
  level stays in the book, with its quantity, through any messages none of which names its price,
  however far the market has moved away from it.\<close>
theorem levels_outlive_snapshots:
  assumes "sides_ok b" "\<forall>u \<in> set (feed_updates ms). \<not> names_bid t u"
  shows "bt_get (bk_bids (foldl book_step b (feed_updates ms))) t = bt_get (bk_bids b) t"
proof -
  have "sides_ok b \<Longrightarrow> \<forall>u \<in> set us. \<not> names_bid t u \<Longrightarrow> bt_get (bk_bids (foldl book_step b us)) t = bt_get (bk_bids b) t" for us
  proof (induction us arbitrary: b)
    case (Cons u us)
    have "bt_get (bk_bids (book_step b u)) t = bt_get (bk_bids b) t"
      using Cons.prems by (cases u) (simp_all add: book_step_def names_bid_def apply_levels_sides level_spec_other)
    moreover have "sides_ok (book_step b u)" using Cons.prems(1)
      by (cases u) (simp_all add: book_step_def sides_ok_def apply_levels_sides(1)[unfolded sides_ok_def])
    ultimately show ?case using Cons.IH[of "book_step b u"] Cons.prems by simp
  qed simp
  then show ?thesis using assms by blast
qed

text \<open>The mock feed quotes a positive price and a book that is not crossed.\<close>

theorem mock_feed_sound:
  assumes "list_all (\<lambda>x. draw_ok (snd x)) xs" "length xs \<le> 2 ^ 40"
  shows "list_all (list_all mock_update_ok) (snd (run_task (\<lambda>p x. mock_step p (fst x) (snd x)) mock_init xs))"
proof -
  have "mock_price_ok n p \<Longrightarrow> n + length xs \<le> 2 ^ 40 \<Longrightarrow> list_all (\<lambda>x. draw_ok (snd x)) xs \<Longrightarrow>
    list_all (list_all mock_update_ok) (snd (run_task (\<lambda>p x. mock_step p (fst x) (snd x)) p xs))" for n p
  proof (induction xs arbitrary: n p)
    case (Cons x xs)
    then show ?case using mock_price_step[of n p "snd x" "fst x"] mock_step_updates[of n p "snd x" "fst x"]
      by (auto simp: run_task_Cons simp del: run_task.simps)
  qed simp
  moreover have "mock_price_ok 0 mock_init" by (simp add: mock_price_ok_def mock_init_def lit_exact rng_def double_def)
  ultimately show ?thesis using assms by fastforce
qed

section \<open>Instances\<close>


definition ex_depth :: "string \<Rightarrow> string \<Rightarrow> binance_payload" where
  "ex_depth bid ask = DepthP \<lparr>dm_event_time = Some 5, dm_bids = [(bid, ''1'')], dm_asks = [(ask, ''1'')]\<rparr>"

lemma parse_f64_number:
  "list_all is_digit ws \<Longrightarrow> ws \<noteq> [] \<Longrightarrow> parse_f64 ws = Some (f_of_nat (digits_value ws))"
  using parse_f64_digits(1)[of ws] parse_number_decimal(2)[of ws "[]"] by (cases ws) (simp_all add: f_of_nat_def)

theorem levels_outlive_snapshots_witness:
  "bt_get (bk_bids (foldl book_step (fst (apply_delta order_book_default ex_delta)) (feed_updates [(9, Some (ex_depth ''103'' ''105''))]))) 9900
    = bt_get (bk_bids (fst (apply_delta order_book_default ex_delta))) 9900"
proof (rule levels_outlive_snapshots)
  have "book_ok (book_step order_book_default (BookUpdate ex_delta))"
    by (intro book_step_ok book_ok_default ex_delta_valid)
  then show "sides_ok (fst (apply_delta order_book_default ex_delta))" by (simp add: book_ok_def book_step_def)
  have n: "parse_f64 ''103'' = Some (Fin 103)" "parse_f64 ''105'' = Some (Fin 105)" "parse_f64 ''1'' = Some (Fin 1)"
    by (subst parse_f64_number; simp add: is_digit_def digits_value_def digit_value_def f_of_nat_exact)+
  show "\<forall>u \<in> set (feed_updates [(9, Some (ex_depth ''103'' ''105''))]). \<not> names_bid 9900 u"
    by (simp add: feed_updates_def ex_depth_def update_of_payload_def n levels_of_def names_bid_def ex_ticks)
qed

definition ex_draw :: "f64 \<Rightarrow> mock_draw" where
  "ex_draw impulse = \<lparr>mo_impulse = impulse, mo_volume = 1, mo_wall_side = True, mo_wall = True,
     mo_bid_quantities = replicate 10 1, mo_ask_quantities = replicate 10 1\<rparr>"

theorem mock_feed_sound_witness:
  "list_all (list_all mock_update_ok) (snd (run_task (\<lambda>p x. mock_step p (fst x) (snd x)) mock_init [(5, ex_draw (- 1)), (15, ex_draw 1)]))"
  by (rule mock_feed_sound) (simp_all add: ex_draw_def draw_ok_def rng_def)

end
