(* ===== verification/Fanout.thy ===== *)
theory Fanout
  imports Ingestion "HOL-Library.Sublist"
begin

text \<open>
  The distribution of the market updates (\<open>fanout_market_update\<close> and its task in \<open>pipeline.rs\<close>): the channels
  are bounded, the micro structure stage is waited for, the measurement and the execution controller
  lose an update when their channel is full. A step relation interleaves the task with the three
  consumers; the state carries the histories of what came in and what each consumer took.
\<close>

section \<open>The channels\<close>

definition try_send :: "nat \<Rightarrow> 'a list \<Rightarrow> 'a \<Rightarrow> 'a list option" where
  "try_send capacity queue x = (if length queue < capacity then Some (queue @ [x]) else None)"

definition send_or_drop :: "nat \<Rightarrow> 'a list \<Rightarrow> 'a \<Rightarrow> 'a list" where
  "send_or_drop capacity queue x = (case try_send capacity queue x of Some q \<Rightarrow> q | None \<Rightarrow> queue)"

record fanout_state =
  fo_waiting :: "market_update option"
  fo_micro :: "market_update list"
  fo_truth :: "market_update list"
  fo_controller :: "market_update list"
  fo_input :: "market_update list"
  fo_micro_taken :: "market_update list"
  fo_truth_taken :: "market_update list"
  fo_controller_taken :: "market_update list"

definition fanout_init :: fanout_state where
  "fanout_init = \<lparr>fo_waiting = None, fo_micro = [], fo_truth = [], fo_controller = [], fo_input = [],
     fo_micro_taken = [], fo_truth_taken = [], fo_controller_taken = []\<rparr>"

text \<open>What follows the send to the micro structure stage.\<close>

definition offer_others :: "nat \<Rightarrow> fanout_state \<Rightarrow> market_update \<Rightarrow> fanout_state" where
  "offer_others capacity s u =
     s\<lparr>fo_truth := send_or_drop capacity (fo_truth s) u, fo_controller := send_or_drop capacity (fo_controller s) u\<rparr>"

definition fanout_market_update :: "nat \<Rightarrow> fanout_state \<Rightarrow> market_update \<Rightarrow> fanout_state" where
  "fanout_market_update capacity s u =
     (let s1 = s\<lparr>fo_input := fo_input s @ [u]\<rparr>
      in case try_send capacity (fo_micro s1) u of
           Some q \<Rightarrow> offer_others capacity (s1\<lparr>fo_micro := q\<rparr>) u
         | None \<Rightarrow> s1\<lparr>fo_waiting := Some u\<rparr>)"

text \<open>The steps: the task receives an update when it is not waiting and continues when there is room;
  each consumer takes the oldest update of its channel.\<close>

datatype fanout_event = Receive market_update | Resume | TakeMicro | TakeTruth | TakeController

inductive fanout_step :: "nat \<Rightarrow> fanout_state \<Rightarrow> fanout_event \<Rightarrow> fanout_state \<Rightarrow> bool" for capacity where
  receive: "fo_waiting s = None \<Longrightarrow> fanout_step capacity s (Receive u) (fanout_market_update capacity s u)"
| resume: "fo_waiting s = Some u \<Longrightarrow> try_send capacity (fo_micro s) u = Some q \<Longrightarrow>
    fanout_step capacity s Resume (offer_others capacity (s\<lparr>fo_micro := q, fo_waiting := None\<rparr>) u)"
| take_micro: "fo_micro s = u # q \<Longrightarrow>
    fanout_step capacity s TakeMicro (s\<lparr>fo_micro := q, fo_micro_taken := fo_micro_taken s @ [u]\<rparr>)"
| take_truth: "fo_truth s = u # q \<Longrightarrow>
    fanout_step capacity s TakeTruth (s\<lparr>fo_truth := q, fo_truth_taken := fo_truth_taken s @ [u]\<rparr>)"
| take_controller: "fo_controller s = u # q \<Longrightarrow>
    fanout_step capacity s TakeController (s\<lparr>fo_controller := q, fo_controller_taken := fo_controller_taken s @ [u]\<rparr>)"

inductive_cases fanout_stepE: "fanout_step capacity s e s'"

inductive fanout_reachable :: "nat \<Rightarrow> fanout_state \<Rightarrow> bool" for capacity where
  start: "fanout_reachable capacity fanout_init"
| step: "fanout_reachable capacity s \<Longrightarrow> fanout_step capacity s e s' \<Longrightarrow> fanout_reachable capacity s'"

section \<open>The invariant\<close>

definition micro_seen :: "fanout_state \<Rightarrow> market_update list" where
  "micro_seen s = fo_micro_taken s @ fo_micro s"

lemma micro_seen_update [simp]:
  "micro_seen (s\<lparr>fo_input := x\<rparr>) = micro_seen s" "micro_seen (s\<lparr>fo_waiting := w\<rparr>) = micro_seen s"
  by (simp_all add: micro_seen_def)

definition fanout_ok :: "nat \<Rightarrow> fanout_state \<Rightarrow> bool" where
  "fanout_ok capacity s \<longleftrightarrow>
     fo_input s = micro_seen s @ (case fo_waiting s of None \<Rightarrow> [] | Some u \<Rightarrow> [u])
     \<and> subseq (fo_truth_taken s @ fo_truth s) (micro_seen s)
     \<and> subseq (fo_controller_taken s @ fo_controller s) (micro_seen s)
     \<and> length (fo_micro s) \<le> capacity \<and> length (fo_truth s) \<le> capacity \<and> length (fo_controller s) \<le> capacity"

lemma send_or_drop_seen:
  assumes "subseq (taken @ q) seen" "length q \<le> capacity"
  shows "subseq (taken @ send_or_drop capacity q u) (seen @ [u])" "length (send_or_drop capacity q u) \<le> capacity"
proof -
  have "subseq ((taken @ q) @ [u]) (seen @ [u])" using assms(1) by (intro list_emb_append_mono) simp_all
  moreover have "subseq (taken @ q) (seen @ [u])" using assms(1) by (rule list_emb_prefix)
  ultimately show "subseq (taken @ send_or_drop capacity q u) (seen @ [u])" "length (send_or_drop capacity q u) \<le> capacity"
    using assms(2) by (auto simp: send_or_drop_def try_send_def)
qed

lemma offer_others_ok:
  assumes "fo_input s = micro_seen s @ [u]" "subseq (fo_truth_taken s @ fo_truth s) (micro_seen s)"
    "subseq (fo_controller_taken s @ fo_controller s) (micro_seen s)" "length (fo_truth s) \<le> capacity"
    "length (fo_controller s) \<le> capacity" "try_send capacity (fo_micro s) u = Some q" "fo_waiting s' = None"
    "s' = s\<lparr>fo_micro := q, fo_waiting := None\<rparr>"
  shows "fanout_ok capacity (offer_others capacity s' u)"
proof -
  have "micro_seen (offer_others capacity s' u) = micro_seen s @ [u]" "length q \<le> capacity"
    using assms(6,8) by (auto simp: micro_seen_def offer_others_def try_send_def split: if_splits)
  then show ?thesis
    using assms(1,8) send_or_drop_seen[OF assms(2,4), of u] send_or_drop_seen[OF assms(3,5), of u]
    by (simp add: fanout_ok_def offer_others_def)
qed

lemma fanout_step_ok:
  assumes "fanout_step capacity s e s'" "fanout_ok capacity s"
  shows "fanout_ok capacity s'"
  using assms(1)
proof cases
  case (receive u)
  let ?s = "s\<lparr>fo_input := fo_input s @ [u]\<rparr>"
  have w: "fo_input s = micro_seen s" using assms(2) receive(3) by (simp add: fanout_ok_def)
  show ?thesis
  proof (cases "try_send capacity (fo_micro s) u")
    case None
    then have "s' = ?s\<lparr>fo_waiting := Some u\<rparr>" using receive by (simp add: fanout_market_update_def)
    then show ?thesis using assms(2) receive(3) by (simp add: fanout_ok_def micro_seen_def)
  next
    case (Some q)
    have "fanout_ok capacity (offer_others capacity (?s\<lparr>fo_micro := q, fo_waiting := None\<rparr>) u)"
      using assms(2) w Some by (intro offer_others_ok[where s = ?s and q = q]) (simp_all add: fanout_ok_def)
    moreover have "?s\<lparr>fo_micro := q, fo_waiting := None\<rparr> = ?s\<lparr>fo_micro := q\<rparr>" using receive by simp
    ultimately show ?thesis using receive Some by (simp add: fanout_market_update_def)
  qed
next
  case (resume u q)
  have "fanout_ok capacity (offer_others capacity (s\<lparr>fo_micro := q, fo_waiting := None\<rparr>) u)"
    using assms(2) resume(3,4) by (intro offer_others_ok[where s = s and q = q]) (simp_all add: fanout_ok_def)
  then show ?thesis using resume(2) by simp
qed (use assms(2) in \<open>auto simp: fanout_ok_def micro_seen_def split: option.splits\<close>)

lemma fanout_init_ok: "fanout_ok capacity fanout_init"
  by (simp add: fanout_ok_def fanout_init_def micro_seen_def)

lemma fanout_reachable_ok: "fanout_reachable capacity s \<Longrightarrow> fanout_ok capacity s"
  by (induction rule: fanout_reachable.induct) (rule fanout_init_ok, erule fanout_step_ok)

section \<open>Properties\<close>

text \<open>Whatever the interleaving of the distribution with its consumers, the micro structure stage receives
  every update once and in order, none is ever lost on that channel; the measurement and the
  controller receive a subsequence of what it was given; no channel exceeds its capacity; and a
  waiting update goes out after at most one more step of the micro structure stage.\<close>
theorem fanout_keeps_order:
  assumes "fanout_reachable capacity s" "0 < capacity"
  shows "(\<exists>rest. fo_input s = fo_micro_taken s @ fo_micro s @ rest \<and> length rest \<le> 1)
    \<and> subseq (fo_truth_taken s @ fo_truth s) (fo_micro_taken s @ fo_micro s)
    \<and> subseq (fo_controller_taken s @ fo_controller s) (fo_micro_taken s @ fo_micro s)
    \<and> length (fo_micro s) \<le> capacity \<and> length (fo_truth s) \<le> capacity \<and> length (fo_controller s) \<le> capacity
    \<and> (\<forall>u. fo_waiting s = Some u \<longrightarrow> (\<exists>s'. fanout_step capacity s Resume s')
        \<or> (\<exists>s1 s2. fanout_step capacity s TakeMicro s1 \<and> fanout_step capacity s1 Resume s2 \<and> fo_waiting s2 = None))"
proof -
  have ok: "fanout_ok capacity s" using fanout_reachable_ok[OF assms(1)] .
  have p: "(\<exists>s'. fanout_step capacity s Resume s')
      \<or> (\<exists>s1 s2. fanout_step capacity s TakeMicro s1 \<and> fanout_step capacity s1 Resume s2 \<and> fo_waiting s2 = None)"
    if "fo_waiting s = Some u" for u
  proof (cases "length (fo_micro s) < capacity")
    case True
    then show ?thesis using fanout_step.resume[OF that, of capacity] by (auto simp: try_send_def)
  next
    case False
    then obtain v q where q: "fo_micro s = v # q" using assms(2) by (cases "fo_micro s") auto
    let ?s1 = "s\<lparr>fo_micro := q, fo_micro_taken := fo_micro_taken s @ [v]\<rparr>"
    have "length q < capacity" using ok q by (simp add: fanout_ok_def)
    then have "fanout_step capacity ?s1 Resume (offer_others capacity (?s1\<lparr>fo_micro := q @ [u], fo_waiting := None\<rparr>) u)"
      using that by (intro fanout_step.resume) (simp_all add: try_send_def)
    moreover have "fo_waiting (offer_others capacity (?s1\<lparr>fo_micro := q @ [u], fo_waiting := None\<rparr>) u) = None"
      by (simp add: offer_others_def)
    ultimately show ?thesis using fanout_step.take_micro[OF q, of capacity] by blast
  qed
  have i: "\<exists>rest. fo_input s = fo_micro_taken s @ fo_micro s @ rest \<and> length rest \<le> 1"
    using ok by (intro exI[of _ "case fo_waiting s of None \<Rightarrow> [] | Some u \<Rightarrow> [u]"])
      (auto simp: fanout_ok_def micro_seen_def split: option.splits)
  show ?thesis using ok by (intro conjI i) (use p in \<open>auto simp: fanout_ok_def micro_seen_def\<close>)
qed

section \<open>Instances\<close>

definition ex_tick :: market_update where
  "ex_tick = TradeUpdate \<lparr>te_timestamp = 5, te_price = Fin 100, te_volume = 1, te_side = Buy\<rparr>"

definition ex_full :: fanout_state where
  "ex_full = fanout_market_update 1 (fanout_market_update 1 fanout_init ex_tick) ex_tick"

lemma ex_full_reachable: "fanout_reachable 1 ex_full" "fo_waiting ex_full = Some ex_tick"
proof -
  have w: "fo_waiting (fanout_market_update 1 fanout_init ex_tick) = None"
    by (simp add: fanout_market_update_def fanout_init_def try_send_def offer_others_def)
  have "fanout_reachable 1 (fanout_market_update 1 fanout_init ex_tick)"
    by (rule fanout_reachable.step[OF fanout_reachable.start fanout_step.receive]) (simp add: fanout_init_def)
  then show "fanout_reachable 1 ex_full" unfolding ex_full_def by (rule fanout_reachable.step[OF _ fanout_step.receive[OF w]])
  show "fo_waiting ex_full = Some ex_tick"
    by (simp add: ex_full_def fanout_market_update_def fanout_init_def try_send_def offer_others_def Let_def)
qed

theorem fanout_keeps_order_witness:
  "(\<exists>s'. fanout_step 1 ex_full Resume s')
    \<or> (\<exists>s1 s2. fanout_step 1 ex_full TakeMicro s1 \<and> fanout_step 1 s1 Resume s2 \<and> fo_waiting s2 = None)"
  using fanout_keeps_order[OF ex_full_reachable(1)] ex_full_reachable(2) by simp

end
