(* ===== verification/System.thy ===== *)
theory System
  imports Fanout Feed ControllerRun
begin

text \<open>
  The whole process (\<open>pipeline.rs\<close>): every task with its own state, connected by the bounded channels,
  running in any interleaving. The market and the control plane are the environment; one rule of the
  step relation per task and channel it reads. The signal chain and the order path wait for room in
  the channel they send to, all other channels drop what does not fit.

  A waiting sender: each of these channels has one sender, so the message it waits to send is kept as
  the last element of the list, one beyond the capacity, and the task takes no step until there is room
  again. The distribution of the market updates sends to further channels after it has waited and
  keeps its update in \<open>sy_waiting\<close>. The lists \<open>sy_decided\<close>, \<open>sy_posted\<close>, \<open>sy_measured\<close>, \<open>sy_reported\<close> and
  \<open>sy_fills_taken\<close> record the history of a run and are read by no task.
\<close>

section \<open>State\<close>

text \<open>What a run is given: the exponential function, the powers of the reliability, the iteration orders of the
  three hash maps, the formatting of times, the weights and the configuration.\<close>

record system_setting =
  st_exp :: "f64 \<Rightarrow> f64"
  st_pow15 :: "f64 \<Rightarrow> f64"
  st_regimes :: "(string \<rightharpoonup> regime_memory) \<Rightarrow> string list"
  st_marks :: "(string \<rightharpoonup> f64) \<Rightarrow> string list"
  st_controllers :: "(string \<rightharpoonup> execution_controller) \<Rightarrow> string list"
  st_format :: "u64 \<Rightarrow> string"
  st_weights :: model_weights
  st_config :: config

abbreviation capacity_of :: "system_setting \<Rightarrow> nat" where
  "capacity_of p \<equiv> unat (cf_channel_capacity (st_config p))"

record system_state =
  sy_waiting :: "market_update option"
  sy_micro :: micro_task
  sy_trigger :: trigger_engine
  sy_reversal :: reversal_task
  sy_adaptive :: adaptive_state
  sy_position :: position_task
  sy_risk :: risk_state
  sy_meta :: meta_state
  sy_orders :: run_state
  sy_profile :: symbol_profile
  sy_truth :: truth_task
  ch_updates :: "market_update list"
  ch_micro :: "market_update list"
  ch_trigger :: "microstructure_frame list"
  ch_reversal :: "microstructure_frame list"
  ch_classifier :: "microstructure_frame list"
  ch_adaptive :: "microstructure_frame list"
  ch_decisions :: "scored_decision list"
  ch_intents :: "order_intent list"
  ch_safe :: "order_intent list"
  ch_orders :: "order_intent list"
  ch_controller_market :: "market_update list"
  ch_events :: "execution_controller_event list"
  ch_actions :: "execution_instruction list"
  ch_feedback :: "execution_control_feedback list"
  ch_truth_market :: "market_update list"
  ch_truth_fills :: "fill_event list"
  ch_learning :: "learning_sample list"
  ch_samples :: "learning_sample list"
  ch_fills :: "fill_event list"
  sy_decided :: "(bool \<times> scored_decision) list"
  sy_posted :: "(execution_instruction \<times> dispatch_outcome) list"
  sy_measured :: "truth_input list"
  sy_reported :: "fill_event list"
  sy_fills_taken :: "fill_event list"

definition system_init :: "config \<Rightarrow> system_state" where
  "system_init cfg =
     \<lparr>sy_waiting = None, sy_micro = micro_task_init (cf_window_ms cfg), sy_trigger = trigger_task_init cfg,
      sy_reversal = reversal_task_init, sy_adaptive = adaptive_init, sy_position = position_task_init,
      sy_risk = risk_init, sy_meta = meta_state_default, sy_orders = run_init, sy_profile = dispatch_init cfg,
      sy_truth = truth_task_init, ch_updates = [], ch_micro = [], ch_trigger = [], ch_reversal = [], ch_classifier = [],
      ch_adaptive = [], ch_decisions = [], ch_intents = [], ch_safe = [], ch_orders = [], ch_controller_market = [],
      ch_events = [], ch_actions = [], ch_feedback = [], ch_truth_market = [], ch_truth_fills = [], ch_learning = [],
      ch_samples = [], ch_fills = [], sy_decided = [], sy_posted = [], sy_measured = [], sy_reported = [],
      sy_fills_taken = []\<rparr>"

section \<open>Sending\<close>

text \<open>A task may step while the list of its channel holds no message beyond the capacity.\<close>

abbreviation room :: "system_setting \<Rightarrow> 'a list \<Rightarrow> bool" where
  "room p queue \<equiv> length queue \<le> capacity_of p"

definition offer_all :: "nat \<Rightarrow> 'a list \<Rightarrow> 'a list \<Rightarrow> 'a list" where
  "offer_all capacity queue xs = foldl (send_or_drop capacity) queue xs"

definition distribute :: "system_setting \<Rightarrow> system_state \<Rightarrow> market_update \<Rightarrow> system_state" where
  "distribute p s u =
     s\<lparr>ch_truth_market := send_or_drop (capacity_of p) (ch_truth_market s) u,
       ch_controller_market := send_or_drop (capacity_of p) (ch_controller_market s) u\<rparr>"

definition send_samples :: "system_setting \<Rightarrow> system_state \<Rightarrow> truth_output list \<Rightarrow> system_state" where
  "send_samples p s outs =
     s\<lparr>ch_learning := offer_all (capacity_of p) (ch_learning s) (map to_sample outs),
       ch_samples := offer_all (capacity_of p) (ch_samples s) (map to_sample outs)\<rparr>"

definition order_task_step :: "system_setting \<Rightarrow> system_state \<Rightarrow> run_input \<Rightarrow> system_state" where
  "order_task_step p s i =
     (let (orders, out) = run_step (st_controllers p) (st_config p) (sy_orders s) i
      in s\<lparr>sy_orders := orders, ch_actions := offer_all (capacity_of p) (ch_actions s) (co_instructions out),
           ch_feedback := offer_all (capacity_of p) (ch_feedback s) (co_feedback out)\<rparr>)"

definition truth_task_step :: "system_setting \<Rightarrow> system_state \<Rightarrow> truth_input \<Rightarrow> system_state" where
  "truth_task_step p s i =
     (let (truth, outs) = truth_step (st_pow15 p) (sy_truth s) i
      in send_samples p (s\<lparr>sy_truth := truth, sy_measured := sy_measured s @ [i]\<rparr>) outs)"

definition deliver_report :: "system_setting \<Rightarrow> system_state \<Rightarrow> ws_update \<Rightarrow> system_state" where
  "deliver_report p s u =
     (let (event, fill) = handle_update u;
          s1 = (case event of None \<Rightarrow> s | Some e \<Rightarrow> s\<lparr>ch_events := send_or_drop (capacity_of p) (ch_events s) e\<rparr>)
      in case fill of
           None \<Rightarrow> s1
         | Some f \<Rightarrow> s1\<lparr>ch_truth_fills := send_or_drop (capacity_of p) (ch_truth_fills s1) f,
                        ch_fills := send_or_drop (capacity_of p) (ch_fills s1) f, sy_reported := sy_reported s1 @ [f]\<rparr>)"

section \<open>Steps\<close>

text \<open>
  The steps the process takes by itself. Where a \<open>select!\<close> is biased, a later branch needs the
  channels of the earlier ones empty. The adaptive step is partial because a comparison of the edge
  validation may loop.
\<close>

inductive system_step :: "system_setting \<Rightarrow> system_state \<Rightarrow> system_state \<Rightarrow> bool" for p where
  distribute_now: "ch_updates s = u # q \<Longrightarrow> sy_waiting s = None \<Longrightarrow> try_send (capacity_of p) (ch_micro s) u = Some m \<Longrightarrow>
    system_step p s (distribute p (s\<lparr>ch_updates := q, ch_micro := m\<rparr>) u)"
| distribute_waits: "ch_updates s = u # q \<Longrightarrow> sy_waiting s = None \<Longrightarrow> try_send (capacity_of p) (ch_micro s) u = None \<Longrightarrow>
    system_step p s (s\<lparr>ch_updates := q, sy_waiting := Some u\<rparr>)"
| distribute_resumes: "sy_waiting s = Some u \<Longrightarrow> try_send (capacity_of p) (ch_micro s) u = Some m \<Longrightarrow>
    system_step p s (distribute p (s\<lparr>sy_waiting := None, ch_micro := m\<rparr>) u)"
| micro: "ch_micro s = u # q \<Longrightarrow> room p (ch_trigger s) \<Longrightarrow>
    micro_step (cf_max_data_age_ms (st_config p)) (sy_micro s) (u, clock) = (t, f) \<Longrightarrow>
    system_step p s (s\<lparr>ch_micro := q, sy_micro := t, ch_trigger := ch_trigger s @ [f]\<rparr>)"
| trigger: "ch_trigger s = f # q \<Longrightarrow> room p (ch_reversal s) \<Longrightarrow> trigger_step (sy_trigger s) f = (t, g) \<Longrightarrow>
    system_step p s (s\<lparr>ch_trigger := q, sy_trigger := t, ch_reversal := ch_reversal s @ [g]\<rparr>)"
| reversal_frame: "ch_reversal s = f # q \<Longrightarrow> room p (ch_classifier s) \<Longrightarrow>
    reversal_step (sy_reversal s) (FrameIn f) = (t, Some g) \<Longrightarrow>
    system_step p s (s\<lparr>ch_reversal := q, sy_reversal := t, ch_classifier := ch_classifier s @ [g]\<rparr>)"
| reversal_sample: "ch_samples s = x # q \<Longrightarrow> room p (ch_classifier s) \<Longrightarrow> reversal_step (sy_reversal s) (SampleIn x) = (t, r) \<Longrightarrow>
    system_step p s (s\<lparr>ch_samples := q, sy_reversal := t\<rparr>)"
| classifier: "ch_classifier s = f # q \<Longrightarrow> room p (ch_adaptive s) \<Longrightarrow>
    system_step p s (s\<lparr>ch_classifier := q, ch_adaptive := ch_adaptive s @ [classifier_step (st_weights p) f]\<rparr>)"
| adaptive_sample: "ch_learning s = x # q \<Longrightarrow> room p (ch_decisions s) \<Longrightarrow>
    adaptive_step (st_exp p) (st_regimes p) (st_weights p) (st_config p) (sy_adaptive s) (AdaptiveSample x) = Some (t, r) \<Longrightarrow>
    system_step p s (s\<lparr>ch_learning := q, sy_adaptive := t\<rparr>)"
| adaptive_feedback: "ch_feedback s = b # q \<Longrightarrow> ch_learning s = [] \<Longrightarrow> room p (ch_decisions s) \<Longrightarrow>
    adaptive_step (st_exp p) (st_regimes p) (st_weights p) (st_config p) (sy_adaptive s) (AdaptiveFeedback b) = Some (t, r) \<Longrightarrow>
    system_step p s (s\<lparr>ch_feedback := q, sy_adaptive := t\<rparr>)"
| adaptive_frame: "ch_adaptive s = f # q \<Longrightarrow> ch_learning s = [] \<Longrightarrow> ch_feedback s = [] \<Longrightarrow> room p (ch_decisions s) \<Longrightarrow>
    adaptive_step (st_exp p) (st_regimes p) (st_weights p) (st_config p) (sy_adaptive s) (AdaptiveFrame f clock) = Some (t, Some d) \<Longrightarrow>
    system_step p s (s\<lparr>ch_adaptive := q, sy_adaptive := t, ch_decisions := ch_decisions s @ [d],
      sy_decided := sy_decided s @ [(ad_trading_disabled (sy_adaptive s), d)]\<rparr>)"
| position_fill: "ch_fills s = f # q \<Longrightarrow> room p (ch_intents s) \<Longrightarrow>
    position_step (st_marks p) (st_config p) (sy_position s) (FillInput f) = (t, r) \<Longrightarrow>
    system_step p s (s\<lparr>ch_fills := q, sy_position := t, sy_fills_taken := sy_fills_taken s @ [f]\<rparr>)"
| position_signal: "ch_decisions s = d # q \<Longrightarrow> ch_fills s = [] \<Longrightarrow> room p (ch_intents s) \<Longrightarrow>
    position_step (st_marks p) (st_config p) (sy_position s) (SignalInput d) = (t, i) \<Longrightarrow>
    system_step p s (s\<lparr>ch_decisions := q, sy_position := t,
      ch_intents := ch_intents s @ (case i of None \<Rightarrow> [] | Some i \<Rightarrow> [i])\<rparr>)"
| risk: "ch_intents s = i # q \<Longrightarrow> room p (ch_safe s) \<Longrightarrow> risk_step (st_config p) (sy_risk s) i = (t, r) \<Longrightarrow>
    system_step p s (s\<lparr>ch_intents := q, sy_risk := t, ch_safe := ch_safe s @ (case r of Forwarded j \<Rightarrow> [j] | _ \<Rightarrow> [])\<rparr>)"
| meta: "ch_safe s = i # q \<Longrightarrow> room p (ch_orders s) \<Longrightarrow> meta_step (st_config p) (sy_meta s) i = (t, r) \<Longrightarrow>
    system_step p s (s\<lparr>ch_safe := q, sy_meta := t, ch_orders := ch_orders s @ (case r of MetaForward j \<Rightarrow> [j] | MetaDrop e \<Rightarrow> [])\<rparr>)"
| order_intent: "ch_orders s = i # q \<Longrightarrow> system_step p s (order_task_step p (s\<lparr>ch_orders := q\<rparr>) (IntentMsg i))"
| order_event: "ch_events s = e # q \<Longrightarrow> system_step p s (order_task_step p (s\<lparr>ch_events := q\<rparr>) (EventMsg e))"
| order_market: "ch_controller_market s = u # q \<Longrightarrow>
    system_step p s (order_task_step p (s\<lparr>ch_controller_market := q\<rparr>) (ControllerRun.MarketMsg u))"
| dispatch: "ch_actions s = n # q \<Longrightarrow> dispatch_step (st_format p) (st_config p) (sy_profile s) (n, now) = (t, r) \<Longrightarrow>
    system_step p s (s\<lparr>ch_actions := q, sy_profile := t, sy_posted := sy_posted s @ [(n, r)]\<rparr>)"
| truth_fill: "ch_truth_fills s = f # q \<Longrightarrow> system_step p s (truth_task_step p (s\<lparr>ch_truth_fills := q\<rparr>) (FillSeen f))"
| truth_market: "ch_truth_market s = u # q \<Longrightarrow> system_step p s (truth_task_step p (s\<lparr>ch_truth_market := q\<rparr>) (MarketSeen u))"

text \<open>
  The environment: a market update enters when the feed does not wait, a report of the control plane at any
  time. Both are within the limits of the measurement, and at most \<open>2 ^ 19\<close> market updates arrive.
\<close>

definition update_ok :: "market_update \<Rightarrow> bool" where
  "update_ok u \<longleftrightarrow> feed_ok u \<and> (case u of BookUpdate d \<Rightarrow> True | TradeUpdate t \<Rightarrow> double (te_price t))
     \<and> (case truth_market_price u of None \<Rightarrow> True | Some x \<Rightarrow> mag 21 (snd x))"

inductive system_reachable :: "system_setting \<Rightarrow> nat \<Rightarrow> system_state \<Rightarrow> bool" for p where
  start: "system_reachable p 0 (system_init (st_config p))"
| arrive: "system_reachable p n s \<Longrightarrow> n < 2 ^ 19 \<Longrightarrow> update_ok u \<Longrightarrow> room p (ch_updates s) \<Longrightarrow>
    system_reachable p (Suc n) (s\<lparr>ch_updates := ch_updates s @ [u]\<rparr>)"
| report: "system_reachable p n s \<Longrightarrow> report_ok u \<Longrightarrow> system_reachable p n (deliver_report p s u)"
| internal: "system_reachable p n s \<Longrightarrow> system_step p s s' \<Longrightarrow> system_reachable p n s'"

end
