(* ===== verification/SystemFacts.thy ===== *)
theory SystemFacts
  imports System
begin

text \<open>
  What every run of the whole process keeps: the bounds of the channels, the ranges of everything that is
  in a channel, and where every order comes from. Then the progress of the process: it never locks up,
  and without new input it comes to rest with every channel empty.
\<close>

section \<open>Lists that are sent\<close>

lemma send_or_drop_cases: "send_or_drop n q x = q @ [x] \<and> length q < n \<or> send_or_drop n q x = q \<and> n \<le> length q"
  by (simp add: send_or_drop_def try_send_def)

lemma offer_all_simps [simp]:
  "offer_all n q [] = q" "offer_all n q (x # xs) = offer_all n (send_or_drop n q x) xs"
  by (simp_all add: offer_all_def)

lemma offer_all_sent: "\<exists>ys. offer_all n q xs = q @ ys \<and> subseq ys xs"
proof (induction xs arbitrary: q)
  case (Cons x xs)
  obtain ys where ys: "offer_all n (send_or_drop n q x) xs = send_or_drop n q x @ ys" "subseq ys xs" using Cons by blast
  from send_or_drop_cases[of n q x] show ?case
  proof
    assume "send_or_drop n q x = q @ [x] \<and> length q < n"
    then show ?thesis using ys by (intro exI[of _ "x # ys"]) simp
  next
    assume "send_or_drop n q x = q \<and> n \<le> length q"
    then show ?thesis using ys by (intro exI[of _ ys]) (auto intro: list_emb_Cons)
  qed
qed simp

lemma offer_all_length: "length q \<le> n \<Longrightarrow> length (offer_all n q xs) \<le> n"
proof (induction xs arbitrary: q)
  case (Cons x xs)
  have "length (send_or_drop n q x) \<le> n" using Cons.prems send_or_drop_cases[of n q x] by auto
  then show ?case using Cons.IH by simp
qed simp

lemma send_or_drop_length [simp]: "length q \<le> n \<Longrightarrow> length (send_or_drop n q x) \<le> n"
  using send_or_drop_cases[of n q x] by auto

lemma send_or_drop_all: "list_all P q \<Longrightarrow> P x \<Longrightarrow> list_all P (send_or_drop n q x)"
  using send_or_drop_cases[of n q x] by auto

lemma offer_all_all: "list_all P q \<Longrightarrow> list_all P xs \<Longrightarrow> list_all P (offer_all n q xs)"
  by (induction xs arbitrary: q) (auto simp: send_or_drop_all)

lemma try_send_iff: "try_send n q x = Some r \<longleftrightarrow> length q < n \<and> r = q @ [x]" "try_send n q x = None \<longleftrightarrow> n \<le> length q"
  by (auto simp: try_send_def)

text \<open>The elements of a list are due to different elements of another, in its order.\<close>

fun embeds :: "('a \<Rightarrow> 'b \<Rightarrow> bool) \<Rightarrow> 'a list \<Rightarrow> 'b list \<Rightarrow> bool" where
  "embeds P [] ts = True"
| "embeds P (x # xs) [] = False"
| "embeds P (x # xs) (t # ts) = (P x t \<and> embeds P xs ts \<or> embeds P (x # xs) ts)"

lemma embeds_Cons: "embeds P xs ts \<Longrightarrow> embeds P xs (t # ts)"
  by (cases xs) simp_all

lemma embeds_more: "embeds P xs ts \<Longrightarrow> embeds P xs (ts @ us)"
  by (induction P xs ts rule: embeds.induct) auto

lemma embeds_last: "P x t \<Longrightarrow> embeds P [x] (ts @ [t])"
  by (induction ts) simp_all

lemma embeds_snoc: "embeds P xs ts \<Longrightarrow> P x t \<Longrightarrow> embeds P (xs @ [x]) (ts @ [t])"
  by (induction P xs ts rule: embeds.induct) (auto simp: embeds_last)

lemma embeds_subseq: "embeds P xs ts \<Longrightarrow> subseq ys xs \<Longrightarrow> embeds P ys ts"
proof (induction P xs ts arbitrary: ys rule: embeds.induct)
  case (1 P ts)
  then have "ys = []" using list_emb_Nil2 by blast
  then show ?case by simp
next
  case (3 P x xs t ts)
  consider "P x t" "embeds P xs ts" | "embeds P (x # xs) ts" using 3(3) by auto
  then show ?case
  proof cases
    case 1
    show ?thesis
    proof (cases ys)
      case (Cons y zs)
      show ?thesis
      proof (cases "y = x")
        case True
        then have "subseq zs xs" using 3(4) Cons by simp
        then show ?thesis using 3(1)[OF 1(2)] 1(1) True Cons by simp
      next
        case False
        then have "subseq ys xs" using 3(4) Cons by simp
        then show ?thesis by (intro embeds_Cons 3(1)[OF 1(2)])
      qed
    qed simp
  next
    case 2
    then show ?thesis by (intro embeds_Cons 3(2)[OF 2 3(4)])
  qed
qed simp

lemma embeds_with: "embeds P xs ts \<Longrightarrow> list_all Q xs \<Longrightarrow> list_all R ts \<Longrightarrow> embeds (\<lambda>x t. Q x \<and> R t \<and> P x t) xs ts"
  by (induction P xs ts rule: embeds.induct) auto

lemma subseq_front: "subseq ys zs \<Longrightarrow> subseq (xs @ ys) (xs @ zs)"
  by (rule list_emb_append_mono) simp_all

lemma subseq_prefix: "subseq xs (xs @ ys)"
  using subseq_front[of "[]" ys xs] by simp

lemma subseq_one: "subseq ys [x] \<Longrightarrow> subseq (ys @ zs) (x # zs)"
  using list_emb_append_mono[of "(=)" ys "[x]" zs zs] by simp

lemma subseq_all: "subseq ys xs \<Longrightarrow> list_all P xs \<Longrightarrow> list_all P ys"
  by (induction rule: list_emb.induct) simp_all

section \<open>The channels keep their bounds\<close>

definition channels_bounded :: "nat \<Rightarrow> system_state \<Rightarrow> bool" where
  "channels_bounded n s \<longleftrightarrow> length (ch_updates s) \<le> n + 1 \<and> length (ch_micro s) \<le> n \<and> length (ch_trigger s) \<le> n + 1
     \<and> length (ch_reversal s) \<le> n + 1 \<and> length (ch_classifier s) \<le> n + 1 \<and> length (ch_adaptive s) \<le> n + 1
     \<and> length (ch_decisions s) \<le> n + 1 \<and> length (ch_intents s) \<le> n + 1 \<and> length (ch_safe s) \<le> n + 1
     \<and> length (ch_orders s) \<le> n + 1 \<and> length (ch_controller_market s) \<le> n \<and> length (ch_events s) \<le> n
     \<and> length (ch_actions s) \<le> n \<and> length (ch_feedback s) \<le> n \<and> length (ch_truth_market s) \<le> n
     \<and> length (ch_truth_fills s) \<le> n \<and> length (ch_learning s) \<le> n \<and> length (ch_samples s) \<le> n \<and> length (ch_fills s) \<le> n"

lemmas task_step_defs = order_task_step_def truth_task_step_def send_samples_def distribute_def

lemma step_bounded: "system_step p s s' \<Longrightarrow> channels_bounded (capacity_of p) s \<Longrightarrow> channels_bounded (capacity_of p) s'"
  by (cases rule: system_step.cases, assumption)
    (simp_all add: channels_bounded_def task_step_defs case_prod_unfold Let_def offer_all_length try_send_iff
      split: option.split risk_outcome.split meta_outcome.split)

lemma report_bounded: "channels_bounded (capacity_of p) s \<Longrightarrow> channels_bounded (capacity_of p) (deliver_report p s u)"
  by (simp add: channels_bounded_def deliver_report_def case_prod_unfold Let_def split: option.split)

lemma reachable_bounded: "system_reachable p n s \<Longrightarrow> channels_bounded (capacity_of p) s"
  by (induction rule: system_reachable.induct)
    (simp_all add: report_bounded step_bounded, simp_all add: channels_bounded_def system_init_def)

section \<open>Where an order comes from\<close>

fun submissions :: "execution_instruction list \<Rightarrow> order_intent list" where
  "submissions [] = []"
| "submissions (SubmitI i key # ns) = i # submissions ns"
| "submissions (_ # ns) = submissions ns"

lemma submissions_append [simp]: "submissions (ns @ ms) = submissions ns @ submissions ms"
  by (induction ns rule: submissions.induct) simp_all

lemma submissions_subseq: "subseq ns ms \<Longrightarrow> subseq (submissions ns) (submissions ms)"
proof (induction rule: list_emb.induct)
  case (list_emb_Cons xs ys y)
  then show ?case by (cases y) auto
next
  case (list_emb_Cons2 x y xs ys)
  then show ?case by (cases y) auto
qed simp

text \<open>Only an intent makes the order task submit, and it submits that intent.\<close>

lemma market_one_no_submission:
  "submissions (snd acc) = [] \<Longrightarrow> submissions (snd (market_one u acc k)) = []"
  by (auto simp: market_one_def evaluate_and_convert_def Let_def split: option.splits prod.splits execution_action.splits)

lemma run_step_submissions:
  "submissions (co_instructions (snd (run_step iter cfg s i))) = (case i of IntentMsg k \<Rightarrow> [k] | _ \<Rightarrow> [])"
proof (cases i)
  case (EventMsg e)
  then show ?thesis
    by (auto simp: on_event_def no_output_def evaluate_and_convert_def Let_def
        split: option.splits prod.splits execution_action.splits)
next
  case (MarketMsg u)
  have "submissions (snd (foldl (market_one u) acc ks)) = []" if "submissions (snd acc) = []" for acc ks
    using that by (induction ks arbitrary: acc) (simp_all add: market_one_no_submission)
  from this[of "(cr_controllers s, [])"] show ?thesis using MarketMsg
    by (simp add: on_market_def case_prod_unfold Let_def)
qed (simp add: on_intent_def Let_def)

section \<open>Everything in a channel is in range\<close>

text \<open>The frames between the stages, each with the parts it has by then.\<close>

definition fresh_frame :: "microstructure_frame \<Rightarrow> bool" where
  "fresh_frame f \<longleftrightarrow> frame_ok f \<and> double (trigger_price f)"

definition triggered_frame :: "microstructure_frame \<Rightarrow> bool" where
  "triggered_frame f \<longleftrightarrow> frame_body_ok f \<and> rng 0 1 (tr_drop_pct (mf_trigger f)) \<and> 0 \<le> tr_expected_edge (mf_trigger f)"

definition classified_frame :: "microstructure_frame \<Rightarrow> bool" where
  "classified_frame f \<longleftrightarrow> signals_ok f \<and> classifier_ok (mf_reversal_classifier f)"

definition good_sample :: "learning_sample \<Rightarrow> bool" where
  "good_sample x \<longleftrightarrow> sample_ok x \<and> learning_sample_ok x"

definition micro_holds :: "micro_task \<Rightarrow> bool" where
  "micro_holds s \<longleftrightarrow> micro_task_ok s \<and> double (ts_last_price (tp_last_state (ms_tape s)))"

definition measurable_input :: "truth_input \<Rightarrow> bool" where
  "measurable_input i = (case i of FillSeen f \<Rightarrow> fill_measurable f
     | MarketSeen u \<Rightarrow> (case truth_market_price u of None \<Rightarrow> True | Some x \<Rightarrow> mag 21 (snd x)))"

lemma micro_stage:
  assumes "micro_holds s" "update_ok u" "length (tp_trades (ms_tape s)) < 2 ^ 19" "micro_step w s (u, clock) = (t, f)"
  shows "micro_holds t \<and> fresh_frame f \<and> length (tp_trades (ms_tape t)) \<le> length (tp_trades (ms_tape s)) + 1"
  using micro_step_ok[of s "(u, clock)" w] micro_step_prices[of s u w clock] assms
  by (simp add: micro_holds_def update_ok_def fresh_frame_def)

lemma trigger_stage:
  assumes "trigger_ok s" "fresh_frame f" "trigger_step s f = (t, g)"
  shows "trigger_ok t \<and> triggered_frame g"
proof -
  have g: "t = fst (observe_trigger s f)" "g = f\<lparr>mf_trigger := snd (observe_trigger s f)\<rparr>"
    using assms(3) by (auto simp: trigger_step_def Let_def case_prod_unfold)
  have "trigger_ok (fst (observe_trigger s f))" "rng 0 1 (tr_drop_pct (snd (observe_trigger s f)))"
    using observe_trigger_ok[OF assms(1), of f] assms(2) by (auto simp: snapshot_in_range_def fresh_frame_def)
  then show ?thesis using assms(2) trigger_edge_nonneg
    by (simp add: g triggered_frame_def fresh_frame_def frame_ok_def frame_body_ok_def)
qed

lemma reversal_stage:
  assumes "triggered_frame f" "reversal_step s (FrameIn f) = (t, Some g)"
  shows "signals_ok g"
proof -
  have g: "g = f\<lparr>mf_reversal := snd (observe_frame (rt_engine s) f)\<rparr>"
    using assms(2) by (auto simp: reversal_step_def Let_def case_prod_unfold)
  have b: "frame_body_ok f" using assms(1) by (simp add: triggered_frame_def)
  then have "frame_body_ok g" by (simp add: g frame_body_ok_def)
  then show ?thesis using assms(1) reversal_snapshot_ok[OF b] by (simp add: signals_ok_def triggered_frame_def g)
qed

lemma classifier_stage:
  assumes "weights_ok w" "signals_ok f"
  shows "classified_frame (classifier_step w f)"
proof -
  have "classifier_ok (classify_frame w f)" using assms by (intro classify_frame_ok) (simp_all add: signals_ok_def)
  then show ?thesis using assms(2)
    by (simp add: classified_frame_def classifier_step_def signals_ok_def frame_body_ok_def)
qed

lemma measurable_live: "list_all measurable_input is \<Longrightarrow> \<forall>(f, ps) \<in> set (live_fills is). fill_measurable f"
  by (induction "is" rule: live_fills.induct) (auto simp: measurable_input_def)

lemma measurable_prices: "list_all measurable_input is \<Longrightarrow> \<forall>x \<in> set (seen_prices is). mag 21 (snd x)"
  by (induction "is" rule: seen_prices.induct) (auto simp: measurable_input_def split: option.splits)

text \<open>The samples of one more input to the measurement are ones the learning accepts.\<close>

lemma truth_stage:
  assumes "list_all measurable_input (is @ [i])" "s = fst (truth_run pow15 truth_task_init is)" "truth_step pow15 s i = (t, outs)"
  shows "t = fst (truth_run pow15 truth_task_init (is @ [i])) \<and> list_all (\<lambda>out. good_sample (to_sample out)) outs"
proof -
  have r: "truth_run pow15 truth_task_init (is @ [i])
      = (t, snd (truth_run pow15 truth_task_init is) @ [outs])"
    using assms(2,3) by (simp add: truth_run_def prod_eq_iff run_task_append case_prod_unfold)
  have "good_sample (to_sample out)" if "out \<in> set outs" for out
  proof -
    have "out \<in> set (concat (snd (truth_run pow15 truth_task_init (is @ [i]))))" using that r by simp
    from sent_samples_valid[OF measurable_live[OF assms(1)] measurable_prices[OF assms(1)] this]
    show ?thesis by (simp add: core_input_ok_def good_sample_def)
  qed
  then show ?thesis using r by (simp add: list_all_iff)
qed

definition decision_recorded :: "bool \<times> scored_decision \<Rightarrow> bool" where
  "decision_recorded x \<longleftrightarrow> decision_ok (snd x) \<and> (fst x \<longrightarrow> sd_decision (snd x) = Ignore)"

definition in_flight :: "system_state \<Rightarrow> nat" where
  "in_flight s = length (ch_updates s) + length (ch_micro s) + (case sy_waiting s of None \<Rightarrow> 0 | Some u \<Rightarrow> 1)"

definition signals_hold :: "system_setting \<Rightarrow> nat \<Rightarrow> system_state \<Rightarrow> bool" where
  "signals_hold p n s \<longleftrightarrow>
     micro_holds (sy_micro s) \<and> trigger_ok (sy_trigger s) \<and> adaptive_ok (sy_adaptive s)
     \<and> length (tp_trades (ms_tape (sy_micro s))) + in_flight s \<le> n
     \<and> list_all update_ok (ch_updates s) \<and> list_all update_ok (ch_micro s) \<and> list_all update_ok (ch_truth_market s)
     \<and> (case sy_waiting s of None \<Rightarrow> True | Some u \<Rightarrow> update_ok u)
     \<and> list_all fresh_frame (ch_trigger s) \<and> list_all triggered_frame (ch_reversal s)
     \<and> list_all signals_ok (ch_classifier s) \<and> list_all classified_frame (ch_adaptive s)
     \<and> list_all decision_recorded (sy_decided s) \<and> list_all good_sample (ch_learning s)
     \<and> list_all fill_measurable (ch_truth_fills s) \<and> list_all measurable_input (sy_measured s)
     \<and> sy_truth s = fst (truth_run (st_pow15 p) truth_task_init (sy_measured s))"

definition setting_ok :: "system_setting \<Rightarrow> bool" where
  "setting_ok p \<longleftrightarrow> decision_setting (st_exp p) (st_regimes p) (st_weights p) (st_config p) \<and> limits_ok (st_config p)
     \<and> 0 < cf_channel_capacity (st_config p)"

lemma truth_step_holds:
  assumes "signals_hold p n s" "measurable_input i"
  shows "signals_hold p n (truth_task_step p s i)"
proof -
  obtain t outs where t: "truth_step (st_pow15 p) (sy_truth s) i = (t, outs)" by fastforce
  have "list_all measurable_input (sy_measured s @ [i])" "sy_truth s = fst (truth_run (st_pow15 p) truth_task_init (sy_measured s))"
    using assms by (simp_all add: signals_hold_def)
  from truth_stage[OF this t] have "t = fst (truth_run (st_pow15 p) truth_task_init (sy_measured s @ [i]))"
    "list_all good_sample (map to_sample outs)" by (simp_all add: list_all_iff)
  then show ?thesis using assms t
    by (simp add: truth_task_step_def send_samples_def signals_hold_def in_flight_def offer_all_all)
qed

lemma order_step_holds: "signals_hold p n s \<Longrightarrow> signals_hold p n (order_task_step p s i)"
  by (simp add: order_task_step_def case_prod_unfold Let_def signals_hold_def in_flight_def)

lemma adaptive_stage:
  assumes "setting_ok p" "signals_hold p n s" "adaptive_input_ok i"
    "adaptive_step (st_exp p) (st_regimes p) (st_weights p) (st_config p) (sy_adaptive s) i = Some (t, r)"
  shows "adaptive_ok t \<and> (case r of None \<Rightarrow> True | Some d \<Rightarrow> decision_recorded (ad_trading_disabled (sy_adaptive s), d))"
proof -
  have "adaptive_ok t \<and> answer_ok r"
    using adaptive_step_ok[of "st_exp p" "st_regimes p" "st_weights p" "st_config p" "sy_adaptive s" i] assms
    by (auto simp: setting_ok_def signals_hold_def)
  moreover have "ignored r" if "ad_trading_disabled (sy_adaptive s)" "\<not> is_sample i"
    using disabled_step[OF assms(4) that] by blast
  moreover have "r = None" if "is_sample i" using assms(4) that
    by (auto simp: is_sample_def adaptive_step_def split: adaptive_input.splits)
  ultimately show ?thesis by (cases r) (auto simp: answer_ok_def decision_recorded_def ignored_def)
qed

lemma distribute_holds:
  assumes "signals_hold p n s" "update_ok u"
  shows "signals_hold p n (distribute p s u)"
  using assms by (simp add: distribute_def signals_hold_def in_flight_def send_or_drop_all)

lemma step_holds:
  assumes "setting_ok p" "system_step p s s'" "signals_hold p n s" "n \<le> 2 ^ 19"
  shows "signals_hold p n s'"
  using assms(2)
proof cases
  case (distribute_now u q m)
  have "signals_hold p n (s\<lparr>ch_updates := q, ch_micro := m\<rparr>)" "update_ok u"
    using distribute_now(2-4) assms(3) by (auto simp: signals_hold_def in_flight_def try_send_iff)
  then show ?thesis unfolding distribute_now(1) by (rule distribute_holds)
next
  case (distribute_resumes u m)
  have "signals_hold p n (s\<lparr>sy_waiting := None, ch_micro := m\<rparr>)" "update_ok u"
    using distribute_resumes(2,3) assms(3) by (auto simp: signals_hold_def in_flight_def try_send_iff)
  then show ?thesis unfolding distribute_resumes(1) by (rule distribute_holds)
next
  case (micro u q clock t f)
  have "length (tp_trades (ms_tape (sy_micro s))) < 2 ^ 19" using assms(3,4) micro(2) by (simp add: signals_hold_def in_flight_def)
  moreover have "micro_holds (sy_micro s)" "update_ok u" using assms(3) micro(2) by (simp_all add: signals_hold_def)
  ultimately have "micro_holds t \<and> fresh_frame f \<and> length (tp_trades (ms_tape t)) \<le> length (tp_trades (ms_tape (sy_micro s))) + 1"
    using micro(4) by (intro micro_stage)
  then show ?thesis using assms(3) micro(1,2) by (simp add: signals_hold_def in_flight_def)
next
  case (trigger f q t g)
  have "trigger_ok t \<and> triggered_frame g"
    using trigger(4) assms(3) trigger(2) by (intro trigger_stage) (auto simp: signals_hold_def)
  then show ?thesis using assms(3) trigger(1,2) by (simp add: signals_hold_def in_flight_def)
next
  case (reversal_frame f q t g)
  have "signals_ok g" using reversal_stage[OF _ reversal_frame(4)] assms(3) reversal_frame(2) by (simp add: signals_hold_def)
  then show ?thesis using assms(3) reversal_frame(1,2) by (simp add: signals_hold_def in_flight_def)
next
  case (classifier f q)
  have "classified_frame (classifier_step (st_weights p) f)"
    using assms(1,3) classifier(2) by (intro classifier_stage) (simp_all add: signals_hold_def setting_ok_def decision_setting_def)
  then show ?thesis using assms(3) classifier(1,2) by (simp add: signals_hold_def in_flight_def)
next
  case (adaptive_sample x q t r)
  have "adaptive_ok t" using adaptive_stage[OF assms(1,3) _ adaptive_sample(4)] assms(3) adaptive_sample(2)
    by (simp add: adaptive_input_ok_def signals_hold_def good_sample_def)
  then show ?thesis using assms(3) adaptive_sample(1,2) by (simp add: signals_hold_def in_flight_def)
next
  case (adaptive_feedback b q t r)
  have "adaptive_ok t" using adaptive_stage[OF assms(1,3) _ adaptive_feedback(5)] by (simp add: adaptive_input_ok_def)
  then show ?thesis using assms(3) adaptive_feedback(1) by (simp add: signals_hold_def in_flight_def)
next
  case (adaptive_frame f q clock t d)
  have "adaptive_ok t \<and> decision_recorded (ad_trading_disabled (sy_adaptive s), d)"
    using adaptive_stage[OF assms(1,3) _ adaptive_frame(6)] assms(3) adaptive_frame(2)
    by (simp add: adaptive_input_ok_def signals_hold_def classified_frame_def)
  then show ?thesis using assms(3) adaptive_frame(1,2) by (simp add: signals_hold_def in_flight_def)
next
  case (truth_fill f q)
  have "signals_hold p n (s\<lparr>ch_truth_fills := q\<rparr>)" "measurable_input (FillSeen f)"
    using truth_fill(2) assms(3) by (auto simp: signals_hold_def in_flight_def measurable_input_def)
  then show ?thesis unfolding truth_fill(1) by (rule truth_step_holds)
next
  case (truth_market u q)
  have "signals_hold p n (s\<lparr>ch_truth_market := q\<rparr>)" "measurable_input (MarketSeen u)"
    using truth_market(2) assms(3) by (auto simp: signals_hold_def in_flight_def measurable_input_def update_ok_def)
  then show ?thesis unfolding truth_market(1) by (rule truth_step_holds)
next
  case (order_intent i q)
  then show ?thesis using assms(3) unfolding order_intent(1)
    by (intro order_step_holds) (simp add: signals_hold_def in_flight_def)
next
  case (order_event e q)
  then show ?thesis using assms(3) unfolding order_event(1)
    by (intro order_step_holds) (simp add: signals_hold_def in_flight_def)
next
  case (order_market u q)
  then show ?thesis using assms(3) unfolding order_market(1)
    by (intro order_step_holds) (simp add: signals_hold_def in_flight_def)
qed (use assms(3) in \<open>simp_all add: signals_hold_def in_flight_def\<close>)

lemma report_holds:
  assumes "signals_hold p n s" "report_ok u"
  shows "signals_hold p n (deliver_report p s u)"
  using assms report_fill_ok(1)[OF assms(2)]
  by (simp add: deliver_report_def case_prod_unfold Let_def signals_hold_def in_flight_def send_or_drop_all split: option.split)

lemma arrive_holds:
  "signals_hold p n s \<Longrightarrow> update_ok u \<Longrightarrow> signals_hold p (Suc n) (s\<lparr>ch_updates := ch_updates s @ [u]\<rparr>)"
  by (simp add: signals_hold_def in_flight_def)

lemma start_holds: "signals_hold p 0 (system_init (st_config p))"
  using micro_task_init_ok adaptive_init_ok trigger_new_ok
  by (simp add: signals_hold_def system_init_def micro_holds_def in_flight_def micro_task_init_def tape_new_def
      tape_state_default_def trigger_task_init_def truth_run_def)

lemma reachable_limit: "system_reachable p n s \<Longrightarrow> n \<le> 2 ^ 19"
  by (induction rule: system_reachable.induct) simp_all

lemma reachable_holds: "setting_ok p \<Longrightarrow> system_reachable p n s \<Longrightarrow> signals_hold p n s"
  by (rotate_tac, induction rule: system_reachable.induct)
    (simp_all add: start_holds arrive_holds report_holds, meson step_holds reachable_limit)

section \<open>Every order has its decision\<close>

definition order_due :: "order_intent \<Rightarrow> bool \<times> scored_decision \<Rightarrow> bool" where
  "order_due i x \<longleftrightarrow> rq_reduce_only (oi_request i)
     \<or> \<not> fst x \<and> sd_trading_enabled (snd x) \<and> sd_decision (snd x) \<in> {EnterSmall, ScaleIn}"

definition request_safe :: "config \<Rightarrow> order_intent \<Rightarrow> bool" where
  "request_safe cfg k \<longleftrightarrow> (\<exists>i. intent_safe cfg i \<and> oi_request i = oi_request k)"

text \<open>The orders on their way, the oldest first.\<close>

definition order_stream :: "system_state \<Rightarrow> order_intent list" where
  "order_stream s = submissions (map fst (sy_posted s)) @ submissions (ch_actions s) @ ch_orders s @ ch_safe s @ ch_intents s"

definition orders_due :: "system_state \<Rightarrow> bool" where
  "orders_due s \<longleftrightarrow> (\<exists>taken waiting. sy_decided s = taken @ waiting \<and> map snd waiting = ch_decisions s
     \<and> embeds order_due (order_stream s) taken)"

definition orders_safe :: "config \<Rightarrow> system_state \<Rightarrow> bool" where
  "orders_safe cfg s \<longleftrightarrow> list_all (intent_safe cfg) (ch_safe s) \<and> list_all (request_safe cfg) (ch_orders s)
     \<and> list_all (request_safe cfg) (submissions (ch_actions s)) \<and> list_all (request_safe cfg) (submissions (map fst (sy_posted s)))"

lemma position_intent_due:
  assumes "snd (position_step iter cfg s (SignalInput d)) = Some i"
  shows "rq_reduce_only (oi_request i) \<or> sd_trading_enabled d \<and> sd_decision d \<in> {EnterSmall, ScaleIn}"
  using position_intent_guarded[OF assms] assms adding_decision
  by (fastforce simp: adds_risk_def position_step_def on_position_signal_def Let_def split: if_splits)

lemma stream_shrinks: "orders_due s \<Longrightarrow> subseq (order_stream s') (order_stream s) \<Longrightarrow> sy_decided s' = sy_decided s \<Longrightarrow>
    ch_decisions s' = ch_decisions s \<Longrightarrow> orders_due s'"
  by (auto simp: orders_due_def intro: embeds_subseq)

lemma emb_request: "embeds order_due (xs @ i # ys) ts \<Longrightarrow> oi_request j = oi_request i \<Longrightarrow> embeds order_due (xs @ j # ys) ts"
proof (induction xs arbitrary: ts)
  case Nil
  then show ?case by (induction ts) (auto simp: order_due_def)
next
  case (Cons x xs)
  then show ?case by (induction ts) auto
qed

text \<open>A step of the order task submits at most the intent it took.\<close>

lemma order_task_stream:
  "\<exists>ys. submissions (ch_actions (order_task_step p s i)) = submissions (ch_actions s) @ ys
     \<and> subseq ys (case i of IntentMsg k \<Rightarrow> [k] | _ \<Rightarrow> [])"
proof -
  obtain zs where zs: "ch_actions (order_task_step p s i) = ch_actions s @ zs"
    "subseq zs (co_instructions (snd (run_step (st_controllers p) (st_config p) (sy_orders s) i)))"
    using offer_all_sent[of "capacity_of p" "ch_actions s"] by (auto simp: order_task_step_def case_prod_unfold Let_def)
  then show ?thesis using submissions_subseq[OF zs(2)] by (simp add: run_step_submissions)
qed

lemma order_task_no_submission [simp]:
  "submissions (ch_actions (order_task_step p s (EventMsg e))) = submissions (ch_actions s)"
  "submissions (ch_actions (order_task_step p s (ControllerRun.MarketMsg u))) = submissions (ch_actions s)"
  using order_task_stream[of p s "EventMsg e"] order_task_stream[of p s "ControllerRun.MarketMsg u"] list_emb_Nil2[of "(=)"]
  by (metis append_Nil2 run_input.simps(11), metis append_Nil2 run_input.simps(12))

lemma order_task_frame [simp]:
  "sy_posted (order_task_step p s i) = sy_posted s" "ch_orders (order_task_step p s i) = ch_orders s"
  "ch_safe (order_task_step p s i) = ch_safe s" "ch_intents (order_task_step p s i) = ch_intents s"
  "sy_decided (order_task_step p s i) = sy_decided s" "ch_decisions (order_task_step p s i) = ch_decisions s"
  by (simp_all add: order_task_step_def case_prod_unfold Let_def)

lemma truth_task_frame [simp]:
  "sy_posted (truth_task_step p s i) = sy_posted s" "ch_orders (truth_task_step p s i) = ch_orders s"
  "ch_safe (truth_task_step p s i) = ch_safe s" "ch_intents (truth_task_step p s i) = ch_intents s"
  "sy_decided (truth_task_step p s i) = sy_decided s" "ch_decisions (truth_task_step p s i) = ch_decisions s"
  "ch_actions (truth_task_step p s i) = ch_actions s"
  by (simp_all add: truth_task_step_def send_samples_def case_prod_unfold Let_def)

lemma report_frame [simp]:
  "sy_posted (deliver_report p s u) = sy_posted s" "ch_orders (deliver_report p s u) = ch_orders s"
  "ch_safe (deliver_report p s u) = ch_safe s" "ch_intents (deliver_report p s u) = ch_intents s"
  "sy_decided (deliver_report p s u) = sy_decided s" "ch_decisions (deliver_report p s u) = ch_decisions s"
  "ch_actions (deliver_report p s u) = ch_actions s"
  by (simp_all add: deliver_report_def case_prod_unfold Let_def split: option.split)

lemma orders_due_step:
  assumes "system_step p s s'" "signals_hold p n s" "orders_due s"
  shows "orders_due s'"
  using assms(1)
proof cases
  case (adaptive_frame f q clock t d)
  from assms(3) obtain taken waiting where "sy_decided s = taken @ waiting" "map snd waiting = ch_decisions s"
    "embeds order_due (order_stream s) taken" by (auto simp: orders_due_def)
  then show ?thesis using adaptive_frame(1) unfolding orders_due_def
    by (intro exI[of _ taken] exI[of _ "waiting @ [(ad_trading_disabled (sy_adaptive s), d)]"]) (simp add: order_stream_def)
next
  case (position_signal d q t i)
  from assms(3) obtain taken waiting where d: "sy_decided s = taken @ waiting" "map snd waiting = ch_decisions s"
    "embeds order_due (order_stream s) taken" by (auto simp: orders_due_def)
  then obtain l rest where w: "waiting = (l, d) # rest" "map snd rest = q"
    using position_signal(2) by (auto simp: map_eq_Cons_conv)
  have "decision_recorded (l, d)" using assms(2) d(1) w(1) by (simp add: signals_hold_def)
  then have l: "l \<Longrightarrow> sd_decision d = Ignore" by (simp add: decision_recorded_def)
  have e: "embeds order_due (order_stream s @ (case i of None \<Rightarrow> [] | Some i \<Rightarrow> [i])) (taken @ [(l, d)])"
  proof (cases i)
    case (Some k)
    have "snd (position_step (st_marks p) (st_config p) (sy_position s) (SignalInput d)) = Some k"
      using position_signal(5) Some by simp
    from position_intent_due[OF this] have "order_due k (l, d)" using l by (auto simp: order_due_def)
    then show ?thesis using embeds_snoc[OF d(3)] Some by simp
  qed (simp add: embeds_more d(3))
  show ?thesis unfolding orders_due_def position_signal(1)
    by (intro exI[of _ "taken @ [(l, d)]"] exI[of _ rest]) (use d(1) w e in \<open>simp add: order_stream_def\<close>)
next
  case (risk i q t r)
  have "subseq (case r of Forwarded j \<Rightarrow> [j] | _ \<Rightarrow> []) [i]"
    using risk(4) by (auto simp: risk_step_def split: sum.splits if_splits risk_outcome.splits)
  then have "subseq (order_stream s') (order_stream s)" using risk(1,2)
    by (simp add: order_stream_def subseq_front subseq_one)
  then show ?thesis using assms(3) risk(1) by (intro stream_shrinks[of s s']) simp_all
next
  case (meta i q t r)
  show ?thesis
  proof (cases r)
    case (MetaForward j)
    have "oi_request j = oi_request i" using meta_forward_facts(2) meta(4) MetaForward by (metis snd_conv)
    from assms(3) obtain taken waiting where d: "sy_decided s = taken @ waiting" "map snd waiting = ch_decisions s"
      "embeds order_due ((submissions (map fst (sy_posted s)) @ submissions (ch_actions s) @ ch_orders s) @ i # q @ ch_intents s) taken"
      using meta(2) by (auto simp: orders_due_def order_stream_def)
    from emb_request[OF d(3) \<open>oi_request j = oi_request i\<close>] show ?thesis unfolding orders_due_def
      by (intro exI[of _ taken] exI[of _ waiting]) (use d meta(1) MetaForward in \<open>simp add: order_stream_def\<close>)
  next
    case (MetaDrop e)
    then show ?thesis using assms(3) meta(1,2) by (intro stream_shrinks[of s s'])
      (simp_all add: order_stream_def subseq_front list_emb_Cons)
  qed
next
  case (order_intent i q)
  obtain ys where ys: "submissions (ch_actions s') = submissions (ch_actions s) @ ys" "subseq ys [i]"
    using order_task_stream[of p "s\<lparr>ch_orders := q\<rparr>" "IntentMsg i"] order_intent(1) by auto
  have "subseq (order_stream s') (order_stream s)" using order_intent(1,2) ys
    by (simp add: order_stream_def subseq_front subseq_one)
  then show ?thesis using assms(3) order_intent(1) by (intro stream_shrinks[of s s']) simp_all
next
  case (order_event e q)
  then show ?thesis using assms(3) by (intro stream_shrinks[of s s']) (simp_all add: order_stream_def)
next
  case (order_market u q)
  then show ?thesis using assms(3) by (intro stream_shrinks[of s s']) (simp_all add: order_stream_def)
next
  case (dispatch m q now t r)
  have "submissions (m # q) = submissions [m] @ submissions q" by (cases m) simp_all
  then show ?thesis using assms(3) dispatch(1,2) by (intro stream_shrinks[of s s']) (simp_all add: order_stream_def)
qed (use assms(3) in \<open>intro stream_shrinks[of s s']; simp add: order_stream_def distribute_def\<close>)+

lemma reachable_due:
  assumes "setting_ok p" "system_reachable p n s"
  shows "orders_due s"
  using assms(2)
proof (induction rule: system_reachable.induct)
  case (internal n s s')
  show ?case by (rule orders_due_step[OF internal(2) reachable_holds[OF assms(1) internal(1)] internal(3)])
next
  case (report n s u)
  show ?case by (rule stream_shrinks[of s]) (use report in \<open>simp_all add: order_stream_def\<close>)
qed (simp_all add: orders_due_def order_stream_def system_init_def)

lemma submitted_safe: "list_all P (submissions (ch_actions s)) \<Longrightarrow> (case i of IntentMsg k \<Rightarrow> P k | _ \<Rightarrow> True) \<Longrightarrow>
    list_all P (submissions (ch_actions (order_task_step p s i)))"
  using order_task_stream[of p s i] subseq_all[of _ "case i of IntentMsg k \<Rightarrow> [k] | _ \<Rightarrow> []" P]
  by (auto split: run_input.splits)

lemma orders_safe_step:
  assumes "limits_ok (st_config p)" "system_step p s s'" "orders_safe (st_config p) s"
  shows "orders_safe (st_config p) s'"
  using assms(2)
proof cases
  case (risk i q t r)
  have "intent_safe (st_config p) j" if "r = Forwarded j" for j
    using forwarded_safe[OF assms(1), of "sy_risk s" i j] risk(4) that by simp
  then show ?thesis using assms(3) risk(1) by (auto simp: orders_safe_def split: risk_outcome.split)
next
  case (meta i q t r)
  have "request_safe (st_config p) j" if "r = MetaForward j" for j
    using meta_forward_facts(2)[of "st_config p" "sy_meta s" i j] meta(2,4) that assms(3) by (auto simp: orders_safe_def request_safe_def)
  then show ?thesis using assms(3) meta(1,2) by (auto simp: orders_safe_def split: meta_outcome.split)
next
  case (dispatch m q now t r)
  have "submissions (m # q) = submissions [m] @ submissions q" by (cases m) simp_all
  then show ?thesis using assms(3) dispatch(1,2) by (simp add: orders_safe_def)
qed (use assms(3) in \<open>auto simp: orders_safe_def distribute_def intro!: submitted_safe\<close>)

lemma reachable_safe:
  assumes "setting_ok p" "system_reachable p n s"
  shows "orders_safe (st_config p) s"
  using assms(2)
proof (induction rule: system_reachable.induct)
  case (internal n s s')
  show ?case using assms(1) by (intro orders_safe_step[OF _ internal(2,3)]) (simp add: setting_ok_def)
next
  case (report n s u)
  then show ?case by (simp add: orders_safe_def)
qed (simp_all add: orders_safe_def system_init_def)

section \<open>What was posted\<close>

text \<open>A submission is posted for fresh data that the meta engine does not veto; the request keeps the terms of
  the order.\<close>

definition request_checked :: "config \<Rightarrow> order_intent \<Rightarrow> string \<Rightarrow> control_request \<Rightarrow> bool" where
  "request_checked cfg i key r \<longleftrightarrow> oi_data_latency_ms i \<le> cf_max_data_age_ms cfg \<and> \<not> meta_not_execute i
     \<and> \<not> cr_expected_realized_markout r \<le> execution_threshold cfg \<and> cr_idempotency_key r = key
     \<and> cr_symbol r = rq_symbol (oi_request i) \<and> cr_side r = side_name (rq_side (oi_request i)) \<and> cr_size r = rq_size (oi_request i)
     \<and> cr_max_slippage_bps r = rq_max_slippage_bps (oi_request i) \<and> (rq_reduce_only (oi_request i) \<longrightarrow> cr_reduce_only r)"

definition posts_checked :: "config \<Rightarrow> system_state \<Rightarrow> bool" where
  "posts_checked cfg s \<longleftrightarrow>
     (\<forall>i key path r. (SubmitI i key, Posted path (RequestBody r)) \<in> set (sy_posted s) \<longrightarrow> request_checked cfg i key r)"

lemma posts_checked_step:
  assumes "system_step p s s'" "posts_checked (st_config p) s"
  shows "posts_checked (st_config p) s'"
  using assms(1)
proof cases
  case (dispatch m q now t r)
  have "request_checked (st_config p) i key b" if "m = SubmitI i key" "r = Posted path (RequestBody b)" for i key path b
  proof -
    have "snd (dispatch_step (st_format p) (st_config p) (sy_profile s) (SubmitI i key, now)) = Posted path (RequestBody b)"
      using dispatch(3) that by simp
    note h = posted_submission[OF this]
    show ?thesis unfolding request_checked_def using h by (simp add: submit_request_def prepare_fields not_less)
  qed
  then show ?thesis using assms(2) dispatch(1) by (auto simp: posts_checked_def)
qed (use assms(2) in \<open>simp_all add: posts_checked_def distribute_def\<close>)

lemma reachable_checked: "system_reachable p n s \<Longrightarrow> posts_checked (st_config p) s"
  by (induction rule: system_reachable.induct)
    (auto simp: posts_checked_step, simp_all add: posts_checked_def system_init_def)

end
