(* ===== verification/Progress.thy ===== *)
theory Progress
  imports SystemFacts
begin

text \<open>
  The progress of the whole process: no channel locks up, the work without new input is finite, and every
  market update leads to one decision. Then what a full channel costs: the channels of the signal chain
  and of the order path lose nothing, a fill can be lost to the position for good.
\<close>

section \<open>A message in any channel can be taken\<close>

definition can_step :: "system_setting \<Rightarrow> system_state \<Rightarrow> bool" where
  "can_step p s \<longleftrightarrow> (\<exists>s'. system_step p s s')"

definition quiet :: "system_state \<Rightarrow> bool" where
  "quiet s \<longleftrightarrow> sy_waiting s = None \<and> ch_updates s = [] \<and> ch_micro s = [] \<and> ch_trigger s = [] \<and> ch_reversal s = []
     \<and> ch_classifier s = [] \<and> ch_adaptive s = [] \<and> ch_decisions s = [] \<and> ch_intents s = [] \<and> ch_safe s = [] \<and> ch_orders s = []
     \<and> ch_controller_market s = [] \<and> ch_events s = [] \<and> ch_actions s = [] \<and> ch_feedback s = [] \<and> ch_truth_market s = []
     \<and> ch_truth_fills s = [] \<and> ch_learning s = [] \<and> ch_samples s = [] \<and> ch_fills s = []"

text \<open>The tasks at the end of the chains wait for nothing.\<close>

lemma can_finish:
  "ch_actions s \<noteq> [] \<Longrightarrow> can_step p s" "ch_orders s \<noteq> [] \<Longrightarrow> can_step p s" "ch_events s \<noteq> [] \<Longrightarrow> can_step p s"
  "ch_controller_market s \<noteq> [] \<Longrightarrow> can_step p s" "ch_truth_fills s \<noteq> [] \<Longrightarrow> can_step p s"
  "ch_truth_market s \<noteq> [] \<Longrightarrow> can_step p s"
proof -
  show "ch_actions s \<noteq> [] \<Longrightarrow> can_step p s" unfolding can_step_def
    by (cases "ch_actions s", simp) (metis prod.exhaust system_step.dispatch)
qed (auto simp: can_step_def neq_Nil_conv intro: system_step.order_intent system_step.order_event system_step.order_market
    system_step.truth_fill system_step.truth_market)

text \<open>A task with a message takes it, or the next channel is beyond its capacity and not empty.\<close>

lemma room_or_full: "(room p q \<Longrightarrow> can_step p s) \<Longrightarrow> (q \<noteq> [] \<Longrightarrow> can_step p s) \<Longrightarrow> can_step p s"
  by (cases "q = []") auto

lemma can_meta: "ch_safe s \<noteq> [] \<Longrightarrow> can_step p s"
  by (rule room_or_full[of "ch_orders s" p])
    (auto simp: neq_Nil_conv can_finish, metis can_step_def prod.exhaust system_step.meta)

lemma can_risk: "ch_intents s \<noteq> [] \<Longrightarrow> can_step p s"
  by (rule room_or_full[of "ch_safe s" p, OF _ can_meta])
    (auto simp: neq_Nil_conv, metis can_step_def prod.exhaust system_step.risk)

lemma can_fills: "ch_fills s \<noteq> [] \<Longrightarrow> can_step p s"
  by (rule room_or_full[of "ch_intents s" p, OF _ can_risk])
    (auto simp: neq_Nil_conv, metis can_step_def prod.exhaust system_step.position_fill)

lemma can_position:
  assumes "ch_decisions s \<noteq> []"
  shows "can_step p s"
proof (cases "ch_fills s = []")
  case True
  show ?thesis
  proof (rule room_or_full[of "ch_intents s" p, OF _ can_risk])
    assume r: "room p (ch_intents s)"
    obtain d q where "ch_decisions s = d # q" using assms by (cases "ch_decisions s") auto
    moreover obtain t i where "position_step (st_marks p) (st_config p) (sy_position s) (SignalInput d) = (t, i)" by fastforce
    ultimately show ?thesis unfolding can_step_def using system_step.position_signal[OF _ True r] by blast
  qed
qed (rule can_fills)

lemma adaptive_total:
  assumes "setting_ok p" "signals_hold p n s" "adaptive_input_ok i"
  obtains t r where "adaptive_step (st_exp p) (st_regimes p) (st_weights p) (st_config p) (sy_adaptive s) i = Some (t, r)"
    "case i of AdaptiveFrame f c \<Rightarrow> r \<noteq> None | _ \<Rightarrow> True"
proof -
  obtain t r where a: "adaptive_step (st_exp p) (st_regimes p) (st_weights p) (st_config p) (sy_adaptive s) i = Some (t, r)"
    using adaptive_step_ok[of "st_exp p" "st_regimes p" "st_weights p" "st_config p" "sy_adaptive s" i] assms
    by (auto simp: setting_ok_def signals_hold_def)
  then show ?thesis by (intro that[OF a]) (auto simp: adaptive_step_def Let_def split: adaptive_input.splits)
qed

lemma can_learning:
  assumes "setting_ok p" "signals_hold p n s" "ch_learning s \<noteq> []"
  shows "can_step p s"
proof (rule room_or_full[of "ch_decisions s" p, OF _ can_position])
  assume r: "room p (ch_decisions s)"
  obtain x q where x: "ch_learning s = x # q" using assms(3) by (cases "ch_learning s") auto
  then have "adaptive_input_ok (AdaptiveSample x)"
    using assms(2) by (simp add: signals_hold_def adaptive_input_ok_def good_sample_def)
  from adaptive_total[OF assms(1,2) this] show ?thesis using x r unfolding can_step_def by (metis system_step.adaptive_sample)
qed

lemma can_feedback:
  assumes "setting_ok p" "signals_hold p n s" "ch_feedback s \<noteq> []"
  shows "can_step p s"
proof (cases "ch_learning s = []")
  case True
  show ?thesis
  proof (rule room_or_full[of "ch_decisions s" p, OF _ can_position])
    assume r: "room p (ch_decisions s)"
    obtain b q where b: "ch_feedback s = b # q" using assms(3) by (cases "ch_feedback s") auto
    have "adaptive_input_ok (AdaptiveFeedback b)" by (simp add: adaptive_input_ok_def)
    from adaptive_total[OF assms(1,2) this] show ?thesis using b r True unfolding can_step_def
      by (metis system_step.adaptive_feedback)
  qed
qed (rule can_learning[OF assms(1,2)])

lemma can_adaptive:
  assumes "setting_ok p" "signals_hold p n s" "ch_adaptive s \<noteq> []"
  shows "can_step p s"
proof (cases "ch_learning s = [] \<and> ch_feedback s = []")
  case True
  show ?thesis
  proof (rule room_or_full[of "ch_decisions s" p, OF _ can_position])
    assume r: "room p (ch_decisions s)"
    obtain f q where f: "ch_adaptive s = f # q" using assms(3) by (cases "ch_adaptive s") auto
    then have "adaptive_input_ok (AdaptiveFrame f None)"
      using assms(2) by (simp add: signals_hold_def adaptive_input_ok_def classified_frame_def)
    from adaptive_total[OF assms(1,2) this] obtain t r where
      t: "adaptive_step (st_exp p) (st_regimes p) (st_weights p) (st_config p) (sy_adaptive s) (AdaptiveFrame f None) = Some (t, r)"
      and "r \<noteq> None" by (auto split: adaptive_input.splits)
    then obtain d where "r = Some d" by blast
    with t show ?thesis unfolding can_step_def using system_step.adaptive_frame[OF f _ _ r] True by blast
  qed
qed (use can_learning[OF assms(1,2)] can_feedback[OF assms(1,2)] in blast)

lemma can_classifier:
  assumes "setting_ok p" "signals_hold p n s" "ch_classifier s \<noteq> []"
  shows "can_step p s"
proof (rule room_or_full[of "ch_adaptive s" p, OF _ can_adaptive[OF assms(1,2)]])
  assume r: "room p (ch_adaptive s)"
  obtain f q where "ch_classifier s = f # q" using assms(3) by (cases "ch_classifier s") auto
  then show ?thesis unfolding can_step_def using system_step.classifier[OF _ r] by blast
qed

lemma can_samples:
  assumes "setting_ok p" "signals_hold p n s" "ch_samples s \<noteq> []"
  shows "can_step p s"
proof (rule room_or_full[of "ch_classifier s" p, OF _ can_classifier[OF assms(1,2)]])
  assume r: "room p (ch_classifier s)"
  obtain x q where "ch_samples s = x # q" using assms(3) by (cases "ch_samples s") auto
  moreover obtain t g where "reversal_step (sy_reversal s) (SampleIn x) = (t, g)" by fastforce
  ultimately show ?thesis unfolding can_step_def using system_step.reversal_sample[OF _ r] by blast
qed

lemma can_reversal:
  assumes "setting_ok p" "signals_hold p n s" "ch_reversal s \<noteq> []"
  shows "can_step p s"
proof (rule room_or_full[of "ch_classifier s" p, OF _ can_classifier[OF assms(1,2)]])
  assume r: "room p (ch_classifier s)"
  obtain f q where "ch_reversal s = f # q" using assms(3) by (cases "ch_reversal s") auto
  moreover obtain t g where "reversal_step (sy_reversal s) (FrameIn f) = (t, Some g)"
    by (simp add: reversal_step_def Let_def case_prod_unfold)
  ultimately show ?thesis unfolding can_step_def using system_step.reversal_frame[OF _ r] by blast
qed

lemma can_trigger:
  assumes "setting_ok p" "signals_hold p n s" "ch_trigger s \<noteq> []"
  shows "can_step p s"
proof (rule room_or_full[of "ch_reversal s" p, OF _ can_reversal[OF assms(1,2)]])
  assume r: "room p (ch_reversal s)"
  obtain f q where "ch_trigger s = f # q" using assms(3) by (cases "ch_trigger s") auto
  moreover obtain t g where "trigger_step (sy_trigger s) f = (t, g)" by fastforce
  ultimately show ?thesis unfolding can_step_def using system_step.trigger[OF _ r] by blast
qed

lemma can_micro:
  assumes "setting_ok p" "signals_hold p n s" "ch_micro s \<noteq> []"
  shows "can_step p s"
proof (rule room_or_full[of "ch_trigger s" p, OF _ can_trigger[OF assms(1,2)]])
  assume r: "room p (ch_trigger s)"
  obtain u q where "ch_micro s = u # q" using assms(3) by (cases "ch_micro s") auto
  moreover obtain t g where "micro_step (cf_max_data_age_ms (st_config p)) (sy_micro s) (u, None) = (t, g)" by fastforce
  ultimately show ?thesis unfolding can_step_def using system_step.micro[OF _ r] by blast
qed

lemma can_waiting:
  assumes "setting_ok p" "signals_hold p n s" "sy_waiting s = Some u"
  shows "can_step p s"
proof (cases "try_send (capacity_of p) (ch_micro s) u")
  case None
  moreover have "0 < capacity_of p" using assms(1) by (simp add: setting_ok_def word_less_nat_alt)
  ultimately have "ch_micro s \<noteq> []" by (auto simp: try_send_iff)
  then show ?thesis by (rule can_micro[OF assms(1,2)])
next
  case (Some m)
  then show ?thesis unfolding can_step_def using system_step.distribute_resumes[OF assms(3)] by blast
qed

lemma can_updates:
  assumes "setting_ok p" "signals_hold p n s" "ch_updates s \<noteq> []"
  shows "can_step p s"
proof (cases "sy_waiting s")
  case None
  obtain u q where u: "ch_updates s = u # q" using assms(3) by (cases "ch_updates s") auto
  show ?thesis unfolding can_step_def
    using system_step.distribute_now[OF u None] system_step.distribute_waits[OF u None]
    by (cases "try_send (capacity_of p) (ch_micro s) u") blast+
qed (rule can_waiting[OF assms(1,2)])

lemma not_quiet_can_step:
  assumes "setting_ok p" "signals_hold p n s" "\<not> quiet s"
  shows "can_step p s"
  using assms(3) can_finish[of s p] can_meta[of s p] can_risk[of s p] can_fills[of s p] can_position[of s p]
    can_learning[OF assms(1,2)] can_feedback[OF assms(1,2)] can_adaptive[OF assms(1,2)] can_classifier[OF assms(1,2)]
    can_samples[OF assms(1,2)] can_reversal[OF assms(1,2)] can_trigger[OF assms(1,2)] can_micro[OF assms(1,2)]
    can_updates[OF assms(1,2)] can_waiting[OF assms(1,2)]
  unfolding quiet_def by (cases "sy_waiting s") argo+

section \<open>The work is finite\<close>

text \<open>The messages that wait, channel by channel in the direction of the flow: a step takes one message and
  puts others only into later channels.\<close>

definition backlog :: "system_state \<Rightarrow> nat list" where
  "backlog s = [length (ch_updates s), (case sy_waiting s of None \<Rightarrow> 0 | Some u \<Rightarrow> 1), length (ch_micro s), length (ch_trigger s),
     length (ch_reversal s), length (ch_classifier s), length (ch_adaptive s), length (ch_decisions s), length (ch_intents s),
     length (ch_safe s), length (ch_orders s), length (ch_controller_market s), length (ch_events s), length (ch_actions s),
     length (ch_feedback s), length (ch_truth_market s), length (ch_truth_fills s), length (ch_learning s),
     length (ch_samples s), length (ch_fills s)]"

lemma backlog_decreases: "system_step p s s' \<Longrightarrow> (backlog s', backlog s) \<in> lex less_than"
  by (cases rule: system_step.cases, assumption) (simp_all add: backlog_def task_step_defs case_prod_unfold Let_def)

lemma steps_terminate: "wf {(s', s). system_step p s s'}"
proof (rule wf_subset)
  show "wf (inv_image (lex less_than) backlog)" by (intro wf_inv_image wf_lex wf_less_than)
qed (auto simp: backlog_decreases)

section \<open>Nothing is lost in the signal chain\<close>

definition updates_accounted :: "nat \<Rightarrow> system_state \<Rightarrow> bool" where
  "updates_accounted n s \<longleftrightarrow> n = in_flight s + length (ch_trigger s) + length (ch_reversal s) + length (ch_classifier s)
     + length (ch_adaptive s) + length (sy_decided s)"

lemma accounted_step: "system_step p s s' \<Longrightarrow> updates_accounted n s \<Longrightarrow> updates_accounted n s'"
  by (cases rule: system_step.cases, assumption)
    (auto simp: updates_accounted_def in_flight_def try_send_iff task_step_defs case_prod_unfold Let_def)

lemma reachable_accounted: "system_reachable p n s \<Longrightarrow> updates_accounted n s"
  by (induction rule: system_reachable.induct)
    (simp_all add: accounted_step,
     simp_all add: updates_accounted_def in_flight_def system_init_def deliver_report_def case_prod_unfold Let_def split: option.split)

lemma reachable_steps: "(system_step p)\<^sup>*\<^sup>* s s' \<Longrightarrow> system_reachable p n s \<Longrightarrow> system_reachable p n s'"
  by (induction rule: rtranclp_induct) (auto intro: system_reachable.internal)

section \<open>A fill that is lost\<close>

text \<open>The fills that neither reached the position nor wait for it.\<close>

definition fills_missing :: "system_state \<Rightarrow> nat" where
  "fills_missing s = length (sy_reported s) - length (sy_fills_taken s @ ch_fills s)"

lemma missing_step: "system_step p s s' \<Longrightarrow> fills_missing s' = fills_missing s"
  by (cases rule: system_step.cases, assumption)
    (simp_all add: fills_missing_def task_step_defs case_prod_unfold Let_def)

lemma missing_steps: "(system_step p)\<^sup>*\<^sup>* s s' \<Longrightarrow> fills_missing s' = fills_missing s"
  by (induction rule: rtranclp_induct) (simp_all add: missing_step)

lemma fills_kept_step: "system_step p s s' \<Longrightarrow> subseq (sy_fills_taken s @ ch_fills s) (sy_reported s) \<Longrightarrow>
    subseq (sy_fills_taken s' @ ch_fills s') (sy_reported s')"
  by (cases rule: system_step.cases, assumption)
    (simp_all add: task_step_defs case_prod_unfold Let_def)

lemma fills_kept_report:
  assumes "subseq (sy_fills_taken s @ ch_fills s) (sy_reported s)"
  shows "subseq (sy_fills_taken (deliver_report p s u) @ ch_fills (deliver_report p s u)) (sy_reported (deliver_report p s u))"
proof -
  have "subseq (sy_fills_taken s @ send_or_drop n (ch_fills s) f) (sy_reported s @ [f])" for n f
    using send_or_drop_cases[of n "ch_fills s" f] list_emb_append_mono[OF assms, of "[f]" "[f]"] list_emb_prefix[OF assms]
    by auto
  then show ?thesis using assms by (simp add: deliver_report_def case_prod_unfold Let_def split: option.split)
qed

lemma reachable_fills: "system_reachable p n s \<Longrightarrow> subseq (sy_fills_taken s @ ch_fills s) (sy_reported s)"
  by (induction rule: system_reachable.induct)
    (simp_all add: fills_kept_step fills_kept_report, simp_all add: system_init_def)

lemma truth_frame_fills [simp]:
  "sy_reported (truth_task_step p s i) = sy_reported s" "sy_fills_taken (truth_task_step p s i) = sy_fills_taken s"
  "ch_fills (truth_task_step p s i) = ch_fills s" "ch_truth_fills (truth_task_step p s i) = ch_truth_fills s"
  "sy_measured (truth_task_step p s i) = sy_measured s @ [i]"
  by (simp_all add: truth_task_step_def send_samples_def case_prod_unfold Let_def)

lemma report_fill:
  assumes "handle_update u = (e, Some f)"
  shows "ch_truth_fills (deliver_report p s u) = send_or_drop (capacity_of p) (ch_truth_fills s) f"
    "ch_fills (deliver_report p s u) = send_or_drop (capacity_of p) (ch_fills s) f"
    "sy_reported (deliver_report p s u) = sy_reported s @ [f]" "sy_fills_taken (deliver_report p s u) = sy_fills_taken s"
    "sy_measured (deliver_report p s u) = sy_measured s"
  using assms by (simp_all add: deliver_report_def split: option.split)

text \<open>Reports that arrive while the position is busy and the measurement is not.\<close>

lemma fills_pile_up:
  assumes "report_ok u" "handle_update u = (e, Some f)" "0 < capacity_of p"
  shows "\<exists>s. system_reachable p 0 s \<and> sy_reported s = replicate k f \<and> sy_fills_taken s = [] \<and> ch_truth_fills s = []
    \<and> length (ch_fills s) = min k (capacity_of p) \<and> sy_measured s = replicate k (FillSeen f)"
proof (induction k)
  case 0
  have "system_reachable p 0 (system_init (st_config p))" by (rule system_reachable.start)
  then show ?case by (intro exI[of _ "system_init (st_config p)"]) (simp add: system_init_def)
next
  case (Suc k)
  then obtain s where s: "system_reachable p 0 s" "sy_reported s = replicate k f" "sy_fills_taken s = []" "ch_truth_fills s = []"
    "length (ch_fills s) = min k (capacity_of p)" "sy_measured s = replicate k (FillSeen f)" by blast
  define r where "r = deliver_report p s u"
  have r: "ch_truth_fills r = [f]" "sy_reported r = sy_reported s @ [f]" "sy_fills_taken r = []" "sy_measured r = sy_measured s"
    "ch_fills r = send_or_drop (capacity_of p) (ch_fills s) f"
    using s(3,4) assms(3) by (simp_all add: r_def report_fill[OF assms(2)] send_or_drop_def try_send_def)
  define t where "t = truth_task_step p (r\<lparr>ch_truth_fills := []\<rparr>) (FillSeen f)"
  have "system_reachable p 0 r" unfolding r_def by (rule system_reachable.report[OF s(1) assms(1)])
  then have "system_reachable p 0 t" unfolding t_def by (rule system_reachable.internal[OF _ system_step.truth_fill[OF r(1)]])
  moreover have "length (ch_fills t) = min (Suc k) (capacity_of p)"
    using s(5) r(5) send_or_drop_cases[of "capacity_of p" "ch_fills s" f] by (auto simp: t_def)
  ultimately show ?case using r s(2,6)
    by (intro exI[of _ t]) (simp add: t_def replicate_append_same)
qed

section \<open>An order that is lost\<close>

text \<open>When the channel to the dispatch is full the submission is dropped, but the controller of the order
  is kept as sent: the process follows an order that nobody placed.\<close>

lemma full_channel_loses_order:
  assumes "capacity_of p \<le> length (ch_actions s)"
  shows "ch_actions (order_task_step p s (IntentMsg i)) = ch_actions s
    \<and> map_option ec_status (cr_controllers (sy_orders (order_task_step p s (IntentMsg i))) (ec_idempotency_key (controller_new i (st_config p))))
      = Some LcSent"
  using assms by (simp add: order_task_step_def on_intent_def Let_def send_or_drop_def try_send_def)

section \<open>Properties\<close>


text \<open>C4: The process never locks up and always comes to rest: no channel exceeds its capacity by more than
  the message its sender waits with; a state with a message anywhere has a step; without new input
  every run is finite and can only end with all channels empty; and then every market update has
  led to exactly one decision.\<close>
theorem system_settles:
  assumes "setting_ok p" "system_reachable p n s"
  shows "channels_bounded (capacity_of p) s \<and> (quiet s \<or> (\<exists>s'. system_step p s s'))
    \<and> (\<exists>s'. (system_step p)\<^sup>*\<^sup>* s s' \<and> quiet s') \<and> \<not> (\<exists>f. f 0 = s \<and> (\<forall>i. system_step p (f i) (f (Suc i))))
    \<and> (\<forall>s'. (system_step p)\<^sup>*\<^sup>* s s' \<and> quiet s' \<longrightarrow> length (sy_decided s') = n)"
proof -
  have step: "quiet t \<or> (\<exists>t'. system_step p t t')" if "system_reachable p n t" for t
    using not_quiet_can_step[OF assms(1) reachable_holds[OF assms(1) that]] by (auto simp: can_step_def)
  have rest: "system_reachable p n t \<Longrightarrow> \<exists>t'. (system_step p)\<^sup>*\<^sup>* t t' \<and> quiet t'" for t
  proof (induction t rule: wf_induct_rule[OF steps_terminate[of p]])
    case (1 t)
    show ?case
    proof (cases "quiet t")
      case False
      then obtain t1 where t1: "system_step p t t1" using step[OF 1(2)] by blast
      then have "system_reachable p n t1" using 1(2) by (rule system_reachable.internal[rotated])
      then obtain t2 where "(system_step p)\<^sup>*\<^sup>* t1 t2" "quiet t2" using 1(1)[of t1] t1 by blast
      then show ?thesis using t1 by (meson converse_rtranclp_into_rtranclp)
    qed blast
  qed
  have "\<not> (\<exists>f. f 0 = s \<and> (\<forall>i. system_step p (f i) (f (Suc i))))"
    using steps_terminate[of p] unfolding wf_iff_no_infinite_down_chain by auto
  moreover have "length (sy_decided s') = n" if "(system_step p)\<^sup>*\<^sup>* s s'" "quiet s'" for s'
    using reachable_accounted[OF reachable_steps[OF that(1) assms(2)]] that(2)
    by (simp add: updates_accounted_def quiet_def in_flight_def)
  ultimately show ?thesis using reachable_bounded[OF assms(2)] step[OF assms(2)] rest[OF assms(2)] by blast
qed

text \<open>C38: A fill can be lost to the position for good. The feed offers a fill to the position without waiting, so
  fills that are reported while the channel is full are dropped: from some reachable state on, the
  position never sees all fills the control plane reported, though the measurement has seen them all.\<close>
theorem fills_can_be_lost:
  assumes "report_ok u" "snd (handle_update u) = Some f" "0 < capacity_of p"
  shows "\<exists>s. system_reachable p 0 s \<and> sy_measured s = map FillSeen (sy_reported s)
    \<and> (\<forall>s'. (system_step p)\<^sup>*\<^sup>* s s' \<longrightarrow> sy_reported s' = sy_reported s \<and> subseq (sy_fills_taken s') (sy_reported s')
        \<and> length (sy_fills_taken s') < length (sy_reported s'))"
proof -
  have h: "handle_update u = (fst (handle_update u), Some f)" using assms(2) by (simp add: prod_eq_iff)
  from fills_pile_up[OF assms(1) h assms(3), of "Suc (capacity_of p)"] obtain s where
    s: "system_reachable p 0 s" "sy_reported s = replicate (Suc (capacity_of p)) f" "sy_fills_taken s = []"
      "length (ch_fills s) = capacity_of p" "sy_measured s = replicate (Suc (capacity_of p)) (FillSeen f)"
    by auto
  have m: "fills_missing s = 1" using s by (simp add: fills_missing_def)
  have "sy_reported s' = sy_reported s \<and> subseq (sy_fills_taken s') (sy_reported s') \<and> length (sy_fills_taken s') < length (sy_reported s')"
    if "(system_step p)\<^sup>*\<^sup>* s s'" for s'
  proof (intro conjI)
    have step: "sy_reported b = sy_reported a" if "system_step p a b" for a b
      using that by (cases rule: system_step.cases) (simp_all add: task_step_defs case_prod_unfold Let_def)
    show "sy_reported s' = sy_reported s" using that by (induction rule: rtranclp_induct) (simp_all add: step)
    have "subseq (sy_fills_taken s' @ ch_fills s') (sy_reported s')" by (rule reachable_fills[OF reachable_steps[OF that s(1)]])
    then show "subseq (sy_fills_taken s') (sy_reported s')" by (rule subseq_order.order_trans[OF subseq_prefix])
    show "length (sy_fills_taken s') < length (sy_reported s')" using missing_steps[OF that] m by (simp add: fills_missing_def)
  qed
  moreover have "sy_measured s = map FillSeen (sy_reported s)" using s(2,5) by simp
  ultimately show ?thesis using s(1) by blast
qed

section \<open>Instances\<close>

definition ex_process :: system_setting where
  "ex_process = \<lparr>st_exp = ex_exp, st_pow15 = id, st_regimes = ex_regime_iter, st_marks = ex_iter, st_controllers = (\<lambda>_. []),
     st_format = (\<lambda>_. ''now''), st_weights = model_weights_default, st_config = config_default\<rparr>"

definition ex_begun :: system_state where
  "ex_begun = (system_init config_default)\<lparr>ch_updates := [ex_tick]\<rparr>"

lemma ex_process_ok: "setting_ok ex_process" "0 < capacity_of ex_process"
  using ex_setting ex_limits(1) by (simp_all add: setting_ok_def ex_process_def config_default_def)

lemma ex_begun_reachable: "system_reachable ex_process 1 ex_begun"
proof -
  have "update_ok ex_tick"
    by (simp add: update_ok_def feed_ok_def update_valid_def trade_ok_def ex_tick_def mag_def double_def truth_market_price_def rng_def)
  moreover have "system_reachable ex_process 0 (system_init config_default)"
    using system_reachable.start[of ex_process] by (simp add: ex_process_def)
  ultimately have "system_reachable ex_process (Suc 0) ((system_init config_default)
      \<lparr>ch_updates := ch_updates (system_init config_default) @ [ex_tick]\<rparr>)"
    by (intro system_reachable.arrive) (simp_all add: system_init_def)
  then show ?thesis by (simp add: ex_begun_def system_init_def)
qed


theorem system_settles_witness:
  "\<exists>s'. (system_step ex_process)\<^sup>*\<^sup>* ex_begun s' \<and> quiet s' \<and> length (sy_decided s') = 1"
  using system_settles[OF ex_process_ok(1) ex_begun_reachable] by blast

theorem fills_can_be_lost_witness:
  "\<exists>s. system_reachable ex_process 0 s \<and> length (sy_fills_taken s) < length (sy_reported s)"
proof -
  have "snd (handle_update ex_report) \<noteq> None" by (simp add: handle_update_def ex_report_def ex_update_def)
  then obtain f where f: "snd (handle_update ex_report) = Some f" by blast
  have "report_ok ex_report" by (simp add: report_ok_def ex_report_def ex_update_def mag_def)
  from fills_can_be_lost[OF this f ex_process_ok(2)] show ?thesis by blast
qed

end
