(* ===== verification/Schedule.thy ===== *)
theory Schedule
  imports Progress
begin

text \<open>
  The trading loop of \<open>Core\<close> handles one message after the other through all its tasks. Here it is shown to be a
  schedule of the whole process: what \<open>core_step\<close> does in one step the tasks do one by one, each taking
  the message from its channel and putting the result into the next.
\<close>

section \<open>The loop inside the process\<close>

definition core_view :: "system_state \<Rightarrow> core_state" where
  "core_view s = \<lparr>co_micro = sy_micro s, co_trigger = sy_trigger s, co_reversal = sy_reversal s, co_adaptive = sy_adaptive s,
     co_path = \<lparr>op_position = sy_position s, op_risk = sy_risk s, op_meta = sy_meta s\<rparr>\<rparr>"

text \<open>No message is on its way in the loop.\<close>

definition loop_idle :: "system_state \<Rightarrow> bool" where
  "loop_idle s \<longleftrightarrow> sy_waiting s = None \<and> ch_updates s = [] \<and> ch_micro s = [] \<and> ch_trigger s = [] \<and> ch_reversal s = []
     \<and> ch_classifier s = [] \<and> ch_adaptive s = [] \<and> ch_decisions s = [] \<and> ch_intents s = [] \<and> ch_safe s = []
     \<and> ch_feedback s = [] \<and> ch_learning s = [] \<and> ch_samples s = [] \<and> ch_fills s = []"

text \<open>A message of the loop, in the channels by which it arrives.\<close>

definition inject :: "system_state \<Rightarrow> core_input \<Rightarrow> system_state" where
  "inject s i = (case i of
     Core.MarketMsg u _ _ \<Rightarrow> s\<lparr>ch_updates := ch_updates s @ [u]\<rparr>
   | LearnMsg x \<Rightarrow> s\<lparr>ch_learning := ch_learning s @ [x], ch_samples := ch_samples s @ [x]\<rparr>
   | FeedbackMsg b \<Rightarrow> s\<lparr>ch_feedback := ch_feedback s @ [b]\<rparr>
   | FillMsg f \<Rightarrow> s\<lparr>ch_fills := ch_fills s @ [f]\<rparr>)"

definition decision_of :: "system_state \<Rightarrow> (scored_decision \<times> path_outcome) option \<Rightarrow> (bool \<times> scored_decision) list" where
  "decision_of s out = (case out of None \<Rightarrow> [] | Some (d, _) \<Rightarrow> [(ad_trading_disabled (sy_adaptive s), d)])"

definition order_of :: "(scored_decision \<times> path_outcome) option \<Rightarrow> order_intent list" where
  "order_of out = (case out of Some (_, Delivered k) \<Rightarrow> [k] | _ \<Rightarrow> [])"

abbreviation core_step_of :: "system_setting \<Rightarrow> core_state \<Rightarrow> core_input \<Rightarrow> (core_state \<times> (scored_decision \<times> path_outcome) option) option" where
  "core_step_of p \<equiv> core_step (st_exp p) (st_regimes p) (st_marks p) (st_weights p) (st_config p)"

section \<open>A decision through the order path\<close>

lemma order_path_runs:
  assumes "loop_idle s" "room p (ch_orders s)" "path_signal (st_marks p) (st_config p) (co_path (core_view s)) d = (path, outcome)"
  shows "\<exists>s'. (system_step p)\<^sup>*\<^sup>* (s\<lparr>ch_decisions := [d]\<rparr>) s' \<and> loop_idle s'
    \<and> core_view s' = (core_view s)\<lparr>co_path := path\<rparr> \<and> sy_decided s' = sy_decided s
    \<and> ch_orders s' = ch_orders s @ order_of (Some (d, outcome))"
proof -
  obtain t i where i: "position_step (st_marks p) (st_config p) (sy_position s) (SignalInput d) = (t, i)" by fastforce
  define s1 where "s1 = s\<lparr>ch_decisions := [], sy_position := t, ch_intents := (case i of None \<Rightarrow> [] | Some i \<Rightarrow> [i])\<rparr>"
  have 1: "system_step p (s\<lparr>ch_decisions := [d]\<rparr>) s1"
    using system_step.position_signal[of "s\<lparr>ch_decisions := [d]\<rparr>" d "[]" p t i] assms(1) i
    by (simp add: s1_def loop_idle_def)
  show ?thesis
  proof (cases i)
    case None
    then have "loop_idle s1 \<and> core_view s1 = (core_view s)\<lparr>co_path := path\<rparr> \<and> sy_decided s1 = sy_decided s
        \<and> ch_orders s1 = ch_orders s @ order_of (Some (d, outcome))"
      using assms(1,3) i by (auto simp: s1_def loop_idle_def core_view_def path_signal_def order_of_def)
    with 1 show ?thesis by blast
  next
    case (Some k)
    obtain r out where r: "risk_step (st_config p) (sy_risk s) k = (r, out)" by fastforce
    define s2 where "s2 = s1\<lparr>ch_intents := [], sy_risk := r, ch_safe := (case out of Forwarded j \<Rightarrow> [j] | _ \<Rightarrow> [])\<rparr>"
    have 2: "system_step p s1 s2"
      using system_step.risk[of s1 k "[]" p r out] assms(1) r Some by (simp add: s1_def s2_def loop_idle_def)
    show ?thesis
    proof (cases "\<exists>j. out = Forwarded j")
      case True
      then obtain j where j: "out = Forwarded j" by blast
      obtain m e where m: "meta_step (st_config p) (sy_meta s) j = (m, e)" by fastforce
      define s3 where "s3 = s2\<lparr>ch_safe := [], sy_meta := m,
        ch_orders := ch_orders s2 @ (case e of MetaForward j \<Rightarrow> [j] | MetaDrop x \<Rightarrow> [])\<rparr>"
      have 3: "system_step p s2 s3"
        using system_step.meta[of s2 j "[]" p m e] assms(2) m j by (simp add: s1_def s2_def s3_def)
      have "loop_idle s3 \<and> core_view s3 = (core_view s)\<lparr>co_path := path\<rparr> \<and> sy_decided s3 = sy_decided s
          \<and> ch_orders s3 = ch_orders s @ order_of (Some (d, outcome))"
        using assms(1,3) i r m j Some
        by (auto simp: s1_def s2_def s3_def loop_idle_def core_view_def path_signal_def order_of_def split: meta_outcome.splits)
      with 1 2 3 show ?thesis by (meson r_into_rtranclp rtranclp_trans)
    next
      case False
      then have "(case out of Forwarded j \<Rightarrow> [j] | _ \<Rightarrow> []) = []" by (cases out) simp_all
      moreover have "path = (co_path (core_view s))\<lparr>op_position := t, op_risk := r\<rparr> \<and> outcome = StoppedByRisk out"
        using assms(3) i r Some False by (cases out) (simp_all add: path_signal_def core_view_def)
      ultimately have "loop_idle s2 \<and> core_view s2 = (core_view s)\<lparr>co_path := path\<rparr> \<and> sy_decided s2 = sy_decided s
          \<and> ch_orders s2 = ch_orders s @ order_of (Some (d, outcome))"
        using assms(1) Some by (simp add: s1_def s2_def loop_idle_def core_view_def order_of_def)
      with 1 2 show ?thesis by (meson r_into_rtranclp rtranclp_trans)
    qed
  qed
qed

section \<open>An update through the signal chain\<close>

text \<open>The update becomes the frame of the decision stage; besides, the measurement and the controller are offered it.\<close>

lemma signal_chain_runs:
  assumes "loop_idle s" "0 < capacity_of p" "signal_frame (st_weights p) (st_config p) (core_view s) u arrival = (c, f)"
  shows "\<exists>s'. (system_step p)\<^sup>*\<^sup>* (s\<lparr>ch_updates := [u]\<rparr>) (s'\<lparr>ch_adaptive := [f]\<rparr>) \<and> loop_idle s' \<and> core_view s' = c
    \<and> sy_adaptive s' = sy_adaptive s \<and> sy_decided s' = sy_decided s \<and> ch_orders s' = ch_orders s"
proof -
  obtain m f0 where m: "micro_step (cf_max_data_age_ms (st_config p)) (sy_micro s) (u, arrival) = (m, f0)" by fastforce
  obtain t f1 where t: "trigger_step (sy_trigger s) f0 = (t, f1)" by fastforce
  obtain r f2 where r: "reversal_step (sy_reversal s) (FrameIn f1) = (r, Some f2)"
    by (simp add: reversal_step_def Let_def case_prod_unfold)
  have c: "c = (core_view s)\<lparr>co_micro := m, co_trigger := t, co_reversal := r\<rparr>" "f = classifier_step (st_weights p) f2"
    using assms(3) m t r by (auto simp: signal_frame_def core_view_def)
  define s1 where "s1 = distribute p (s\<lparr>ch_updates := [], ch_micro := [u]\<rparr>) u"
  define s2 where "s2 = s1\<lparr>ch_micro := [], sy_micro := m, ch_trigger := [f0]\<rparr>"
  define s3 where "s3 = s2\<lparr>ch_trigger := [], sy_trigger := t, ch_reversal := [f1]\<rparr>"
  define s4 where "s4 = s3\<lparr>ch_reversal := [], sy_reversal := r, ch_classifier := [f2]\<rparr>"
  define s5 where "s5 = s4\<lparr>ch_classifier := []\<rparr>"
  note defs = s1_def s2_def s3_def s4_def s5_def distribute_def
  have 1: "system_step p (s\<lparr>ch_updates := [u]\<rparr>) s1"
    using system_step.distribute_now[of "s\<lparr>ch_updates := [u]\<rparr>" u "[]" p "[u]"] assms(1,2)
    by (simp add: s1_def loop_idle_def try_send_def)
  have 2: "system_step p s1 s2"
    using system_step.micro[of s1 u "[]" p arrival m f0] assms(1) m by (simp add: defs loop_idle_def)
  have 3: "system_step p s2 s3"
    using system_step.trigger[of s2 f0 "[]" p t f1] assms(1) t by (simp add: defs loop_idle_def)
  have 4: "system_step p s3 s4"
    using system_step.reversal_frame[of s3 f1 "[]" p r f2] assms(1) r by (simp add: defs loop_idle_def)
  have 5: "system_step p s4 (s5\<lparr>ch_adaptive := [f]\<rparr>)"
    using system_step.classifier[of s4 f2 "[]" p] assms(1) c(2) by (simp add: defs loop_idle_def)
  have "(system_step p)\<^sup>*\<^sup>* (s\<lparr>ch_updates := [u]\<rparr>) (s5\<lparr>ch_adaptive := [f]\<rparr>)"
    using 1 2 3 4 5 by (meson r_into_rtranclp rtranclp_trans)
  moreover have "loop_idle s5 \<and> core_view s5 = c \<and> sy_adaptive s5 = sy_adaptive s \<and> sy_decided s5 = sy_decided s \<and> ch_orders s5 = ch_orders s"
    using assms(1) c(1) by (simp add: defs loop_idle_def core_view_def)
  ultimately show ?thesis by blast
qed

section \<open>Every message\<close>

lemma market_message_runs:
  assumes "loop_idle s" "0 < capacity_of p" "room p (ch_orders s)"
    "core_step_of p (core_view s) (Core.MarketMsg u arrival decided) = Some (c, out)"
  shows "\<exists>s'. (system_step p)\<^sup>*\<^sup>* (s\<lparr>ch_updates := [u]\<rparr>) s' \<and> loop_idle s' \<and> core_view s' = c
    \<and> sy_decided s' = sy_decided s @ decision_of s out \<and> ch_orders s' = ch_orders s @ order_of out"
proof -
  obtain c1 f where f: "signal_frame (st_weights p) (st_config p) (core_view s) u arrival = (c1, f)" by fastforce
  obtain s1 where s1: "(system_step p)\<^sup>*\<^sup>* (s\<lparr>ch_updates := [u]\<rparr>) (s1\<lparr>ch_adaptive := [f]\<rparr>)" "loop_idle s1" "core_view s1 = c1"
    "sy_adaptive s1 = sy_adaptive s" "sy_decided s1 = sy_decided s" "ch_orders s1 = ch_orders s"
    using signal_chain_runs[OF assms(1,2) f] by blast
  have ad: "co_adaptive c1 = sy_adaptive s1" using s1(3) by (auto simp: core_view_def)
  obtain t d where t: "adaptive_step (st_exp p) (st_regimes p) (st_weights p) (st_config p) (sy_adaptive s1) (AdaptiveFrame f decided)
      = Some (t, Some d)"
    using assms(4) f ad
    by (auto simp: core_step_def adaptive_step_def Let_def split: option.splits)
  define s2 where "s2 = s1\<lparr>ch_adaptive := [], sy_adaptive := t, sy_decided := sy_decided s1 @ [(ad_trading_disabled (sy_adaptive s1), d)]\<rparr>"
  have "s2\<lparr>ch_decisions := [d]\<rparr> = s1\<lparr>ch_adaptive := [], sy_adaptive := t, ch_decisions := [d],
      sy_decided := sy_decided s1 @ [(ad_trading_disabled (sy_adaptive s1), d)]\<rparr>"
    by (rule system_state.equality) (simp_all add: s2_def)
  then have 1: "system_step p (s1\<lparr>ch_adaptive := [f]\<rparr>) (s2\<lparr>ch_decisions := [d]\<rparr>)"
    using system_step.adaptive_frame[of "s1\<lparr>ch_adaptive := [f]\<rparr>" f "[]" p decided t d] s1(2) t
    by (simp add: loop_idle_def)
  obtain path outcome where o: "path_signal (st_marks p) (st_config p) (co_path (core_view s2)) d = (path, outcome)" by fastforce
  have e: "c = (core_view s2)\<lparr>co_path := path\<rparr>" "out = Some (d, outcome)"
    using assms(4) f t ad o s1(3) by (auto simp: core_step_def s2_def core_view_def)
  have "loop_idle s2" "room p (ch_orders s2)" using s1(2,6) assms(3) by (simp_all add: s2_def loop_idle_def)
  from order_path_runs[OF this o] obtain s3 where s3: "(system_step p)\<^sup>*\<^sup>* (s2\<lparr>ch_decisions := [d]\<rparr>) s3" "loop_idle s3"
    "core_view s3 = (core_view s2)\<lparr>co_path := path\<rparr>" "sy_decided s3 = sy_decided s2" "ch_orders s3 = ch_orders s2 @ order_of (Some (d, outcome))"
    by blast
  have "(system_step p)\<^sup>*\<^sup>* (s\<lparr>ch_updates := [u]\<rparr>) s3" using s1(1) 1 s3(1) by (meson r_into_rtranclp rtranclp_trans)
  then show ?thesis using s3 e s1(4-6) by (intro exI[of _ s3]) (simp add: s2_def decision_of_def)
qed

text \<open>C39: The sequential trading loop is a schedule of the process: from a state in which nothing is on its way in the
  loop, every step of the loop is a run of the tasks that takes the same message from the channels,
  ends with nothing on its way, leaves the tasks in the states the loop computes, makes the same
  decision and puts the same order into the channel of the controller.\<close>
theorem loop_is_schedule:
  assumes "loop_idle s" "0 < capacity_of p" "room p (ch_orders s)" "core_step_of p (core_view s) i = Some (c, out)"
  shows "\<exists>s'. (system_step p)\<^sup>*\<^sup>* (inject s i) s' \<and> loop_idle s' \<and> core_view s' = c
    \<and> sy_decided s' = sy_decided s @ decision_of s out \<and> ch_orders s' = ch_orders s @ order_of out"
proof (cases i)
  case (MarketMsg u a d)
  then show ?thesis using market_message_runs[OF assms(1-3), of u a d c out] assms(1,4) by (simp add: inject_def loop_idle_def)
next
  case (LearnMsg x)
  obtain t r where t: "adaptive_step (st_exp p) (st_regimes p) (st_weights p) (st_config p) (sy_adaptive s) (AdaptiveSample x) = Some (t, r)"
    "c = (core_view s)\<lparr>co_reversal := fst (reversal_step (sy_reversal s) (SampleIn x)), co_adaptive := t\<rparr>" "out = None"
    using assms(4) LearnMsg by (auto simp: core_step_def core_view_def)
  obtain v g where v: "reversal_step (sy_reversal s) (SampleIn x) = (v, g)" by fastforce
  define s1 where "s1 = (inject s i)\<lparr>ch_samples := [], sy_reversal := v\<rparr>"
  define s2 where "s2 = s1\<lparr>ch_learning := [], sy_adaptive := t\<rparr>"
  have 1: "system_step p (inject s i) s1"
    using system_step.reversal_sample[of "inject s i" x "[]" p v g] assms(1) v LearnMsg by (simp add: inject_def loop_idle_def s1_def)
  have 2: "system_step p s1 s2"
    using system_step.adaptive_sample[of s1 x "[]" p t r] assms(1) t(1) LearnMsg by (simp add: inject_def loop_idle_def s1_def s2_def)
  have "loop_idle s2 \<and> core_view s2 = c \<and> sy_decided s2 = sy_decided s @ decision_of s out \<and> ch_orders s2 = ch_orders s @ order_of out"
    using assms(1) t(2,3) v LearnMsg by (simp add: s1_def s2_def inject_def loop_idle_def core_view_def decision_of_def order_of_def)
  moreover have "(system_step p)\<^sup>*\<^sup>* (inject s i) s2" using 1 2 by (meson r_into_rtranclp rtranclp_trans)
  ultimately show ?thesis by blast
next
  case (FeedbackMsg b)
  obtain t r where t: "adaptive_step (st_exp p) (st_regimes p) (st_weights p) (st_config p) (sy_adaptive s) (AdaptiveFeedback b) = Some (t, r)"
    "c = (core_view s)\<lparr>co_adaptive := t\<rparr>" "out = None"
    using assms(4) FeedbackMsg by (auto simp: core_step_def core_view_def)
  define s1 where "s1 = (inject s i)\<lparr>ch_feedback := [], sy_adaptive := t\<rparr>"
  have "system_step p (inject s i) s1"
    using system_step.adaptive_feedback[of "inject s i" b "[]" p t r] assms(1) t(1) FeedbackMsg by (simp add: inject_def loop_idle_def s1_def)
  moreover have "loop_idle s1 \<and> core_view s1 = c \<and> sy_decided s1 = sy_decided s @ decision_of s out \<and> ch_orders s1 = ch_orders s @ order_of out"
    using assms(1) t(2,3) FeedbackMsg by (simp add: s1_def inject_def loop_idle_def core_view_def decision_of_def order_of_def)
  ultimately show ?thesis by blast
next
  case (FillMsg f)
  obtain t r where t: "position_step (st_marks p) (st_config p) (sy_position s) (FillInput f) = (t, r)" by fastforce
  define s1 where "s1 = (inject s i)\<lparr>ch_fills := [], sy_position := t, sy_fills_taken := sy_fills_taken s @ [f]\<rparr>"
  have "system_step p (inject s i) s1"
    using system_step.position_fill[of "inject s i" f "[]" p t r] assms(1) t FillMsg by (simp add: inject_def loop_idle_def s1_def)
  moreover have "loop_idle s1 \<and> core_view s1 = c \<and> sy_decided s1 = sy_decided s @ decision_of s out \<and> ch_orders s1 = ch_orders s @ order_of out"
    using assms(1,4) t FillMsg
    by (auto simp: s1_def inject_def loop_idle_def core_view_def decision_of_def order_of_def core_step_def path_step_def)
  ultimately show ?thesis by blast
qed

section \<open>Instances\<close>

lemma ex_idle: "loop_idle (system_init config_default)" "core_view (system_init config_default) = core_init config_default"
  by (simp_all add: loop_idle_def core_view_def system_init_def core_init_def order_path_init_def)

theorem loop_is_schedule_witness:
  "\<exists>c out s'. core_step_of ex_process (core_init config_default) (Core.MarketMsg ex_tick None None) = Some (c, out)
     \<and> (system_step ex_process)\<^sup>*\<^sup>* (inject (system_init config_default) (Core.MarketMsg ex_tick None None)) s' \<and> core_view s' = c"
proof -
  have "core_input_ok (Core.MarketMsg ex_tick None None)"
    by (simp add: core_input_ok_def feed_ok_def update_valid_def trade_ok_def ex_tick_def mag_def double_def rng_def)
  then obtain c out where c: "core_step_of ex_process (core_init config_default) (Core.MarketMsg ex_tick None None) = Some (c, out)"
    using core_step_ok[OF ex_setting ex_limits(1) core_init_ok(1), of "Core.MarketMsg ex_tick None None" config_default ex_iter]
      core_init_ok(2)[of config_default] by (auto simp: ex_process_def)
  have "room ex_process (ch_orders (system_init config_default))" by (simp add: system_init_def)
  from loop_is_schedule[OF ex_idle(1) ex_process_ok(2) this, of "Core.MarketMsg ex_tick None None" c out] c show ?thesis
    by (auto simp: ex_idle(2))
qed

end
