(* ===== verification/Startup.thy ===== *)
theory Startup
  imports Progress
begin

text \<open>
  The start of the process (\<open>main.rs\<close>, and the store of the weights in \<open>model_weights.rs\<close>): the weights are
  read once, before any task starts, and a file that does not validate stops the program. The
  configuration is not validated; the last part shows what that costs.
\<close>

section \<open>The store of the weights\<close>

text \<open>The store is empty until its first use. The white space that \<open>str::trim\<close> removes is a parameter, and so is
  reading a file and parsing it.\<close>

type_synonym weights_store = "model_weights option"

definition store_get :: "weights_store \<Rightarrow> weights_store" where
  "store_get s = Some (case s of None \<Rightarrow> model_weights_default | Some w \<Rightarrow> w)"

definition current_weights :: "weights_store \<Rightarrow> weights_store \<times> model_weights" where
  "current_weights s = (store_get s, the (store_get s))"

definition initialize_weights ::
  "(char \<Rightarrow> bool) \<Rightarrow> (string \<Rightarrow> string + model_weights) \<Rightarrow> weights_store \<Rightarrow> string \<Rightarrow> string + weights_store" where
  "initialize_weights white read_weights s path =
     (case (if list_all white path then Inr model_weights_default else load_weights read_weights path) of
        Inl e \<Rightarrow> Inl e
      | Inr w \<Rightarrow> Inr (map_option (\<lambda>_. w) (store_get s)))"

section \<open>The start of the process\<close>

text \<open>What the tasks are given when the program gets as far as starting them.\<close>

definition main_setting ::
  "(char \<Rightarrow> bool) \<Rightarrow> (string \<Rightarrow> string + model_weights) \<Rightarrow> system_setting \<Rightarrow> string + system_setting" where
  "main_setting white read_weights environment =
     (case initialize_weights white read_weights None (cf_model_weights_path (st_config environment)) of
        Inl e \<Rightarrow> Inl e
      | Inr s \<Rightarrow> Inr (environment\<lparr>st_weights := snd (current_weights s)\<rparr>))"

lemma initialized_weights:
  assumes "initialize_weights white read_weights s path = Inr s'"
  shows "weights_ok (snd (current_weights s'))" "fst (current_weights s') = s'"
  using assms load_weights_ok[of read_weights path]
  by (auto simp: initialize_weights_def current_weights_def store_get_def default_weights_ok split: if_splits sum.splits)

text \<open>A program that starts has weights that validate, so with a configuration of proper numbers everything shown of
  the whole process applies to it.\<close>

lemma started_process_sound:
  assumes "main_setting white read_weights e = Inr p" "exp_like (st_exp e)" "limits_ok (st_config e)" "0 < val (cf_capital (st_config e))"
    "\<forall>m. dom m \<subseteq> set regime_keys \<longrightarrow> lists_keys (st_regimes e) m" "0 < cf_channel_capacity (st_config e)"
  shows "setting_ok p"
proof -
  obtain s where s: "initialize_weights white read_weights None (cf_model_weights_path (st_config e)) = Inr s"
    "p = e\<lparr>st_weights := snd (current_weights s)\<rparr>"
    using assms(1) by (auto simp: main_setting_def split: sum.splits)
  then show ?thesis using assms initialized_weights(1)[OF s(1)]
    by (simp add: setting_ok_def decision_setting_def limits_ok_def)
qed

section \<open>A configuration that is no number\<close>

lemma nan_text: "parse_f64 ''NaN'' = Some NaN"
  by (simp add: parse_f64_def parse_unsigned_def lower_char_def char_of_eq_iff)

text \<open>C40: The configuration is read without a check, and the reader of a number accepts the text \<open>NaN\<close>. With a
  capital that is not a number the limits on the risk of a trade, on the notional and on the daily
  drawdown never reject anything: every comparison with them is false. An order of any size passes.\<close>
theorem nan_capital_lifts_limits:
  assumes "parse_f64 ''NaN'' = Some (cf_capital cfg)" "fin (rq_size (oi_request i))" "0 < rq_size (oi_request i)"
    "fin (oi_last_price i)" "0 < oi_last_price i" "oi_data_latency_ms i \<le> cf_max_data_age_ms cfg"
    "oi_expected_duration_ms i \<noteq> 0" "\<not> rq_max_slippage_bps (oi_request i) < oi_expected_slippage_bps i" "\<not> abnormal i"
  shows "snd (risk_step cfg \<lparr>rk_realized_pnl = pnl, rk_kill_switch = False\<rparr> i) = Forwarded i"
proof -
  have nan: "cf_capital cfg = NaN"
    using assms(1) by (simp add: nan_text)
  have "\<not> oi_last_price i \<le> 0" "\<not> rq_size (oi_request i) \<le> 0" using assms(2-5) by (simp_all add: fin_less_iff fin_le_iff not_le)
  then have "validate cfg i pnl False = Inr ()" using assms(2,4,6-8) by (simp add: validate_def nan Let_def not_less)
  then show ?thesis using assms(9) by (simp add: risk_step_def)
qed

text \<open>A million contracts at a hundred, where the default configuration allows 2500 in quote currency.\<close>
theorem nan_capital_lifts_limits_witness:
  "snd (risk_step (config_default\<lparr>cf_capital := NaN\<rparr>) risk_init (ex_intent\<lparr>oi_request := ex_request\<lparr>rq_size := Fin (10 ^ 6)\<rparr>\<rparr>))
     = Forwarded (ex_intent\<lparr>oi_request := ex_request\<lparr>rq_size := Fin (10 ^ 6)\<rparr>\<rparr>)"
  unfolding risk_init_def
  by (rule nan_capital_lifts_limits) (simp_all add: nan_text sample_defs abnormal_def f64_eval)

end
