(* ===== verification/Spec2Isabelle.thy ===== *)
theory Spec2Isabelle
  imports Ledger Risk ControllerRun OrderBook Tape Pipeline EdgeFacts Filters Validation Interfaces Schedule Startup
begin

text \<open>
  A verification development for the Rust trading core (\<open>rtts/src/\<close>).

  \<^bold>\<open>The program.\<close> The core is one process of asynchronous tasks that are connected by bounded channels
  (\<open>pipeline.rs\<close>). The market feed (\<open>ingestion.rs\<close>) sends trades and depth messages to a distribution task,
  which hands every one to three readers. The first of them starts the signal chain: the micro structure
  task keeps the order book and the trade tape and builds a frame of normalised features, the trigger
  watches for a drop from the local high, the reversal engine adds the flip it may have confirmed, the
  classifier scores the frame, and the decision stage decides, or refuses because trading is locked out.
  A decision enters the order path: the position task turns it into at most one order intent, the risk gate
  and the meta engine pass the intent on or drop it, and the execution controller gives it a controller of
  its own, which decides on every market update whether to hold, cancel, re-price or leave. The dispatch
  posts the resulting instructions to the control plane. The control plane reports back over the execution
  feed; a report is an event of the controller, and when it is a fill it goes to the position and
  to the measurement as well. The measurement marks every fill against the later market and sends the
  result back to the decision stage and to the reversal engine, which learn from it.

  \<^bold>\<open>How code becomes definitions.\<close> A struct is a record, an enum a datatype, a method that mutates
  \<open>self\<close> a function that returns the updated record, a task a step function from its state and one message
  to its next state and the messages it sends. An early return or a \<open>?\<close> is a branch with \<open>None\<close> or an
  error value. The integers \<open>u64\<close>, \<open>u32\<close>, \<open>usize\<close> are words with the wrap-around or saturation of the code,
  and \<open>f64\<close> is IEEE 754 binary64 itself: rounded, with infinities, the negative zero and NaN, so a theorem
  about a threshold is about the comparison the processor does. A \<open>Vec\<close> or a \<open>VecDeque\<close> is a list, a
  \<open>BTreeMap\<close> a sorted list of entries, a \<open>HashMap\<close> a map whose order of iteration is a parameter, and an
  \<open>mpsc\<close> channel a list with a capacity.

  \<^bold>\<open>Foundations.\<close>
  \<^item> \<open>Rounding\<close>, \<open>F64\<close>: rounding to nearest with ties to even, and the arithmetic, comparisons and
    conversions of \<open>f64\<close>. The lemmas are monotonicity, exactness and ranges of the rounded operations.
  \<^item> \<open>Prelude\<close>: machine integers, bounded queues, and the collections of facts the components share.
  \<^item> \<open>Scores\<close>, \<open>Stats\<close>: ranges of scores, counters and averages; the exact square root, the total order of
    \<open>f64::total_cmp\<close> and the sort by it, and bounds of sums.
  \<^item> \<open>BTree\<close>: the ordered map, with the interface \<open>ordered_map\<close>.
  \<^item> \<open>Types\<close>, \<open>Samples\<close>: \<open>types.rs\<close> and \<open>config.rs\<close>; the values concrete instances are stated on.

  \<^bold>\<open>Signals.\<close>
  \<^item> \<open>Ingestion\<close> (\<open>ingestion.rs\<close>): the translation of the exchange's messages, reading decimal texts, the
    mock feed. A printed price is read back as the nearest double; depth snapshots act as changes, so a
    level outlives the snapshot that no longer lists it.
  \<^item> \<open>Fanout\<close> (\<open>fanout_market_update\<close> in \<open>pipeline.rs\<close>): the distribution over bounded channels. The
    micro structure reads everything in order, the other readers a subsequence of it.
  \<^item> \<open>OrderBook\<close>, \<open>Tape\<close> (\<open>orderbook.rs\<close>, \<open>tape.rs\<close>): the book refines two maps updated level by
    level and keeps its invariant; the tape is the filtered history.
  \<^item> \<open>Microstructure\<close> (\<open>microstructure.rs\<close>, \<open>context_engine.rs\<close>, \<open>flow_intelligence.rs\<close>,
    \<open>micro_timing.rs\<close>): every frame is well formed.
  \<^item> \<open>Trigger\<close>, \<open>Reversal\<close> (\<open>trigger_engine.rs\<close>, \<open>reversal_engine.rs\<close>): the trigger never exits; the
    reversal engine refines a machine of three states, and what it confirms has a cause.
  \<^item> \<open>Classifier\<close> (\<open>model_weights.rs\<close>, \<open>reversal_classifier.rs\<close>, \<open>entry_scoring.rs\<close>),
    \<open>Learning\<close> (\<open>learning.rs\<close>): weights, scores and the learning state within their ranges.
  \<^item> \<open>EdgeValidation\<close>, \<open>EdgeFacts\<close> (\<open>accounting/edge_validation.rs\<close>): the windows of the realised
    markouts and the verdict on the edge. Losing runs disable trading; the Kolmogorov-Smirnov loop is
    the distance of the empirical distributions on numbers and does not return on two NaN heads.
  \<^item> \<open>Adaptive\<close>, \<open>AdaptiveFacts\<close>, \<open>Decisions\<close> (\<open>adaptive_engine.rs\<close>): scoring, decision and lockout.
  \<^item> \<open>Interfaces\<close> (\<open>accounting/interfaces.rs\<close>): the traits; the decisions implement \<open>strategy_decision\<close>.

  \<^bold>\<open>Orders.\<close>
  \<^item> \<open>Ledger\<close> (\<open>accounting/ledger.rs\<close>): lots matched first in or last in first; the quantity is conserved
    up to the rounding of each subtraction, for any fills at all.
  \<^item> \<open>Position\<close> (\<open>position.rs\<close>): the local position mirrors the ledger.
  \<^item> \<open>Risk\<close> (\<open>risk.rs\<close>): what a forwarded intent satisfies, and the drawdown limit that cannot trip.
  \<^item> \<open>Meta\<close> (\<open>meta_engine.rs\<close>, \<open>scenario_simulator.rs\<close>, \<open>ev_calculator.rs\<close>, \<open>entry_quality.rs\<close>,
    \<open>competition_model.rs\<close>): the hard gates before an order is executed.
  \<^item> \<open>Pipeline\<close>: position, risk and meta composed; \<open>Core\<close>: the signal chain and the order path composed,
    one message after the other.
  \<^item> \<open>QueueEngine\<close> (\<open>execution/queue_engine.rs\<close>), \<open>Controller\<close>, \<open>ControllerFacts\<close>, \<open>ControllerRun\<close>
    (\<open>execution_controller.rs\<close>): the queue estimate, the controller of one order, its invariants by the
    interface \<open>handler\<close>, and the task that owns the controllers.
  \<^item> \<open>Latency\<close> (\<open>accounting/latency.rs\<close>, \<open>accounting/quality.rs\<close>), \<open>Truth\<close> (\<open>execution_truth.rs\<close>): a fill
    is measured once, at the first prices old enough.
  \<^item> \<open>Dispatch\<close> (\<open>execution_smart.rs\<close>, \<open>queue_position.rs\<close>, \<open>fill_probability.rs\<close>, \<open>execution_mode.rs\<close>,
    \<open>symbol_profile.rs\<close>), \<open>Feed\<close> (\<open>execution_external.rs\<close>): the last gate, the request, the reports.
  \<^item> \<open>Filters\<close> (\<open>event_engine.rs\<close>, \<open>features.rs\<close>, \<open>model.rs\<close>, \<open>decision.rs\<close>, \<open>execution.rs\<close>,
    \<open>adverse_selection.rs\<close>, \<open>markout.rs\<close>, \<open>micro_exit.rs\<close>): the first generation of the path, exported by
    the crate and not started by its pipeline.
  \<^item> \<open>Validation\<close> (\<open>accounting/validation.rs\<close>): the statistics that compare trading modes.

  \<^bold>\<open>The process.\<close> \<open>System\<close> is the whole of \<open>pipeline.rs\<close>: every task with its own state and every channel with
  its capacity, as a step relation in which the environment (market and control plane) and the tasks take
  turns in any order. A sender that waits for room is a channel one message beyond its capacity whose
  sender takes no step until there is room; the distribution, which still has readers to serve after its
  wait, keeps the update. The reads that the code's \<open>biased\<close> selects order are guarded accordingly.
  \<open>SystemFacts\<close> proves of every reachable state that channels are bounded, that all messages in them are in
  range, and that every order on its way is due to a decision of its own. \<open>Progress\<close> shows that a state with
  a message in any channel can take a step, that a lexicographic measure of the backlog decreases with
  each step, so the process comes to rest, and that it then has made one decision for every update. It also
  exhibits what the dropping channels lose: an order, and a fill that the position never learns of.
  \<open>Schedule\<close> shows that the sequential loop of \<open>Core\<close> is one schedule of the process, so what \<open>Core\<close> does
  the process can do. \<open>Startup\<close> (\<open>main.rs\<close>, the store in \<open>model_weights.rs\<close>): the weights are read once and
  validated, the configuration is not, and a capital of NaN lifts the limits on the risk.

  \<^bold>\<open>Bounds and fuel.\<close> Statements about real numbers hold for all of \<open>f64\<close> where they can (the ledger,
  the risk gate, the dispatch gate, the pacing of the controllers). Where averages and sums have to stay finite they assume
  bounds that no market reaches: prices up to \<open>2 ^ 60\<close> (\<open>2 ^ 21\<close> where fills are marked against them), quantities up to \<open>2 ^ 40\<close>,
  running means up to \<open>2 ^ 500\<close>, windows of the edge validation of at most 1024 samples of a magnitude up
  to \<open>2 ^ 40\<close>, reported fills of a price up to \<open>2 ^ 21\<close> and a size up to \<open>2 ^ 12\<close>, and at most \<open>2 ^ 19\<close> market updates in one run
  (so that counters held as doubles are exact; the first path has windows of \<open>2 ^ 20\<close> events). Channel
  capacities are positive, as \<open>mpsc::channel\<close> requires. No definition uses fuel: loops are recursive functions with a termination
  proof, and the one loop that can run forever (\<open>ks_loop\<close>) is a partial function whose \<open>None\<close> is a
  call that does not return; when it returns is a theorem.

  \<^bold>\<open>Parameters.\<close> The exponential function, \<open>ln\<close> and the power are arguments, with ranges as hypotheses
  where a property needs them; the square root is exact. So are the orders of iteration of hash maps, the
  clock, the text of a time, the random draws of the mock feed, the white space that \<open>str::trim\<close> removes, and
  the readers of the weight file and of the environment.

  \<^bold>\<open>Not modelled.\<close> \<open>metrics.rs\<close>, logging and \<open>lib.rs\<close> (no decision reads them); web sockets, HTTP and the syntax
  of JSON, which are libraries: a message enters as its decoded fields and leaves as the request that
  would be posted, and whether the control plane answers is open; pauses (\<open>sleep\<close>) that no
  state depends on; a closed channel, which is the end of the process. The Python research
  services, the Go control plane and the dashboard are programs of their own behind the two interfaces.
\<close>

end
